(* ===== verification/Prelude.thy ===== *)
theory Prelude
  imports
    Main
    "HOL-Library.AList"
    "HOL-Library.Char_ord"
    "HOL-Library.List_Lexorder"
    "HOL-Library.Multiset"
begin

text \<open>
  Shared ground of the development: how a Go call can end, Go maps, byte strings and the
  functions of the packages \<^verbatim>\<open>strings\<close> and \<^verbatim>\<open>slices\<close> the program uses.

  A Go call that returns a value and an \<^verbatim>\<open>error\<close> is a value of \<open>outcome\<close>: \<open>Ok\<close> for a
  nil error, \<open>Err\<close> for a non-nil one and \<open>Panic\<close> for a run-time panic (a nil
  dereference, an index out of range, a call of a nil function). An error value keeps the
  source's format string, which identifies the return statement that produced it; the
  values interpolated into the text are left out. \<open>NotAllowed\<close>, \<open>ValidationError\<close>, \<open>VerifySigError\<close>
  and \<open>RejectedError\<close> are the error types \<^verbatim>\<open>NotAllowed\<close>, \<^verbatim>\<open>EventValidationError\<close> (with its \<^verbatim>\<open>Persistable\<close>
  flag), \<^verbatim>\<open>verifySigError\<close> and \<^verbatim>\<open>RejectedError\<close>.

  A Go map is an association list with distinct keys, updated by \<open>AList.update\<close> and
  \<open>AList.delete\<close>. Where a loop ranges over a map whose order Go leaves open, the model
  takes the order as an argument (\<open>range_order\<close>), and the properties hold for each.

  Strings are byte strings (\<open>char list\<close>); \<open><\<close> on them is the bytewise lexicographic order
  of \<^verbatim>\<open>strings.Compare\<close>.
\<close>

named_theorems go_simps "how outcomes compose"
named_theorems map_simps "reading an updated Go map"

section \<open>How a Go call ends\<close>

datatype goerr = NotAllowed string | GoError string | ValidationError string bool | VerifySigError string | RejectedError string

datatype 'a outcome = Ok 'a | Err goerr | Panic

definition and_then :: "'a outcome \<Rightarrow> ('a \<Rightarrow> 'b outcome) \<Rightarrow> 'b outcome" where
  "and_then m f = (case m of Ok x \<Rightarrow> f x | Err e \<Rightarrow> Err e | Panic \<Rightarrow> Panic)"

lemma and_then_simps [simp]:
  "and_then (Ok x) f = f x"
  "and_then (Err e) f = Err e"
  "and_then Panic f = Panic"
  by (simp_all add: and_then_def)

lemma and_then_Ok_iff [go_simps]:
  "and_then m f = Ok y \<longleftrightarrow> (\<exists>x. m = Ok x \<and> f x = Ok y)"
  by (cases m) simp_all

lemma and_then_Panic_iff [go_simps]:
  "and_then m f = Panic \<longleftrightarrow> m = Panic \<or> (\<exists>x. m = Ok x \<and> f x = Panic)"
  by (cases m) simp_all

text \<open>A loop whose body may return an error: the first failure ends it.\<close>

fun each :: "('a \<Rightarrow> unit outcome) \<Rightarrow> 'a list \<Rightarrow> unit outcome" where
  "each f [] = Ok ()"
| "each f (x # xs) = and_then (f x) (\<lambda>_. each f xs)"

lemma each_Ok_iff [go_simps]: "each f xs = Ok () \<longleftrightarrow> (\<forall>x \<in> set xs. f x = Ok ())"
  by (induction xs) (auto simp: go_simps)

lemma each_append: "each f (xs @ ys) = and_then (each f xs) (\<lambda>_. each f ys)"
  by (induction xs) (auto simp: and_then_def split: outcome.splits)

lemma each_mset_Ok: "mset xs = mset ys \<Longrightarrow> (each f xs = Ok () \<longleftrightarrow> each f ys = Ok ())"
  by (metis each_Ok_iff mset_eq_setD)

lemma each_never_panics: "(\<And>x. x \<in> set xs \<Longrightarrow> f x \<noteq> Panic) \<Longrightarrow> each f xs \<noteq> Panic"
  by (induction xs) (auto simp: and_then_def split: outcome.splits)

text \<open>A nil-checked pointer: dereferencing nil panics.\<close>

definition deref :: "'a option \<Rightarrow> 'a outcome" where
  "deref p = (case p of None \<Rightarrow> Panic | Some x \<Rightarrow> Ok x)"

lemma deref_simps [simp]: "deref None = Panic" "deref (Some x) = Ok x"
  by (simp_all add: deref_def)

section \<open>Go maps\<close>

type_synonym ('k, 'v) gomap = "('k \<times> 'v) list"

abbreviation keys :: "('k, 'v) gomap \<Rightarrow> 'k list" where
  "keys m \<equiv> map fst m"

declare AList.update_conv' [map_simps] AList.delete_conv' [map_simps]
declare AList.distinct_update [simp] AList.distinct_delete [simp]

lemma map_of_Some_in_keys: "map_of m k = Some v \<Longrightarrow> k \<in> set (keys m)"
  by (force dest: map_of_SomeD)

lemma length_AList_delete:
  "distinct (keys m) \<Longrightarrow> k \<in> set (keys m) \<Longrightarrow> length (AList.delete k m) = length m - 1"
proof (induction m)
  case (Cons p m)
  show ?case
  proof (cases "fst p = k")
    case True
    with Cons.prems have "k \<notin> fst ` set m" by auto
    then have "AList.delete k m = m" by (force simp: AList.delete_eq filter_id_conv)
    with True show ?thesis by (cases p) (simp add: AList.delete_eq)
  next
    case False
    with Cons.prems have "k \<in> set (keys m)" "distinct (keys m)" by auto
    moreover from this have "0 < length m" by (cases m) auto
    ultimately show ?thesis using Cons.IH False by (cases p) (simp add: AList.delete_eq)
  qed
qed simp

text \<open>
  An order in which Go may range over the keys of a map. The first argument tells one loop
  from another: two loops over the same map need not agree.
\<close>

type_synonym 'k range_order = "nat \<Rightarrow> 'k list \<Rightarrow> 'k list"

definition is_range_order :: "'k range_order \<Rightarrow> bool" where
  "is_range_order rng \<longleftrightarrow> (\<forall>site ks. mset (rng site ks) = mset ks)"

lemma range_order_mset: "is_range_order rng \<Longrightarrow> mset (rng i ks) = mset ks"
  by (simp add: is_range_order_def)

lemma range_order_set: "is_range_order rng \<Longrightarrow> set (rng i ks) = set ks"
  by (metis range_order_mset set_mset_mset)

lemma range_order_distinct: "is_range_order rng \<Longrightarrow> distinct (rng i ks) = distinct ks"
  by (metis range_order_mset mset_eq_imp_distinct_iff)

section \<open>Lists\<close>

lemma find_SomeD: "List.find P xs = Some x \<Longrightarrow> x \<in> set xs \<and> P x"
  by (induction xs) (auto split: if_splits)

lemma map_filter_cong: "(\<And>x. x \<in> set xs \<Longrightarrow> f x = g x) \<Longrightarrow> List.map_filter f xs = List.map_filter g xs"
  by (induction xs) (auto simp: List.map_filter_simps split: option.splits)

lemma in_set_map_filter [simp]: "y \<in> set (List.map_filter f xs) \<longleftrightarrow> (\<exists>x \<in> set xs. f x = Some y)"
  by (induction xs) (auto simp: List.map_filter_simps split: option.splits)

section \<open>Byte strings\<close>

text \<open>\<^verbatim>\<open>strings.Compare\<close>: -1, 0 or 1.\<close>

definition strings_Compare :: "string \<Rightarrow> string \<Rightarrow> int" where
  "strings_Compare a b = (if a = b then 0 else if a < b then -1 else 1)"

text \<open>
  \<^verbatim>\<open>strings.Cut\<close> and \<^verbatim>\<open>strings.SplitN(_, _, 2)\<close> at a one-byte separator: the text
  before the first separator and the text after it, or nothing when there is none.
\<close>

fun strings_Cut :: "char \<Rightarrow> string \<Rightarrow> (string \<times> string) option" where
  "strings_Cut sep [] = None"
| "strings_Cut sep (c # cs) =
     (if c = sep then Some ([], cs)
      else map_option (\<lambda>(a, b). (c # a, b)) (strings_Cut sep cs))"

lemma strings_Cut_Some:
  "strings_Cut sep s = Some (a, b) \<longleftrightarrow> s = a @ sep # b \<and> sep \<notin> set a"
  by (induction s arbitrary: a b) (auto simp: Cons_eq_append_conv)

lemma strings_Cut_None: "strings_Cut sep s = None \<longleftrightarrow> sep \<notin> set s"
  by (induction s) auto

text \<open>\<^verbatim>\<open>strings.LastIndex\<close> at a one-byte separator, as the cut it is used for.\<close>

definition strings_CutLast :: "char \<Rightarrow> string \<Rightarrow> (string \<times> string) option" where
  "strings_CutLast sep s = map_option (\<lambda>(b, a). (rev a, rev b)) (strings_Cut sep (rev s))"

lemma strings_CutLast_Some:
  "strings_CutLast sep s = Some (a, b) \<longleftrightarrow> s = a @ sep # b \<and> sep \<notin> set b"
proof -
  have "strings_CutLast sep s = Some (a, b) \<longleftrightarrow> strings_Cut sep (rev s) = Some (rev b, rev a)"
    by (auto simp: strings_CutLast_def rev_swap)
  also have "\<dots> \<longleftrightarrow> s = a @ sep # b \<and> sep \<notin> set b"
    by (auto simp: strings_Cut_Some rev_swap)
  finally show ?thesis .
qed

definition is_digit :: "char \<Rightarrow> bool" where
  "is_digit c \<longleftrightarrow> c \<in> set ''0123456789''"

definition digit_val :: "char \<Rightarrow> nat" where
  "digit_val c = of_char c - 48"

fun digits_val :: "nat \<Rightarrow> string \<Rightarrow> nat" where
  "digits_val acc [] = acc"
| "digits_val acc (c # cs) = digits_val (10 * acc + digit_val c) cs"

text \<open>
  \<^verbatim>\<open>strconv.ParseInt(s, 10, 64)\<close> and \<^verbatim>\<open>strconv.ParseUint(s, 10, bits)\<close>: decimal digits
  only (with one leading sign for the former), an error on anything else and out of range.
\<close>

definition ParseUint :: "nat \<Rightarrow> string \<Rightarrow> nat option" where
  "ParseUint bits s =
     (if s \<noteq> [] \<and> list_all is_digit s \<and> digits_val 0 s < 2 ^ bits
      then Some (digits_val 0 s) else None)"

definition ParseInt64 :: "string \<Rightarrow> int option" where
  "ParseInt64 s =
     (let (neg, ds) = (case s of c # cs \<Rightarrow>
             if c = CHR ''-'' then (True, cs)
             else if c = CHR ''+'' then (False, cs) else (False, s)
           | [] \<Rightarrow> (False, s));
          n = int (digits_val 0 ds)
      in if ds = [] \<or> \<not> list_all is_digit ds then None
         else if neg then (if n \<le> 2 ^ 63 then Some (- n) else None)
         else (if n < 2 ^ 63 then Some n else None))"

lemma ParseInt64_range: "ParseInt64 s = Some n \<Longrightarrow> - (2 ^ 63) \<le> n \<and> n < 2 ^ 63"
  by (auto simp: ParseInt64_def Let_def split: list.splits if_splits prod.splits)

section \<open>Sorting with a comparison function\<close>

text \<open>
  \<^verbatim>\<open>slices.SortStableFunc(xs, cmp)\<close>, as an insertion sort that keeps the order of elements
  that compare equal. \<^verbatim>\<open>sort.Sort\<close> and \<^verbatim>\<open>slices.SortFunc\<close> promise less: some sorted
  permutation. Where equal comparison implies equality, every sorted permutation is this one
  (\<open>go_comparator.sorted_unique\<close> below).
\<close>

fun insort_func :: "('a \<Rightarrow> 'a \<Rightarrow> int) \<Rightarrow> 'a \<Rightarrow> 'a list \<Rightarrow> 'a list" where
  "insort_func cmp x [] = [x]"
| "insort_func cmp x (y # ys) = (if cmp x y \<le> 0 then x # y # ys else y # insort_func cmp x ys)"

definition SortStableFunc :: "('a \<Rightarrow> 'a \<Rightarrow> int) \<Rightarrow> 'a list \<Rightarrow> 'a list" where
  "SortStableFunc cmp xs = foldr (insort_func cmp) xs []"

lemma SortStableFunc_simps [simp]:
  "SortStableFunc cmp [] = []"
  "SortStableFunc cmp (x # xs) = insort_func cmp x (SortStableFunc cmp xs)"
  by (simp_all add: SortStableFunc_def)

lemma mset_insort_func [simp]: "mset (insort_func cmp x xs) = add_mset x (mset xs)"
  by (induction xs) auto

lemma set_insort_func [simp]: "set (insort_func cmp x xs) = insert x (set xs)"
  by (induction xs) auto

lemma mset_SortStableFunc [simp]: "mset (SortStableFunc cmp xs) = mset xs"
  by (induction xs) auto

lemma set_SortStableFunc [simp]: "set (SortStableFunc cmp xs) = set xs"
  by (metis mset_SortStableFunc set_mset_mset)

lemma length_SortStableFunc [simp]: "length (SortStableFunc cmp xs) = length xs"
  by (metis mset_SortStableFunc size_mset)

lemma distinct_SortStableFunc [simp]: "distinct (map f (SortStableFunc cmp xs)) = distinct (map f xs)"
  by (metis mset_SortStableFunc mset_eq_imp_distinct_iff mset_map)

text \<open>The contract a comparison function has to meet, and what sorting then gives.\<close>

locale go_comparator =
  fixes cmp :: "'a \<Rightarrow> 'a \<Rightarrow> int"
  assumes cmp_flip: "cmp a b < 0 \<longleftrightarrow> 0 < cmp b a"
    and cmp_trans: "cmp a b \<le> 0 \<Longrightarrow> cmp b c \<le> 0 \<Longrightarrow> cmp a c \<le> 0"
begin

lemma cmp_refl: "cmp a a = 0"
  using cmp_flip [of a a] by arith

lemma cmp_total: "cmp a b \<le> 0 \<or> cmp b a \<le> 0"
  using cmp_flip [of b a] by arith

lemma sorted_insort:
  "sorted_wrt (\<lambda>a b. cmp a b \<le> 0) xs \<Longrightarrow> sorted_wrt (\<lambda>a b. cmp a b \<le> 0) (insort_func cmp x xs)"
proof (induction xs)
  case (Cons y ys)
  show ?case
  proof (cases "cmp x y \<le> 0")
    case True
    with Cons.prems show ?thesis by (auto intro: cmp_trans)
  next
    case False
    then have "cmp y x \<le> 0" using cmp_total by blast
    with False Cons show ?thesis by auto
  qed
qed simp

lemma sorted_sort: "sorted_wrt (\<lambda>a b. cmp a b \<le> 0) (SortStableFunc cmp xs)"
  by (induction xs) (auto intro: sorted_insort)

lemma cmp_both: "cmp a b \<le> 0 \<Longrightarrow> cmp b a \<le> 0 \<Longrightarrow> cmp a b = 0"
  using cmp_flip [of a b] by arith

lemma sorted_unique:
  assumes "\<And>a b. a \<in> set xs \<Longrightarrow> b \<in> set xs \<Longrightarrow> cmp a b = 0 \<Longrightarrow> a = b"
    and "sorted_wrt (\<lambda>a b. cmp a b \<le> 0) xs" and "sorted_wrt (\<lambda>a b. cmp a b \<le> 0) ys"
    and "mset xs = mset ys"
  shows "xs = ys"
  using assms
proof (induction xs arbitrary: ys)
  case (Cons x xs)
  then obtain y ys' where ys: "ys = y # ys'" by (cases ys) auto
  have "set (x # xs) = set ys" using Cons.prems(4) by (rule mset_eq_setD)
  then have "x \<in> set ys" "y \<in> set (x # xs)" by (auto simp: ys)
  then have "cmp x y \<le> 0" "cmp y x \<le> 0" using Cons.prems(2,3) cmp_refl by (auto simp: ys)
  then have "x = y" using Cons.prems(1) \<open>y \<in> set (x # xs)\<close> cmp_both by auto
  moreover have "xs = ys'"
    using Cons.prems \<open>x = y\<close> by (intro Cons.IH) (auto simp: ys)
  ultimately show ?case by (simp add: ys)
qed simp

lemma sort_perm:
  assumes "\<And>a b. a \<in> set xs \<Longrightarrow> b \<in> set xs \<Longrightarrow> cmp a b = 0 \<Longrightarrow> a = b" and "mset xs = mset ys"
  shows "SortStableFunc cmp xs = SortStableFunc cmp ys"
  using assms by (intro sorted_unique sorted_sort) auto

end

end
