(* ===== verification/Kahn.thy ===== *)
theory Kahn
  imports Prelude
begin

text \<open>
  Kahn's algorithm as \<^verbatim>\<open>internal/matrixserver/stateresolutionv2.go\<close> implements it, over any
  kind of node: \<open>ident\<close> gives a node's event ID, \<open>deps\<close> the IDs it refers to and \<open>cmp\<close>
  the comparison that breaks ties. The source has the function twice, for auth events and for
  previous events; \<open>StateResV2\<close> instantiates this definition for both.

  Shown here: the result has each input ID once; on an acyclic input every event comes after
  the events it refers to; and neither the order of the input nor the order in which Go ranges
  over its maps changes the result.
\<close>

section \<open>The algorithm\<close>

definition incr :: "string \<Rightarrow> (string, int) gomap \<Rightarrow> (string, int) gomap" where
  "incr k deg = AList.update k ((case map_of deg k of None \<Rightarrow> 0 | Some n \<Rightarrow> n) + 1) deg"

definition decr :: "string \<Rightarrow> (string, int) gomap \<Rightarrow> (string, int) gomap" where
  "decr k deg = AList.update k ((case map_of deg k of None \<Rightarrow> 0 | Some n \<Rightarrow> n) - 1) deg"

text \<open>The first loop: the event map and the number of references to each ID.\<close>

definition kahn_event_map :: "('a \<Rightarrow> string) \<Rightarrow> 'a list \<Rightarrow> (string, 'a) gomap" where
  "kahn_event_map ident events = fold (\<lambda>e em. AList.update (ident e) e em) events []"

definition kahn_count :: "('a \<Rightarrow> string) \<Rightarrow> ('a \<Rightarrow> string list) \<Rightarrow> 'a \<Rightarrow> (string, int) gomap \<Rightarrow> (string, int) gomap" where
  "kahn_count ident deps e deg =
     fold incr (deps e) (if map_of deg (ident e) = None then AList.update (ident e) 0 deg else deg)"

definition kahn_in_degree :: "('a \<Rightarrow> string) \<Rightarrow> ('a \<Rightarrow> string list) \<Rightarrow> 'a list \<Rightarrow> (string, int) gomap" where
  "kahn_in_degree ident deps events = fold (kahn_count ident deps) events []"

text \<open>The loop over the references of the event that was just placed.\<close>

fun relax :: "string list \<Rightarrow> (string, 'a) gomap \<Rightarrow> (string, int) gomap \<Rightarrow> 'a list
    \<Rightarrow> (string, 'a) gomap \<times> (string, int) gomap \<times> 'a list" where
  "relax [] em deg ni = (em, deg, ni)"
| "relax (k # ks) em deg ni =
     (let deg' = decr k deg in
      if map_of deg' k = Some 0 then
        (case map_of em k of
           None \<Rightarrow> relax ks em deg' ni
         | Some e \<Rightarrow> relax ks (AList.delete k em) deg' (ni @ [e]))
      else relax ks em deg' ni)"

lemma length_delete_less: "map_of m k = Some v \<Longrightarrow> length (AList.delete k m) < length m"
  by (induction m) (auto simp: AList.delete_eq less_Suc_eq_le)

lemma relax_length:
  "relax ks em deg ni = (em', deg', ni') \<Longrightarrow> length em' + length ni' \<le> length em + length ni"
proof (induction ks arbitrary: em deg ni)
  case (Cons k ks)
  then show ?case
    by (fastforce simp: Let_def dest: length_delete_less split: if_splits option.splits)
qed simp

text \<open>
  The main loop: the last of the sorted nodes without incoming references is placed at the
  front of the result. It stops because each round places one node.
\<close>

function kahn_loop :: "('a \<Rightarrow> string list) \<Rightarrow> ('a \<Rightarrow> 'a \<Rightarrow> int) \<Rightarrow> (string, 'a) gomap \<Rightarrow> (string, int) gomap
    \<Rightarrow> 'a list \<Rightarrow> 'a list \<Rightarrow> (string, 'a) gomap \<times> 'a list" where
  "kahn_loop deps cmp em deg ni graph =
     (if ni = [] then (em, graph)
      else (case relax (deps (last ni)) em deg (butlast ni) of (em', deg', ni') \<Rightarrow>
        kahn_loop deps cmp em' deg' (SortStableFunc cmp ni') (last ni # graph)))"
  by pat_completeness auto
termination
proof (relation "measure (\<lambda>(deps, cmp, em, deg, ni, graph). length em + length ni)")
  fix deps :: "'a \<Rightarrow> string list" and cmp :: "'a \<Rightarrow> 'a \<Rightarrow> int" and em em' :: "(string, 'a) gomap"
    and deg deg' ni ni' y and graph :: "'a list"
  assume ni: "ni \<noteq> []" and "(em', y) = relax (deps (last ni)) em deg (butlast ni)" "(deg', ni') = y"
  then have "length em' + length ni' \<le> length em + length (butlast ni)"
    by (metis relax_length)
  moreover have "length (butlast ni) < length ni" using ni by simp
  ultimately show "((deps, cmp, em', deg', SortStableFunc cmp ni', last ni # graph),
      (deps, cmp, em, deg, ni, graph)) \<in> measure (\<lambda>(deps, cmp, em, deg, ni, graph). length em + length ni)"
    by simp
qed simp

declare kahn_loop.simps [simp del]

definition kahn :: "string range_order \<Rightarrow> ('a \<Rightarrow> string) \<Rightarrow> ('a \<Rightarrow> string list) \<Rightarrow> ('a \<Rightarrow> 'a \<Rightarrow> int)
    \<Rightarrow> 'a list \<Rightarrow> 'a list" where
  "kahn rng ident deps cmp events =
     (let em = kahn_event_map ident events;
          deg = kahn_in_degree ident deps events;
          free = filter (\<lambda>k. map_of deg k = Some 0) (rng 0 (keys deg));
          ni = SortStableFunc cmp (List.map_filter (map_of em) free);
          (em', graph) = kahn_loop deps cmp (fold AList.delete free em) deg ni []
      in if em' \<noteq> [] then SortStableFunc cmp (List.map_filter (map_of em') (rng 1 (keys em'))) @ graph
         else graph)"

section \<open>What the loops maintain\<close>

lemma map_of_incr: "map_of (incr k deg) = (map_of deg)(k \<mapsto> (case map_of deg k of None \<Rightarrow> 0 | Some n \<Rightarrow> n) + 1)"
  by (simp add: incr_def map_simps)

lemma map_of_decr: "map_of (decr k deg) = (map_of deg)(k \<mapsto> (case map_of deg k of None \<Rightarrow> 0 | Some n \<Rightarrow> n) - 1)"
  by (simp add: decr_def map_simps)

definition deg_of :: "(string, int) gomap \<Rightarrow> string \<Rightarrow> int" where
  "deg_of deg k = (case map_of deg k of None \<Rightarrow> 0 | Some n \<Rightarrow> n)"

text \<open>How often the nodes of a list refer to an ID.\<close>

definition refs :: "('a \<Rightarrow> string list) \<Rightarrow> 'a list \<Rightarrow> string \<Rightarrow> int" where
  "refs deps es k = (\<Sum>e \<leftarrow> es. int (count_list (deps e) k))"

lemma refs_simps [simp]:
  "refs deps [] k = 0"
  "refs deps (e # es) k = int (count_list (deps e) k) + refs deps es k"
  "refs deps (es @ fs) k = refs deps es k + refs deps fs k"
  by (simp_all add: refs_def)

lemma refs_nonneg: "0 \<le> refs deps es k"
  by (induction es) auto

lemma refs_mset: "mset es = mset fs \<Longrightarrow> refs deps es k = refs deps fs k"
  by (simp add: refs_def flip: sum_mset_sum_list)

lemma refs_zero: "refs deps es k = 0 \<Longrightarrow> e \<in> set es \<Longrightarrow> k \<notin> set (deps e)"
proof (induction es)
  case (Cons x es)
  have "0 \<le> refs deps es k" by (rule refs_nonneg)
  with Cons.prems(1) have "count_list (deps x) k = 0" "refs deps es k = 0" by simp_all
  with Cons show ?case by (auto simp: count_list_0_iff)
qed simp

lemma refs_unreferenced: "(\<And>e. e \<in> set es \<Longrightarrow> k \<notin> set (deps e)) \<Longrightarrow> refs deps es k = 0"
  by (induction es) (auto simp: count_list_0_iff)

lemma fold_incr: "deg_of (fold incr ks deg) k = deg_of deg k + int (count_list ks k)"
  by (induction ks arbitrary: deg) (auto simp: deg_of_def map_of_incr)

lemma dom_fold_incr: "fst ` set (fold incr ks deg) = fst ` set deg \<union> set ks"
  by (induction ks arbitrary: deg) (auto simp: incr_def dom_update)

lemma deg_of_update: "deg_of (AList.update i n deg) k = (if k = i then n else deg_of deg k)"
  by (simp add: deg_of_def map_simps)

lemma deg_of_decr: "deg_of (decr i deg) k = (if k = i then deg_of deg k - 1 else deg_of deg k)"
  by (simp add: deg_of_def map_of_decr)

lemma map_of_decr_zero: "map_of (decr k deg) k = Some 0 \<longleftrightarrow> deg_of (decr k deg) k = 0"
  by (simp add: deg_of_def map_of_decr)

lemma kahn_count_deg: "deg_of (kahn_count ident deps e deg) k = deg_of deg k + int (count_list (deps e) k)"
  by (auto simp: kahn_count_def fold_incr deg_of_update) (simp add: deg_of_def)

lemma kahn_in_degree_deg: "deg_of (kahn_in_degree ident deps es) k = refs deps es k"
proof -
  have "deg_of (fold (kahn_count ident deps) es deg) k = deg_of deg k + refs deps es k" for deg
    by (induction es arbitrary: deg) (auto simp: kahn_count_deg)
  then show ?thesis by (simp add: kahn_in_degree_def deg_of_def)
qed

lemma kahn_count_keys:
  "fst ` set (kahn_count ident deps e deg) = insert (ident e) (fst ` set deg \<union> set (deps e))"
  by (force simp: kahn_count_def dom_fold_incr dom_update map_of_eq_None_iff)

lemma kahn_in_degree_keys:
  "fst ` set (kahn_in_degree ident deps es) = ident ` set es \<union> \<Union> (set ` deps ` set es)"
proof -
  have "fst ` set (fold (kahn_count ident deps) es deg) =
      fst ` set deg \<union> ident ` set es \<union> \<Union> (set ` deps ` set es)" for deg
    by (induction es arbitrary: deg) (auto simp: kahn_count_keys)
  then show ?thesis by (simp add: kahn_in_degree_def)
qed

lemma kahn_in_degree_distinct: "distinct (keys (kahn_in_degree ident deps es))"
proof -
  have inc: "distinct (keys deg) \<Longrightarrow> distinct (keys (fold incr ks deg))" for ks deg
    by (induction ks arbitrary: deg) (auto simp: incr_def)
  have "distinct (keys deg) \<Longrightarrow> distinct (keys (fold (kahn_count ident deps) es deg))" for deg
    by (induction es arbitrary: deg) (auto simp: kahn_count_def inc)
  then show ?thesis by (simp add: kahn_in_degree_def)
qed

text \<open>A zero count means that no node refers to the ID, so it is the ID of a node.\<close>

lemma kahn_free_keys:
  assumes "map_of (kahn_in_degree ident deps es) k = Some 0"
  shows "k \<in> ident ` set es" and "refs deps es k = 0"
proof -
  from assms have "deg_of (kahn_in_degree ident deps es) k = 0" by (simp add: deg_of_def)
  then show zero: "refs deps es k = 0" by (simp add: kahn_in_degree_deg)
  have "k \<in> ident ` set es \<union> \<Union> (set ` deps ` set es)"
    using map_of_Some_in_keys [OF assms] by (simp add: kahn_in_degree_keys)
  with refs_zero [OF zero] show "k \<in> ident ` set es" by auto
qed

section \<open>The event map\<close>

lemma kahn_event_map_lookup:
  "map_of (kahn_event_map ident es) k = List.find (\<lambda>e. ident e = k) (rev es)"
proof -
  have "map_of (fold (\<lambda>e em. AList.update (ident e) e em) es em) k =
      (case List.find (\<lambda>e. ident e = k) (rev es) of None \<Rightarrow> map_of em k | Some e \<Rightarrow> Some e)" for em
  proof (induction es rule: rev_induct)
    case (snoc e es)
    then show ?case by (auto simp: map_simps)
  qed simp
  then show ?thesis by (simp add: kahn_event_map_def split: option.splits)
qed

lemma kahn_event_map_distinct: "distinct (keys (kahn_event_map ident es))"
  by (induction es rule: rev_induct) (simp_all add: kahn_event_map_def)

lemma kahn_event_map_keys: "fst ` set (kahn_event_map ident es) = ident ` set es"
  by (induction es rule: rev_induct) (auto simp: kahn_event_map_def dom_update)

lemma kahn_event_map_ident: "(k, e) \<in> set (kahn_event_map ident es) \<Longrightarrow> ident e = k \<and> e \<in> set es"
proof -
  assume "(k, e) \<in> set (kahn_event_map ident es)"
  then have "List.find (\<lambda>e. ident e = k) (rev es) = Some e"
    using kahn_event_map_distinct [of ident es] by (simp add: flip: kahn_event_map_lookup)
  then show ?thesis by (auto dest: find_SomeD)
qed

lemma mset_values_delete:
  assumes "distinct (keys em)" "map_of em k = Some e"
  shows "mset (map snd em) = add_mset e (mset (map snd (AList.delete k em)))"
  using assms
proof (induction em)
  case (Cons p em)
  show ?case
  proof (cases "fst p = k")
    case True
    with Cons.prems have "k \<notin> fst ` set em" "snd p = e" by (auto split: if_splits)
    then have "AList.delete k em = em" by (force simp: AList.delete_eq filter_id_conv)
    with True \<open>snd p = e\<close> show ?thesis by (cases p) (simp add: AList.delete_eq)
  next
    case False
    with Cons show ?thesis by (cases p) (simp add: AList.delete_eq)
  qed
qed simp

lemma mset_split_map:
  assumes "distinct ks" "set ks \<subseteq> set (keys em)" "distinct (keys em)"
  shows "mset (List.map_filter (map_of em) ks) + mset (map snd (fold AList.delete ks em)) = mset (map snd em)"
  using assms
proof (induction ks arbitrary: em)
  case (Cons k ks)
  then obtain e where e: "map_of em k = Some e"
    by (cases "map_of em k") (auto simp: map_of_eq_None_iff)
  have "List.map_filter (map_of em) ks = List.map_filter (map_of (AList.delete k em)) ks"
    using Cons.prems(1) by (intro map_filter_cong) (auto simp: map_simps)
  moreover have "mset (List.map_filter (map_of (AList.delete k em)) ks) +
      mset (map snd (fold AList.delete ks (AList.delete k em))) = mset (map snd (AList.delete k em))"
    using Cons.prems by (intro Cons.IH) (auto simp: delete_keys distinct_removeAll)
  ultimately show ?case
    using mset_values_delete [OF Cons.prems(3) e] e by (simp add: List.map_filter_simps)
qed (simp add: List.map_filter_simps)

section \<open>Every event once\<close>

text \<open>
  The nodes in the graph, those waiting to be placed and those still in the event map are
  together the nodes of the event map at the start.
\<close>

lemma relax_mset:
  assumes "relax ks em deg ni = (em', deg', ni')" "distinct (keys em)"
  shows "mset ni' + mset (map snd em') = mset ni + mset (map snd em) \<and> distinct (keys em') \<and> set em' \<subseteq> set em"
  using assms
proof (induction ks arbitrary: em deg ni)
  case (Cons k ks)
  let ?take = "map_of (decr k deg) k = Some 0 \<and> map_of em k \<noteq> None"
  show ?case
  proof (cases ?take)
    case True
    then obtain e where e: "map_of em k = Some e" by auto
    have "relax ks (AList.delete k em) (decr k deg) (ni @ [e]) = (em', deg', ni')"
      using Cons.prems(1) True e by (simp add: Let_def)
    moreover have "distinct (keys (AList.delete k em))" using Cons.prems(2) by simp
    ultimately have "mset ni' + mset (map snd em') = mset (ni @ [e]) + mset (map snd (AList.delete k em)) \<and>
        distinct (keys em') \<and> set em' \<subseteq> set (AList.delete k em)" by (rule Cons.IH)
    moreover have "set (AList.delete k em) \<subseteq> set em" by (auto simp: AList.delete_eq)
    ultimately show ?thesis using mset_values_delete [OF Cons.prems(2) e] by auto
  next
    case False
    then have "relax ks em (decr k deg) ni = (em', deg', ni')"
      using Cons.prems(1) by (auto simp: Let_def split: if_splits option.splits)
    then show ?thesis using Cons.prems(2) by (rule Cons.IH)
  qed
qed simp

lemma mset_last: "ni \<noteq> [] \<Longrightarrow> mset ni = add_mset (last ni) (mset (butlast ni))"
  by (metis add_mset_add_single append_butlast_last_id mset_append mset_single_iff)

lemma kahn_loop_mset:
  assumes "kahn_loop deps cmp em deg ni graph = (em', graph')" "distinct (keys em)"
  shows "mset graph' + mset (map snd em') = mset graph + mset ni + mset (map snd em) \<and>
    distinct (keys em') \<and> set em' \<subseteq> set em"
  using assms
proof (induction deps cmp em deg ni graph rule: kahn_loop.induct)
  case (1 deps cmp em deg ni graph)
  show ?case
  proof (cases "ni = []")
    case True
    with "1.prems" show ?thesis by (simp add: kahn_loop.simps)
  next
    case False
    obtain em1 deg1 ni1 where r: "relax (deps (last ni)) em deg (butlast ni) = (em1, deg1, ni1)"
      by (metis prod_cases3)
    note rm = relax_mset [OF r "1.prems"(2)]
    have "kahn_loop deps cmp em1 deg1 (SortStableFunc cmp ni1) (last ni # graph) = (em', graph')"
      using "1.prems"(1) False r by (simp add: kahn_loop.simps [of _ _ _ _ ni])
    with "1.IH" [OF False r [symmetric] refl] rm
    have "mset graph' + mset (map snd em') =
        mset (last ni # graph) + mset (SortStableFunc cmp ni1) + mset (map snd em1) \<and>
        distinct (keys em') \<and> set em' \<subseteq> set em1" by blast
    with rm mset_last [OF False] show ?thesis by (auto simp: ac_simps)
  qed
qed

lemma map_of_fold_delete:
  "map_of (fold AList.delete ks em) k = (if k \<in> set ks then None else map_of em k)"
  by (induction ks arbitrary: em) (auto simp: map_simps)

lemma distinct_fold_delete: "distinct (keys em) \<Longrightarrow> distinct (keys (fold AList.delete ks em))"
  by (induction ks arbitrary: em) auto

lemma set_fold_delete: "set (fold AList.delete ks em) \<subseteq> set em"
proof (induction ks arbitrary: em)
  case (Cons k ks)
  have "set (AList.delete k em) \<subseteq> set em" by (auto simp: AList.delete_eq)
  with Cons.IH [of "AList.delete k em"] show ?case by simp
qed simp

lemma values_by_keys:
  assumes "distinct (keys em)" "mset ks = mset (keys em)"
  shows "mset (List.map_filter (map_of em) ks) = mset (map snd em)"
proof -
  have keys: "set ks = set (keys em)" "distinct ks"
    using assms by (metis mset_eq_setD, metis mset_eq_imp_distinct_iff)
  have "map_of (fold AList.delete ks em) k = None" for k
    unfolding map_of_fold_delete using keys(1) by (auto simp only: map_of_eq_None_iff set_map split: if_split)
  then have "fold AList.delete ks em = []"
    by (metis list.set_intros(1) list.exhaust map_of_eq_None_iff imageI)
  with mset_split_map [of ks em] keys assms(1) show ?thesis by simp
qed

text \<open>The lists of waiting events at the start of the main loop, and the IDs they are taken from.\<close>

abbreviation kahn_free :: "string range_order \<Rightarrow> (string, int) gomap \<Rightarrow> string list" where
  "kahn_free rng deg \<equiv> filter (\<lambda>k. map_of deg k = Some 0) (rng 0 (keys deg))"

lemma kahn_free_ok:
  assumes "is_range_order rng"
  shows "distinct (kahn_free rng (kahn_in_degree ident deps es))"
    and "set (kahn_free rng (kahn_in_degree ident deps es)) =
      {k \<in> ident ` set es. refs deps es k = 0}"
proof -
  let ?deg = "kahn_in_degree ident deps es"
  show "distinct (kahn_free rng ?deg)"
    using kahn_in_degree_distinct [of ident deps es] assms by (simp add: range_order_distinct)
  have "map_of ?deg k = Some 0" if "k \<in> ident ` set es" "refs deps es k = 0" for k
  proof -
    have "k \<in> fst ` set ?deg" using that(1) by (simp add: kahn_in_degree_keys)
    then obtain n where "map_of ?deg k = Some n" by (metis map_of_eq_None_iff not_None_eq)
    with that(2) kahn_in_degree_deg [of ident deps es k] show ?thesis by (simp add: deg_of_def)
  qed
  then show "set (kahn_free rng ?deg) = {k \<in> ident ` set es. refs deps es k = 0}"
    using kahn_free_keys [of ident deps es] map_of_Some_in_keys [of ?deg] assms
    by (auto simp: range_order_set)
qed

text \<open>The parts of a run, from the event map to the events left over.\<close>

lemma kahn_run:
  assumes "is_range_order rng"
  obtains ni em' graph where
    "mset ni = mset (List.map_filter (map_of (kahn_event_map ident es)) (kahn_free rng (kahn_in_degree ident deps es)))"
    "kahn_loop deps cmp (fold AList.delete (kahn_free rng (kahn_in_degree ident deps es)) (kahn_event_map ident es))
       (kahn_in_degree ident deps es) ni [] = (em', graph)"
    "kahn rng ident deps cmp es = SortStableFunc cmp (List.map_filter (map_of em') (rng 1 (keys em'))) @ graph"
proof -
  let ?deg = "kahn_in_degree ident deps es" and ?em = "kahn_event_map ident es"
  let ?ni = "SortStableFunc cmp (List.map_filter (map_of ?em) (kahn_free rng ?deg))"
  obtain em' graph where run: "kahn_loop deps cmp (fold AList.delete (kahn_free rng ?deg) ?em) ?deg ?ni [] = (em', graph)"
    by (metis surj_pair)
  have "rng 1 [] = []" using range_order_mset [OF assms, of 1 "[]"] by simp
  then have "kahn rng ident deps cmp es = SortStableFunc cmp (List.map_filter (map_of em') (rng 1 (keys em'))) @ graph"
    using run by (simp add: kahn_def Let_def List.map_filter_simps)
  with run show ?thesis by (intro that [of ?ni em' graph]) simp_all
qed

theorem kahn_mset:
  assumes "is_range_order rng"
  shows "mset (kahn rng ident deps cmp es) = mset (map snd (kahn_event_map ident es))"
proof -
  let ?em = "kahn_event_map ident es" and ?free = "kahn_free rng (kahn_in_degree ident deps es)"
  obtain ni em' graph where
    ni: "mset ni = mset (List.map_filter (map_of ?em) ?free)" and
    run: "kahn_loop deps cmp (fold AList.delete ?free ?em) (kahn_in_degree ident deps es) ni [] = (em', graph)" and
    res: "kahn rng ident deps cmp es = SortStableFunc cmp (List.map_filter (map_of em') (rng 1 (keys em'))) @ graph"
    using kahn_run [OF assms] by metis
  have "mset graph + mset (map snd em') = mset [] + mset ni + mset (map snd (fold AList.delete ?free ?em)) \<and>
      distinct (keys em') \<and> set em' \<subseteq> set (fold AList.delete ?free ?em)"
    using kahn_loop_mset [OF run distinct_fold_delete [OF kahn_event_map_distinct]] .
  moreover have "mset (List.map_filter (map_of ?em) ?free) + mset (map snd (fold AList.delete ?free ?em)) = mset (map snd ?em)"
    using kahn_free_ok [OF assms, of ident deps es]
    by (intro mset_split_map kahn_event_map_distinct) (auto simp: kahn_event_map_keys)
  moreover have "distinct (keys em') \<Longrightarrow> mset (List.map_filter (map_of em') (rng 1 (keys em'))) = mset (map snd em')"
    by (intro values_by_keys range_order_mset assms)
  ultimately show ?thesis using ni by (simp add: res ac_simps)
qed

lemma kahn_event_map_mset:
  "distinct (map ident es) \<Longrightarrow> mset (map snd (kahn_event_map ident es)) = mset es"
proof (induction es rule: rev_induct)
  case (snoc e es)
  have "ident e \<notin> fst ` set (kahn_event_map ident es)" using snoc.prems by (simp add: kahn_event_map_keys)
  then have "AList.update (ident e) e m = m @ [(ident e, e)]" if "ident e \<notin> fst ` set m" for m
    using that by (induction m) auto
  with snoc \<open>ident e \<notin> _\<close> show ?case by (simp add: kahn_event_map_def)
qed (simp add: kahn_event_map_def)

corollary kahn_perm:
  "is_range_order rng \<Longrightarrow> distinct (map ident es) \<Longrightarrow> mset (kahn rng ident deps cmp es) = mset es"
  by (metis kahn_event_map_mset kahn_mset)

section \<open>Events come after the events they refer to\<close>

lemma relax_degrees:
  assumes "relax ks em deg ni = (em', deg', ni')" "distinct (keys em)"
    and "\<forall>k. deg_of deg k = refs deps (ni @ map snd em) k + int (count_list ks k)"
    and "\<forall>k \<in> set (keys em). deg_of deg k \<noteq> 0" and "\<forall>(k, e) \<in> set em. ident e = k"
  shows "(\<forall>k. deg_of deg' k = refs deps (ni' @ map snd em') k) \<and>
    (\<forall>k \<in> set (keys em'). deg_of deg' k \<noteq> 0) \<and>
    (\<forall>e \<in> set ni'. e \<in> set ni \<or> refs deps (ni @ map snd em) (ident e) = 0)"
  using assms
proof (induction ks arbitrary: em deg ni)
  case (Cons k ks)
  let ?deg = "decr k deg"
  have deg: "deg_of ?deg j = refs deps (ni @ map snd em) j + int (count_list ks j)" for j
    using Cons.prems(3) by (auto simp: deg_of_decr)
  show ?case
  proof (cases "map_of ?deg k = Some 0 \<and> map_of em k \<noteq> None")
    case True
    then obtain e where e: "map_of em k = Some e" by auto
    let ?em = "AList.delete k em"
    have same: "refs deps ((ni @ [e]) @ map snd ?em) j = refs deps (ni @ map snd em) j" for j
      using mset_values_delete [OF Cons.prems(2) e] by (intro refs_mset) simp
    have "deg_of ?deg k = 0" using True map_of_decr_zero by blast
    then have new: "refs deps (ni @ map snd em) k = 0"
      using deg [of k] refs_nonneg [of deps "ni @ map snd em" k] by linarith
    have "relax ks ?em ?deg (ni @ [e]) = (em', deg', ni')"
      using Cons.prems(1) True e by (simp add: Let_def)
    moreover have "distinct (keys ?em)" using Cons.prems(2) by simp
    moreover have "\<forall>j. deg_of ?deg j = refs deps ((ni @ [e]) @ map snd ?em) j + int (count_list ks j)"
      using deg same by presburger
    moreover have "\<forall>j \<in> set (keys ?em). deg_of ?deg j \<noteq> 0"
      using Cons.prems(4) by (auto simp: AList.delete_eq deg_of_decr)
    moreover have "\<forall>(j, e) \<in> set ?em. ident e = j"
      using Cons.prems(5) by (auto simp: AList.delete_eq)
    ultimately have "(\<forall>k. deg_of deg' k = refs deps (ni' @ map snd em') k) \<and>
        (\<forall>k \<in> set (keys em'). deg_of deg' k \<noteq> 0) \<and>
        (\<forall>a \<in> set ni'. a \<in> set (ni @ [e]) \<or> refs deps ((ni @ [e]) @ map snd ?em) (ident a) = 0)"
      by (rule Cons.IH)
    moreover have "ident e = k" using Cons.prems(5) map_of_SomeD [OF e] by auto
    ultimately show ?thesis using new unfolding same by auto
  next
    case False
    then have "relax ks em ?deg ni = (em', deg', ni')"
      using Cons.prems(1) by (auto simp: Let_def split: if_splits option.splits)
    moreover have "\<forall>j \<in> set (keys em). deg_of ?deg j \<noteq> 0"
      using Cons.prems(4) False map_of_decr_zero [of k deg] by (auto simp: deg_of_decr map_of_eq_None_iff)
    ultimately show ?thesis using Cons.prems(2,5) deg by (intro Cons.IH) auto
  qed
qed auto

text \<open>
  The invariant of the main loop: the counts are the references from unplaced nodes, nothing
  unplaced refers to a placed or waiting node, and the nodes still in the map are referred to.
\<close>

definition kahn_inv :: "('a \<Rightarrow> string) \<Rightarrow> ('a \<Rightarrow> string list) \<Rightarrow> (string, 'a) gomap \<Rightarrow> (string, int) gomap
    \<Rightarrow> 'a list \<Rightarrow> 'a list \<Rightarrow> bool" where
  "kahn_inv ident deps em deg ni graph \<longleftrightarrow>
     distinct (keys em) \<and> (\<forall>(k, e) \<in> set em. ident e = k) \<and>
     (\<forall>k. deg_of deg k = refs deps (ni @ map snd em) k) \<and>
     (\<forall>k \<in> set (keys em). deg_of deg k \<noteq> 0) \<and>
     (\<forall>e \<in> set ni \<union> set graph. refs deps (ni @ map snd em) (ident e) = 0) \<and>
     sorted_wrt (\<lambda>a b. ident b \<notin> set (deps a)) graph"

lemma kahn_inv_step:
  assumes inv: "kahn_inv ident deps em deg ni graph" and ne: "ni \<noteq> []"
    and r: "relax (deps (last ni)) em deg (butlast ni) = (em', deg', ni')"
  shows "kahn_inv ident deps em' deg' (SortStableFunc cmp ni') (last ni # graph)"
proof -
  let ?l = "last ni" and ?n = "butlast ni"
  have split: "refs deps (ni @ map snd em) k = refs deps (?n @ map snd em) k + int (count_list (deps ?l) k)" for k
    using refs_mset [of ni "?l # ?n" deps k] mset_last [OF ne] by simp
  have dist: "distinct (keys em)" and ids: "\<forall>(k, e) \<in> set em. ident e = k"
    using inv by (simp_all add: kahn_inv_def)
  have rm: "mset ni' + mset (map snd em') = mset ?n + mset (map snd em)" "distinct (keys em')" "set em' \<subseteq> set em"
    using relax_mset [OF r dist] by auto
  have deg: "\<forall>k. deg_of deg k = refs deps (?n @ map snd em) k + int (count_list (deps ?l) k)"
    and pos: "\<forall>k \<in> set (keys em). deg_of deg k \<noteq> 0"
    using inv unfolding kahn_inv_def split by auto
  note rel = relax_degrees [OF r dist deg pos ids]
  have rd: "\<forall>k. deg_of deg' k = refs deps (ni' @ map snd em') k" "\<forall>k \<in> set (keys em'). deg_of deg' k \<noteq> 0"
    "\<forall>e \<in> set ni'. e \<in> set ?n \<or> refs deps (?n @ map snd em) (ident e) = 0"
    using rel by blast+
  have same: "refs deps (SortStableFunc cmp ni' @ map snd em') k = refs deps (?n @ map snd em) k" for k
    using rm(1) by (intro refs_mset) simp
  have same': "refs deps (ni' @ map snd em') k = refs deps (?n @ map snd em) k" for k
    using rm(1) by (intro refs_mset) simp
  have placed: "refs deps (?n @ map snd em) (ident e) = 0 \<and> ident e \<notin> set (deps ?l)" if "e \<in> set ni \<union> set graph" for e
  proof -
    have "refs deps (ni @ map snd em) (ident e) = 0" using inv that by (auto simp: kahn_inv_def)
    moreover have "0 \<le> refs deps (?n @ map snd em) (ident e)" by (rule refs_nonneg)
    ultimately have "refs deps (?n @ map snd em) (ident e) = 0" "count_list (deps ?l) (ident e) = 0"
      using split [of "ident e"] by linarith+
    then show ?thesis by (simp add: count_list_0_iff)
  qed
  have "\<forall>e \<in> set ni' \<union> set (?l # graph). refs deps (?n @ map snd em) (ident e) = 0"
    using placed rd(3) ne by (auto dest: in_set_butlastD)
  moreover have "sorted_wrt (\<lambda>a b. ident b \<notin> set (deps a)) (?l # graph)"
    using placed inv by (simp add: kahn_inv_def)
  ultimately show ?thesis
    using rm(2,3) rd(1,2) ids unfolding kahn_inv_def same same' by auto
qed

lemma kahn_loop_inv:
  assumes "kahn_loop deps cmp em deg ni graph = (em', graph')" "kahn_inv ident deps em deg ni graph"
  shows "\<exists>deg'. kahn_inv ident deps em' deg' [] graph'"
  using assms
proof (induction deps cmp em deg ni graph rule: kahn_loop.induct)
  case (1 deps cmp em deg ni graph)
  show ?case
  proof (cases "ni = []")
    case True
    with "1.prems" show ?thesis by (auto simp: kahn_loop.simps)
  next
    case False
    obtain em1 deg1 ni1 where r: "relax (deps (last ni)) em deg (butlast ni) = (em1, deg1, ni1)"
      by (metis prod_cases3)
    have "kahn_loop deps cmp em1 deg1 (SortStableFunc cmp ni1) (last ni # graph) = (em', graph')"
      using "1.prems"(1) False r by (simp add: kahn_loop.simps [of _ _ _ _ ni])
    with "1.IH" [OF False r [symmetric] refl] kahn_inv_step [OF "1.prems"(2) False r]
    show ?thesis by blast
  qed
qed

text \<open>The events that are left over refer to one another in a circle.\<close>

definition refers :: "('a \<Rightarrow> string) \<Rightarrow> ('a \<Rightarrow> string list) \<Rightarrow> 'a list \<Rightarrow> (string \<times> string) set" where
  "refers ident deps es = (\<Union>e \<in> set es. {ident e} \<times> set (deps e))"

lemma kahn_leftover_cycle:
  assumes inv: "kahn_inv ident deps em deg [] graph" and sub: "snd ` set em \<subseteq> set es"
    and acyclic: "acyclic (refers ident deps es)"
  shows "em = []"
proof (rule ccontr)
  assume "em \<noteq> []"
  have "finite (refers ident deps es)" by (simp add: refers_def)
  then have "wf (refers ident deps es)" using acyclic by (rule finite_acyclic_wf)
  moreover obtain k0 where "k0 \<in> fst ` set em" using \<open>em \<noteq> []\<close> by (cases em) auto
  ultimately obtain k where k: "k \<in> fst ` set em" "\<And>j. (j, k) \<in> refers ident deps es \<Longrightarrow> j \<notin> fst ` set em"
    by (rule wfE_min) blast
  from k(1) have "refs deps (map snd em) k \<noteq> 0" using inv by (auto simp: kahn_inv_def)
  then obtain e where e: "e \<in> snd ` set em" "k \<in> set (deps e)"
    using refs_unreferenced [of "map snd em" k deps] by auto
  then have "(ident e, k) \<in> refers ident deps es" using sub by (auto simp: refers_def)
  moreover have "ident e \<in> fst ` set em" using e(1) inv by (force simp: kahn_inv_def)
  ultimately show False using k(2) by blast
qed

lemma kahn_start_inv:
  assumes "is_range_order rng" "distinct (map ident es)"
    and "mset ni = mset (List.map_filter (map_of (kahn_event_map ident es)) (kahn_free rng (kahn_in_degree ident deps es)))"
  shows "kahn_inv ident deps
    (fold AList.delete (kahn_free rng (kahn_in_degree ident deps es)) (kahn_event_map ident es))
    (kahn_in_degree ident deps es) ni []"
proof -
  let ?em = "kahn_event_map ident es" and ?free = "kahn_free rng (kahn_in_degree ident deps es)"
  let ?em' = "fold AList.delete ?free ?em"
  note free = kahn_free_ok [OF assms(1), of ident deps es]
  note dist = distinct_fold_delete
  have in_em': "(k, e) \<in> set ?em' \<longleftrightarrow> k \<notin> set ?free \<and> (k, e) \<in> set ?em" for k e
    using map_of_eq_Some_iff [OF dist [OF kahn_event_map_distinct], of ?free ident es k e]
      map_of_eq_Some_iff [OF kahn_event_map_distinct, of ident es k e]
    by (auto simp: map_of_fold_delete simp del: map_of_eq_Some_iff set_filter split: if_splits)
  have "mset (ni @ map snd ?em') = mset (map snd ?em)"
    unfolding mset_append assms(3) using free
    by (intro mset_split_map kahn_event_map_distinct) (auto simp: kahn_event_map_keys)
  then have refs: "refs deps (ni @ map snd ?em') k = refs deps es k" for k
    by (intro refs_mset) (metis kahn_event_map_mset assms(2))
  have "set ni = set (List.map_filter (map_of ?em) ?free)" using assms(3) by (rule mset_eq_setD)
  then have "\<forall>e \<in> set ni. ident e \<in> set ?free"
    by (auto simp del: set_filter dest!: map_of_SomeD kahn_event_map_ident)
  then have ni0: "\<forall>e \<in> set ni. refs deps es (ident e) = 0" by (simp only: free(2)) simp
  have em0: "\<forall>k \<in> set (keys ?em'). refs deps es k \<noteq> 0"
  proof
    fix k assume "k \<in> set (keys ?em')"
    then obtain e where "(k, e) \<in> set ?em'" by auto
    then have "k \<notin> set ?free" "k \<in> ident ` set es" unfolding in_em' by (auto dest: kahn_event_map_ident)
    then show "refs deps es k \<noteq> 0" by (simp only: free(2)) simp
  qed
  have ids: "\<forall>(k, e) \<in> set ?em'. ident e = k" by (auto simp only: in_em' dest: kahn_event_map_ident)
  show ?thesis
    unfolding kahn_inv_def refs kahn_in_degree_deg using ids ni0 em0 dist [OF kahn_event_map_distinct] by simp
qed

theorem kahn_topological:
  assumes rng: "is_range_order rng" and ids: "distinct (map ident es)"
    and acyclic: "acyclic (refers ident deps es)"
  shows "sorted_wrt (\<lambda>a b. ident b \<notin> set (deps a)) (kahn rng ident deps cmp es)"
proof -
  let ?em = "kahn_event_map ident es" and ?free = "kahn_free rng (kahn_in_degree ident deps es)"
  obtain ni em' graph where
    ni: "mset ni = mset (List.map_filter (map_of ?em) ?free)" and
    run: "kahn_loop deps cmp (fold AList.delete ?free ?em) (kahn_in_degree ident deps es) ni [] = (em', graph)" and
    res: "kahn rng ident deps cmp es = SortStableFunc cmp (List.map_filter (map_of em') (rng 1 (keys em'))) @ graph"
    using kahn_run [OF rng] by metis
  obtain deg where inv: "kahn_inv ident deps em' deg [] graph"
    using kahn_loop_inv [OF run kahn_start_inv [OF rng ids ni]] by auto
  have sorted: "sorted_wrt (\<lambda>a b. ident b \<notin> set (deps a)) graph" using inv by (simp add: kahn_inv_def)
  have "set (kahn rng ident deps cmp es) = set es"
    using kahn_perm [OF rng ids] by (rule mset_eq_setD)
  moreover have "set (List.map_filter (map_of em') (rng 1 (keys em'))) = snd ` set em'"
    using mset_eq_setD [OF values_by_keys [OF _ range_order_mset [OF rng], of em' 1]] inv
    by (simp add: kahn_inv_def)
  ultimately have "snd ` set em' \<subseteq> set es" unfolding res by auto
  then have "em' = []" by (rule kahn_leftover_cycle [OF inv _ acyclic])
  then have "kahn rng ident deps cmp es = graph"
    unfolding res using range_order_mset [OF rng, of 1 "[]"] by (simp add: List.map_filter_simps)
  with sorted show ?thesis by simp
qed

section \<open>One result for every order\<close>

text \<open>A run depends on the event map and the counts only as functions.\<close>

lemma relax_cong:
  assumes "map_of em = map_of fm" "deg_of deg = deg_of feg"
    and "relax ks em deg ni = (em', deg', ni')" "relax ks fm feg ni = (fm', feg', mi')"
  shows "map_of em' = map_of fm' \<and> deg_of deg' = deg_of feg' \<and> ni' = mi'"
  using assms
proof (induction ks arbitrary: em deg fm feg ni)
  case (Cons k ks)
  have deg: "deg_of (decr k deg) = deg_of (decr k feg)"
    using Cons.prems(2) by (simp add: fun_eq_iff deg_of_decr)
  have em: "map_of (AList.delete k em) = map_of (AList.delete k fm)"
    using Cons.prems(1) by (simp add: map_simps)
  show ?case
    using Cons.prems deg Cons.IH [OF Cons.prems(1) deg] Cons.IH [OF em deg]
    by (simp add: Let_def map_of_decr_zero split: if_splits option.splits)
qed simp

lemma kahn_loop_cong:
  assumes "map_of em = map_of fm" "deg_of deg = deg_of feg"
    and "kahn_loop deps cmp em deg ni graph = (em', g)" "kahn_loop deps cmp fm feg ni graph = (fm', h)"
  shows "map_of em' = map_of fm' \<and> g = h"
  using assms
proof (induction deps cmp em deg ni graph arbitrary: fm feg rule: kahn_loop.induct)
  case (1 deps cmp em deg ni graph)
  show ?case
  proof (cases "ni = []")
    case True
    with "1.prems" show ?thesis by (simp add: kahn_loop.simps)
  next
    case False
    obtain em1 deg1 ni1 where r: "relax (deps (last ni)) em deg (butlast ni) = (em1, deg1, ni1)"
      by (metis prod_cases3)
    obtain fm1 feg1 mi1 where r': "relax (deps (last ni)) fm feg (butlast ni) = (fm1, feg1, mi1)"
      by (metis prod_cases3)
    note c = relax_cong [OF "1.prems"(1,2) r r']
    have "kahn_loop deps cmp em1 deg1 (SortStableFunc cmp ni1) (last ni # graph) = (em', g)"
      using "1.prems"(3) False r by (simp add: kahn_loop.simps [of _ _ _ _ ni])
    moreover have "kahn_loop deps cmp fm1 feg1 (SortStableFunc cmp ni1) (last ni # graph) = (fm', h)"
      using "1.prems"(4) False r' c by (simp add: kahn_loop.simps [of _ _ _ _ ni])
    ultimately show ?thesis using "1.IH" [OF False r [symmetric] refl] c by blast
  qed
qed

text \<open>
  What the two sorts of nodes share: a comparison that only ties on equal event IDs.
\<close>

locale event_order = go_comparator cmp for cmp :: "'a \<Rightarrow> 'a \<Rightarrow> int" +
  fixes ident :: "'a \<Rightarrow> string"
  assumes tie_ident: "cmp a b = 0 \<Longrightarrow> ident a = ident b"
begin

lemma sort_by_id:
  assumes "distinct (map ident xs)" "mset xs = mset ys"
  shows "SortStableFunc cmp xs = SortStableFunc cmp ys"
  using assms by (intro sort_perm) (auto simp: distinct_map inj_on_def dest: tie_ident)

lemma sort_values:
  assumes "\<forall>(k, e) \<in> set m. ident e = k" "distinct ks" "mset ks = mset js" "map_of m = map_of m'"
  shows "SortStableFunc cmp (List.map_filter (map_of m) ks) = SortStableFunc cmp (List.map_filter (map_of m') js)"
proof (rule sort_by_id)
  have "map ident (List.map_filter (map_of m) ks) = filter (\<lambda>k. map_of m k \<noteq> None) ks"
    using assms(1) by (induction ks) (auto simp: List.map_filter_simps split: option.splits dest: map_of_SomeD)
  with assms(2) show "distinct (map ident (List.map_filter (map_of m) ks))" by simp
  show "mset (List.map_filter (map_of m) ks) = mset (List.map_filter (map_of m') js)"
    using assms(3,4) by (simp add: List.map_filter_def mset_filter)
qed

text \<open>Equal event maps and counts give equal results, whatever the orders of the two ranges.\<close>

lemma kahn_cong:
  assumes rng: "is_range_order rng" "is_range_order rng'"
    and em: "map_of (kahn_event_map ident es) = map_of (kahn_event_map ident fs)"
    and deg: "\<And>k. refs deps es k = refs deps fs k" and ids: "ident ` set es = ident ` set fs"
  shows "kahn rng ident deps cmp es = kahn rng' ident deps cmp fs"
proof -
  let ?em = "kahn_event_map ident es" and ?fm = "kahn_event_map ident fs"
  let ?ek = "kahn_free rng (kahn_in_degree ident deps es)" and ?fk = "kahn_free rng' (kahn_in_degree ident deps fs)"
  note efree = kahn_free_ok [OF rng(1), of ident deps es] and ffree = kahn_free_ok [OF rng(2), of ident deps fs]
  have sets: "set ?ek = set ?fk" unfolding efree(2) ffree(2) deg ids by simp
  have msets: "mset ?ek = mset ?fk" by (rule set_eq_iff_mset_eq_distinct [THEN iffD1, OF efree(1) ffree(1) sets])
  have eid: "\<forall>(k, e) \<in> set ?em. ident e = k" by (auto dest: kahn_event_map_ident)
  let ?ni = "SortStableFunc cmp (List.map_filter (map_of ?em) ?ek)"
  have ni: "?ni = SortStableFunc cmp (List.map_filter (map_of ?fm) ?fk)"
    using eid efree(1) msets em by (rule sort_values)
  let ?em1 = "fold AList.delete ?ek ?em" and ?fm1 = "fold AList.delete ?fk ?fm"
  obtain em' g where run: "kahn_loop deps cmp ?em1 (kahn_in_degree ident deps es) ?ni [] = (em', g)"
    by (metis surj_pair)
  obtain fm' h where run': "kahn_loop deps cmp ?fm1 (kahn_in_degree ident deps fs) ?ni [] = (fm', h)"
    by (metis surj_pair)
  have "map_of ?em1 = map_of ?fm1" using em sets by (simp add: fun_eq_iff map_of_fold_delete del: set_filter)
  moreover have "deg_of (kahn_in_degree ident deps es) = deg_of (kahn_in_degree ident deps fs)"
    using deg by (simp add: fun_eq_iff kahn_in_degree_deg)
  ultimately have end_eq: "map_of em' = map_of fm' \<and> g = h" using run run' by (rule kahn_loop_cong)
  note dist = distinct_fold_delete
  note sub = set_fold_delete
  have e': "distinct (keys em')" "set em' \<subseteq> set ?em" and f': "distinct (keys fm')"
    using kahn_loop_mset [OF run dist [OF kahn_event_map_distinct]] sub [of ?ek ?em]
      kahn_loop_mset [OF run' dist [OF kahn_event_map_distinct]] by auto
  have "fst ` set em' = fst ` set fm'" using end_eq by (metis dom_map_of_conv_image_fst)
  then have "mset (keys em') = mset (keys fm')" using e'(1) f' by (metis set_map set_eq_iff_mset_eq_distinct)
  then have "mset (rng 1 (keys em')) = mset (rng' 1 (keys fm'))" using rng by (simp add: range_order_mset)
  moreover have "distinct (rng 1 (keys em'))" using e'(1) rng(1) by (simp add: range_order_distinct)
  moreover have "\<forall>(k, e) \<in> set em'. ident e = k" using e'(2) eid by blast
  ultimately have "SortStableFunc cmp (List.map_filter (map_of em') (rng 1 (keys em'))) =
      SortStableFunc cmp (List.map_filter (map_of fm') (rng' 1 (keys fm')))"
    using end_eq by (intro sort_values) auto
  moreover have "em' = [] \<longleftrightarrow> fm' = []" using \<open>fst ` set em' = _\<close> by auto
  ultimately show ?thesis using run run' ni end_eq by (simp add: kahn_def Let_def)
qed

lemma kahn_range_order:
  "is_range_order rng \<Longrightarrow> is_range_order rng' \<Longrightarrow> kahn rng ident deps cmp es = kahn rng' ident deps cmp es"
  by (rule kahn_cong) simp_all

lemma kahn_input_order:
  assumes "is_range_order rng" "is_range_order rng'" "distinct (map ident es)" "mset es = mset fs"
  shows "kahn rng ident deps cmp es = kahn rng' ident deps cmp fs"
proof (rule kahn_cong)
  have set: "set es = set fs" using assms(4) by (rule mset_eq_setD)
  then show "ident ` set es = ident ` set fs" by simp
  have dist: "distinct (map ident fs)" using assms(3,4) by (metis mset_eq_imp_distinct_iff mset_map)
  have look: "map_of (kahn_event_map ident xs) k = Some e \<longleftrightarrow> e \<in> set xs \<and> ident e = k"
    if "distinct (map ident xs)" for xs k e
  proof
    show "map_of (kahn_event_map ident xs) k = Some e \<Longrightarrow> e \<in> set xs \<and> ident e = k"
      by (auto dest!: map_of_SomeD kahn_event_map_ident)
    assume e: "e \<in> set xs \<and> ident e = k"
    have "e \<in> snd ` set (kahn_event_map ident xs)"
      using e mset_eq_setD [OF kahn_event_map_mset [OF that]] by simp
    then obtain j where j: "(j, e) \<in> set (kahn_event_map ident xs)" by auto
    then have "j = k" using e by (auto dest: kahn_event_map_ident)
    with j show "map_of (kahn_event_map ident xs) k = Some e" by (simp add: kahn_event_map_distinct)
  qed
  have "map_of (kahn_event_map ident es) k = Some e \<longleftrightarrow> map_of (kahn_event_map ident fs) k = Some e" for k e
    unfolding look [OF assms(3)] look [OF dist] set by simp
  then show "map_of (kahn_event_map ident es) = map_of (kahn_event_map ident fs)"
    by (intro ext) (metis option.exhaust)
  show "refs deps es k = refs deps fs k" for k using assms(4) by (rule refs_mset)
qed (use assms in simp_all)

end

end
