(* ===== verification/GoJSON.thy ===== *)
theory GoJSON
  imports Prelude
begin

text \<open>
  The part of Go's \<^verbatim>\<open>encoding/json\<close>, \<^verbatim>\<open>strconv\<close> and \<^verbatim>\<open>strings\<close> that decides what the
  program reads out of an event: a JSON document as a tree, and \<^verbatim>\<open>json.Unmarshal\<close> into
  strings, numbers, pointers, maps, slices and structs.

  The rules that matter to the callers are kept: \<^verbatim>\<open>null\<close> leaves everything but pointers,
  maps and slices alone; a value of the wrong type is remembered as an error while the
  rest of the document is still read; an error of a type's own \<^verbatim>\<open>UnmarshalJSON\<close> stops at
  once; an object key selects the field with that very name or else one that differs in
  letter case only; later members overwrite earlier ones.
\<close>

section \<open>Documents\<close>

text \<open>
  Strings are decoded, numbers keep their literal and objects keep their members in
  document order, repeated ones included.
\<close>

datatype json =
    JNull
  | JBool bool
  | JNum string
  | JStr string
  | JArr "json list"
  | JObj "(string \<times> json) list"

section \<open>Decoding\<close>

datatype derr = DNone | DSaved | DAbort

fun derr_join :: "derr \<Rightarrow> derr \<Rightarrow> derr" where
  "derr_join DNone e = e"
| "derr_join DSaved e = (if e = DAbort then DAbort else DSaved)"
| "derr_join DAbort e = DAbort"

type_synonym 'a decoder = "json \<Rightarrow> 'a \<Rightarrow> 'a \<times> derr"

fun dec_string :: "string decoder" where
  "dec_string (JStr s) v = (s, DNone)"
| "dec_string JNull v = (v, DNone)"
| "dec_string _ v = (v, DSaved)"

fun dec_bool :: "bool decoder" where
  "dec_bool (JBool b) v = (b, DNone)"
| "dec_bool JNull v = (v, DNone)"
| "dec_bool _ v = (v, DSaved)"

fun dec_int64 :: "int decoder" where
  "dec_int64 (JNum raw) v = (case ParseInt64 raw of Some n \<Rightarrow> (n, DNone) | None \<Rightarrow> (v, DSaved))"
| "dec_int64 JNull v = (v, DNone)"
| "dec_int64 _ v = (v, DSaved)"

definition dec_ptr :: "'a \<Rightarrow> 'a decoder \<Rightarrow> 'a option decoder" where
  "dec_ptr zero dec j v =
     (case j of JNull \<Rightarrow> (None, DNone)
      | _ \<Rightarrow> (case dec j (case v of None \<Rightarrow> zero | Some x \<Rightarrow> x) of (x, e) \<Rightarrow> (Some x, e)))"

fun dec_entries :: "'a \<Rightarrow> 'a decoder \<Rightarrow> (string \<times> json) list \<Rightarrow> (string, 'a) gomap
    \<Rightarrow> (string, 'a) gomap \<times> derr" where
  "dec_entries zero dec [] m = (m, DNone)"
| "dec_entries zero dec ((k, j) # kvs) m =
     (case dec j zero of (x, e) \<Rightarrow>
        if e = DAbort then (m, DAbort)
        else (case dec_entries zero dec kvs (AList.update k x m) of
                (m', e') \<Rightarrow> (m', derr_join e e')))"

definition dec_map :: "'a \<Rightarrow> 'a decoder \<Rightarrow> (string, 'a) gomap decoder" where
  "dec_map zero dec j m =
     (case j of JNull \<Rightarrow> ([], DNone)
      | JObj kvs \<Rightarrow> dec_entries zero dec kvs m
      | _ \<Rightarrow> (m, DSaved))"

fun dec_elems :: "'a \<Rightarrow> 'a decoder \<Rightarrow> json list \<Rightarrow> 'a list \<times> derr" where
  "dec_elems zero dec [] = ([], DNone)"
| "dec_elems zero dec (j # js) =
     (case dec j zero of (x, e) \<Rightarrow>
        if e = DAbort then ([x], DAbort)
        else (case dec_elems zero dec js of (xs, e') \<Rightarrow> (x # xs, derr_join e e')))"

definition dec_slice :: "'a \<Rightarrow> 'a decoder \<Rightarrow> 'a list decoder" where
  "dec_slice zero dec j v =
     (case j of JNull \<Rightarrow> ([], DNone)
      | JArr js \<Rightarrow> dec_elems zero dec js
      | _ \<Rightarrow> (v, DSaved))"

text \<open>
  Field names are folded as \<^verbatim>\<open>foldName\<close> does: ASCII letters, and the two characters
  outside ASCII that fold to one, the long s (bytes C5 BF) and the Kelvin sign (E2 84 AA).
\<close>

definition fold_char :: "char \<Rightarrow> char" where
  "fold_char c = (if CHR ''a'' \<le> c \<and> c \<le> CHR ''z'' then char_of (of_char c - 32 :: nat) else c)"

fun fold_name :: "string \<Rightarrow> string" where
  "fold_name [] = []"
| "fold_name (c # cs) =
     (if c = CHR 0xC5 \<and> cs \<noteq> [] \<and> hd cs = CHR 0xBF then CHR ''S'' # fold_name (tl cs)
      else if c = CHR 0xE2 \<and> 2 \<le> length cs \<and> take 2 cs = [CHR 0x84, CHR 0xAA]
        then CHR ''K'' # fold_name (drop 2 cs)
      else fold_char c # fold_name cs)"

definition find_field :: "(string \<times> 'f) list \<Rightarrow> string \<Rightarrow> 'f option" where
  "find_field fs k =
     (case map_of fs k of Some f \<Rightarrow> Some f
      | None \<Rightarrow> map_option snd (List.find (\<lambda>(n, _). fold_name n = fold_name k) fs))"

fun dec_members :: "(string \<times> 'a decoder) list \<Rightarrow> (string \<times> json) list \<Rightarrow> 'a \<Rightarrow> 'a \<times> derr" where
  "dec_members fs [] v = (v, DNone)"
| "dec_members fs ((k, j) # kvs) v =
     (case find_field fs k of
        None \<Rightarrow> dec_members fs kvs v
      | Some dec \<Rightarrow> (case dec j v of (v', e) \<Rightarrow>
          if e = DAbort then (v', DAbort)
          else (case dec_members fs kvs v' of (v'', e') \<Rightarrow> (v'', derr_join e e'))))"

definition dec_struct :: "(string \<times> 'a decoder) list \<Rightarrow> 'a decoder" where
  "dec_struct fs j v =
     (case j of JNull \<Rightarrow> (v, DNone)
      | JObj kvs \<Rightarrow> dec_members fs kvs v
      | _ \<Rightarrow> (v, DSaved))"

text \<open>A field of a struct, decoded in place.\<close>

definition fld :: "('s \<Rightarrow> 'a) \<Rightarrow> ('a \<Rightarrow> 's \<Rightarrow> 's) \<Rightarrow> 'a decoder \<Rightarrow> 's decoder" where
  "fld get put dec j s = (case dec j (get s) of (x, e) \<Rightarrow> (put x s, e))"

text \<open>
  \<^verbatim>\<open>json.Unmarshal(data, &v)\<close>: \<open>None\<close> stands for bytes that are not JSON, which leave the
  target untouched. The flag says whether an error was returned.
\<close>

definition Unmarshal :: "'a decoder \<Rightarrow> json option \<Rightarrow> 'a \<Rightarrow> 'a \<times> bool" where
  "Unmarshal dec data v =
     (case data of None \<Rightarrow> (v, True)
      | Some j \<Rightarrow> (case dec j v of (v', e) \<Rightarrow> (v', e \<noteq> DNone)))"

lemma Unmarshal_bad_syntax [simp]: "Unmarshal dec None v = (v, True)"
  by (simp add: Unmarshal_def)

section \<open>Trimming and floating point\<close>

text \<open>
  \<^verbatim>\<open>strings.TrimSpace\<close> removes Unicode white space at both ends. The list holds the UTF-8
  encodings of the white-space characters.
\<close>

definition unicode_spaces :: "string list" where
  "unicode_spaces =
     map (\<lambda>c. [c]) [CHR 0x09, CHR 0x0A, CHR 0x0B, CHR 0x0C, CHR 0x0D, CHR 0x20] @
     [[CHR 0xC2, CHR 0x85], [CHR 0xC2, CHR 0xA0], [CHR 0xE1, CHR 0x9A, CHR 0x80]] @
     map (\<lambda>c. [CHR 0xE2, CHR 0x80, c])
       [CHR 0x80, CHR 0x81, CHR 0x82, CHR 0x83, CHR 0x84, CHR 0x85, CHR 0x86, CHR 0x87,
        CHR 0x88, CHR 0x89, CHR 0x8A, CHR 0xA8, CHR 0xA9, CHR 0xAF] @
     [[CHR 0xE2, CHR 0x81, CHR 0x9F], [CHR 0xE3, CHR 0x80, CHR 0x80]]"

function trim_left :: "string list \<Rightarrow> string \<Rightarrow> string" where
  "trim_left sps s =
     (case List.find (\<lambda>sp. sp \<noteq> [] \<and> take (length sp) s = sp) sps of
        None \<Rightarrow> s
      | Some sp \<Rightarrow> trim_left sps (drop (length sp) s))"
  by pat_completeness auto
termination
proof (relation "measure (\<lambda>(sps, s). length s)")
  fix sps :: "string list" and s sp
  assume "List.find (\<lambda>sp. sp \<noteq> [] \<and> take (length sp) s = sp) sps = Some sp"
  then have "sp \<noteq> []" "take (length sp) s = sp" by (auto simp: find_Some_iff)
  then have "s \<noteq> []" "0 < length sp" by auto
  then show "((sps, drop (length sp) s), (sps, s)) \<in> measure (\<lambda>(sps, s). length s)" by simp
qed simp

declare trim_left.simps [simp del]

definition TrimSpace :: "string \<Rightarrow> string" where
  "TrimSpace s = rev (trim_left (map rev unicode_spaces) (rev (trim_left unicode_spaces s)))"

text \<open>
  \<^verbatim>\<open>strconv.ParseFloat\<close> on a JSON number literal: the literal as a fraction, rounded to the
  nearest IEEE double (ties to even), an error when it overflows. A double is \<open>m * 2 ^ k\<close>.
\<close>

definition split_at :: "(char \<Rightarrow> bool) \<Rightarrow> string \<Rightarrow> string \<times> string" where
  "split_at P s = (takeWhile (\<lambda>c. \<not> P c) s, drop 1 (dropWhile (\<lambda>c. \<not> P c) s))"

definition parse_decimal :: "string \<Rightarrow> bool \<times> int \<times> int" where
  "parse_decimal raw =
     (let neg = (raw \<noteq> [] \<and> hd raw = CHR ''-'');
          body = (if neg then tl raw else raw);
          (mant, ex) = split_at (\<lambda>c. c = CHR ''e'' \<or> c = CHR ''E'') body;
          (ip, fp) = split_at (\<lambda>c. c = CHR ''.'') mant;
          eneg = (ex \<noteq> [] \<and> hd ex = CHR ''-'');
          eds = (if ex \<noteq> [] \<and> (hd ex = CHR ''-'' \<or> hd ex = CHR ''+'') then tl ex else ex);
          e = int (digits_val 0 eds)
      in (neg, int (digits_val 0 (ip @ fp)), (if eneg then - e else e) - int (length fp)))"

definition div_half_even :: "int \<Rightarrow> int \<Rightarrow> int" where
  "div_half_even p q =
     (let d = p div q; r = p mod q
      in if 2 * r < q then d else if q < 2 * r then d + 1 else if even d then d else d + 1)"

function bitlen :: "int \<Rightarrow> int" where
  "bitlen n = (if n \<le> 0 then 0 else 1 + bitlen (n div 2))"
  by pat_completeness auto
termination
  by (relation "measure nat") auto

declare bitlen.simps [simp del]

text \<open>\<open>p / (q * 2 ^ k)\<close> as numerator and denominator.\<close>

definition scale :: "int \<Rightarrow> int \<Rightarrow> int \<Rightarrow> int \<times> int" where
  "scale p q k = (if 0 \<le> k then (p, q * 2 ^ nat k) else (p * 2 ^ nat (- k), q))"

definition round_double :: "int \<Rightarrow> int \<Rightarrow> (int \<times> int) option" where
  "round_double p q =
     (let g = bitlen p - bitlen q - 53;
          (p1, q1) = scale p q (max g (-1074));
          k = (if p1 \<ge> q1 * 2 ^ 53 then max g (-1074) + 1 else max g (-1074));
          (p2, q2) = scale p q k;
          m = div_half_even p2 q2
      in if p = 0 then Some (0, 0)
         else if 0 \<le> k \<and> m * 2 ^ nat k \<ge> 2 ^ 1024 then None
         else Some (m, k))"

definition ParseFloat64 :: "string \<Rightarrow> (bool \<times> int \<times> int) option" where
  "ParseFloat64 raw =
     (case parse_decimal raw of (neg, d, e) \<Rightarrow>
        map_option (\<lambda>(m, k). (neg, m, k))
          (if 0 \<le> e then round_double (d * 10 ^ nat e) 1 else round_double d (10 ^ nat (- e))))"

text \<open>
  \<^verbatim>\<open>int64(f)\<close>: towards zero. Out of range the language leaves the result to the
  implementation; the model has the value of the amd64 instruction.
\<close>

definition int64_of_float :: "bool \<times> int \<times> int \<Rightarrow> int" where
  "int64_of_float f =
     (case f of (neg, m, k) \<Rightarrow>
        let a = (if 0 \<le> k then m * 2 ^ nat k else m div 2 ^ nat (- k));
            v = (if neg then - a else a)
        in if - (2 ^ 63) \<le> v \<and> v < 2 ^ 63 then v else - (2 ^ 63))"

lemma int64_of_float_range: "- (2 ^ 63) \<le> int64_of_float f \<and> int64_of_float f < 2 ^ 63"
  by (auto simp: int64_of_float_def Let_def split: prod.splits)

end
