(* ===== verification/Spec_IDs.thy ===== *)
theory Spec_IDs
  imports Prelude
begin

text \<open>
  Matrix identifiers: server names, user IDs and room IDs
  (\<^verbatim>\<open>internal/matrixserver/spec/servername.go\<close>, \<^verbatim>\<open>userid.go\<close>, \<^verbatim>\<open>roomid.go\<close>,
  \<^verbatim>\<open>senderid.go\<close>), the ID checks of \<^verbatim>\<open>internal/matrixserver/event.go\<close> and the two ID
  helpers of \<^verbatim>\<open>eventcontent.go\<close>. IP addresses follow \<^verbatim>\<open>net.ParseIP\<close> of the Go library.
\<close>

section \<open>IP addresses (Go's net.ParseIP)\<close>

text \<open>The text between the dots, and an address as eight 16-bit groups.\<close>

fun split_on :: "char \<Rightarrow> string \<Rightarrow> string list" where
  "split_on sep [] = [[]]"
| "split_on sep (c # cs) =
     (if c = sep then [] # split_on sep cs
      else (case split_on sep cs of [] \<Rightarrow> [[c]] | f # fs \<Rightarrow> (c # f) # fs))"

definition ipv4_field :: "string \<Rightarrow> nat option" where
  "ipv4_field f =
     (if f = [] \<or> \<not> list_all is_digit f \<or> (1 < length f \<and> hd f = CHR ''0'') \<or> 255 < digits_val 0 f
      then None else Some (digits_val 0 f))"

definition parse_ipv4 :: "string \<Rightarrow> (nat \<times> nat) option" where
  "parse_ipv4 s =
     (case map ipv4_field (split_on CHR ''.'' s) of
        [Some a, Some b, Some c, Some d] \<Rightarrow> Some (256 * a + b, 256 * c + d)
      | _ \<Rightarrow> None)"

definition is_hex :: "char \<Rightarrow> bool" where
  "is_hex c \<longleftrightarrow> c \<in> set ''0123456789abcdefABCDEF''"

definition hex_digit :: "char \<Rightarrow> nat" where
  "hex_digit c =
     (if is_digit c then digit_val c
      else if CHR ''a'' \<le> c then of_char c - 87 else of_char c - 55)"

definition hex_val :: "string \<Rightarrow> nat" where
  "hex_val s = foldl (\<lambda>a c. 16 * a + hex_digit c) 0 s"

text \<open>
  The loop over the groups of an IPv6 address: how many groups may still come, the rest of
  the text, the groups read and where the \<^verbatim>\<open>::\<close> stood.
\<close>

fun parse_ipv6_loop ::
  "nat \<Rightarrow> string \<Rightarrow> nat list \<Rightarrow> nat option \<Rightarrow> (nat list \<times> nat option \<times> string) option" where
  "parse_ipv6_loop 0 s gs ell = Some (gs, ell, s)"
| "parse_ipv6_loop (Suc n) s gs ell =
     (let hs = takeWhile is_hex s; rest = drop (length hs) s; gs' = gs @ [hex_val hs]
      in if hs = [] \<or> 4 < length hs then None
         else if rest \<noteq> [] \<and> hd rest = CHR ''.'' then
           (if ell = None \<and> length gs \<noteq> 6 \<or> 6 < length gs then None
            else map_option (\<lambda>(a, b). (gs @ [a, b], ell, [])) (parse_ipv4 s))
         else (case rest of
             [] \<Rightarrow> Some (gs', ell, [])
           | c # s1 \<Rightarrow>
               if c \<noteq> CHR '':'' \<or> s1 = [] then None
               else if hd s1 = CHR '':'' then
                 (if ell \<noteq> None then None
                  else if tl s1 = [] then Some (gs', Some (length gs'), [])
                  else parse_ipv6_loop n (tl s1) gs' (Some (length gs')))
               else parse_ipv6_loop n s1 gs' ell))"

definition parse_ipv6 :: "string \<Rightarrow> nat list option" where
  "parse_ipv6 s =
     (let (ell, body) = (if take 2 s = ''::'' then (Some 0, drop 2 s) else (None, s))
      in if ell = Some 0 \<and> body = [] then Some (replicate 8 0)
         else (case parse_ipv6_loop 8 body [] ell of
             None \<Rightarrow> None
           | Some (gs, ell', rest) \<Rightarrow>
               if rest \<noteq> [] then None
               else (case ell' of
                   None \<Rightarrow> if length gs < 8 then None else Some gs
                 | Some i \<Rightarrow> if length gs < 8
                     then Some (take i gs @ replicate (8 - length gs) 0 @ drop i gs) else None)))"

definition ParseIP :: "string \<Rightarrow> nat list option" where
  "ParseIP s =
     (case List.find (\<lambda>c. c \<in> set ''.:%'') s of
        None \<Rightarrow> None
      | Some c \<Rightarrow>
          if c = CHR ''.'' then map_option (\<lambda>(a, b). [0, 0, 0, 0, 0, 65535, a, b]) (parse_ipv4 s)
          else if CHR ''%'' \<in> set s then None else parse_ipv6 s)"

definition To4 :: "nat list \<Rightarrow> bool" where
  "To4 ip \<longleftrightarrow> take 6 ip = [0, 0, 0, 0, 0, 65535]"

section \<open>Server names\<close>

definition isDNSNameChar :: "char \<Rightarrow> bool" where
  "isDNSNameChar r \<longleftrightarrow>
     CHR ''A'' \<le> r \<and> r \<le> CHR ''Z'' \<or> CHR ''a'' \<le> r \<and> r \<le> CHR ''z'' \<or>
     CHR ''0'' \<le> r \<and> r \<le> CHR ''9'' \<or> r = CHR ''-'' \<or> r = CHR ''.''"

definition splitServerName :: "string \<Rightarrow> string \<times> int" where
  "splitServerName nameStr =
     (case strings_CutLast CHR '':'' nameStr of
        None \<Rightarrow> (nameStr, -1)
      | Some (host, portStr) \<Rightarrow>
          (case ParseUint 16 portStr of
             None \<Rightarrow> (nameStr, -1)
           | Some port \<Rightarrow> (host, int port)))"

definition ParseAndValidateServerName :: "string \<Rightarrow> string \<times> int \<times> bool" where
  "ParseAndValidateServerName serverName =
     (if serverName = [] then ([], 0, False)
      else (case splitServerName serverName of (host, port) \<Rightarrow>
        if host = [] then (host, port, False)
        else if hd host = CHR ''['' then
          (if last host \<noteq> CHR '']'' then (host, port, False)
           else (host, port, ParseIP (butlast (tl host)) \<noteq> None))
        else (case ParseIP host of
            Some ip \<Rightarrow> (host, port, To4 ip \<or> list_all isDNSNameChar host)
          | None \<Rightarrow> (host, port, list_all isDNSNameChar host))))"

definition server_name_valid :: "string \<Rightarrow> bool" where
  "server_name_valid s = snd (snd (ParseAndValidateServerName s))"

section \<open>User IDs\<close>

record UserID =
  user_raw :: string
  user_local :: string
  user_domain :: string

definition validUsernameRegex :: "string \<Rightarrow> bool" where
  "validUsernameRegex s \<longleftrightarrow>
     s \<noteq> [] \<and> list_all (\<lambda>c. CHR ''0'' \<le> c \<and> c \<le> CHR ''9'' \<or> CHR ''a'' \<le> c \<and> c \<le> CHR ''z''
       \<or> c \<in> set ''_-=./'') s"

definition historicallyValidCharacters :: "string \<Rightarrow> bool" where
  "historicallyValidCharacters localpart \<longleftrightarrow>
     list_all (\<lambda>r. \<not> (of_char r < (0x21::nat) \<or> of_char r = (0x3A::nat) \<or> of_char r > (0x7E::nat)))
       localpart"

definition parseAndValidateUserID :: "string \<Rightarrow> bool \<Rightarrow> UserID outcome" where
  "parseAndValidateUserID mid allowHistoricalIDs =
     (if length mid < 4 \<or> 255 < length mid
        then Err (GoError ''length %d is not within the bounds 4-255'')
      else if hd mid \<noteq> CHR ''@'' then Err (GoError ''first character is not %c'')
      else (case strings_Cut CHR '':'' (tl mid) of
          None \<Rightarrow> Err (GoError ''at least one %c is expected in the user id'')
        | Some (localpart, domain) \<Rightarrow>
            if \<not> server_name_valid domain then Err (GoError ''domain is invalid'')
            else if allowHistoricalIDs \<and> \<not> historicallyValidCharacters localpart
              then Err (GoError ''local part contains invalid characters from historical set'')
            else if \<not> allowHistoricalIDs \<and> \<not> validUsernameRegex localpart
              then Err (GoError ''local part contains invalid characters'')
            else Ok \<lparr>user_raw = mid, user_local = localpart, user_domain = domain\<rparr>))"

abbreviation NewUserID :: "string \<Rightarrow> bool \<Rightarrow> UserID outcome" where
  "NewUserID \<equiv> parseAndValidateUserID"

section \<open>Room IDs\<close>

record RoomID =
  room_raw :: string
  room_opaqueID :: string
  room_domain :: string

definition parseAndValidateRoomID :: "string \<Rightarrow> RoomID outcome" where
  "parseAndValidateRoomID mid =
     (if length mid < 4 then Err (GoError ''length %d is too short to be valid'')
      else if hd mid \<noteq> CHR ''!'' then Err (GoError ''first character is not %c'')
      else (case strings_Cut CHR '':'' (tl mid) of
          None \<Rightarrow> Err (GoError ''at least one %c is expected in the room id'')
        | Some (opaqueID, domain) \<Rightarrow>
            if \<not> server_name_valid domain then Err (GoError ''domain is invalid'')
            else if length opaqueID < 1
              then Err (GoError ''opaque id length %d is too short to be valid'')
            else Ok \<lparr>room_raw = mid, room_opaqueID = opaqueID, room_domain = domain\<rparr>))"

abbreviation NewRoomID :: "string \<Rightarrow> RoomID outcome" where
  "NewRoomID \<equiv> parseAndValidateRoomID"

section \<open>Sender IDs\<close>

text \<open>A sender ID that starts with an at sign is a user ID; reading the first byte of an empty
  one panics.\<close>

definition IsUserID :: "string \<Rightarrow> bool outcome" where
  "IsUserID s = (if s = [] then Panic else Ok (hd s = CHR ''@''))"

definition ToUserID :: "string \<Rightarrow> UserID option outcome" where
  "ToUserID s = and_then (IsUserID s) (\<lambda>isUser.
     if isUser then (case NewUserID s True of Ok u \<Rightarrow> Ok (Some u) | Err _ \<Rightarrow> Ok None | Panic \<Rightarrow> Panic)
     else Ok None)"

section \<open>The ID checks of event.go and eventcontent.go\<close>

definition domainFromID :: "string \<Rightarrow> string outcome" where
  "domainFromID mid =
     (case strings_Cut CHR '':'' mid of
        None \<Rightarrow> Err (NotAllowed ''invalid ID: %q'')
      | Some (_, domain) \<Rightarrow> Ok domain)"

definition SplitID :: "char \<Rightarrow> string \<Rightarrow> (string \<times> string) outcome" where
  "SplitID sigil mid =
     (if mid = [] \<or> hd mid \<noteq> sigil
        then Err (GoError ''gomatrixserverlib: invalid ID %q does not start with %q'')
      else (case strings_Cut CHR '':'' mid of
          None \<Rightarrow> Err (GoError ''gomatrixserverlib: invalid ID %q missing :'')
        | Some (front, domain) \<Rightarrow> Ok (tl front, domain)))"

definition isValidUserID :: "string \<Rightarrow> bool outcome" where
  "isValidUserID userID =
     (if userID = [] then Panic else Ok (hd userID = CHR ''@'' \<and> CHR '':'' \<in> set userID))"

text \<open>
  \<^verbatim>\<open>utf8.RuneCountInString\<close>: a well-formed encoding counts once, any other byte counts
  as one character.
\<close>

definition cont :: "nat \<Rightarrow> nat \<Rightarrow> char \<Rightarrow> bool" where
  "cont lo hi c \<longleftrightarrow> lo \<le> of_char c \<and> of_char c \<le> hi"

definition rune_width :: "string \<Rightarrow> nat" where
  "rune_width s =
     (case s of
        b0 # b1 # rest \<Rightarrow>
          if cont 0xC2 0xDF b0 \<and> cont 0x80 0xBF b1 then 2
          else (case rest of
              b2 # rest' \<Rightarrow>
                if (b0 = CHR 0xE0 \<and> cont 0xA0 0xBF b1 \<or> cont 0xE1 0xEC b0 \<and> cont 0x80 0xBF b1 \<or>
                    b0 = CHR 0xED \<and> cont 0x80 0x9F b1 \<or> cont 0xEE 0xEF b0 \<and> cont 0x80 0xBF b1) \<and>
                   cont 0x80 0xBF b2 then 3
                else (case rest' of
                    b3 # _ \<Rightarrow>
                      if (b0 = CHR 0xF0 \<and> cont 0x90 0xBF b1 \<or> cont 0xF1 0xF3 b0 \<and> cont 0x80 0xBF b1 \<or>
                          b0 = CHR 0xF4 \<and> cont 0x80 0x8F b1) \<and> cont 0x80 0xBF b2 \<and> cont 0x80 0xBF b3
                      then 4 else 1
                  | [] \<Rightarrow> 1)
            | [] \<Rightarrow> 1)
      | _ \<Rightarrow> 1)"

lemma rune_width_pos: "0 < rune_width s"
  by (simp add: rune_width_def split: list.splits)

function RuneCountInString :: "string \<Rightarrow> nat" where
  "RuneCountInString s = (if s = [] then 0 else Suc (RuneCountInString (drop (rune_width s) s)))"
  by pat_completeness auto
termination
  by (relation "measure length") (auto simp: rune_width_pos)

declare RuneCountInString.simps [simp del]

definition maxIDLength :: nat where
  "maxIDLength = 255"

definition checkID :: "string \<Rightarrow> char \<Rightarrow> unit outcome" where
  "checkID mid sigil =
     and_then (domainFromID mid) (\<lambda>_.
       if hd mid \<noteq> sigil
         then Err (GoError ''gomatrixserverlib: invalid %s ID, wanted first byte to be %c got %c'')
       else if maxIDLength < RuneCountInString mid
         then Err (ValidationError ''gomatrixserverlib: %s ID is too long, length %d > maximum %d'' False)
       else if maxIDLength < length mid
         then Err (ValidationError
           ''gomatrixserverlib: %s ID is too long, length %d bytes > maximum %d bytes'' True)
       else Ok ())"

section \<open>What the checks give\<close>

lemma RuneCount_le_length: "RuneCountInString s \<le> length s"
proof (induction s rule: RuneCountInString.induct)
  case (1 s)
  show ?case
  proof (cases "s = []")
    case False
    with 1 have "RuneCountInString (drop (rune_width s) s) \<le> length s - rune_width s" by simp
    also have "\<dots> < length s" using False rune_width_pos by (intro diff_less) auto
    finally show ?thesis using False by (subst RuneCountInString.simps) (simp add: Suc_le_eq)
  qed (simp add: RuneCountInString.simps)
qed

lemma NewUserID_Ok_iff:
  "NewUserID mid hist = Ok u \<longleftrightarrow>
     mid = user_raw u \<and> user_raw u = CHR ''@'' # user_local u @ CHR '':'' # user_domain u \<and>
     CHR '':'' \<notin> set (user_local u) \<and> 4 \<le> length mid \<and> length mid \<le> 255 \<and>
     server_name_valid (user_domain u) \<and>
     (if hist then historicallyValidCharacters (user_local u) else validUsernameRegex (user_local u))"
  (is "?lhs \<longleftrightarrow> ?rhs")
proof
  assume ?lhs
  then show ?rhs
    by (cases mid) (auto simp: parseAndValidateUserID_def strings_Cut_Some split: if_splits option.splits)
next
  assume r: ?rhs
  then have "strings_Cut CHR '':'' (tl mid) = Some (user_local u, user_domain u)"
    by (simp add: strings_Cut_Some)
  with r show ?lhs by (cases u) (auto simp: parseAndValidateUserID_def split: if_splits)
qed

lemma NewRoomID_Ok_iff:
  "NewRoomID mid = Ok r \<longleftrightarrow>
     mid = room_raw r \<and> room_raw r = CHR ''!'' # room_opaqueID r @ CHR '':'' # room_domain r \<and>
     CHR '':'' \<notin> set (room_opaqueID r) \<and> 4 \<le> length mid \<and> room_opaqueID r \<noteq> [] \<and>
     server_name_valid (room_domain r)"
  (is "?lhs \<longleftrightarrow> ?rhs")
proof
  assume ?lhs
  then show ?rhs
    by (cases mid) (auto simp: parseAndValidateRoomID_def strings_Cut_Some split: if_splits option.splits)
next
  assume r: ?rhs
  then have "strings_Cut CHR '':'' (tl mid) = Some (room_opaqueID r, room_domain r)"
    by (simp add: strings_Cut_Some)
  with r show ?lhs by (cases r) (auto simp: parseAndValidateRoomID_def)
qed

lemma ParseUint_Some: "ParseUint bits s = Some n \<Longrightarrow> n < 2 ^ bits \<and> list_all is_digit s \<and> s \<noteq> []"
  by (simp add: ParseUint_def split: if_splits)

lemma splitServerName_parts:
  assumes "splitServerName s = (host, port)"
  shows "(port = -1 \<and> host = s) \<or>
     (\<exists>p n. port = int n \<and> n < 2 ^ 16 \<and> s = host @ CHR '':'' # p \<and> ParseUint 16 p = Some n)"
proof (cases "strings_CutLast CHR '':'' s")
  case None
  with assms show ?thesis by (simp add: splitServerName_def)
next
  case (Some hp)
  then obtain h p where hp: "strings_CutLast CHR '':'' s = Some (h, p)" by (cases hp) auto
  show ?thesis
  proof (cases "ParseUint 16 p")
    case None
    with assms hp show ?thesis by (simp add: splitServerName_def)
  next
    case (Some n)
    with assms hp have "host = h" "port = int n" by (simp_all add: splitServerName_def)
    with hp Some ParseUint_Some [OF Some] show ?thesis by (auto simp: strings_CutLast_Some)
  qed
qed

lemma checkID_Ok_iff:
  "checkID mid sigil = Ok () \<longleftrightarrow>
     CHR '':'' \<in> set mid \<and> hd mid = sigil \<and> RuneCountInString mid \<le> 255 \<and> length mid \<le> 255"
  using strings_Cut_None [of "CHR '':''" mid]
  by (auto simp: checkID_def domainFromID_def maxIDLength_def split: option.splits)

end
