(* ===== verification/RoomVersions.thy ===== *)
theory RoomVersions
  imports Prelude
begin

text \<open>
  The room versions of \<^verbatim>\<open>internal/matrixserver/eventversion.go\<close>: the table that says, per
  version, which state resolution algorithm, event format and checks apply.

  The table's function values are represented by the names of the functions (constructors
  prefixed \<open>F_\<close>); the dispatch to the models of those functions stands where they are
  defined. A function field the table leaves out is nil, and calling it panics: the field
  \<open>checkRestrictedJoinAllowedFunc\<close>, which one entry omits, is therefore an option. The three
  constructors for events always come from the same family and are one field.
\<close>

section \<open>Vocabulary\<close>

type_synonym RoomVersion = string

abbreviation RoomVersionPseudoIDs :: RoomVersion where
  "RoomVersionPseudoIDs \<equiv> ''org.matrix.msc4014''"

datatype StateResAlgorithm = StateResV1 | StateResV2

datatype EventFormat = EventFormatV1 | EventFormatV2

datatype EventIDFormat = EventIDFormatV1 | EventIDFormatV2 | EventIDFormatV3

datatype RedactionAlgorithm =
  F_redactEventJSONV1 | F_redactEventJSONV2 | F_redactEventJSONV3 | F_redactEventJSONV4 | F_redactEventJSONV5

datatype SignatureValidityCheckFunc = F_NoStrictValidityCheck | F_StrictValiditySignatureCheck

datatype CanonicalJSONCheck = F_noVerifyCanonicalJSON | F_verifyEnforcedCanonicalJSON

datatype NotificationLevelCheck = F_noCheckLevels | F_checkNotificationLevels

datatype RestrictedJoinServernameFunc = F_emptyAuthorisedViaServerName | F_extractAuthorisedViaServerName

datatype CheckRestrictedJoinFunc = F_noCheckRestrictedJoin | F_checkRestrictedJoin

datatype ParsePowerLevelsFunc = F_parsePowerLevels | F_parseIntegerPowerLevels

datatype CheckKnockingAllowedFunc = F_disallowKnocking | F_checkKnocking

datatype CheckRestrictedJoinAllowedFunc = F_disallowRestrictedJoins | F_allowRestrictedJoins

datatype CheckCreateEventFunc = F_noCheckCreateEvent | F_checkCreateEvent

datatype NewEventFuncs = EventFuncsV1 | EventFuncsV2

record RoomVersionImpl =
  ver :: RoomVersion
  stable :: bool
  stateResAlgorithm :: StateResAlgorithm
  eventFormat :: EventFormat
  eventIDFormat :: EventIDFormat
  redactionAlgorithm :: RedactionAlgorithm
  signatureValidityCheckFunc :: SignatureValidityCheckFunc
  canonicalJSONCheck :: CanonicalJSONCheck
  notificationLevelCheck :: NotificationLevelCheck
  restrictedJoinServernameFunc :: RestrictedJoinServernameFunc
  checkRestrictedJoinFunc :: CheckRestrictedJoinFunc
  parsePowerLevelsFunc :: ParsePowerLevelsFunc
  checkKnockingAllowedFunc :: CheckKnockingAllowedFunc
  checkRestrictedJoinAllowedFunc :: "CheckRestrictedJoinAllowedFunc option"
  checkCreateEventFunc :: CheckCreateEventFunc
  newEventFuncs :: NewEventFuncs

section \<open>The table\<close>

definition rv_V1 :: RoomVersionImpl where
  "rv_V1 =
     \<lparr>ver = ''1'', stable = True,
      stateResAlgorithm = StateResV1, eventFormat = EventFormatV1, eventIDFormat = EventIDFormatV1,
      redactionAlgorithm = F_redactEventJSONV1,
      signatureValidityCheckFunc = F_NoStrictValidityCheck,
      canonicalJSONCheck = F_noVerifyCanonicalJSON,
      notificationLevelCheck = F_noCheckLevels,
      restrictedJoinServernameFunc = F_emptyAuthorisedViaServerName,
      checkRestrictedJoinFunc = F_noCheckRestrictedJoin,
      parsePowerLevelsFunc = F_parsePowerLevels,
      checkKnockingAllowedFunc = F_disallowKnocking,
      checkRestrictedJoinAllowedFunc = Some F_disallowRestrictedJoins,
      checkCreateEventFunc = F_checkCreateEvent,
      newEventFuncs = EventFuncsV1\<rparr>"

definition rv_V2 :: RoomVersionImpl where
  "rv_V2 =
     \<lparr>ver = ''2'', stable = True,
      stateResAlgorithm = StateResV2, eventFormat = EventFormatV1, eventIDFormat = EventIDFormatV1,
      redactionAlgorithm = F_redactEventJSONV1,
      signatureValidityCheckFunc = F_NoStrictValidityCheck,
      canonicalJSONCheck = F_noVerifyCanonicalJSON,
      notificationLevelCheck = F_noCheckLevels,
      restrictedJoinServernameFunc = F_emptyAuthorisedViaServerName,
      checkRestrictedJoinFunc = F_noCheckRestrictedJoin,
      parsePowerLevelsFunc = F_parsePowerLevels,
      checkKnockingAllowedFunc = F_disallowKnocking,
      checkRestrictedJoinAllowedFunc = Some F_disallowRestrictedJoins,
      checkCreateEventFunc = F_checkCreateEvent,
      newEventFuncs = EventFuncsV1\<rparr>"

definition rv_V3 :: RoomVersionImpl where
  "rv_V3 =
     \<lparr>ver = ''3'', stable = True,
      stateResAlgorithm = StateResV2, eventFormat = EventFormatV2, eventIDFormat = EventIDFormatV2,
      redactionAlgorithm = F_redactEventJSONV1,
      signatureValidityCheckFunc = F_NoStrictValidityCheck,
      canonicalJSONCheck = F_noVerifyCanonicalJSON,
      notificationLevelCheck = F_noCheckLevels,
      restrictedJoinServernameFunc = F_emptyAuthorisedViaServerName,
      checkRestrictedJoinFunc = F_noCheckRestrictedJoin,
      parsePowerLevelsFunc = F_parsePowerLevels,
      checkKnockingAllowedFunc = F_disallowKnocking,
      checkRestrictedJoinAllowedFunc = Some F_disallowRestrictedJoins,
      checkCreateEventFunc = F_checkCreateEvent,
      newEventFuncs = EventFuncsV2\<rparr>"

definition rv_V4 :: RoomVersionImpl where
  "rv_V4 =
     \<lparr>ver = ''4'', stable = True,
      stateResAlgorithm = StateResV2, eventFormat = EventFormatV2, eventIDFormat = EventIDFormatV3,
      redactionAlgorithm = F_redactEventJSONV1,
      signatureValidityCheckFunc = F_NoStrictValidityCheck,
      canonicalJSONCheck = F_noVerifyCanonicalJSON,
      notificationLevelCheck = F_noCheckLevels,
      restrictedJoinServernameFunc = F_emptyAuthorisedViaServerName,
      checkRestrictedJoinFunc = F_noCheckRestrictedJoin,
      parsePowerLevelsFunc = F_parsePowerLevels,
      checkKnockingAllowedFunc = F_disallowKnocking,
      checkRestrictedJoinAllowedFunc = Some F_disallowRestrictedJoins,
      checkCreateEventFunc = F_checkCreateEvent,
      newEventFuncs = EventFuncsV2\<rparr>"

definition rv_V5 :: RoomVersionImpl where
  "rv_V5 =
     \<lparr>ver = ''5'', stable = True,
      stateResAlgorithm = StateResV2, eventFormat = EventFormatV2, eventIDFormat = EventIDFormatV3,
      redactionAlgorithm = F_redactEventJSONV1,
      signatureValidityCheckFunc = F_StrictValiditySignatureCheck,
      canonicalJSONCheck = F_noVerifyCanonicalJSON,
      notificationLevelCheck = F_noCheckLevels,
      restrictedJoinServernameFunc = F_emptyAuthorisedViaServerName,
      checkRestrictedJoinFunc = F_noCheckRestrictedJoin,
      parsePowerLevelsFunc = F_parsePowerLevels,
      checkKnockingAllowedFunc = F_disallowKnocking,
      checkRestrictedJoinAllowedFunc = Some F_disallowRestrictedJoins,
      checkCreateEventFunc = F_checkCreateEvent,
      newEventFuncs = EventFuncsV2\<rparr>"

definition rv_V6 :: RoomVersionImpl where
  "rv_V6 =
     \<lparr>ver = ''6'', stable = True,
      stateResAlgorithm = StateResV2, eventFormat = EventFormatV2, eventIDFormat = EventIDFormatV3,
      redactionAlgorithm = F_redactEventJSONV2,
      signatureValidityCheckFunc = F_StrictValiditySignatureCheck,
      canonicalJSONCheck = F_verifyEnforcedCanonicalJSON,
      notificationLevelCheck = F_checkNotificationLevels,
      restrictedJoinServernameFunc = F_emptyAuthorisedViaServerName,
      checkRestrictedJoinFunc = F_noCheckRestrictedJoin,
      parsePowerLevelsFunc = F_parsePowerLevels,
      checkKnockingAllowedFunc = F_disallowKnocking,
      checkRestrictedJoinAllowedFunc = Some F_disallowRestrictedJoins,
      checkCreateEventFunc = F_checkCreateEvent,
      newEventFuncs = EventFuncsV2\<rparr>"

definition rv_V7 :: RoomVersionImpl where
  "rv_V7 =
     \<lparr>ver = ''7'', stable = True,
      stateResAlgorithm = StateResV2, eventFormat = EventFormatV2, eventIDFormat = EventIDFormatV3,
      redactionAlgorithm = F_redactEventJSONV2,
      signatureValidityCheckFunc = F_StrictValiditySignatureCheck,
      canonicalJSONCheck = F_verifyEnforcedCanonicalJSON,
      notificationLevelCheck = F_checkNotificationLevels,
      restrictedJoinServernameFunc = F_emptyAuthorisedViaServerName,
      checkRestrictedJoinFunc = F_noCheckRestrictedJoin,
      parsePowerLevelsFunc = F_parsePowerLevels,
      checkKnockingAllowedFunc = F_checkKnocking,
      checkRestrictedJoinAllowedFunc = Some F_disallowRestrictedJoins,
      checkCreateEventFunc = F_checkCreateEvent,
      newEventFuncs = EventFuncsV2\<rparr>"

definition rv_V8 :: RoomVersionImpl where
  "rv_V8 =
     \<lparr>ver = ''8'', stable = True,
      stateResAlgorithm = StateResV2, eventFormat = EventFormatV2, eventIDFormat = EventIDFormatV3,
      redactionAlgorithm = F_redactEventJSONV3,
      signatureValidityCheckFunc = F_StrictValiditySignatureCheck,
      canonicalJSONCheck = F_verifyEnforcedCanonicalJSON,
      notificationLevelCheck = F_checkNotificationLevels,
      restrictedJoinServernameFunc = F_extractAuthorisedViaServerName,
      checkRestrictedJoinFunc = F_checkRestrictedJoin,
      parsePowerLevelsFunc = F_parsePowerLevels,
      checkKnockingAllowedFunc = F_checkKnocking,
      checkRestrictedJoinAllowedFunc = Some F_allowRestrictedJoins,
      checkCreateEventFunc = F_checkCreateEvent,
      newEventFuncs = EventFuncsV2\<rparr>"

definition rv_V9 :: RoomVersionImpl where
  "rv_V9 =
     \<lparr>ver = ''9'', stable = True,
      stateResAlgorithm = StateResV2, eventFormat = EventFormatV2, eventIDFormat = EventIDFormatV3,
      redactionAlgorithm = F_redactEventJSONV4,
      signatureValidityCheckFunc = F_StrictValiditySignatureCheck,
      canonicalJSONCheck = F_verifyEnforcedCanonicalJSON,
      notificationLevelCheck = F_checkNotificationLevels,
      restrictedJoinServernameFunc = F_extractAuthorisedViaServerName,
      checkRestrictedJoinFunc = F_checkRestrictedJoin,
      parsePowerLevelsFunc = F_parsePowerLevels,
      checkKnockingAllowedFunc = F_checkKnocking,
      checkRestrictedJoinAllowedFunc = Some F_allowRestrictedJoins,
      checkCreateEventFunc = F_checkCreateEvent,
      newEventFuncs = EventFuncsV2\<rparr>"

definition rv_V10 :: RoomVersionImpl where
  "rv_V10 =
     \<lparr>ver = ''10'', stable = True,
      stateResAlgorithm = StateResV2, eventFormat = EventFormatV2, eventIDFormat = EventIDFormatV3,
      redactionAlgorithm = F_redactEventJSONV4,
      signatureValidityCheckFunc = F_StrictValiditySignatureCheck,
      canonicalJSONCheck = F_verifyEnforcedCanonicalJSON,
      notificationLevelCheck = F_checkNotificationLevels,
      restrictedJoinServernameFunc = F_extractAuthorisedViaServerName,
      checkRestrictedJoinFunc = F_checkRestrictedJoin,
      parsePowerLevelsFunc = F_parseIntegerPowerLevels,
      checkKnockingAllowedFunc = F_checkKnocking,
      checkRestrictedJoinAllowedFunc = Some F_allowRestrictedJoins,
      checkCreateEventFunc = F_checkCreateEvent,
      newEventFuncs = EventFuncsV2\<rparr>"

definition rv_V11 :: RoomVersionImpl where
  "rv_V11 =
     \<lparr>ver = ''11'', stable = True,
      stateResAlgorithm = StateResV2, eventFormat = EventFormatV2, eventIDFormat = EventIDFormatV3,
      redactionAlgorithm = F_redactEventJSONV5,
      signatureValidityCheckFunc = F_StrictValiditySignatureCheck,
      canonicalJSONCheck = F_verifyEnforcedCanonicalJSON,
      notificationLevelCheck = F_checkNotificationLevels,
      restrictedJoinServernameFunc = F_extractAuthorisedViaServerName,
      checkRestrictedJoinFunc = F_checkRestrictedJoin,
      parsePowerLevelsFunc = F_parseIntegerPowerLevels,
      checkKnockingAllowedFunc = F_checkKnocking,
      checkRestrictedJoinAllowedFunc = Some F_allowRestrictedJoins,
      checkCreateEventFunc = F_noCheckCreateEvent,
      newEventFuncs = EventFuncsV2\<rparr>"

definition rv_PseudoIDs :: RoomVersionImpl where
  "rv_PseudoIDs =
     \<lparr>ver = ''org.matrix.msc4014'', stable = False,
      stateResAlgorithm = StateResV2, eventFormat = EventFormatV2, eventIDFormat = EventIDFormatV3,
      redactionAlgorithm = F_redactEventJSONV4,
      signatureValidityCheckFunc = F_StrictValiditySignatureCheck,
      canonicalJSONCheck = F_verifyEnforcedCanonicalJSON,
      notificationLevelCheck = F_checkNotificationLevels,
      restrictedJoinServernameFunc = F_extractAuthorisedViaServerName,
      checkRestrictedJoinFunc = F_checkRestrictedJoin,
      parsePowerLevelsFunc = F_parseIntegerPowerLevels,
      checkKnockingAllowedFunc = F_checkKnocking,
      checkRestrictedJoinAllowedFunc = Some F_allowRestrictedJoins,
      checkCreateEventFunc = F_checkCreateEvent,
      newEventFuncs = EventFuncsV2\<rparr>"

definition rv_msc3667 :: RoomVersionImpl where
  "rv_msc3667 =
     \<lparr>ver = ''org.matrix.msc3667'', stable = False,
      stateResAlgorithm = StateResV2, eventFormat = EventFormatV2, eventIDFormat = EventIDFormatV3,
      redactionAlgorithm = F_redactEventJSONV2,
      signatureValidityCheckFunc = F_StrictValiditySignatureCheck,
      canonicalJSONCheck = F_verifyEnforcedCanonicalJSON,
      notificationLevelCheck = F_checkNotificationLevels,
      restrictedJoinServernameFunc = F_emptyAuthorisedViaServerName,
      checkRestrictedJoinFunc = F_noCheckRestrictedJoin,
      parsePowerLevelsFunc = F_parseIntegerPowerLevels,
      checkKnockingAllowedFunc = F_checkKnocking,
      checkRestrictedJoinAllowedFunc = Some F_disallowRestrictedJoins,
      checkCreateEventFunc = F_checkCreateEvent,
      newEventFuncs = EventFuncsV2\<rparr>"

definition rv_msc3787 :: RoomVersionImpl where
  "rv_msc3787 =
     \<lparr>ver = ''org.matrix.msc3787'', stable = False,
      stateResAlgorithm = StateResV2, eventFormat = EventFormatV2, eventIDFormat = EventIDFormatV3,
      redactionAlgorithm = F_redactEventJSONV4,
      signatureValidityCheckFunc = F_StrictValiditySignatureCheck,
      canonicalJSONCheck = F_verifyEnforcedCanonicalJSON,
      notificationLevelCheck = F_checkNotificationLevels,
      restrictedJoinServernameFunc = F_extractAuthorisedViaServerName,
      checkRestrictedJoinFunc = F_checkRestrictedJoin,
      parsePowerLevelsFunc = F_parsePowerLevels,
      checkKnockingAllowedFunc = F_checkKnocking,
      checkRestrictedJoinAllowedFunc = None,
      checkCreateEventFunc = F_checkCreateEvent,
      newEventFuncs = EventFuncsV2\<rparr>"

definition roomVersionMeta :: "(RoomVersion, RoomVersionImpl) gomap" where
  "roomVersionMeta =
     [(''1'', rv_V1),
      (''2'', rv_V2),
      (''3'', rv_V3),
      (''4'', rv_V4),
      (''5'', rv_V5),
      (''6'', rv_V6),
      (''7'', rv_V7),
      (''8'', rv_V8),
      (''9'', rv_V9),
      (''10'', rv_V10),
      (''11'', rv_V11),
      (''org.matrix.msc4014'', rv_PseudoIDs),
      (''org.matrix.msc3667'', rv_msc3667),
      (''org.matrix.msc3787'', rv_msc3787)]"

lemmas rv_defs =
  rv_V1_def rv_V2_def rv_V3_def rv_V4_def rv_V5_def rv_V6_def rv_V7_def rv_V8_def rv_V9_def rv_V10_def rv_V11_def rv_PseudoIDs_def rv_msc3667_def rv_msc3787_def

section \<open>Operations\<close>

definition KnownRoomVersion :: "RoomVersion \<Rightarrow> bool" where
  "KnownRoomVersion verStr \<longleftrightarrow> map_of roomVersionMeta verStr \<noteq> None"

definition StableRoomVersion :: "RoomVersion \<Rightarrow> bool" where
  "StableRoomVersion verStr =
     (case map_of roomVersionMeta verStr of None \<Rightarrow> False | Some verImpl \<Rightarrow> stable verImpl)"

definition GetRoomVersion :: "RoomVersion \<Rightarrow> RoomVersionImpl outcome" where
  "GetRoomVersion verStr =
     (case map_of roomVersionMeta verStr of
        None \<Rightarrow> Err (GoError ''gomatrixserverlib: unsupported room version %s'')
      | Some v \<Rightarrow> Ok v)"

definition MustGetRoomVersion :: "RoomVersion \<Rightarrow> RoomVersionImpl outcome" where
  "MustGetRoomVersion verStr = (case GetRoomVersion verStr of Ok impl \<Rightarrow> Ok impl | _ \<Rightarrow> Panic)"

definition StableRoomVersions :: "(RoomVersion, RoomVersionImpl) gomap" where
  "StableRoomVersions = filter (\<lambda>(_, version). stable version) roomVersionMeta"

section \<open>The table is consistent\<close>

lemma roomVersionMeta_keys: "distinct (keys roomVersionMeta)"
  by (simp add: roomVersionMeta_def)

lemma roomVersionMeta_ver: "list_all (\<lambda>(k, v). ver v = k) roomVersionMeta"
  by (simp add: roomVersionMeta_def rv_defs)

lemma GetRoomVersion_Ok_iff: "GetRoomVersion v = Ok impl \<longleftrightarrow> map_of roomVersionMeta v = Some impl"
  by (simp add: GetRoomVersion_def split: option.splits)

lemma GetRoomVersion_not_Panic [simp]: "GetRoomVersion v \<noteq> Panic"
  by (simp add: GetRoomVersion_def split: option.splits)

lemma GetRoomVersion_ver: "GetRoomVersion v = Ok impl \<Longrightarrow> ver impl = v"
  using roomVersionMeta_ver by (auto simp: GetRoomVersion_Ok_iff list_all_iff dest: map_of_SomeD)

lemma StableRoomVersions_lookup:
  "map_of StableRoomVersions v =
     (case map_of roomVersionMeta v of Some impl \<Rightarrow> if stable impl then Some impl else None | None \<Rightarrow> None)"
  by (simp add: StableRoomVersions_def roomVersionMeta_def rv_defs)

end
