(* ===== verification/Events.thy ===== *)
theory Events
  imports GoJSON Spec_IDs RoomVersions
begin

text \<open>
  Events as the authorisation rules and state resolution see them: the interface \<^verbatim>\<open>PDU\<close>
  (\<^verbatim>\<open>internal/matrixserver/pdu.go\<close>), as the record of what its methods return, the
  accessors that parse the content (\<^verbatim>\<open>eventV1.go\<close>), the string constants of
  \<^verbatim>\<open>spec/eventtypes.go\<close> and the interface \<^verbatim>\<open>AuthEventProvider\<close> of \<^verbatim>\<open>eventauth.go\<close>.

  An event's content is the parsed JSON document, or \<open>None\<close> for bytes that do not parse.
  \<^verbatim>\<open>RoomID()\<close> parses the room ID on each call and panics on an invalid one; the record
  holds the parsed ID, so it stands for an event whose room ID is valid, and the panic is the
  subject of \<open>eventV1_RoomID\<close>.
\<close>

section \<open>Constants\<close>

abbreviation "Join \<equiv> ''join''"
abbreviation "Ban \<equiv> ''ban''"
abbreviation "Leave \<equiv> ''leave''"
abbreviation "Invite \<equiv> ''invite''"
abbreviation "Knock \<equiv> ''knock''"
abbreviation "Restricted \<equiv> ''restricted''"
abbreviation "KnockRestricted \<equiv> ''knock_restricted''"
abbreviation "Public \<equiv> ''public''"

abbreviation "MRoomCreate \<equiv> ''m.room.create''"
abbreviation "MRoomJoinRules \<equiv> ''m.room.join_rules''"
abbreviation "MRoomPowerLevels \<equiv> ''m.room.power_levels''"
abbreviation "MRoomMember \<equiv> ''m.room.member''"
abbreviation "MRoomThirdPartyInvite \<equiv> ''m.room.third_party_invite''"
abbreviation "MRoomAliases \<equiv> ''m.room.aliases''"
abbreviation "MRoomRedaction \<equiv> ''m.room.redaction''"

section \<open>Events\<close>

record PDU =
  EventID :: string
  StateKey :: "string option"
  EventType :: string
  Content :: "json option"
  SenderID :: string
  EventRoomID :: RoomID
  Version :: RoomVersion
  Redacts :: string
  PrevEventIDs :: "string list"
  AuthEventIDs :: "string list"
  OriginServerTS :: nat
  Depth :: int

definition StateKeyEquals :: "PDU \<Rightarrow> string \<Rightarrow> bool" where
  "StateKeyEquals e s = (case StateKey e of None \<Rightarrow> False | Some k \<Rightarrow> k = s)"

lemma StateKeyEquals_iff [simp]: "StateKeyEquals e s \<longleftrightarrow> StateKey e = Some s"
  by (auto simp: StateKeyEquals_def split: option.splits)

text \<open>A state key tuple, the key under which a room's state holds an event.\<close>

type_synonym StateKeyTuple = "string \<times> string"

definition tuple_of :: "PDU \<Rightarrow> StateKeyTuple option" where
  "tuple_of e = map_option (\<lambda>k. (EventType e, k)) (StateKey e)"

lemma tuple_of_Some [simp]: "tuple_of e = Some (t, k) \<longleftrightarrow> EventType e = t \<and> StateKey e = Some k"
  by (auto simp: tuple_of_def)

text \<open>\<^verbatim>\<open>Membership()\<close>: the membership key of the content, for a state event.\<close>

definition Membership :: "PDU \<Rightarrow> string outcome" where
  "Membership e =
     (case Unmarshal (dec_struct [(''membership'', fld (\<lambda>s. s) (\<lambda>x _. x) dec_string)]) (Content e) [] of
        (m, err) \<Rightarrow>
          if err then Err (GoError ''json'')
          else if StateKey e = None
            then Err (GoError
              ''gomatrixserverlib: Membersip() event is not a m.room.member event, missing state key'')
          else Ok m)"

text \<open>\<^verbatim>\<open>RoomID()\<close> on the raw \<^verbatim>\<open>room_id\<close> field of an event.\<close>

definition eventV1_RoomID :: "string \<Rightarrow> RoomID outcome" where
  "eventV1_RoomID raw = (case NewRoomID raw of Ok r \<Rightarrow> Ok r | _ \<Rightarrow> Panic)"

section \<open>Who an event is from\<close>

text \<open>\<^verbatim>\<open>spec.UserIDForSender\<close>, the callback that resolves a sender ID in a room.\<close>

type_synonym UserIDForSender = "RoomID \<Rightarrow> string \<Rightarrow> UserID option outcome"

section \<open>Where the auth events come from\<close>

text \<open>
  The interface \<^verbatim>\<open>AuthEventProvider\<close>, as the record of its answers. \<open>prov_ident\<close> is the
  identity of the object behind the interface, which \<^verbatim>\<open>allowerContext.update\<close> compares.
\<close>

record AuthEventProvider =
  prov_ident :: nat
  prov_Create :: "PDU option outcome"
  prov_JoinRules :: "PDU option outcome"
  prov_PowerLevels :: "PDU option outcome"
  prov_Member :: "string \<Rightarrow> PDU option outcome"
  prov_ThirdPartyInvite :: "string \<Rightarrow> PDU option outcome"
  prov_Valid :: bool

end
