(* ===== verification/Base64.thy ===== *)
theory Base64
  imports GoJSON
begin

text \<open>
  \<^verbatim>\<open>spec.Base64Bytes\<close> (\<^verbatim>\<open>internal/matrixserver/spec/base64.go\<close>): unpadded base64 for
  keys and signatures, over Go's \<^verbatim>\<open>base64.RawStdEncoding\<close> and \<^verbatim>\<open>RawURLEncoding\<close>. The
  decoder skips line breaks, refuses any other byte outside the alphabet and a dangling
  sixth of a byte, and ignores the unused low bits of the last character.
\<close>

section \<open>The library's encodings\<close>

definition std_alphabet :: string where
  "std_alphabet = ''ABCDEFGHIJKLMNOPQRSTUVWXYZabcdefghijklmnopqrstuvwxyz0123456789+/''"

definition url_alphabet :: string where
  "url_alphabet = ''ABCDEFGHIJKLMNOPQRSTUVWXYZabcdefghijklmnopqrstuvwxyz0123456789-_''"

fun sextets :: "nat list \<Rightarrow> nat list" where
  "sextets [] = []"
| "sextets [a] = [a div 4, a mod 4 * 16]"
| "sextets [a, b] = [a div 4, a mod 4 * 16 + b div 16, b mod 16 * 4]"
| "sextets (a # b # c # bs) =
     a div 4 # (a mod 4 * 16 + b div 16) # (b mod 16 * 4 + c div 64) # (c mod 64) # sextets bs"

fun octets :: "nat list \<Rightarrow> nat list option" where
  "octets [] = Some []"
| "octets [a] = None"
| "octets [a, b] = Some [a * 4 + b div 16]"
| "octets [a, b, c] = Some [a * 4 + b div 16, b mod 16 * 16 + c div 4]"
| "octets (a # b # c # d # ss) =
     map_option (\<lambda>bs. (a * 4 + b div 16) # (b mod 16 * 16 + c div 4) # (c mod 4 * 64 + d) # bs) (octets ss)"

fun index_of :: "char \<Rightarrow> string \<Rightarrow> nat option" where
  "index_of c [] = None"
| "index_of c (x # xs) = (if c = x then Some 0 else map_option Suc (index_of c xs))"

definition EncodeToString :: "string \<Rightarrow> string \<Rightarrow> string" where
  "EncodeToString alphabet bytes = map (\<lambda>n. alphabet ! n) (sextets (map of_char bytes))"

definition DecodeString :: "string \<Rightarrow> string \<Rightarrow> string option" where
  "DecodeString alphabet s =
     (let vals = map (\<lambda>c. index_of c alphabet) (filter (\<lambda>c. c \<noteq> CHR 0x0A \<and> c \<noteq> CHR 0x0D) s)
      in if list_all (\<lambda>v. v \<noteq> None) vals
         then map_option (map char_of) (octets (map the vals)) else None)"

section \<open>Base64Bytes\<close>

definition Encode :: "string \<Rightarrow> string" where
  "Encode b64 = EncodeToString std_alphabet b64"

definition Decode :: "string \<Rightarrow> string outcome" where
  "Decode str =
     (case (if CHR ''-'' \<in> set str \<or> CHR ''_'' \<in> set str
            then DecodeString url_alphabet str else DecodeString std_alphabet str) of
        None \<Rightarrow> Err (GoError ''illegal base64 data at input byte %d'')
      | Some b64 \<Rightarrow> Ok b64)"

text \<open>\<^verbatim>\<open>UnmarshalJSON\<close>: a JSON string (or null, read as the empty string) that decodes.\<close>

definition dec_Base64Bytes :: "string decoder" where
  "dec_Base64Bytes j b64 =
     (case dec_string j [] of (str, e) \<Rightarrow>
        if e \<noteq> DNone then (b64, DAbort)
        else (case Decode str of Ok bytes \<Rightarrow> (bytes, DNone) | _ \<Rightarrow> (b64, DAbort)))"

section \<open>Decoding reverses encoding\<close>

lemma index_of_nth: "distinct xs \<Longrightarrow> n < length xs \<Longrightarrow> index_of (xs ! n) xs = Some n"
proof (induction xs arbitrary: n)
  case (Cons x xs)
  then show ?case by (cases n) auto
qed simp

lemma std_alphabet_facts:
  "length std_alphabet = 64" "distinct std_alphabet"
  "CHR ''-'' \<notin> set std_alphabet" "CHR ''_'' \<notin> set std_alphabet"
  "CHR 0x0A \<notin> set std_alphabet" "CHR 0x0D \<notin> set std_alphabet"
  by (simp_all add: std_alphabet_def)

lemma sextets_bound: "\<forall>b \<in> set bs. b < 256 \<Longrightarrow> \<forall>s \<in> set (sextets bs). s < 64"
  by (induction bs rule: sextets.induct) auto

lemma octets_sextets: "\<forall>b \<in> set bs. b < 256 \<Longrightarrow> octets (sextets bs) = Some bs"
proof (induction bs rule: sextets.induct)
  case (2 a)
  then show ?case by simp
next
  case (3 a b)
  then have "b div 16 < 16" by (simp add: less_mult_imp_div_less)
  then show ?case by simp
next
  case (4 a b c bs)
  then have IH: "octets (sextets bs) = Some bs" by simp
  from "4.prems" have "b div 16 < 16" "c div 64 < 4" by (simp_all add: less_mult_imp_div_less)
  with IH show ?case by simp
qed simp

lemma Encode_set: "set (Encode bytes) \<subseteq> set std_alphabet"
  using sextets_bound [of "map of_char bytes"] std_alphabet_facts(1)
  by (auto simp: Encode_def EncodeToString_def)

text \<open>
  What was encoded is decoded to the same bytes.
\<close>

lemma base64_roundtrip: "Decode (Encode bytes) = Ok bytes"
proof -
  let ?ss = "sextets (map of_char bytes)"
  have bound: "\<forall>s \<in> set ?ss. s < length std_alphabet"
    using sextets_bound [of "map of_char bytes"] by (auto simp: std_alphabet_facts)
  have vals: "map (\<lambda>c. index_of c std_alphabet) (Encode bytes) = map Some ?ss"
    using bound by (auto simp: Encode_def EncodeToString_def index_of_nth std_alphabet_facts)
  have clean: "CHR ''-'' \<notin> set (Encode bytes)" "CHR ''_'' \<notin> set (Encode bytes)"
    "filter (\<lambda>c. c \<noteq> CHR 0x0A \<and> c \<noteq> CHR 0x0D) (Encode bytes) = Encode bytes"
    using Encode_set [of bytes] std_alphabet_facts by (auto simp: filter_id_conv)
  have "octets ?ss = Some (map of_char bytes)" by (rule octets_sextets) auto
  then have "DecodeString std_alphabet (Encode bytes) = Some bytes"
    by (simp add: DecodeString_def clean vals list_all_iff comp_def)
  then show ?thesis by (simp add: Decode_def clean)
qed

end
