(* ===== verification/EventContent.thy ===== *)
theory EventContent
  imports Events Base64
begin

text \<open>
  The contents of the events the authorisation rules read
  (\<^verbatim>\<open>internal/matrixserver/eventcontent.go\<close>, and \<^verbatim>\<open>membershipContent\<close> of
  \<^verbatim>\<open>eventauth.go\<close>): the structs, how they are decoded from JSON, the defaults that apply when
  an event is missing and the level lookups.
\<close>

section \<open>m.room.create\<close>

record PreviousRoom =
  pr_RoomID :: string
  pr_EventID :: string

record CreateContent =
  cc_senderDomain :: string
  cc_roomID :: string
  cc_eventID :: string
  cc_Federate :: "bool option"
  cc_Creator :: string
  cc_RoomVersion :: "RoomVersion option"
  cc_Predecessor :: "PreviousRoom option"
  cc_RoomType :: string

definition zero_CreateContent :: CreateContent where
  "zero_CreateContent = \<lparr>cc_senderDomain = [], cc_roomID = [], cc_eventID = [], cc_Federate = None,
     cc_Creator = [], cc_RoomVersion = None, cc_Predecessor = None, cc_RoomType = []\<rparr>"

definition dec_PreviousRoom :: "PreviousRoom decoder" where
  "dec_PreviousRoom = dec_struct
     [(''room_id'', fld pr_RoomID (\<lambda>x s. s\<lparr>pr_RoomID := x\<rparr>) dec_string),
      (''event_id'', fld pr_EventID (\<lambda>x s. s\<lparr>pr_EventID := x\<rparr>) dec_string)]"

definition dec_CreateContent :: "CreateContent decoder" where
  "dec_CreateContent = dec_struct
     [(''m.federate'', fld cc_Federate (\<lambda>x s. s\<lparr>cc_Federate := x\<rparr>) (dec_ptr False dec_bool)),
      (''creator'', fld cc_Creator (\<lambda>x s. s\<lparr>cc_Creator := x\<rparr>) dec_string),
      (''room_version'', fld cc_RoomVersion (\<lambda>x s. s\<lparr>cc_RoomVersion := x\<rparr>) (dec_ptr [] dec_string)),
      (''predecessor'', fld cc_Predecessor (\<lambda>x s. s\<lparr>cc_Predecessor := x\<rparr>)
         (dec_ptr \<lparr>pr_RoomID = [], pr_EventID = []\<rparr> dec_PreviousRoom)),
      (''type'', fld cc_RoomType (\<lambda>x s. s\<lparr>cc_RoomType := x\<rparr>) dec_string)]"

definition NewCreateContentFromAuthEvents ::
  "AuthEventProvider \<Rightarrow> UserIDForSender \<Rightarrow> CreateContent outcome" where
  "NewCreateContentFromAuthEvents authEvents userIDForSender =
     and_then (prov_Create authEvents) (\<lambda>createEvent.
       case createEvent of
         None \<Rightarrow> Err (NotAllowed ''missing create event'')
       | Some ev \<Rightarrow>
           (case Unmarshal dec_CreateContent (Content ev) zero_CreateContent of (c, err) \<Rightarrow>
              if err then Err (NotAllowed ''unparseable create event content: %s'')
              else (case userIDForSender (EventRoomID ev) (SenderID ev) of
                  Panic \<Rightarrow> Panic
                | Err _ \<Rightarrow> Err (NotAllowed ''invalid sender userID: %s'')
                | Ok None \<Rightarrow> Err (NotAllowed ''userID not found for sender: %s in room %s'')
                | Ok (Some sender) \<Rightarrow>
                    Ok (c\<lparr>cc_roomID := room_raw (EventRoomID ev), cc_eventID := EventID ev,
                         cc_senderDomain := user_domain sender\<rparr>))))"

definition DomainAllowed :: "CreateContent \<Rightarrow> string \<Rightarrow> unit outcome" where
  "DomainAllowed c domain =
     (if domain = cc_senderDomain c then Ok ()
      else if cc_Federate c = None \<or> cc_Federate c = Some True then Ok ()
      else Err (NotAllowed ''room is unfederatable''))"

definition UserIDAllowed :: "CreateContent \<Rightarrow> UserID \<Rightarrow> unit outcome" where
  "UserIDAllowed c uid = DomainAllowed c (user_domain uid)"

text \<open>The create-event check of room versions 1 to 10, and the one of version 11.\<close>

definition dec_checkCreate :: "(string option \<times> RoomVersion option) decoder" where
  "dec_checkCreate = dec_struct
     [(''creator'', fld fst (\<lambda>x s. (x, snd s)) (dec_ptr [] dec_string)),
      (''room_version'', fld snd (\<lambda>x s. (fst s, x)) (dec_ptr [] dec_string))]"

definition checkCreateEvent :: "PDU \<Rightarrow> (RoomVersion \<Rightarrow> bool) \<Rightarrow> unit outcome" where
  "checkCreateEvent event knownRoomVersion =
     (case Unmarshal dec_checkCreate (Content event) (None, None) of ((creator, roomVersion), err) \<Rightarrow>
        if err then Err (NotAllowed ''create event has invalid content: %s'')
        else if creator = None then Err (NotAllowed ''create event has no creator field'')
        else (case roomVersion of
            None \<Rightarrow> Ok ()
          | Some rv \<Rightarrow> if knownRoomVersion rv then Ok ()
              else Err (NotAllowed ''create event has unrecognised room version %q'')))"

definition noCheckCreateEvent :: "PDU \<Rightarrow> (RoomVersion \<Rightarrow> bool) \<Rightarrow> unit outcome" where
  "noCheckCreateEvent event knownRoomVersion = Ok ()"

definition CheckCreateEvent :: "RoomVersionImpl \<Rightarrow> PDU \<Rightarrow> (RoomVersion \<Rightarrow> bool) \<Rightarrow> unit outcome" where
  "CheckCreateEvent v event knownRoomVersion =
     (case checkCreateEventFunc v of
        F_checkCreateEvent \<Rightarrow> checkCreateEvent event knownRoomVersion
      | F_noCheckCreateEvent \<Rightarrow> noCheckCreateEvent event knownRoomVersion)"

section \<open>m.room.member\<close>

record MemberThirdPartyInviteSigned =
  sg_MXID :: string
  sg_Signatures :: "(string, (string, string) gomap) gomap"
  sg_Token :: string

record MemberThirdPartyInvite =
  ti_DisplayName :: string
  ti_Signed :: MemberThirdPartyInviteSigned

record MXIDMapping =
  mx_UserRoomKey :: string
  mx_UserID :: string
  mx_Signatures :: "(string, (string, string) gomap) gomap"

record MemberContent =
  mc_Membership :: string
  mc_DisplayName :: string
  mc_AvatarURL :: string
  mc_Reason :: string
  mc_IsDirect :: bool
  mc_ThirdPartyInvite :: "MemberThirdPartyInvite option"
  mc_AuthorisedVia :: string
  mc_MXIDMapping :: "MXIDMapping option"

text \<open>The minimum of a membership event's content that the rules need.\<close>

record membershipContent =
  ms_Membership :: string
  ms_ThirdPartyInvite :: "MemberThirdPartyInvite option"
  ms_AuthorizedVia :: string
  ms_MXIDMapping :: "MXIDMapping option"

definition zero_Signed :: MemberThirdPartyInviteSigned where
  "zero_Signed = \<lparr>sg_MXID = [], sg_Signatures = [], sg_Token = []\<rparr>"

definition zero_MemberThirdPartyInvite :: MemberThirdPartyInvite where
  "zero_MemberThirdPartyInvite = \<lparr>ti_DisplayName = [], ti_Signed = zero_Signed\<rparr>"

definition zero_MXIDMapping :: MXIDMapping where
  "zero_MXIDMapping = \<lparr>mx_UserRoomKey = [], mx_UserID = [], mx_Signatures = []\<rparr>"

definition zero_MemberContent :: MemberContent where
  "zero_MemberContent = \<lparr>mc_Membership = [], mc_DisplayName = [], mc_AvatarURL = [], mc_Reason = [],
     mc_IsDirect = False, mc_ThirdPartyInvite = None, mc_AuthorisedVia = [], mc_MXIDMapping = None\<rparr>"

definition zero_membershipContent :: membershipContent where
  "zero_membershipContent = \<lparr>ms_Membership = [], ms_ThirdPartyInvite = None, ms_AuthorizedVia = [],
     ms_MXIDMapping = None\<rparr>"

definition dec_Signed :: "MemberThirdPartyInviteSigned decoder" where
  "dec_Signed = dec_struct
     [(''mxid'', fld sg_MXID (\<lambda>x s. s\<lparr>sg_MXID := x\<rparr>) dec_string),
      (''signatures'', fld sg_Signatures (\<lambda>x s. s\<lparr>sg_Signatures := x\<rparr>)
         (dec_map [] (dec_map [] dec_string))),
      (''token'', fld sg_Token (\<lambda>x s. s\<lparr>sg_Token := x\<rparr>) dec_string)]"

definition dec_MemberThirdPartyInvite :: "MemberThirdPartyInvite decoder" where
  "dec_MemberThirdPartyInvite = dec_struct
     [(''display_name'', fld ti_DisplayName (\<lambda>x s. s\<lparr>ti_DisplayName := x\<rparr>) dec_string),
      (''signed'', fld ti_Signed (\<lambda>x s. s\<lparr>ti_Signed := x\<rparr>) dec_Signed)]"

definition dec_MXIDMapping :: "MXIDMapping decoder" where
  "dec_MXIDMapping = dec_struct
     [(''user_room_key'', fld mx_UserRoomKey (\<lambda>x s. s\<lparr>mx_UserRoomKey := x\<rparr>) dec_string),
      (''user_id'', fld mx_UserID (\<lambda>x s. s\<lparr>mx_UserID := x\<rparr>) dec_string),
      (''signatures'', fld mx_Signatures (\<lambda>x s. s\<lparr>mx_Signatures := x\<rparr>)
         (dec_map [] (dec_map [] dec_Base64Bytes)))]"

definition dec_MemberContent :: "MemberContent decoder" where
  "dec_MemberContent = dec_struct
     [(''membership'', fld mc_Membership (\<lambda>x s. s\<lparr>mc_Membership := x\<rparr>) dec_string),
      (''displayname'', fld mc_DisplayName (\<lambda>x s. s\<lparr>mc_DisplayName := x\<rparr>) dec_string),
      (''avatar_url'', fld mc_AvatarURL (\<lambda>x s. s\<lparr>mc_AvatarURL := x\<rparr>) dec_string),
      (''reason'', fld mc_Reason (\<lambda>x s. s\<lparr>mc_Reason := x\<rparr>) dec_string),
      (''is_direct'', fld mc_IsDirect (\<lambda>x s. s\<lparr>mc_IsDirect := x\<rparr>) dec_bool),
      (''third_party_invite'', fld mc_ThirdPartyInvite (\<lambda>x s. s\<lparr>mc_ThirdPartyInvite := x\<rparr>)
         (dec_ptr zero_MemberThirdPartyInvite dec_MemberThirdPartyInvite)),
      (''join_authorised_via_users_server'',
         fld mc_AuthorisedVia (\<lambda>x s. s\<lparr>mc_AuthorisedVia := x\<rparr>) dec_string),
      (''mxid_mapping'', fld mc_MXIDMapping (\<lambda>x s. s\<lparr>mc_MXIDMapping := x\<rparr>)
         (dec_ptr zero_MXIDMapping dec_MXIDMapping))]"

definition dec_membershipContent :: "membershipContent decoder" where
  "dec_membershipContent = dec_struct
     [(''membership'', fld ms_Membership (\<lambda>x s. s\<lparr>ms_Membership := x\<rparr>) dec_string),
      (''third_party_invite'', fld ms_ThirdPartyInvite (\<lambda>x s. s\<lparr>ms_ThirdPartyInvite := x\<rparr>)
         (dec_ptr zero_MemberThirdPartyInvite dec_MemberThirdPartyInvite)),
      (''join_authorised_via_users_server'',
         fld ms_AuthorizedVia (\<lambda>x s. s\<lparr>ms_AuthorizedVia := x\<rparr>) dec_string),
      (''mxid_mapping'', fld ms_MXIDMapping (\<lambda>x s. s\<lparr>ms_MXIDMapping := x\<rparr>)
         (dec_ptr zero_MXIDMapping dec_MXIDMapping))]"

definition NewMemberContentFromEvent :: "PDU \<Rightarrow> MemberContent outcome" where
  "NewMemberContentFromEvent event =
     (case Unmarshal dec_MemberContent (Content event) zero_MemberContent of (c, err) \<Rightarrow>
        if \<not> err then Ok c
        else (case Unmarshal dec_membershipContent (Content event) zero_membershipContent of
            (partial, err') \<Rightarrow>
              if err' then Err (NotAllowed ''unparseable member event content: %s'')
              else Ok (c\<lparr>mc_Membership := ms_Membership partial,
                         mc_ThirdPartyInvite := ms_ThirdPartyInvite partial,
                         mc_AuthorisedVia := ms_AuthorizedVia partial,
                         mc_MXIDMapping := ms_MXIDMapping partial\<rparr>)))"

definition NewMemberContentFromAuthEvents :: "AuthEventProvider \<Rightarrow> string \<Rightarrow> MemberContent outcome" where
  "NewMemberContentFromAuthEvents authEvents senderID =
     and_then (prov_Member authEvents senderID) (\<lambda>memberEvent.
       case memberEvent of
         None \<Rightarrow> Ok (zero_MemberContent\<lparr>mc_Membership := Leave\<rparr>)
       | Some ev \<Rightarrow> NewMemberContentFromEvent ev)"

section \<open>m.room.third_party_invite\<close>

record PublicKey =
  pk_PublicKey :: string
  pk_KeyValidityURL :: string

record ThirdPartyInviteContent =
  tp_DisplayName :: string
  tp_KeyValidityURL :: string
  tp_PublicKey :: string
  tp_PublicKeys :: "PublicKey list"

definition zero_ThirdPartyInviteContent :: ThirdPartyInviteContent where
  "zero_ThirdPartyInviteContent =
     \<lparr>tp_DisplayName = [], tp_KeyValidityURL = [], tp_PublicKey = [], tp_PublicKeys = []\<rparr>"

definition dec_PublicKey :: "PublicKey decoder" where
  "dec_PublicKey = dec_struct
     [(''public_key'', fld pk_PublicKey (\<lambda>x s. s\<lparr>pk_PublicKey := x\<rparr>) dec_Base64Bytes),
      (''key_validity_url'', fld pk_KeyValidityURL (\<lambda>x s. s\<lparr>pk_KeyValidityURL := x\<rparr>) dec_string)]"

definition dec_ThirdPartyInviteContent :: "ThirdPartyInviteContent decoder" where
  "dec_ThirdPartyInviteContent = dec_struct
     [(''display_name'', fld tp_DisplayName (\<lambda>x s. s\<lparr>tp_DisplayName := x\<rparr>) dec_string),
      (''key_validity_url'', fld tp_KeyValidityURL (\<lambda>x s. s\<lparr>tp_KeyValidityURL := x\<rparr>) dec_string),
      (''public_key'', fld tp_PublicKey (\<lambda>x s. s\<lparr>tp_PublicKey := x\<rparr>) dec_string),
      (''public_keys'', fld tp_PublicKeys (\<lambda>x s. s\<lparr>tp_PublicKeys := x\<rparr>)
         (dec_slice \<lparr>pk_PublicKey = [], pk_KeyValidityURL = []\<rparr> dec_PublicKey))]"

definition NewThirdPartyInviteContentFromAuthEvents ::
  "AuthEventProvider \<Rightarrow> string \<Rightarrow> ThirdPartyInviteContent outcome" where
  "NewThirdPartyInviteContentFromAuthEvents authEvents token =
     and_then (prov_ThirdPartyInvite authEvents token) (\<lambda>thirdPartyInviteEvent.
       case thirdPartyInviteEvent of
         None \<Rightarrow> Err (NotAllowed ''Could not find third party invite event'')
       | Some ev \<Rightarrow>
           (case Unmarshal dec_ThirdPartyInviteContent (Content ev) zero_ThirdPartyInviteContent of
              (t, err) \<Rightarrow>
                if err then Err (NotAllowed ''unparseable third party invite event content: %s'')
                else Ok t))"

section \<open>m.room.join_rules\<close>

record JoinRuleContentAllowRule =
  ar_Type :: string
  ar_RoomID :: string

record JoinRuleContent =
  jr_JoinRule :: string
  jr_Allow :: "JoinRuleContentAllowRule list"

definition dec_AllowRule :: "JoinRuleContentAllowRule decoder" where
  "dec_AllowRule = dec_struct
     [(''type'', fld ar_Type (\<lambda>x s. s\<lparr>ar_Type := x\<rparr>) dec_string),
      (''room_id'', fld ar_RoomID (\<lambda>x s. s\<lparr>ar_RoomID := x\<rparr>) dec_string)]"

definition dec_JoinRuleContent :: "JoinRuleContent decoder" where
  "dec_JoinRuleContent = dec_struct
     [(''join_rule'', fld jr_JoinRule (\<lambda>x s. s\<lparr>jr_JoinRule := x\<rparr>) dec_string),
      (''allow'', fld jr_Allow (\<lambda>x s. s\<lparr>jr_Allow := x\<rparr>)
         (dec_slice \<lparr>ar_Type = [], ar_RoomID = []\<rparr> dec_AllowRule))]"

definition NewJoinRuleContentFromAuthEvents :: "AuthEventProvider \<Rightarrow> JoinRuleContent outcome" where
  "NewJoinRuleContentFromAuthEvents authEvents =
     and_then (prov_JoinRules authEvents) (\<lambda>joinRulesEvent.
       case joinRulesEvent of
         None \<Rightarrow> Ok \<lparr>jr_JoinRule = Invite, jr_Allow = []\<rparr>
       | Some ev \<Rightarrow>
           (case Unmarshal dec_JoinRuleContent (Content ev) \<lparr>jr_JoinRule = Invite, jr_Allow = []\<rparr> of
              (c, err) \<Rightarrow>
                if err then Err (NotAllowed ''unparseable join_rules event content: %s'') else Ok c))"

section \<open>m.room.power_levels\<close>

record PowerLevelContent =
  pl_Ban :: int
  pl_Invite :: int
  pl_Kick :: int
  pl_Redact :: int
  pl_Users :: "(string, int) gomap"
  pl_UsersDefault :: int
  pl_Events :: "(string, int) gomap"
  pl_EventsDefault :: int
  pl_StateDefault :: int
  pl_Notifications :: "(string, int) gomap"

definition UserLevel :: "PowerLevelContent \<Rightarrow> string \<Rightarrow> int" where
  "UserLevel c senderID =
     (case map_of (pl_Users c) senderID of Some level \<Rightarrow> level | None \<Rightarrow> pl_UsersDefault c)"

definition EventLevel :: "PowerLevelContent \<Rightarrow> string \<Rightarrow> bool \<Rightarrow> int" where
  "EventLevel c eventType isState =
     (if eventType = MRoomThirdPartyInvite then pl_Invite c
      else (case map_of (pl_Events c) eventType of
          Some level \<Rightarrow> level
        | None \<Rightarrow> if isState then pl_StateDefault c else pl_EventsDefault c))"

definition NotificationLevel :: "PowerLevelContent \<Rightarrow> string \<Rightarrow> int" where
  "NotificationLevel c notification =
     (case map_of (pl_Notifications c) notification of Some level \<Rightarrow> level | None \<Rightarrow> 50)"

text \<open>\<^verbatim>\<open>Defaults\<close> overwrites every level but \<^verbatim>\<open>Users\<close> and \<^verbatim>\<open>Events\<close>.\<close>

definition Defaults :: "PowerLevelContent \<Rightarrow> PowerLevelContent" where
  "Defaults c = c\<lparr>pl_Invite := 0, pl_Ban := 50, pl_Kick := 50, pl_Redact := 50, pl_UsersDefault := 0,
     pl_EventsDefault := 0, pl_StateDefault := 50, pl_Notifications := [(''room'', 50)]\<rparr>"

definition zero_PowerLevelContent :: PowerLevelContent where
  "zero_PowerLevelContent = \<lparr>pl_Ban = 0, pl_Invite = 0, pl_Kick = 0, pl_Redact = 0, pl_Users = [],
     pl_UsersDefault = 0, pl_Events = [], pl_EventsDefault = 0, pl_StateDefault = 0,
     pl_Notifications = []\<rparr>"

text \<open>Room versions 10 and up: integers only, decoded over the defaults.\<close>

definition dec_PowerLevelContent :: "PowerLevelContent decoder" where
  "dec_PowerLevelContent = dec_struct
     [(''ban'', fld pl_Ban (\<lambda>x s. s\<lparr>pl_Ban := x\<rparr>) dec_int64),
      (''invite'', fld pl_Invite (\<lambda>x s. s\<lparr>pl_Invite := x\<rparr>) dec_int64),
      (''kick'', fld pl_Kick (\<lambda>x s. s\<lparr>pl_Kick := x\<rparr>) dec_int64),
      (''redact'', fld pl_Redact (\<lambda>x s. s\<lparr>pl_Redact := x\<rparr>) dec_int64),
      (''users'', fld pl_Users (\<lambda>x s. s\<lparr>pl_Users := x\<rparr>) (dec_map 0 dec_int64)),
      (''users_default'', fld pl_UsersDefault (\<lambda>x s. s\<lparr>pl_UsersDefault := x\<rparr>) dec_int64),
      (''events'', fld pl_Events (\<lambda>x s. s\<lparr>pl_Events := x\<rparr>) (dec_map 0 dec_int64)),
      (''events_default'', fld pl_EventsDefault (\<lambda>x s. s\<lparr>pl_EventsDefault := x\<rparr>) dec_int64),
      (''state_default'', fld pl_StateDefault (\<lambda>x s. s\<lparr>pl_StateDefault := x\<rparr>) dec_int64),
      (''notifications'', fld pl_Notifications (\<lambda>x s. s\<lparr>pl_Notifications := x\<rparr>) (dec_map 0 dec_int64))]"

definition parseIntegerPowerLevels :: "json option \<Rightarrow> PowerLevelContent \<Rightarrow> PowerLevelContent outcome" where
  "parseIntegerPowerLevels contentBytes c =
     (case Unmarshal dec_PowerLevelContent contentBytes c of (c', err) \<Rightarrow>
        if err then Err (GoError ''json'') else Ok c')"

text \<open>
  Earlier versions take what Python's \<^verbatim>\<open>int()\<close> would: integers, strings of digits and
  floats. \<open>None\<close> is a level that was not in the document.
\<close>

type_synonym levelJSONValue = "int option"

definition dec_levelJSONValue :: "levelJSONValue decoder" where
  "dec_levelJSONValue j v =
     (case j of
        JNum raw \<Rightarrow>
          (case ParseInt64 raw of
             Some n \<Rightarrow> (Some n, DNone)
           | None \<Rightarrow> (case ParseFloat64 raw of
               Some f \<Rightarrow> (Some (int64_of_float f), DNone)
             | None \<Rightarrow> (v, DAbort)))
      | JStr s \<Rightarrow>
          (case ParseInt64 (TrimSpace s) of Some n \<Rightarrow> (Some n, DNone) | None \<Rightarrow> (v, DAbort))
      | _ \<Rightarrow> (v, DAbort))"

record powerLevelJSON =
  pj_Invite :: levelJSONValue
  pj_Ban :: levelJSONValue
  pj_Kick :: levelJSONValue
  pj_Redact :: levelJSONValue
  pj_Users :: "(string, levelJSONValue) gomap"
  pj_UsersDefault :: levelJSONValue
  pj_Events :: "(string, levelJSONValue) gomap"
  pj_StateDefault :: levelJSONValue
  pj_EventsDefault :: levelJSONValue
  pj_Notifications :: "(string, levelJSONValue) gomap"

definition dec_powerLevelJSON :: "powerLevelJSON decoder" where
  "dec_powerLevelJSON = dec_struct
     [(''invite'', fld pj_Invite (\<lambda>x s. s\<lparr>pj_Invite := x\<rparr>) dec_levelJSONValue),
      (''ban'', fld pj_Ban (\<lambda>x s. s\<lparr>pj_Ban := x\<rparr>) dec_levelJSONValue),
      (''kick'', fld pj_Kick (\<lambda>x s. s\<lparr>pj_Kick := x\<rparr>) dec_levelJSONValue),
      (''redact'', fld pj_Redact (\<lambda>x s. s\<lparr>pj_Redact := x\<rparr>) dec_levelJSONValue),
      (''users'', fld pj_Users (\<lambda>x s. s\<lparr>pj_Users := x\<rparr>) (dec_map None dec_levelJSONValue)),
      (''users_default'', fld pj_UsersDefault (\<lambda>x s. s\<lparr>pj_UsersDefault := x\<rparr>) dec_levelJSONValue),
      (''events'', fld pj_Events (\<lambda>x s. s\<lparr>pj_Events := x\<rparr>) (dec_map None dec_levelJSONValue)),
      (''state_default'', fld pj_StateDefault (\<lambda>x s. s\<lparr>pj_StateDefault := x\<rparr>) dec_levelJSONValue),
      (''events_default'', fld pj_EventsDefault (\<lambda>x s. s\<lparr>pj_EventsDefault := x\<rparr>) dec_levelJSONValue),
      (''notifications'', fld pj_Notifications (\<lambda>x s. s\<lparr>pj_Notifications := x\<rparr>)
         (dec_map None dec_levelJSONValue))]"

definition assignIfExists :: "levelJSONValue \<Rightarrow> int \<Rightarrow> int" where
  "assignIfExists v to = (case v of Some n \<Rightarrow> n | None \<Rightarrow> to)"

definition assignLevels :: "(string, levelJSONValue) gomap \<Rightarrow> (string, int) gomap \<Rightarrow> (string, int) gomap" where
  "assignLevels levels m =
     fold (\<lambda>(k, v) m. AList.update k (case v of Some n \<Rightarrow> n | None \<Rightarrow> 0) m) levels m"

definition parsePowerLevels :: "json option \<Rightarrow> PowerLevelContent \<Rightarrow> PowerLevelContent outcome" where
  "parsePowerLevels contentBytes c =
     (case Unmarshal dec_powerLevelJSON contentBytes
             \<lparr>pj_Invite = None, pj_Ban = None, pj_Kick = None, pj_Redact = None, pj_Users = [],
              pj_UsersDefault = None, pj_Events = [], pj_StateDefault = None, pj_EventsDefault = None,
              pj_Notifications = []\<rparr> of (content, err) \<Rightarrow>
        if err then Err (NotAllowed ''unparseable power_levels event content: %s'')
        else Ok (c\<lparr>pl_Invite := assignIfExists (pj_Invite content) (pl_Invite c),
                   pl_Ban := assignIfExists (pj_Ban content) (pl_Ban c),
                   pl_Kick := assignIfExists (pj_Kick content) (pl_Kick c),
                   pl_Redact := assignIfExists (pj_Redact content) (pl_Redact c),
                   pl_UsersDefault := assignIfExists (pj_UsersDefault content) (pl_UsersDefault c),
                   pl_StateDefault := assignIfExists (pj_StateDefault content) (pl_StateDefault c),
                   pl_EventsDefault := assignIfExists (pj_EventsDefault content) (pl_EventsDefault c),
                   pl_Users := assignLevels (pj_Users content) (pl_Users c),
                   pl_Events := assignLevels (pj_Events content) (pl_Events c),
                   pl_Notifications := assignLevels (pj_Notifications content) (pl_Notifications c)\<rparr>))"

definition ParsePowerLevels ::
  "RoomVersionImpl \<Rightarrow> json option \<Rightarrow> PowerLevelContent \<Rightarrow> PowerLevelContent outcome" where
  "ParsePowerLevels v contentBytes c =
     (case parsePowerLevelsFunc v of
        F_parsePowerLevels \<Rightarrow> parsePowerLevels contentBytes c
      | F_parseIntegerPowerLevels \<Rightarrow> parseIntegerPowerLevels contentBytes c)"

definition NewPowerLevelContentFromEvent :: "PDU \<Rightarrow> PowerLevelContent outcome" where
  "NewPowerLevelContentFromEvent event =
     and_then (GetRoomVersion (Version event)) (\<lambda>verImpl.
       case ParsePowerLevels verImpl (Content event) (Defaults zero_PowerLevelContent) of
         Ok c \<Rightarrow> Ok c
       | Err _ \<Rightarrow> Err (NotAllowed ''unparseable power_levels event content: %s'')
       | Panic \<Rightarrow> Panic)"

definition NewPowerLevelContentFromAuthEvents ::
  "AuthEventProvider \<Rightarrow> string \<Rightarrow> PowerLevelContent outcome" where
  "NewPowerLevelContentFromAuthEvents authEvents creatorUserID =
     and_then (prov_PowerLevels authEvents) (\<lambda>powerLevelsEvent.
       case powerLevelsEvent of
         Some ev \<Rightarrow> NewPowerLevelContentFromEvent ev
       | None \<Rightarrow> Ok ((Defaults zero_PowerLevelContent)
           \<lparr>pl_Users := [(creatorUserID, 9007199254740991)], pl_StateDefault := 50\<rparr>))"

end
