(* ===== verification/Unique.thy ===== *)
theory Unique
  imports Prelude
begin

text \<open>
  Removing duplicates in place (\<^verbatim>\<open>internal/util/unique.go\<close>): \<^verbatim>\<open>Unique\<close> compacts a sorted
  slice by swapping, \<^verbatim>\<open>SortAndUnique\<close> sorts first and \<^verbatim>\<open>UniqueStrings\<close> cuts the slice at
  the returned length. The slice is a list updated by index, and \<^verbatim>\<open>sort.Interface\<close> is its
  \<^verbatim>\<open>Less\<close>, here a relation on the elements. The swaps keep the slice a permutation, and the kept
  prefix is the last element of each run of elements that compare equal.
\<close>

section \<open>The algorithm\<close>

definition swap :: "'a list \<Rightarrow> nat \<Rightarrow> nat \<Rightarrow> 'a list" where
  "swap xs i j = xs[i := xs ! j, j := xs ! i]"

text \<open>The loop from index \<open>i\<close>, over the \<open>n\<close> elements that are left; \<open>j\<close> is the output position.\<close>

fun unique_loop :: "('a \<Rightarrow> 'a \<Rightarrow> bool) \<Rightarrow> nat \<Rightarrow> nat \<Rightarrow> nat \<Rightarrow> 'a list \<Rightarrow> nat \<times> 'a list" where
  "unique_loop lt 0 i j xs = (j, xs)"
| "unique_loop lt (Suc n) i j xs =
     (if lt (xs ! (i - 1)) (xs ! i) then unique_loop lt n (Suc i) (Suc j) (swap xs (i - 1) j)
      else unique_loop lt n (Suc i) j xs)"

text \<open>\<^verbatim>\<open>sort.IsSorted\<close>: no element is less than the one before it.\<close>

fun IsSorted :: "('a \<Rightarrow> 'a \<Rightarrow> bool) \<Rightarrow> 'a list \<Rightarrow> bool" where
  "IsSorted lt (x # y # zs) = (\<not> lt y x \<and> IsSorted lt (y # zs))"
| "IsSorted lt _ = True"

definition Unique :: "('a \<Rightarrow> 'a \<Rightarrow> bool) \<Rightarrow> 'a list \<Rightarrow> (nat \<times> 'a list) outcome" where
  "Unique lt data =
     (if \<not> IsSorted lt data then Panic
      else if data = [] then Ok (0, [])
      else (case unique_loop lt (length data - 1) 1 0 data of (j, xs) \<Rightarrow>
        Ok (j + 1, swap xs (length data - 1) j)))"

text \<open>
  \<^verbatim>\<open>sort.Stable\<close> with a \<^verbatim>\<open>Less\<close>; for \<^verbatim>\<open>sort.Sort\<close> the order of elements of which neither is less
  is open, and all uses below have only equal elements there.
\<close>

definition cmp_of :: "('a \<Rightarrow> 'a \<Rightarrow> bool) \<Rightarrow> 'a \<Rightarrow> 'a \<Rightarrow> int" where
  "cmp_of lt a b = (if lt a b then -1 else if lt b a then 1 else 0)"

definition sort_Stable :: "('a \<Rightarrow> 'a \<Rightarrow> bool) \<Rightarrow> 'a list \<Rightarrow> 'a list" where
  "sort_Stable lt = SortStableFunc (cmp_of lt)"

definition SortAndUnique :: "('a \<Rightarrow> 'a \<Rightarrow> bool) \<Rightarrow> 'a list \<Rightarrow> (nat \<times> 'a list) outcome" where
  "SortAndUnique lt data = Unique lt (sort_Stable lt data)"

text \<open>The slice cut at the length that is returned.\<close>

definition cut :: "(nat \<times> 'a list) outcome \<Rightarrow> 'a list outcome" where
  "cut r = and_then r (\<lambda>(n, xs). Ok (take n xs))"

definition UniqueStrings_outcome :: "string list \<Rightarrow> string list outcome" where
  "UniqueStrings_outcome strs = cut (SortAndUnique (<) strs)"

definition UniqueStrings :: "string list \<Rightarrow> string list" where
  "UniqueStrings strs = (case UniqueStrings_outcome strs of Ok xs \<Rightarrow> xs | _ \<Rightarrow> [])"

section \<open>The kept prefix\<close>

text \<open>The last element of each run.\<close>

fun last_of_runs :: "('a \<Rightarrow> 'a \<Rightarrow> bool) \<Rightarrow> 'a list \<Rightarrow> 'a list" where
  "last_of_runs lt (x # y # zs) = (if lt x y then x # last_of_runs lt (y # zs) else last_of_runs lt (y # zs))"
| "last_of_runs lt xs = xs"

lemma last_of_runs_Nil_iff [simp]: "last_of_runs lt xs = [] \<longleftrightarrow> xs = []"
  by (induction lt xs rule: last_of_runs.induct) auto

lemma last_of_runs_snoc:
  "xs \<noteq> [] \<Longrightarrow> last_of_runs lt (xs @ [y]) =
     (if lt (last xs) y then last_of_runs lt xs @ [y] else butlast (last_of_runs lt xs) @ [y])"
  by (induction lt xs rule: last_of_runs.induct) auto

text \<open>
  Loop invariant at index \<open>i\<close>, for the input \<open>ys\<close>: the elements from \<open>i - 1\<close> on are still in
  place, and the output prefix followed by the element before \<open>i\<close> is what has to be kept of the
  first \<open>i\<close> elements.
\<close>

definition unique_inv :: "('a \<Rightarrow> 'a \<Rightarrow> bool) \<Rightarrow> 'a list \<Rightarrow> nat \<Rightarrow> nat \<Rightarrow> 'a list \<Rightarrow> bool" where
  "unique_inv lt ys i j xs \<longleftrightarrow>
     0 < i \<and> i \<le> length ys \<and> j < i \<and> mset xs = mset ys \<and> drop (i - 1) xs = drop (i - 1) ys \<and>
     take j xs @ [ys ! (i - 1)] = last_of_runs lt (take i ys)"

lemma swap_same [simp]: "swap xs i i = xs"
  by (simp add: swap_def)

lemma length_swap [simp]: "length (swap xs i j) = length xs"
  by (simp add: swap_def)

lemma mset_swap_slice: "i < length xs \<Longrightarrow> j < length xs \<Longrightarrow> mset (swap xs i j) = mset xs"
  by (simp add: swap_def mset_swap)

lemma unique_inv_step:
  assumes inv: "unique_inv lt ys i j xs" and i: "i < length ys"
  shows "if lt (xs ! (i - 1)) (xs ! i) then unique_inv lt ys (Suc i) (Suc j) (swap xs (i - 1) j)
         else unique_inv lt ys (Suc i) j xs"
proof -
  from inv have len: "length xs = length ys" and j: "j < i" and i0: "0 < i"
    and dr: "drop (i - 1) xs = drop (i - 1) ys"
    and tk: "take j xs @ [ys ! (i - 1)] = last_of_runs lt (take i ys)" and ms: "mset xs = mset ys"
    by (auto simp: unique_inv_def dest: mset_eq_length)
  have at: "xs ! k = ys ! k" if "i - 1 \<le> k" "k < length ys" for k
  proof -
    have "drop (i - 1) xs ! (k - (i - 1)) = drop (i - 1) ys ! (k - (i - 1))" by (simp only: dr)
    with that len show ?thesis by simp
  qed
  have x1: "xs ! (i - 1) = ys ! (i - 1)" "xs ! i = ys ! i" using at [of "i - 1"] at [of i] i by auto
  have last: "last (take i ys) = ys ! (i - 1)" using i i0 by (subst last_conv_nth) (auto simp: min_def)
  have "take (Suc i) ys = take i ys @ [ys ! i]" using i by (simp add: take_Suc_conv_app_nth)
  then have snoc: "last_of_runs lt (take (Suc i) ys) =
      (if lt (ys ! (i - 1)) (ys ! i) then last_of_runs lt (take i ys) @ [ys ! i]
       else butlast (last_of_runs lt (take i ys)) @ [ys ! i])"
    using last_of_runs_snoc [of "take i ys" lt "ys ! i"] i i0 last by (cases "ys = []") auto
  have rest: "drop i xs = drop i ys"
    using dr i0 by (metis Suc_diff_1 drop_Suc tl_drop)
  have kept: "take j xs = butlast (last_of_runs lt (take i ys))" using tk by (metis butlast_snoc)
  show ?thesis
  proof (cases "lt (xs ! (i - 1)) (xs ! i)")
    case True
    let ?s = "swap xs (i - 1) j"
    have "drop i ?s = drop i ys" using rest j i0 by (simp add: swap_def)
    moreover have "take (Suc j) ?s = take j xs @ [xs ! (i - 1)]"
      using j i len i0 by (simp add: swap_def take_Suc_conv_app_nth take_update_cancel)
    ultimately have "unique_inv lt ys (Suc i) (Suc j) ?s"
      using True i j i0 ms tk snoc x1 mset_swap_slice [of "i - 1" xs j] len
      by (auto simp: unique_inv_def)
    with True show ?thesis by simp
  next
    case False
    with i j i0 ms kept snoc rest x1 show ?thesis by (simp add: unique_inv_def)
  qed
qed

lemma unique_loop_inv:
  assumes "unique_inv lt ys i j xs" and "i + n = length ys"
    and "unique_loop lt n i j xs = (j', xs')"
  shows "unique_inv lt ys (length ys) j' xs'"
  using assms
proof (induction n arbitrary: i j xs)
  case (Suc n)
  have "if lt (xs ! (i - 1)) (xs ! i) then unique_inv lt ys (Suc i) (Suc j) (swap xs (i - 1) j)
         else unique_inv lt ys (Suc i) j xs"
    using Suc.prems by (intro unique_inv_step) auto
  with Suc.prems Suc.IH show ?case by (auto split: if_splits)
qed simp

lemma Unique_Ok:
  assumes "IsSorted lt data"
  shows "\<exists>n xs. Unique lt data = Ok (n, xs) \<and> mset xs = mset data \<and> take n xs = last_of_runs lt data"
proof (cases "data = []")
  case False
  obtain j xs where loop: "unique_loop lt (length data - 1) 1 0 data = (j, xs)" by fastforce
  have "unique_inv lt data 1 0 data"
    using False by (cases data) (auto simp: unique_inv_def)
  then have inv: "unique_inv lt data (length data) j xs"
    using unique_loop_inv [OF _ _ loop] False by simp
  then have j: "j < length data" "length xs = length data" and ms: "mset xs = mset data"
    and tk: "take j xs @ [data ! (length data - 1)] = last_of_runs lt data"
    and dr: "drop (length data - 1) xs = drop (length data - 1) data"
    by (auto simp: unique_inv_def dest: mset_eq_length)
  have "xs ! (length data - 1) = data ! (length data - 1)"
    using j dr False by (metis diff_less hd_drop_conv_nth length_greater_0_conv zero_less_one)
  then have "take (Suc j) (swap xs (length data - 1) j) = last_of_runs lt data"
    using j tk False by (simp add: swap_def take_Suc_conv_app_nth take_update_cancel)
  with j ms assms False loop show ?thesis
    by (simp add: Unique_def mset_swap_slice)
qed (simp add: Unique_def)

lemma cut_Unique: "IsSorted lt data \<Longrightarrow> cut (Unique lt data) = Ok (last_of_runs lt data)"
  using Unique_Ok [of lt data] by (auto simp: cut_def)

section \<open>Strict weak orders\<close>

text \<open>
  The contract of \<^verbatim>\<open>Less\<close>: a strict weak order. Sorting then satisfies the check of \<^verbatim>\<open>Unique\<close>,
  and of several elements that compare equal the last one is kept.
\<close>

locale weak_order =
  fixes lt :: "'a \<Rightarrow> 'a \<Rightarrow> bool"
  assumes less_asym: "lt a b \<Longrightarrow> \<not> lt b a"
    and less_negtrans: "\<not> lt a b \<Longrightarrow> \<not> lt b c \<Longrightarrow> \<not> lt a c"
begin

lemma less_trans: "lt a b \<Longrightarrow> lt b c \<Longrightarrow> lt a c"
  using less_asym less_negtrans by blast

lemma less_le_trans: "lt a b \<Longrightarrow> \<not> lt c b \<Longrightarrow> lt a c"
  using less_asym less_negtrans by blast

lemma le_less_trans: "\<not> lt b a \<Longrightarrow> lt b c \<Longrightarrow> lt a c"
  using less_asym less_negtrans by blast

lemma IsSorted_iff: "IsSorted lt xs \<longleftrightarrow> sorted_wrt (\<lambda>a b. \<not> lt b a) xs"
proof (induction xs rule: induct_list012)
  case (3 x y zs)
  then show ?case using less_negtrans [of _ y x] by auto
qed simp_all

lemma cmp_sorted: "sorted_wrt (\<lambda>a b. cmp_of lt a b \<le> 0) xs \<longleftrightarrow> sorted_wrt (\<lambda>a b. \<not> lt b a) xs"
proof -
  have "cmp_of lt a b \<le> 0 \<longleftrightarrow> \<not> lt b a" for a b by (auto simp: cmp_of_def dest: less_asym)
  then show ?thesis by simp
qed

end

sublocale weak_order \<subseteq> order: go_comparator "cmp_of lt"
proof
  show "cmp_of lt a b < 0 \<longleftrightarrow> 0 < cmp_of lt b a" for a b by (auto simp: cmp_of_def dest: less_asym)
  show "cmp_of lt a b \<le> 0 \<Longrightarrow> cmp_of lt b c \<le> 0 \<Longrightarrow> cmp_of lt a c \<le> 0" for a b c
    using less_negtrans [of c b a] by (auto simp: cmp_of_def dest: less_asym split: if_splits)
qed

context weak_order
begin

lemma IsSorted_sort: "IsSorted lt (sort_Stable lt xs)"
  unfolding IsSorted_iff cmp_sorted [symmetric] sort_Stable_def by (rule order.sorted_sort)

lemma cut_SortAndUnique: "cut (SortAndUnique lt xs) = Ok (last_of_runs lt (sort_Stable lt xs))"
  by (simp add: SortAndUnique_def cut_Unique IsSorted_sort)

lemma set_last_of_runs: "set (last_of_runs lt xs) \<subseteq> set xs"
  by (induction lt xs rule: last_of_runs.induct) auto

lemma last_of_runs_strict:
  "sorted_wrt (\<lambda>a b. \<not> lt b a) xs \<Longrightarrow> sorted_wrt lt (last_of_runs lt xs)"
proof (induction xs rule: induct_list012)
  case (3 x y zs)
  have "lt x z" if "lt x y" "z \<in> set (last_of_runs lt (y # zs))" for z
    using that 3(3) set_last_of_runs [of "y # zs"] less_le_trans [of x y z] by auto
  with 3 show ?case by simp
qed simp_all

text \<open>The kept elements are those that no later element equals.\<close>

lemma in_last_of_runs:
  assumes "sorted_wrt (\<lambda>a b. \<not> lt b a) xs"
  shows "x \<in> set (last_of_runs lt xs) \<longleftrightarrow> (\<exists>us vs. xs = us @ x # vs \<and> (\<forall>v \<in> set vs. lt x v))"
  using assms
proof (induction xs rule: induct_list012)
  case (3 a b zs)
  let ?split = "\<lambda>l. \<exists>us vs. l = us @ x # vs \<and> (\<forall>v \<in> set vs. lt x v)"
  have "?split (a # b # zs) \<longleftrightarrow> (x = a \<and> (\<forall>v \<in> set (b # zs). lt a v)) \<or> ?split (b # zs)" (is "?L \<longleftrightarrow> ?R")
  proof
    assume ?L
    then obtain us vs where "a # b # zs = us @ x # vs" "\<forall>v \<in> set vs. lt x v" by blast
    then show ?R by (cases us) auto
  next
    assume ?R
    then show ?L
    proof
      assume "x = a \<and> (\<forall>v \<in> set (b # zs). lt a v)"
      then show ?L by (intro exI [of _ "[]"] exI [of _ "b # zs"]) simp
    next
      assume "?split (b # zs)"
      then show ?L by (metis append_Cons)
    qed
  qed
  moreover have "(\<forall>v \<in> set (b # zs). lt a v) \<longleftrightarrow> lt a b"
    using 3(3) less_le_trans [of a b] by auto
  moreover have "x \<in> set (last_of_runs lt (a # b # zs)) \<longleftrightarrow> lt a b \<and> x = a \<or> x \<in> set (last_of_runs lt (b # zs))" by simp
  moreover have "x \<in> set (last_of_runs lt (b # zs)) \<longleftrightarrow> ?split (b # zs)" using 3 by simp
  ultimately show ?case by blast
qed (auto simp: Cons_eq_append_conv)

end

section \<open>Linear orders\<close>

lemma weak_order_less: "weak_order ((<) :: 'a::linorder \<Rightarrow> 'a \<Rightarrow> bool)"
  by unfold_locales auto

interpretation string_order: weak_order "(<) :: string \<Rightarrow> string \<Rightarrow> bool"
  by (rule weak_order_less)

interpretation nid_order: weak_order "(<) :: int \<Rightarrow> int \<Rightarrow> bool"
  by (rule weak_order_less)

lemma sort_unique_linorder:
  fixes xs :: "'a::linorder list"
  shows "cut (SortAndUnique (<) xs) = Ok (sorted_list_of_set (set xs))"
proof -
  let ?s = "sort_Stable (<) xs" and ?u = "last_of_runs (<) (sort_Stable (<) xs)"
  have sorted: "sorted_wrt (\<lambda>a b. \<not> b < a) ?s"
    using weak_order.IsSorted_sort [OF weak_order_less, of xs] weak_order.IsSorted_iff [OF weak_order_less] by blast
  have strict: "sorted_wrt (<) ?u" by (rule weak_order.last_of_runs_strict [OF weak_order_less sorted])
  have "set ?u = set ?s"
  proof (intro subset_antisym subsetI)
    fix x assume "x \<in> set ?s"
    then obtain us vs where "?s = us @ x # vs" "x \<notin> set vs" by (metis split_list_last)
    moreover from this have "\<forall>v \<in> set vs. x < v" using sorted by (auto simp: sorted_wrt_append not_less order_less_le)
    ultimately show "x \<in> set ?u" using weak_order.in_last_of_runs [OF weak_order_less sorted] by blast
  qed (use weak_order.set_last_of_runs [OF weak_order_less, of ?s] in blast)
  then have "set ?u = set xs" by (simp add: sort_Stable_def)
  with strict have "?u = sorted_list_of_set (set xs)"
    by (metis sorted_list_of_set.idem_if_sorted_distinct strict_sorted_iff)
  then show ?thesis using weak_order.cut_SortAndUnique [OF weak_order_less, of xs] by simp
qed

lemma UniqueStrings_eq: "UniqueStrings strs = sorted_list_of_set (set strs)"
  by (simp add: UniqueStrings_def UniqueStrings_outcome_def sort_unique_linorder)

lemma set_UniqueStrings [simp]: "set (UniqueStrings strs) = set strs"
  by (simp add: UniqueStrings_eq)

end
