(* ===== verification/Signing.thy ===== *)
theory Signing
  imports Base64
begin

text \<open>
  Signature checks on JSON objects: \<^verbatim>\<open>VerifyJSON\<close>
  (\<^verbatim>\<open>internal/matrixserver/signing.go\<close>) and the canonical encoding of a parsed document it
  signs, as \<^verbatim>\<open>sortJSONValue\<close>, \<^verbatim>\<open>sortJSONArray\<close> and \<^verbatim>\<open>sortJSONObject\<close>
  (\<^verbatim>\<open>internal/matrixserver/json.go\<close>) write it.

  \<^verbatim>\<open>golang.org/x/crypto/ed25519\<close> is not part of the repository: \<open>ed25519_Verify\<close> is a
  parameter. Its documentation says that \<^verbatim>\<open>Verify\<close> panics when the public key does not have
  32 bytes, which is why its result is an \<open>outcome\<close>.
\<close>

section \<open>Canonical encoding of a document\<close>

text \<open>
  A string value after \<^verbatim>\<open>CompactJSON\<close>: quotes, backslashes and control characters are
  escaped, the latter by their short form where they have one.
\<close>

definition hex_lower :: "nat \<Rightarrow> char" where
  "hex_lower n = ''0123456789abcdef'' ! n"

definition escape_char :: "char \<Rightarrow> string" where
  "escape_char c =
     (let n = of_char c :: nat in
      if c = CHR 0x22 then [CHR 0x5C, CHR 0x22]
      else if c = CHR 0x5C then [CHR 0x5C, CHR 0x5C]
      else if 0x20 \<le> n then [c]
      else if n = 8 then [CHR 0x5C, CHR ''b'']
      else if n = 9 then [CHR 0x5C, CHR ''t'']
      else if n = 10 then [CHR 0x5C, CHR ''n'']
      else if n = 12 then [CHR 0x5C, CHR ''f'']
      else if n = 13 then [CHR 0x5C, CHR ''r'']
      else [CHR 0x5C] @ ''u00'' @ [hex_lower (n div 16), hex_lower (n mod 16)])"

definition quoted :: "string \<Rightarrow> string" where
  "quoted s = CHR 0x22 # concat (map escape_char s) @ [CHR 0x22]"

text \<open>\<^verbatim>\<open>CompactJSON\<close> drops the sign of a number that starts with minus zero.\<close>

definition compact_number :: "string \<Rightarrow> string" where
  "compact_number raw = (if take 2 raw = ''-0'' then drop 1 raw else raw)"

text \<open>A comma-separated list in brackets; the bracket is the first separator.\<close>

fun emit :: "char \<Rightarrow> char \<Rightarrow> char \<Rightarrow> string list \<Rightarrow> string" where
  "emit sep opn cls [] = (if sep = opn then [opn, cls] else [cls])"
| "emit sep opn cls (x # xs) = sep # x @ emit (CHR '','') opn cls xs"

text \<open>
  Members are sorted by their parsed key, and the key that is written is the parsed key
  between quotes, with nothing escaped.
\<close>

fun sortJSONValue :: "json \<Rightarrow> string" where
  "sortJSONValue JNull = ''null''"
| "sortJSONValue (JBool b) = (if b then ''true'' else ''false'')"
| "sortJSONValue (JNum raw) = compact_number raw"
| "sortJSONValue (JStr s) = quoted s"
| "sortJSONValue (JArr js) = emit (CHR ''['') (CHR ''['') (CHR '']'') (map sortJSONValue js)"
| "sortJSONValue (JObj kvs) =
     emit (CHR ''{'') (CHR ''{'') (CHR ''}'')
       (map (\<lambda>(k, v). CHR 0x22 # k @ [CHR 0x22, CHR '':''] @ v)
         (SortStableFunc (\<lambda>a b. strings_Compare (fst a) (fst b))
           (map (\<lambda>(k, j). (k, sortJSONValue j)) kvs)))"

section \<open>VerifyJSON\<close>

type_synonym ed25519_verifier = "string \<Rightarrow> string \<Rightarrow> string \<Rightarrow> bool outcome"

definition dec_raw :: "json option decoder" where
  "dec_raw j v = (case j of JNull \<Rightarrow> (None, DNone) | _ \<Rightarrow> (Some j, DNone))"

definition json_of_raw :: "json option \<Rightarrow> json" where
  "json_of_raw r = (case r of None \<Rightarrow> JNull | Some j \<Rightarrow> j)"

definition VerifyJSON :: "ed25519_verifier \<Rightarrow> string \<Rightarrow> string \<Rightarrow> string \<Rightarrow> json option \<Rightarrow> unit outcome" where
  "VerifyJSON ed25519_Verify signingName keyID publicKey message =
     (case Unmarshal (dec_map None dec_raw) message [] of (object, err) \<Rightarrow>
        if err then Err (GoError ''json'')
        else (case map_of object ''signatures'' of
            None \<Rightarrow> Err (GoError ''No signatures'')
          | Some None \<Rightarrow> Err (GoError ''No signatures'')
          | Some (Some sigs) \<Rightarrow>
              (case Unmarshal (dec_map [] (dec_map [] dec_Base64Bytes)) (Some sigs) [] of
                 (signatures, err') \<Rightarrow>
                   if err' then Err (GoError ''json'')
                   else (case Option.bind (map_of signatures signingName) (\<lambda>m. map_of m keyID) of
                       None \<Rightarrow> Err (GoError ''No signature from %q with ID %q'')
                     | Some signature \<Rightarrow>
                         if length signature \<noteq> 64
                           then Err (GoError ''Bad signature length from %q with ID %q'')
                         else let rest = AList.delete ''signatures'' (AList.delete ''unsigned'' object);
                                  canonical = sortJSONValue
                                    (JObj (map (\<lambda>(k, r). (k, json_of_raw r)) rest))
                              in and_then (ed25519_Verify publicKey canonical signature) (\<lambda>good.
                                   if good then Ok ()
                                   else Err (GoError ''Bad signature from %q with ID %q''))))))"

lemma VerifyJSON_Ok_signature:
  assumes "VerifyJSON ver name kid pk msg = Ok ()"
  shows "\<exists>m s. ver pk m s = Ok True \<and> length s = 64"
  using assms
  by (auto simp: VerifyJSON_def Let_def go_simps split: prod.splits option.splits if_splits)

end
