(* ===== verification/EventAuth.thy ===== *)
theory EventAuth
  imports EventContent Unique Signing
begin

text \<open>
  The authorisation rules of \<^verbatim>\<open>internal/matrixserver/eventauth.go\<close>: which state an event
  needs, the map-backed provider of auth events, the cached context of the checks and the
  checks themselves, one definition per function. Their properties are in \<open>PowerLevelRules\<close> and \<open>MembershipRules\<close>.

  The callback \<^verbatim>\<open>userIDQuerier\<close> is the argument \<open>q\<close> and the ed25519 verifier the argument
  \<open>edv\<close>. The checks work on an \<^verbatim>\<open>allowerContext\<close> that \<^verbatim>\<open>membershipAllower\<close> embeds by
  pointer, so what a membership check assigns to the join rule stays in the context; the
  checks return the context with their verdict.
\<close>

section \<open>The state an event needs\<close>

record StateNeeded =
  sn_Create :: bool
  sn_JoinRules :: bool
  sn_PowerLevels :: bool
  sn_Member :: "string list"
  sn_ThirdPartyInvite :: "string list"

definition zero_StateNeeded :: StateNeeded where
  "zero_StateNeeded = \<lparr>sn_Create = False, sn_JoinRules = False, sn_PowerLevels = False,
     sn_Member = [], sn_ThirdPartyInvite = []\<rparr>"

definition Tuples :: "StateNeeded \<Rightarrow> StateKeyTuple list" where
  "Tuples s =
     (if sn_Create s then [(MRoomCreate, [])] else []) @
     (if sn_JoinRules s then [(MRoomJoinRules, [])] else []) @
     (if sn_PowerLevels s then [(MRoomPowerLevels, [])] else []) @
     map (\<lambda>senderID. (MRoomMember, senderID)) (sn_Member s) @
     map (\<lambda>token. (MRoomThirdPartyInvite, token)) (sn_ThirdPartyInvite s)"

fun collect_refs :: "PDU option outcome list \<Rightarrow> string list outcome" where
  "collect_refs [] = Ok []"
| "collect_refs (r # rs) =
     and_then r (\<lambda>e. and_then (collect_refs rs) (\<lambda>refs.
       Ok (case e of None \<Rightarrow> refs | Some ev \<Rightarrow> EventID ev # refs)))"

definition AuthEventReferences :: "StateNeeded \<Rightarrow> AuthEventProvider \<Rightarrow> string list outcome" where
  "AuthEventReferences s provider = collect_refs
     ((if sn_Create s then [prov_Create provider] else []) @
      (if sn_JoinRules s then [prov_JoinRules provider] else []) @
      (if sn_PowerLevels s then [prov_PowerLevels provider] else []) @
      map (prov_Member provider) (sn_Member s) @
      map (prov_ThirdPartyInvite provider) (sn_ThirdPartyInvite s))"

definition thirdPartyInviteToken :: "MemberThirdPartyInvite \<Rightarrow> string outcome" where
  "thirdPartyInviteToken tpi =
     (if sg_Token (ti_Signed tpi) = []
        then Err (GoError ''missing third_party_invite.signed.token JSON key'')
      else Ok (sg_Token (ti_Signed tpi)))"

text \<open>The accumulated needs and the error, if any; an error keeps what was added before it.\<close>

definition accumulateStateNeeded ::
  "StateNeeded \<Rightarrow> string \<Rightarrow> string \<Rightarrow> string option \<Rightarrow> membershipContent option
     \<Rightarrow> StateNeeded \<times> goerr option" where
  "accumulateStateNeeded result eventType sender stateKey content =
     (if eventType = MRoomCreate then (result, None)
      else if eventType = MRoomAliases then (result\<lparr>sn_Create := True\<rparr>, None)
      else if eventType = MRoomMember then
        (case content of
           None \<Rightarrow> (result, Some (NotAllowed ''missing memberContent for m.room.member event''))
         | Some c \<Rightarrow>
             let r1 = result\<lparr>sn_Create := True, sn_PowerLevels := True,
                        sn_Member := sn_Member result @ [sender] @
                          (case stateKey of None \<Rightarrow> [] | Some k \<Rightarrow> [k])\<rparr>;
                 r2 = (if ms_Membership c \<in> {Join, Knock, Invite} then r1\<lparr>sn_JoinRules := True\<rparr> else r1);
                 authVia = (\<lambda>r. if ms_AuthorizedVia c \<noteq> []
                              then r\<lparr>sn_Member := sn_Member r @ [ms_AuthorizedVia c]\<rparr> else r)
             in (case ms_ThirdPartyInvite c of
                 None \<Rightarrow> (authVia r2, None)
               | Some tpi \<Rightarrow>
                   (case thirdPartyInviteToken tpi of
                      Ok token \<Rightarrow> (authVia (r2\<lparr>sn_ThirdPartyInvite := sn_ThirdPartyInvite r2 @ [token]\<rparr>), None)
                    | _ \<Rightarrow> (r2, Some (NotAllowed ''could not get third-party token: %s'')))))
      else (result\<lparr>sn_Create := True, sn_PowerLevels := True, sn_Member := sn_Member result @ [sender]\<rparr>, None))"

definition dedup_needed :: "StateNeeded \<Rightarrow> StateNeeded" where
  "dedup_needed r = r\<lparr>sn_Member := UniqueStrings (sn_Member r),
     sn_ThirdPartyInvite := UniqueStrings (sn_ThirdPartyInvite r)\<rparr>"

record ProtoEvent =
  pe_SenderID :: string
  pe_Type :: string
  pe_StateKey :: "string option"
  pe_Content :: "json option"

definition StateNeededForProtoEvent :: "ProtoEvent \<Rightarrow> StateNeeded \<times> goerr option" where
  "StateNeededForProtoEvent protoEvent =
     (let (content, err) =
        (if pe_Type protoEvent = MRoomMember
         then Unmarshal (dec_ptr zero_membershipContent dec_membershipContent) (pe_Content protoEvent) None
         else (None, False))
      in if err then (zero_StateNeeded, Some (NotAllowed ''unparseable member event content: %s''))
         else (case accumulateStateNeeded zero_StateNeeded (pe_Type protoEvent) (pe_SenderID protoEvent)
                      (pe_StateKey protoEvent) content of
             (result, e) \<Rightarrow> (dedup_needed result, e)))"

text \<open>Here the decoding error is dropped: what was decoded before it counts.\<close>

definition membership_of :: "PDU \<Rightarrow> membershipContent option" where
  "membership_of event =
     (if EventType event = MRoomMember
      then fst (Unmarshal (dec_ptr zero_membershipContent dec_membershipContent) (Content event) None)
      else None)"

definition StateNeededForAuth :: "PDU list \<Rightarrow> StateNeeded" where
  "StateNeededForAuth events =
     dedup_needed (foldl (\<lambda>result event.
       fst (accumulateStateNeeded result (EventType event) (SenderID event) (StateKey event)
              (membership_of event))) zero_StateNeeded events)"

section \<open>The map-backed provider\<close>

record AuthEvents =
  ae_events :: "(StateKeyTuple, PDU) gomap"
  ae_roomIDs :: "string list"

definition Valid :: "AuthEvents \<Rightarrow> bool" where
  "Valid a \<longleftrightarrow> length (ae_roomIDs a) \<le> 1"

definition AddEvent :: "AuthEvents \<Rightarrow> PDU \<Rightarrow> AuthEvents outcome" where
  "AddEvent a event =
     (case StateKey event of
        None \<Rightarrow> Err (GoError ''AddEvent: event %q does not have a state key'')
      | Some k \<Rightarrow> Ok (a\<lparr>ae_roomIDs := List.insert (room_raw (EventRoomID event)) (ae_roomIDs a),
                       ae_events := AList.update (EventType event, k) event (ae_events a)\<rparr>))"

text \<open>\<^verbatim>\<open>Clear\<close> empties the event map and leaves the set of room IDs.\<close>

definition Clear :: "AuthEvents \<Rightarrow> AuthEvents" where
  "Clear a = a\<lparr>ae_events := []\<rparr>"

fun add_all :: "AuthEvents \<Rightarrow> PDU list \<Rightarrow> AuthEvents outcome" where
  "add_all a [] = Ok a"
| "add_all a (e # es) = and_then (AddEvent a e) (\<lambda>a'. add_all a' es)"

definition empty_AuthEvents :: AuthEvents where
  "empty_AuthEvents = \<lparr>ae_events = [], ae_roomIDs = []\<rparr>"

definition NewAuthEvents :: "PDU list \<Rightarrow> AuthEvents outcome" where
  "NewAuthEvents events = add_all empty_AuthEvents events"

text \<open>Its methods \<^verbatim>\<open>Create\<close>, \<^verbatim>\<open>JoinRules\<close>, \<^verbatim>\<open>PowerLevels\<close>, \<^verbatim>\<open>Member\<close> and
  \<^verbatim>\<open>ThirdPartyInvite\<close> read the map and never fail.\<close>

definition AuthEvents_provider :: "nat \<Rightarrow> AuthEvents \<Rightarrow> AuthEventProvider" where
  "AuthEvents_provider ident a =
     \<lparr>prov_ident = ident,
      prov_Create = Ok (map_of (ae_events a) (MRoomCreate, [])),
      prov_JoinRules = Ok (map_of (ae_events a) (MRoomJoinRules, [])),
      prov_PowerLevels = Ok (map_of (ae_events a) (MRoomPowerLevels, [])),
      prov_Member = (\<lambda>stateKey. Ok (map_of (ae_events a) (MRoomMember, stateKey))),
      prov_ThirdPartyInvite = (\<lambda>stateKey. Ok (map_of (ae_events a) (MRoomThirdPartyInvite, stateKey))),
      prov_Valid = Valid a\<rparr>"

section \<open>The context of the checks\<close>

record allowerContext =
  ac_provider :: AuthEventProvider
  ac_ident :: "nat option"
  ac_createEvent :: "PDU option"
  ac_powerLevelsEvent :: "PDU option"
  ac_joinRuleEvent :: "PDU option"
  ac_create :: CreateContent
  ac_powerLevels :: PowerLevelContent
  ac_joinRule :: JoinRuleContent
  ac_roomID :: RoomID

text \<open>Use a result if there is one; drop an error and keep the default.\<close>

definition on_ok :: "'a outcome \<Rightarrow> ('a \<Rightarrow> 'b) \<Rightarrow> 'b \<Rightarrow> 'b outcome" where
  "on_ok m f d = (case m of Ok x \<Rightarrow> Ok (f x) | Err _ \<Rightarrow> Ok d | Panic \<Rightarrow> Panic)"

definition update_create ::
  "UserIDForSender \<Rightarrow> AuthEventProvider \<Rightarrow> allowerContext \<Rightarrow> allowerContext outcome" where
  "update_create q provider a =
     and_then (on_ok (prov_Create provider) (\<lambda>e. e) None) (\<lambda>e.
       if ac_createEvent a = None \<or> ac_createEvent a \<noteq> e
       then on_ok (NewCreateContentFromAuthEvents provider q)
              (\<lambda>c. a\<lparr>ac_createEvent := e, ac_create := c\<rparr>) a
       else Ok a)"

definition update_powerLevels :: "AuthEventProvider \<Rightarrow> allowerContext \<Rightarrow> allowerContext outcome" where
  "update_powerLevels provider a =
     and_then (on_ok (prov_PowerLevels provider) (\<lambda>e. e) None) (\<lambda>e.
       if ac_powerLevelsEvent a = None \<or> ac_powerLevelsEvent a \<noteq> e
       then on_ok (NewPowerLevelContentFromAuthEvents provider
                     (case ac_createEvent a of None \<Rightarrow> [] | Some ev \<Rightarrow> SenderID ev))
              (\<lambda>p. a\<lparr>ac_powerLevelsEvent := e, ac_powerLevels := p\<rparr>) a
       else Ok a)"

definition update_joinRule :: "AuthEventProvider \<Rightarrow> allowerContext \<Rightarrow> allowerContext outcome" where
  "update_joinRule provider a =
     and_then (on_ok (prov_JoinRules provider) (\<lambda>e. e) None) (\<lambda>e.
       if ac_joinRuleEvent a = None \<or> ac_joinRuleEvent a \<noteq> e
       then on_ok (NewJoinRuleContentFromAuthEvents provider)
              (\<lambda>j. a\<lparr>ac_joinRuleEvent := e, ac_joinRule := j\<rparr>) a
       else Ok a)"

definition update_ctx ::
  "UserIDForSender \<Rightarrow> AuthEventProvider \<Rightarrow> allowerContext \<Rightarrow> allowerContext outcome" where
  "update_ctx q provider a =
     (let a0 = (if ac_ident a \<noteq> Some (prov_ident provider)
                then a\<lparr>ac_ident := Some (prov_ident provider), ac_createEvent := None,
                       ac_powerLevelsEvent := None, ac_joinRuleEvent := None\<rparr>
                else a)\<lparr>ac_provider := provider\<rparr>
      in and_then (update_create q provider a0) (\<lambda>a1.
           and_then (update_powerLevels provider a1) (update_joinRule provider)))"

definition newAllowerContext ::
  "AuthEventProvider \<Rightarrow> UserIDForSender \<Rightarrow> RoomID \<Rightarrow> allowerContext outcome" where
  "newAllowerContext provider q roomID = update_ctx q provider
     \<lparr>ac_provider = provider, ac_ident = None, ac_createEvent = None, ac_powerLevelsEvent = None,
      ac_joinRuleEvent = None, ac_create = zero_CreateContent, ac_powerLevels = zero_PowerLevelContent,
      ac_joinRule = \<lparr>jr_JoinRule = [], jr_Allow = []\<rparr>, ac_roomID = roomID\<rparr>"

section \<open>Create and alias events\<close>

definition createEventAllowed :: "UserIDForSender \<Rightarrow> allowerContext \<Rightarrow> PDU \<Rightarrow> unit outcome" where
  "createEventAllowed q a event =
     (if \<not> StateKeyEquals event [] then Err (NotAllowed ''create event state key is not empty: %v'')
      else if PrevEventIDs event \<noteq> []
        then Err (NotAllowed ''create event must be the first event in the room: found %d prev_events'')
      else and_then (q (ac_roomID a) (SenderID event)) (\<lambda>u.
        and_then (deref u) (\<lambda>sender.
          if user_domain sender \<noteq> room_domain (EventRoomID event)
            then Err (NotAllowed ''create event room ID domain does not match sender: %q != %q'')
          else (case GetRoomVersion (Version event) of
              Ok verImpl \<Rightarrow> CheckCreateEvent verImpl event KnownRoomVersion
            | _ \<Rightarrow> Ok ()))))"

text \<open>The message of the last error dereferences the state key, which may be nil.\<close>

definition aliasEventAllowed :: "UserIDForSender \<Rightarrow> allowerContext \<Rightarrow> PDU \<Rightarrow> unit outcome" where
  "aliasEventAllowed q a event =
     and_then (q (ac_roomID a) (SenderID event)) (\<lambda>u.
       if room_raw (EventRoomID event) \<noteq> cc_roomID (ac_create a)
         then Err (NotAllowed ''create event has different roomID: %q (%s) != %q (%s)'')
       else and_then (deref u) (\<lambda>sender.
         and_then (DomainAllowed (ac_create a) (user_domain sender)) (\<lambda>_.
           let wanted = (if Version event = RoomVersionPseudoIDs then SenderID event else user_domain sender)
           in if StateKeyEquals event wanted then Ok ()
              else and_then (deref (StateKey event)) (\<lambda>_.
                Err (NotAllowed ''alias state_key does not match sender domain, %q != %q'')))))"

section \<open>Power levels\<close>

definition checkLevelChange :: "int \<Rightarrow> int \<times> int \<Rightarrow> unit outcome" where
  "checkLevelChange senderLevel level =
     (case level of (old, new) \<Rightarrow>
        if old = new then Ok ()
        else if senderLevel < new
          then Err (NotAllowed ''sender with level %d is not allowed to change level from %d to %d because the new level is above the level of the sender'')
        else if senderLevel < old
          then Err (NotAllowed ''sender with level %d is not allowed to change level from %d to %d because the current level is above the level of the sender'')
        else Ok ())"

definition eventLevelChecks :: "PowerLevelContent \<Rightarrow> PowerLevelContent \<Rightarrow> (int \<times> int) list" where
  "eventLevelChecks old new =
     [(pl_Ban old, pl_Ban new), (pl_Invite old, pl_Invite new), (pl_Kick old, pl_Kick new),
      (pl_Redact old, pl_Redact new), (pl_StateDefault old, pl_StateDefault new),
      (pl_EventsDefault old, pl_EventsDefault new)] @
     map (\<lambda>t. (EventLevel old t False, EventLevel new t False)) (keys (pl_Events new)) @
     map (\<lambda>t. (EventLevel old t False, EventLevel new t False)) (keys (pl_Events old))"

definition checkEventLevels :: "int \<Rightarrow> PowerLevelContent \<Rightarrow> PowerLevelContent \<Rightarrow> unit outcome" where
  "checkEventLevels senderLevel oldPowerLevels newPowerLevels =
     each (checkLevelChange senderLevel) (eventLevelChecks oldPowerLevels newPowerLevels)"

definition userLevelChecks ::
  "PowerLevelContent \<Rightarrow> PowerLevelContent \<Rightarrow> (string, int \<times> int) gomap" where
  "userLevelChecks old new =
     fold (\<lambda>u m. AList.update u (UserLevel old u, UserLevel new u) m)
       (keys (pl_Users new) @ keys (pl_Users old)) []"

definition checkUserLevelChange :: "int \<Rightarrow> string \<Rightarrow> string \<times> int \<times> int \<Rightarrow> unit outcome" where
  "checkUserLevelChange senderLevel senderID chk =
     (case chk of (userSenderID, old, new) \<Rightarrow>
        if old = new then Ok ()
        else if senderLevel < new
          then Err (NotAllowed ''sender %q with level %d is not allowed change user %q level from %d to %d because the new level is above the level of the sender'')
        else if userSenderID = senderID then Ok ()
        else if senderLevel \<le> old
          then Err (NotAllowed ''sender %q with level %d is not allowed to change user %q level from %d to %d because the old level is equal to or above the level of the sender'')
        else Ok ())"

definition checkUserLevels ::
  "int \<Rightarrow> string \<Rightarrow> PowerLevelContent \<Rightarrow> PowerLevelContent \<Rightarrow> unit outcome" where
  "checkUserLevels senderLevel senderID oldPowerLevels newPowerLevels =
     each (checkUserLevelChange senderLevel senderID) (userLevelChecks oldPowerLevels newPowerLevels)"

definition noCheckLevels :: "int \<Rightarrow> PowerLevelContent \<Rightarrow> PowerLevelContent \<Rightarrow> unit outcome" where
  "noCheckLevels senderLevel oldPowerLevels newPowerLevels = Ok ()"

definition checkNotificationLevelChange :: "int \<Rightarrow> int \<times> int \<Rightarrow> unit outcome" where
  "checkNotificationLevelChange senderLevel level =
     (case level of (old, new) \<Rightarrow>
        if old = new then Ok ()
        else if senderLevel < new
          then Err (NotAllowed ''sender with level %d is not allowed change notification level from %d to %d because the new level is above the level of the sender'')
        else if senderLevel \<le> old
          then Err (NotAllowed ''sender with level %d is not allowed to change notification level from %d to %d because the old level is equal to or above the level of the sender'')
        else Ok ())"

definition checkNotificationLevels :: "int \<Rightarrow> PowerLevelContent \<Rightarrow> PowerLevelContent \<Rightarrow> unit outcome" where
  "checkNotificationLevels senderLevel old new =
     each (checkNotificationLevelChange senderLevel)
       (map (\<lambda>n. (NotificationLevel old n, NotificationLevel new n)) (keys (pl_Notifications new)) @
        map (\<lambda>n. (NotificationLevel old n, NotificationLevel new n)) (keys (pl_Notifications old)))"

definition CheckNotificationLevels ::
  "RoomVersionImpl \<Rightarrow> int \<Rightarrow> PowerLevelContent \<Rightarrow> PowerLevelContent \<Rightarrow> unit outcome" where
  "CheckNotificationLevels v senderLevel old new =
     (case notificationLevelCheck v of
        F_noCheckLevels \<Rightarrow> noCheckLevels senderLevel old new
      | F_checkNotificationLevels \<Rightarrow> checkNotificationLevels senderLevel old new)"

section \<open>The checks every other event has to pass\<close>

record eventAllower =
  ea_ctx :: allowerContext
  ea_member :: MemberContent

definition newEventAllower :: "allowerContext \<Rightarrow> string \<Rightarrow> eventAllower outcome" where
  "newEventAllower a senderID =
     and_then (NewMemberContentFromAuthEvents (ac_provider a) senderID) (\<lambda>m.
       Ok \<lparr>ea_ctx = a, ea_member = m\<rparr>)"

definition commonChecks :: "UserIDForSender \<Rightarrow> eventAllower \<Rightarrow> PDU \<Rightarrow> unit outcome" where
  "commonChecks q e event =
     (if room_raw (EventRoomID event) \<noteq> cc_roomID (ac_create (ea_ctx e))
        then Err (NotAllowed ''create event has different roomID: %q (%s) != %q (%s)'')
      else and_then (q (ac_roomID (ea_ctx e)) (SenderID event)) (\<lambda>u.
        case u of
          None \<Rightarrow> Err (NotAllowed ''userID not found for sender %q in room %q'')
        | Some userID \<Rightarrow>
            and_then (UserIDAllowed (ac_create (ea_ctx e)) userID) (\<lambda>_.
              if mc_Membership (ea_member e) \<noteq> Join
                then Err (NotAllowed ''sender %q not in room'')
              else if UserLevel (ac_powerLevels (ea_ctx e)) (SenderID event)
                      < EventLevel (ac_powerLevels (ea_ctx e)) (EventType event) (StateKey event \<noteq> None)
                then Err (NotAllowed ''sender %q is not allowed to send event. %d < %d'')
              else (case StateKey event of
                  None \<Rightarrow> Ok ()
                | Some k \<Rightarrow>
                    if k \<noteq> [] \<and> hd k = CHR ''@'' \<and> k \<noteq> SenderID event
                      then Err (NotAllowed ''sender %q is not allowed to modify the state belonging to %q'')
                    else Ok ()))))"

definition defaultEventAllowed :: "UserIDForSender \<Rightarrow> allowerContext \<Rightarrow> PDU \<Rightarrow> unit outcome" where
  "defaultEventAllowed q a event =
     and_then (newEventAllower a (SenderID event)) (\<lambda>allower. commonChecks q allower event)"

definition checkPowerLevelUser :: "UserIDForSender \<Rightarrow> allowerContext \<Rightarrow> string \<Rightarrow> unit outcome" where
  "checkPowerLevelUser q a senderID =
     and_then (q (ac_roomID a) senderID) (\<lambda>u.
       case u of
         None \<Rightarrow> Err (NotAllowed ''Not a valid user ID: %q'')
       | Some sender \<Rightarrow> and_then (isValidUserID (user_raw sender)) (\<lambda>valid.
           if valid then Ok () else Err (NotAllowed ''Not a valid user ID: %q'')))"

definition powerLevelsEventAllowed :: "UserIDForSender \<Rightarrow> allowerContext \<Rightarrow> PDU \<Rightarrow> unit outcome" where
  "powerLevelsEventAllowed q a event =
     and_then (newEventAllower a (SenderID event)) (\<lambda>allower.
     and_then (commonChecks q allower event) (\<lambda>_.
     and_then (NewPowerLevelContentFromEvent event) (\<lambda>newPowerLevels.
     and_then (each (checkPowerLevelUser q a) (keys (pl_Users newPowerLevels))) (\<lambda>_.
       let oldPowerLevels = ac_powerLevels a;
           senderLevel = UserLevel oldPowerLevels (SenderID event)
       in and_then (checkEventLevels senderLevel oldPowerLevels newPowerLevels) (\<lambda>_.
         case GetRoomVersion (Version event) of
           Ok verImpl \<Rightarrow>
             and_then (CheckNotificationLevels verImpl senderLevel oldPowerLevels newPowerLevels) (\<lambda>_.
               checkUserLevels senderLevel (SenderID event) oldPowerLevels newPowerLevels)
         | _ \<Rightarrow> Ok ())))))"

definition redactEventAllowed :: "UserIDForSender \<Rightarrow> allowerContext \<Rightarrow> PDU \<Rightarrow> unit outcome" where
  "redactEventAllowed q a event =
     and_then (newEventAllower a (SenderID event)) (\<lambda>allower.
     and_then (commonChecks q allower event) (\<lambda>_.
       let roomVersion = cc_RoomVersion (ac_create a)
       in if roomVersion \<noteq> None \<and> roomVersion \<noteq> Some ''1'' \<and> roomVersion \<noteq> Some ''2'' then Ok ()
          else and_then (domainFromID (Redacts event)) (\<lambda>redactDomain.
            and_then (q (ac_roomID a) (SenderID event)) (\<lambda>u.
            and_then (deref u) (\<lambda>sender.
              if user_domain sender = redactDomain then Ok ()
              else if pl_Redact (ac_powerLevels a) \<le> UserLevel (ac_powerLevels a) (SenderID event) then Ok ()
              else Err (NotAllowed ''%q is not allowed to redact message from %q. %d < %d''))))))"

end
