(* ===== verification/MembershipAuth.thy ===== *)
theory MembershipAuth
  imports EventAuth
begin

text \<open>
  The rules for \<^verbatim>\<open>m.room.member\<close> events and the entry points of the authorisation checks
  (\<^verbatim>\<open>internal/matrixserver/eventauth.go\<close>, from \<^verbatim>\<open>membershipAllower\<close> on, with \<^verbatim>\<open>allowed\<close> and
  \<^verbatim>\<open>Allowed\<close>).

  \<^verbatim>\<open>membershipAllower\<close> holds a pointer to the context, so a restricted join that rewrites
  the join rule rewrites it for whoever uses the context next. The checks return the allower
  they leave behind together with their verdict.
\<close>

section \<open>Loading what the check needs\<close>

record membershipAllower =
  ma_ctx :: allowerContext
  ma_roomVersionImpl :: RoomVersionImpl
  ma_thirdPartyInvite :: ThirdPartyInviteContent
  ma_targetID :: string
  ma_senderID :: string
  ma_senderMember :: MemberContent
  ma_oldMember :: MemberContent
  ma_newMember :: MemberContent

abbreviation ma_joinRule :: "membershipAllower \<Rightarrow> string" where
  "ma_joinRule m \<equiv> jr_JoinRule (ac_joinRule (ma_ctx m))"

definition set_joinRule :: "string \<Rightarrow> membershipAllower \<Rightarrow> membershipAllower" where
  "set_joinRule r m =
     m\<lparr>ma_ctx := (ma_ctx m)\<lparr>ac_joinRule := (ac_joinRule (ma_ctx m))\<lparr>jr_JoinRule := r\<rparr>\<rparr>\<rparr>"

lemma set_joinRule_simps [simp]:
  "ma_joinRule (set_joinRule r m) = r"
  "ma_newMember (set_joinRule r m) = ma_newMember m"
  "ma_oldMember (set_joinRule r m) = ma_oldMember m"
  "ma_senderMember (set_joinRule r m) = ma_senderMember m"
  "ma_senderID (set_joinRule r m) = ma_senderID m"
  "ma_targetID (set_joinRule r m) = ma_targetID m"
  "ma_roomVersionImpl (set_joinRule r m) = ma_roomVersionImpl m"
  by (simp_all add: set_joinRule_def)

definition newMembershipAllower ::
  "allowerContext \<Rightarrow> AuthEventProvider \<Rightarrow> PDU \<Rightarrow> membershipAllower outcome" where
  "newMembershipAllower a authEvents event =
     and_then (GetRoomVersion (Version event)) (\<lambda>impl.
       case StateKey event of
         None \<Rightarrow> Err (NotAllowed ''m.room.member must be a state event'')
       | Some stateKey \<Rightarrow>
           and_then (NewMemberContentFromEvent event) (\<lambda>newMember.
           and_then (NewMemberContentFromAuthEvents authEvents stateKey) (\<lambda>oldMember.
           and_then (NewMemberContentFromAuthEvents authEvents (SenderID event)) (\<lambda>senderMember.
           and_then (case mc_ThirdPartyInvite newMember of
                       None \<Rightarrow> Ok zero_ThirdPartyInviteContent
                     | Some tpi \<Rightarrow> NewThirdPartyInviteContentFromAuthEvents authEvents
                         (sg_Token (ti_Signed tpi))) (\<lambda>thirdPartyInvite.
             Ok \<lparr>ma_ctx = a, ma_roomVersionImpl = impl, ma_thirdPartyInvite = thirdPartyInvite,
                 ma_targetID = stateKey, ma_senderID = SenderID event, ma_senderMember = senderMember,
                 ma_oldMember = oldMember, ma_newMember = newMember\<rparr>)))))"

section \<open>The rules\<close>

text \<open>The format string of the failure; the source prefixes it with who tried to do what.\<close>

definition membershipFailed :: "membershipAllower \<Rightarrow> string \<Rightarrow> 'a outcome" where
  "membershipFailed m fmt =
     (if ma_senderID m = ma_targetID m
      then Err (NotAllowed (''%q is not allowed to change their membership from %q to %q as '' @ fmt))
      else Err (NotAllowed (''%q is not allowed to change the membership of %q from %q to %q as '' @ fmt)))"

lemma membershipFailed_neq [simp]:
  "membershipFailed m fmt \<noteq> Ok x" "Ok x \<noteq> membershipFailed m fmt" "membershipFailed m fmt \<noteq> Panic"
  by (simp_all add: membershipFailed_def)

text \<open>The room version's hook; a nil hook panics.\<close>

definition allowRestrictedJoins :: "unit outcome" where
  "allowRestrictedJoins = Ok ()"

definition disallowRestrictedJoins :: "unit outcome" where
  "disallowRestrictedJoins = Err (NotAllowed ''restricted joins are not supported in this room version'')"

definition CheckRestrictedJoinsAllowed :: "RoomVersionImpl \<Rightarrow> unit outcome" where
  "CheckRestrictedJoinsAllowed v =
     (case checkRestrictedJoinAllowedFunc v of
        None \<Rightarrow> Panic
      | Some F_allowRestrictedJoins \<Rightarrow> allowRestrictedJoins
      | Some F_disallowRestrictedJoins \<Rightarrow> disallowRestrictedJoins)"

definition disallowKnocking :: "membershipAllower \<Rightarrow> unit outcome" where
  "disallowKnocking m =
     membershipFailed m ''room version %q does not support knocking on rooms with join rule %q''"

definition checkKnocking :: "membershipAllower \<Rightarrow> unit outcome" where
  "checkKnocking m =
     (if \<not> (ma_joinRule m = Knock \<or> ma_joinRule m = KnockRestricted)
        then membershipFailed m ''room version %q does not support knocking on rooms with join rule %q''
      else if mc_Membership (ma_oldMember m) \<in> {Join, Invite, Ban}
        then membershipFailed m ''sender is already joined/invited/banned''
      else Ok ())"

definition CheckKnockingAllowed :: "RoomVersionImpl \<Rightarrow> membershipAllower \<Rightarrow> unit outcome" where
  "CheckKnockingAllowed v m =
     (case checkKnockingAllowedFunc v of
        F_disallowKnocking \<Rightarrow> disallowKnocking m
      | F_checkKnocking \<Rightarrow> checkKnocking m)"

definition membershipAllowedSelfForRestrictedJoin :: "membershipAllower \<Rightarrow> membershipAllower outcome" where
  "membershipAllowedSelfForRestrictedJoin m =
     (let via = mc_AuthorisedVia (ma_newMember m); pls = ac_powerLevels (ma_ctx m) in
      case CheckRestrictedJoinsAllowed (ma_roomVersionImpl m) of
        Panic \<Rightarrow> Panic
      | Err _ \<Rightarrow> Err (NotAllowed ''restricted joins are not supported in this room version'')
      | Ok _ \<Rightarrow>
          if mc_Membership (ma_oldMember m) = Join \<or> mc_Membership (ma_oldMember m) = Invite \<or> via = []
            then Ok (set_joinRule Invite m)
          else and_then
            (if ver (ma_roomVersionImpl m) = RoomVersionPseudoIDs then Ok ()
             else (case SplitID CHR ''@'' via of
                 Ok _ \<Rightarrow> Ok ()
               | _ \<Rightarrow> Err (NotAllowed ''the join_authorised_via_users_server contains an invalid value %q'')))
            (\<lambda>_.
              case prov_Member (ac_provider (ma_ctx m)) via of
                Panic \<Rightarrow> Panic
              | Err _ \<Rightarrow> Err (NotAllowed ''failed to find the membership event for join_authorised_via_users_server user %q'')
              | Ok None \<Rightarrow> Err (NotAllowed ''failed to find the membership event for join_authorised_via_users_server user %q'')
              | Ok (Some otherMember) \<Rightarrow>
                  (case Membership otherMember of
                     Ok otherMembership \<Rightarrow>
                       if otherMembership \<noteq> Join
                         then Err (NotAllowed ''the nominated join_authorised_via_users_server user %q is not joined to the room'')
                       else if UserLevel pls via < pl_Invite pls
                         then Err (NotAllowed ''the nominated join_authorised_via_users_server user %q does not have permission to invite (%d < %d)'')
                       else Ok (set_joinRule Public m)
                   | _ \<Rightarrow> Err (NotAllowed ''failed to find the membership status for join_authorised_via_users_server user %q''))))"

text \<open>Whether one of a list of attempts succeeds; failures are skipped, a panic is not.\<close>

fun any_ok :: "('a \<Rightarrow> unit outcome) \<Rightarrow> 'a list \<Rightarrow> bool outcome" where
  "any_ok f [] = Ok False"
| "any_ok f (x # xs) = (case f x of Ok _ \<Rightarrow> Ok True | Err _ \<Rightarrow> any_ok f xs | Panic \<Rightarrow> Panic)"

definition json_of_Signed :: "MemberThirdPartyInviteSigned \<Rightarrow> json" where
  "json_of_Signed s = JObj
     [(''mxid'', JStr (sg_MXID s)),
      (''signatures'', JObj (map (\<lambda>(d, m). (d, JObj (map (\<lambda>(k, v). (k, JStr v)) m))) (sg_Signatures s))),
      (''token'', JStr (sg_Token s))]"

text \<open>The (public key, domain, key ID) combinations that are tried.\<close>

definition signature_attempts ::
  "ThirdPartyInviteContent \<Rightarrow> MemberThirdPartyInviteSigned \<Rightarrow> (string \<times> string \<times> string) list" where
  "signature_attempts t s =
     concat (map (\<lambda>pk. concat (map (\<lambda>(domain, sigs).
       map (\<lambda>keyID. (pk_PublicKey pk, domain, keyID)) (filter (\<lambda>k. take 7 k = ''ed25519'') (keys sigs)))
       (sg_Signatures s))) (tp_PublicKeys t))"

definition membershipAllowedFromThirdPartyInvite :: "ed25519_verifier \<Rightarrow> membershipAllower \<Rightarrow> unit outcome" where
  "membershipAllowedFromThirdPartyInvite edv m =
     and_then (deref (mc_ThirdPartyInvite (ma_newMember m))) (\<lambda>tpi.
       if ma_targetID m \<noteq> sg_MXID (ti_Signed tpi)
         then Err (NotAllowed ''The invite target %s does not match with the Matrix ID provided by the identity server %s'')
       else and_then (any_ok (\<lambda>(pk, domain, keyID).
                        VerifyJSON edv domain keyID pk (Some (json_of_Signed (ti_Signed tpi))))
                      (signature_attempts (ma_thirdPartyInvite m) (ti_Signed tpi))) (\<lambda>good.
         if good then Ok ()
         else Err (NotAllowed ''Could not verify signature on third-party invite for %s'')))"

definition membershipAllowedSelf :: "membershipAllower \<Rightarrow> membershipAllower \<times> unit outcome" where
  "membershipAllowedSelf m =
     (let old = mc_Membership (ma_oldMember m); new = mc_Membership (ma_newMember m) in
      if old = Leave \<and> new = Leave then (m, Ok ())
      else if old = Ban then (m, membershipFailed m ''sender cannot set their own membership to %q'')
      else if new = Knock then (m, CheckKnockingAllowed (ma_roomVersionImpl m) m)
      else if new = Join then
        (let tail = (\<lambda>m'.
           if old = Invite then (m', Ok ())
           else if old = Join then (m', Ok ())
           else if old = Leave \<and> ma_joinRule m' = Public then (m', Ok ())
           else (m', membershipFailed m' ''join rule %q forbids it''))
         in if ma_joinRule m = Restricted \<or> ma_joinRule m = KnockRestricted then
              (case membershipAllowedSelfForRestrictedJoin m of
                 Panic \<Rightarrow> (m, Panic)
               | Err e \<Rightarrow> (m, Err e)
               | Ok m' \<Rightarrow> if ma_joinRule m' = Public then (m', Ok ()) else tail m')
            else tail m)
      else if new = Leave then
        (if old \<in> {Join, Invite, Knock} then (m, Ok ())
         else (m, membershipFailed m ''sender cannot leave from membership state %q''))
      else if new = Invite \<or> new = Ban
        then (m, membershipFailed m ''sender cannot set their own membership to %q'')
      else (m, membershipFailed m ''membership %q is unknown''))"

definition membershipAllowedOther :: "membershipAllower \<Rightarrow> unit outcome" where
  "membershipAllowedOther m =
     (let pls = ac_powerLevels (ma_ctx m);
          senderLevel = UserLevel pls (ma_senderID m);
          targetLevel = UserLevel pls (ma_targetID m);
          old = mc_Membership (ma_oldMember m); new = mc_Membership (ma_newMember m) in
      if mc_Membership (ma_senderMember m) \<noteq> Join then Err (NotAllowed ''sender %q is not in the room'')
      else if new = Ban then
        (if pl_Ban pls \<le> senderLevel \<and> targetLevel < senderLevel then Ok ()
         else membershipFailed m ''sender has insufficient power to ban (sender level %d, target level %d, ban level %d)'')
      else if new = Leave then
        (if old = Ban then
           (if pl_Ban pls \<le> senderLevel then Ok ()
            else membershipFailed m ''sender has insufficient power to unban (sender level %d, ban level %d)'')
         else if pl_Kick pls \<le> senderLevel \<and> targetLevel < senderLevel then Ok ()
         else membershipFailed m ''sender has insufficient power to kick (sender level %d, target level %d, kick level %d)'')
      else if new = Invite then
        (if senderLevel < pl_Invite pls
           then membershipFailed m ''sender has insufficient power to invite (sender level %d, invite level %d)''
         else if old = Join \<or> old = Ban
           then membershipFailed m ''target cannot be invited when their membership is %q''
         else Ok ())
      else if new = Knock \<or> new = Join
        then membershipFailed m ''sender cannot set membership of another user to %q''
      else membershipFailed m ''membership %q is unknown'')"

text \<open>The user behind the sender: the one the content names, or the one the callback finds.\<close>

definition membershipSender :: "UserIDForSender \<Rightarrow> membershipAllower \<Rightarrow> PDU \<Rightarrow> UserID outcome" where
  "membershipSender q m event =
     and_then
       (if EventType event = MRoomMember then
          (case Unmarshal dec_membershipContent (Content event) zero_membershipContent of (mapping, err) \<Rightarrow>
             if err then Err (GoError ''json'')
             else (case ms_MXIDMapping mapping of
                 None \<Rightarrow> Ok None
               | Some mx \<Rightarrow> and_then (NewUserID (mx_UserID mx) True) (\<lambda>u. Ok (Some u))))
        else Ok None) (\<lambda>named.
       case named of
         Some u \<Rightarrow> Ok u
       | None \<Rightarrow> and_then (q (ac_roomID (ma_ctx m)) (ma_senderID m)) (\<lambda>found.
           case found of
             None \<Rightarrow> Err (NotAllowed ''userID not found for sender %q in room %q'')
           | Some u \<Rightarrow> Ok u))"

text \<open>The creator's first join, right after the create event.\<close>

definition creatorJoin :: "membershipAllower \<Rightarrow> PDU \<Rightarrow> bool outcome" where
  "creatorJoin m event =
     and_then (deref (ac_createEvent (ma_ctx m))) (\<lambda>createEvent.
       Ok (ma_targetID m = SenderID createEvent \<and> mc_Membership (ma_newMember m) = Join \<and>
           ma_senderID m = ma_targetID m \<and> PrevEventIDs event = [cc_eventID (ac_create (ma_ctx m))]))"

definition membershipAllowed ::
  "ed25519_verifier \<Rightarrow> UserIDForSender \<Rightarrow> membershipAllower \<Rightarrow> PDU \<Rightarrow> membershipAllower \<times> unit outcome" where
  "membershipAllowed edv q m event =
     (if cc_roomID (ac_create (ma_ctx m)) \<noteq> room_raw (EventRoomID event)
        then (m, Err (NotAllowed ''create event has different roomID: %q (%s) != %q (%s)''))
      else (case and_then (membershipSender q m event) (\<lambda>sender.
               and_then (UserIDAllowed (ac_create (ma_ctx m)) sender) (\<lambda>_. creatorJoin m event)) of
          Panic \<Rightarrow> (m, Panic)
        | Err e \<Rightarrow> (m, Err e)
        | Ok True \<Rightarrow> (m, Ok ())
        | Ok False \<Rightarrow>
            if mc_Membership (ma_newMember m) = Invite \<and> mc_ThirdPartyInvite (ma_newMember m) \<noteq> None
              then (m, membershipAllowedFromThirdPartyInvite edv m)
            else if ma_targetID m = ma_senderID m then membershipAllowedSelf m
            else (m, membershipAllowedOther m)))"

definition memberEventAllowed ::
  "ed25519_verifier \<Rightarrow> UserIDForSender \<Rightarrow> allowerContext \<Rightarrow> PDU \<Rightarrow> allowerContext \<times> unit outcome" where
  "memberEventAllowed edv q a event =
     (case newMembershipAllower a (ac_provider a) event of
        Panic \<Rightarrow> (a, Panic)
      | Err e \<Rightarrow> (a, Err e)
      | Ok m \<Rightarrow> (case membershipAllowed edv q m event of (m', r) \<Rightarrow> (ma_ctx m', r)))"

section \<open>Entry points\<close>

definition allowed ::
  "ed25519_verifier \<Rightarrow> UserIDForSender \<Rightarrow> allowerContext \<Rightarrow> PDU \<Rightarrow> allowerContext \<times> unit outcome" where
  "allowed edv q a event =
     (if EventType event = MRoomCreate then (a, createEventAllowed q a event)
      else if EventType event = MRoomAliases then (a, aliasEventAllowed q a event)
      else if EventType event = MRoomMember then memberEventAllowed edv q a event
      else if EventType event = MRoomPowerLevels then (a, powerLevelsEventAllowed q a event)
      else if EventType event = MRoomRedaction then (a, redactEventAllowed q a event)
      else (a, defaultEventAllowed q a event))"

definition Allowed ::
  "ed25519_verifier \<Rightarrow> UserIDForSender \<Rightarrow> PDU \<Rightarrow> AuthEventProvider \<Rightarrow> unit outcome" where
  "Allowed edv q event authEvents =
     (if \<not> prov_Valid authEvents then Err (NotAllowed ''authEvents contains events from different rooms'')
      else and_then (newAllowerContext authEvents q (EventRoomID event)) (\<lambda>a. snd (allowed edv q a event)))"

end
