(* ===== verification/StateResV2.thy ===== *)
theory StateResV2
  imports Kahn MembershipAuth
begin

text \<open>
  State resolution for room versions 2 and later: \<^verbatim>\<open>stateresolutionv2.go\<close> and the
  comparisons of \<^verbatim>\<open>stateresolutionv2heaps.go\<close>, all in \<^verbatim>\<open>internal/matrixserver\<close>.

  The recursive closures of the source (\<^verbatim>\<open>iter\<close>, \<^verbatim>\<open>fullControlSet\<close>) follow auth
  event IDs and only return when those have no cycle, so they take fuel and give \<open>None\<close> when
  it runs out. Every range over a Go map takes its order from a \<open>range_order\<close>, with a number
  for each loop. The resolver's fields are the record \<open>stateResolverV2\<close>; the callback
  \<^verbatim>\<open>isRejectedFn\<close> and the signature check are arguments.
\<close>

section \<open>The two comparisons\<close>

record stateResV2ConflictedPowerLevel =
  cp_powerLevel :: int
  cp_originServerTS :: nat
  cp_eventID :: string
  cp_event :: PDU

definition sortStateResV2ConflictedPowerLevelHeap ::
  "stateResV2ConflictedPowerLevel \<Rightarrow> stateResV2ConflictedPowerLevel \<Rightarrow> int" where
  "sortStateResV2ConflictedPowerLevelHeap a b =
     (if cp_powerLevel b < cp_powerLevel a then -1
      else if cp_powerLevel a < cp_powerLevel b then 1
      else if cp_originServerTS a < cp_originServerTS b then -1
      else if cp_originServerTS b < cp_originServerTS a then 1
      else strings_Compare (cp_eventID a) (cp_eventID b))"

record stateResV2ConflictedOther =
  co_mainlinePosition :: int
  co_mainlineSteps :: int
  co_originServerTS :: nat
  co_eventID :: string
  co_event :: PDU

definition sortStateResV2ConflictedOtherHeap ::
  "stateResV2ConflictedOther \<Rightarrow> stateResV2ConflictedOther \<Rightarrow> int" where
  "sortStateResV2ConflictedOtherHeap a b =
     (if co_mainlinePosition a < co_mainlinePosition b then -1
      else if co_mainlinePosition b < co_mainlinePosition a then 1
      else if co_mainlineSteps a < co_mainlineSteps b then -1
      else if co_mainlineSteps b < co_mainlineSteps a then 1
      else if co_originServerTS a < co_originServerTS b then -1
      else if co_originServerTS b < co_originServerTS a then 1
      else strings_Compare (co_eventID a) (co_eventID b))"

lemma strings_Compare_order:
  "strings_Compare a b < 0 \<longleftrightarrow> 0 < strings_Compare b a"
  "strings_Compare a b \<le> 0 \<Longrightarrow> strings_Compare b c \<le> 0 \<Longrightarrow> strings_Compare a c \<le> 0"
  "strings_Compare a b = 0 \<longleftrightarrow> a = b"
  by (auto simp: strings_Compare_def split: if_splits)

interpretation power_order: event_order sortStateResV2ConflictedPowerLevelHeap cp_eventID
proof
  fix a b c :: stateResV2ConflictedPowerLevel
  show "sortStateResV2ConflictedPowerLevelHeap a b < 0 \<longleftrightarrow> 0 < sortStateResV2ConflictedPowerLevelHeap b a"
    by (auto simp: sortStateResV2ConflictedPowerLevelHeap_def strings_Compare_order)
  show "sortStateResV2ConflictedPowerLevelHeap a b \<le> 0 \<Longrightarrow> sortStateResV2ConflictedPowerLevelHeap b c \<le> 0
      \<Longrightarrow> sortStateResV2ConflictedPowerLevelHeap a c \<le> 0"
    by (auto simp: sortStateResV2ConflictedPowerLevelHeap_def intro: strings_Compare_order(2) split: if_splits)
  show "sortStateResV2ConflictedPowerLevelHeap a b = 0 \<Longrightarrow> cp_eventID a = cp_eventID b"
    by (simp add: sortStateResV2ConflictedPowerLevelHeap_def strings_Compare_order split: if_splits)
qed

interpretation mainline_order: event_order sortStateResV2ConflictedOtherHeap co_eventID
proof
  fix a b c :: stateResV2ConflictedOther
  show "sortStateResV2ConflictedOtherHeap a b < 0 \<longleftrightarrow> 0 < sortStateResV2ConflictedOtherHeap b a"
    by (auto simp: sortStateResV2ConflictedOtherHeap_def strings_Compare_order)
  show "sortStateResV2ConflictedOtherHeap a b \<le> 0 \<Longrightarrow> sortStateResV2ConflictedOtherHeap b c \<le> 0
      \<Longrightarrow> sortStateResV2ConflictedOtherHeap a c \<le> 0"
    by (auto simp: sortStateResV2ConflictedOtherHeap_def intro: strings_Compare_order(2) split: if_splits)
  show "sortStateResV2ConflictedOtherHeap a b = 0 \<Longrightarrow> co_eventID a = co_eventID b"
    by (simp add: sortStateResV2ConflictedOtherHeap_def strings_Compare_order split: if_splits)
qed

section \<open>Topological orderings\<close>

definition kahnsAlgorithmUsingAuthEvents ::
  "string range_order \<Rightarrow> stateResV2ConflictedPowerLevel list \<Rightarrow> stateResV2ConflictedPowerLevel list" where
  "kahnsAlgorithmUsingAuthEvents rng events =
     kahn rng cp_eventID (\<lambda>e. AuthEventIDs (cp_event e)) sortStateResV2ConflictedPowerLevelHeap events"

definition kahnsAlgorithmUsingPrevEvents ::
  "string range_order \<Rightarrow> stateResV2ConflictedOther list \<Rightarrow> stateResV2ConflictedOther list" where
  "kahnsAlgorithmUsingPrevEvents rng events =
     kahn rng co_eventID (\<lambda>e. PrevEventIDs (co_event e)) sortStateResV2ConflictedOtherHeap events"

section \<open>The resolver\<close>

record stateResolverV2 =
  sr_allower :: allowerContext
  sr_authProvider :: AuthEvents
  sr_authEventMap :: "(string, PDU) gomap"
  sr_conflictedEventMap :: "(string, PDU) gomap"
  sr_powerLevelContents :: "(string, PowerLevelContent) gomap"
  sr_powerLevelMainlinePos :: "(string, int) gomap"
  sr_resolvedCreate :: "PDU option"
  sr_resolvedPowerLevels :: "PDU option"
  sr_resolvedJoinRules :: "PDU option"
  sr_resolvedThirdPartyInvites :: "(string, PDU) gomap"
  sr_resolvedMembers :: "(string, PDU) gomap"
  sr_resolvedOthers :: "(StateKeyTuple, PDU) gomap"
  sr_isRejectedCache :: "(string, bool) gomap"

text \<open>\<^verbatim>\<open>eventMapFromEvents\<close> keeps the first event with an ID.\<close>

definition eventMapFromEvents :: "PDU list \<Rightarrow> (string, PDU) gomap" where
  "eventMapFromEvents events =
     fold (\<lambda>e r. if map_of r (EventID e) = None then AList.update (EventID e) e r else r) events []"

definition isControlEvent :: "PDU \<Rightarrow> bool" where
  "isControlEvent e =
     (if EventType e = MRoomPowerLevels then StateKeyEquals e []
      else if EventType e = MRoomJoinRules then StateKeyEquals e []
      else if EventType e = MRoomMember then
        (if StateKey e = None \<or> StateKeyEquals e [] then False
         else if StateKeyEquals e (SenderID e) then False
         else (case Unmarshal dec_MemberContent (Content e) zero_MemberContent of (content, err) \<Rightarrow>
            \<not> err \<and> (mc_Membership content = Leave \<or> mc_Membership content = Ban)))
      else False)"

section \<open>Auth chains\<close>

text \<open>A power level event with an empty state key.\<close>

definition is_power_levels :: "PDU \<Rightarrow> bool" where
  "is_power_levels e \<longleftrightarrow> EventType e = MRoomPowerLevels \<and> StateKeyEquals e []"

text \<open>The closure \<^verbatim>\<open>iter\<close> of \<^verbatim>\<open>calculateAuthDifference\<close>, one level and all levels.\<close>

type_synonym auth_sets = "(string, (string, PDU) gomap) gomap"

fun auth_set_loop :: "(PDU \<Rightarrow> auth_sets \<Rightarrow> auth_sets option) \<Rightarrow> (string, PDU) gomap \<Rightarrow> string
    \<Rightarrow> string list \<Rightarrow> auth_sets \<Rightarrow> auth_sets option" where
  "auth_set_loop iter authEventMap eventID [] authSets = Some authSets"
| "auth_set_loop iter authEventMap eventID (authEventID # ids) authSets =
     (case map_of authEventMap authEventID of
        None \<Rightarrow> auth_set_loop iter authEventMap eventID ids authSets
      | Some authEvent \<Rightarrow>
          let authSet = (case map_of authSets eventID of None \<Rightarrow> [] | Some s \<Rightarrow> s);
              authSets1 = (if map_of authSets eventID = None then AList.update eventID [] authSets else authSets)
          in if map_of authSet authEventID \<noteq> None then auth_set_loop iter authEventMap eventID ids authSets1
             else Option.bind (iter authEvent (AList.update eventID (AList.update authEventID authEvent authSet) authSets1))
                    (auth_set_loop iter authEventMap eventID ids))"

primrec auth_set_iter :: "nat \<Rightarrow> (string, PDU) gomap \<Rightarrow> string \<Rightarrow> PDU \<Rightarrow> auth_sets \<Rightarrow> auth_sets option" where
  "auth_set_iter 0 authEventMap eventID event authSets = None"
| "auth_set_iter (Suc n) authEventMap eventID event authSets =
     auth_set_loop (auth_set_iter n authEventMap eventID) authEventMap eventID (AuthEventIDs event) authSets"

definition isInAuthList :: "auth_sets \<Rightarrow> string \<Rightarrow> PDU \<Rightarrow> bool" where
  "isInAuthList authSets k event =
     (case map_of authSets k of None \<Rightarrow> False | Some events \<Rightarrow> map_of events (EventID event) \<noteq> None)"

definition isInAllAuthLists :: "auth_sets \<Rightarrow> PDU \<Rightarrow> bool" where
  "isInAllAuthLists authSets event =
     (\<forall>(k, e) \<in> set (case map_of authSets (EventID event) of None \<Rightarrow> [] | Some events \<Rightarrow> events).
        isInAuthList authSets k e)"

fun all_auth_sets :: "nat \<Rightarrow> (string, PDU) gomap \<Rightarrow> PDU list \<Rightarrow> auth_sets \<Rightarrow> auth_sets option" where
  "all_auth_sets n authEventMap [] authSets = Some authSets"
| "all_auth_sets n authEventMap (e # es) authSets =
     Option.bind (auth_set_iter n authEventMap (EventID e) e authSets) (all_auth_sets n authEventMap es)"

text \<open>The conflicted event map is keyed by event ID, so its key is the ID of the event.\<close>

definition calculateAuthDifference ::
  "string range_order \<Rightarrow> nat \<Rightarrow> (string, PDU) gomap \<Rightarrow> (string, PDU) gomap \<Rightarrow> PDU list option" where
  "calculateAuthDifference rng n conflictedEventMap authEventMap =
     Option.bind
       (all_auth_sets n authEventMap
          (List.map_filter (map_of conflictedEventMap) (rng 10 (keys conflictedEventMap))) [])
       (\<lambda>authSets. Some (filter (\<lambda>e. \<not> isInAllAuthLists authSets e)
          (List.map_filter (map_of authEventMap) (rng 11 (keys authEventMap)))))"

text \<open>The closure \<^verbatim>\<open>fullControlSet\<close>, with its set of visited IDs.\<close>

fun control_loop :: "(PDU \<Rightarrow> string list \<Rightarrow> (PDU list \<times> string list) option) \<Rightarrow> (string, PDU) gomap
    \<Rightarrow> string list \<Rightarrow> PDU list \<times> string list \<Rightarrow> (PDU list \<times> string list) option" where
  "control_loop rec conflictedEventMap [] (events, visited) = Some (events, visited)"
| "control_loop rec conflictedEventMap (authEventID # ids) (events, visited) =
     (if authEventID \<in> set visited then control_loop rec conflictedEventMap ids (events, visited)
      else (case map_of conflictedEventMap authEventID of
          None \<Rightarrow> control_loop rec conflictedEventMap ids (events, List.insert authEventID visited)
        | Some event \<Rightarrow> Option.bind (rec event visited) (\<lambda>(more, visited').
            control_loop rec conflictedEventMap ids (events @ more, List.insert authEventID visited'))))"

primrec fullControlSet :: "nat \<Rightarrow> (string, PDU) gomap \<Rightarrow> PDU \<Rightarrow> string list \<Rightarrow> (PDU list \<times> string list) option" where
  "fullControlSet 0 conflictedEventMap event visited = None"
| "fullControlSet (Suc n) conflictedEventMap event visited =
     control_loop (fullControlSet n conflictedEventMap) conflictedEventMap (AuthEventIDs event) ([event], visited)"

text \<open>The loop that collects the control events and what they pull in.\<close>

fun collect_control :: "nat \<Rightarrow> (string, PDU) gomap \<Rightarrow> string list \<Rightarrow> PDU list \<Rightarrow> string list \<Rightarrow> PDU list option" where
  "collect_control n conflictedEventMap isUnconflicted [] visited = Some []"
| "collect_control n conflictedEventMap isUnconflicted (p # ps) visited =
     (if EventID p \<in> set isUnconflicted \<or> \<not> isControlEvent p
      then collect_control n conflictedEventMap isUnconflicted ps visited
      else Option.bind (fullControlSet n conflictedEventMap p visited) (\<lambda>(related, visited').
        Option.bind (collect_control n conflictedEventMap isUnconflicted ps visited') (\<lambda>rest.
          Some (related @ rest))))"

section \<open>The power level mainline\<close>

fun mainline_loop :: "(PDU \<Rightarrow> PDU list \<Rightarrow> PDU list option) \<Rightarrow> (string, PDU) gomap \<Rightarrow> string list \<Rightarrow> PDU list
    \<Rightarrow> PDU list option" where
  "mainline_loop iter authEventMap [] mainline = Some mainline"
| "mainline_loop iter authEventMap (authEventID # ids) mainline =
     (case map_of authEventMap authEventID of
        None \<Rightarrow> mainline_loop iter authEventMap ids mainline
      | Some authEvent \<Rightarrow>
          if is_power_levels authEvent
          then Option.bind (iter authEvent mainline) (mainline_loop iter authEventMap ids)
          else mainline_loop iter authEventMap ids mainline)"

primrec mainline_iter :: "nat \<Rightarrow> (string, PDU) gomap \<Rightarrow> PDU \<Rightarrow> PDU list \<Rightarrow> PDU list option" where
  "mainline_iter 0 authEventMap event mainline = None"
| "mainline_iter (Suc n) authEventMap event mainline =
     mainline_loop (mainline_iter n authEventMap) authEventMap (AuthEventIDs event) (event # mainline)"

definition createPowerLevelMainline :: "nat \<Rightarrow> (string, PDU) gomap \<Rightarrow> PDU option \<Rightarrow> PDU list option" where
  "createPowerLevelMainline n authEventMap resolvedPowerLevels =
     (case resolvedPowerLevels of
        None \<Rightarrow> Some []
      | Some event \<Rightarrow> mainline_iter n authEventMap event [])"

text \<open>
  The search for the mainline. A hit ends one level of the iteration; the levels above it go
  on with their next auth event.
\<close>

type_synonym mainline_state = "PDU option \<times> int \<times> int"

fun first_mainline_loop :: "(PDU \<Rightarrow> mainline_state \<Rightarrow> mainline_state option) \<Rightarrow> (string, PDU) gomap
    \<Rightarrow> (string, int) gomap \<Rightarrow> string list \<Rightarrow> mainline_state \<Rightarrow> mainline_state option" where
  "first_mainline_loop iter authEventMap mainlinePos [] st = Some st"
| "first_mainline_loop iter authEventMap mainlinePos (authEventID # ids) (ev, pos, steps) =
     (case map_of authEventMap authEventID of
        None \<Rightarrow> first_mainline_loop iter authEventMap mainlinePos ids (ev, pos, steps)
      | Some authEvent \<Rightarrow>
          if \<not> is_power_levels authEvent
          then first_mainline_loop iter authEventMap mainlinePos ids (ev, pos, steps)
          else (case map_of mainlinePos (EventID authEvent) of
              Some p \<Rightarrow> Some (Some authEvent, p, steps)
            | None \<Rightarrow> Option.bind (iter authEvent (ev, pos, steps + 1))
                (first_mainline_loop iter authEventMap mainlinePos ids)))"

primrec first_mainline_iter :: "nat \<Rightarrow> (string, PDU) gomap \<Rightarrow> (string, int) gomap \<Rightarrow> PDU \<Rightarrow> mainline_state
    \<Rightarrow> mainline_state option" where
  "first_mainline_iter 0 authEventMap mainlinePos event st = None"
| "first_mainline_iter (Suc n) authEventMap mainlinePos event st =
     first_mainline_loop (first_mainline_iter n authEventMap mainlinePos) authEventMap mainlinePos
       (AuthEventIDs event) st"

definition getFirstPowerLevelMainlineEvent ::
  "nat \<Rightarrow> (string, PDU) gomap \<Rightarrow> (string, int) gomap \<Rightarrow> PDU \<Rightarrow> mainline_state option" where
  "getFirstPowerLevelMainlineEvent n authEventMap mainlinePos event =
     first_mainline_iter n authEventMap mainlinePos event (None, 0, 0)"

section \<open>The level of a sender\<close>

text \<open>
  The first power level event among the auth events decides. The source dereferences its state
  key without a check for nil. Parsed contents are cached by event ID.
\<close>

fun power_level_loop :: "(string, PDU) gomap \<Rightarrow> string \<Rightarrow> string list \<Rightarrow> (string, PowerLevelContent) gomap
    \<Rightarrow> ((string, PowerLevelContent) gomap \<times> int) outcome" where
  "power_level_loop authEventMap user [] contents = Ok (contents, 0)"
| "power_level_loop authEventMap user (authID # ids) contents =
     (case map_of authEventMap authID of
        None \<Rightarrow> power_level_loop authEventMap user ids contents
      | Some authEvent \<Rightarrow>
          if EventType authEvent \<noteq> MRoomPowerLevels then power_level_loop authEventMap user ids contents
          else and_then (deref (StateKey authEvent)) (\<lambda>k.
            if k \<noteq> [] then power_level_loop authEventMap user ids contents
            else (case map_of contents authID of
                Some content \<Rightarrow> Ok (contents, UserLevel content user)
              | None \<Rightarrow> (case NewPowerLevelContentFromEvent authEvent of
                  Panic \<Rightarrow> Panic
                | Err _ \<Rightarrow> Ok (contents, 0)
                | Ok content \<Rightarrow> Ok (AList.update authID content contents, UserLevel content user)))))"

definition getPowerLevelFromAuthEvents :: "(string, PDU) gomap \<Rightarrow> (string, PowerLevelContent) gomap \<Rightarrow> PDU
    \<Rightarrow> ((string, PowerLevelContent) gomap \<times> int) outcome" where
  "getPowerLevelFromAuthEvents authEventMap contents event =
     power_level_loop authEventMap (SenderID event) (AuthEventIDs event) contents"

section \<open>Orderings of events\<close>

definition wrap_power_level :: "PDU \<Rightarrow> int \<Rightarrow> stateResV2ConflictedPowerLevel" where
  "wrap_power_level event level = \<lparr>cp_powerLevel = level, cp_originServerTS = OriginServerTS event,
     cp_eventID = EventID event, cp_event = event\<rparr>"

fun wrapPowerLevelEventsForSort :: "(string, PDU) gomap \<Rightarrow> PDU list \<Rightarrow> (string, PowerLevelContent) gomap
    \<Rightarrow> ((string, PowerLevelContent) gomap \<times> stateResV2ConflictedPowerLevel list) outcome" where
  "wrapPowerLevelEventsForSort authEventMap [] contents = Ok (contents, [])"
| "wrapPowerLevelEventsForSort authEventMap (event # events) contents =
     and_then (getPowerLevelFromAuthEvents authEventMap contents event) (\<lambda>(contents', level).
     and_then (wrapPowerLevelEventsForSort authEventMap events contents') (\<lambda>(contents'', block).
       Ok (contents'', wrap_power_level event level # block)))"

fun wrapOtherEventsForSort :: "nat \<Rightarrow> (string, PDU) gomap \<Rightarrow> (string, int) gomap \<Rightarrow> PDU list
    \<Rightarrow> stateResV2ConflictedOther list option" where
  "wrapOtherEventsForSort n authEventMap mainlinePos [] = Some []"
| "wrapOtherEventsForSort n authEventMap mainlinePos (event # events) =
     Option.bind (getFirstPowerLevelMainlineEvent n authEventMap mainlinePos event) (\<lambda>(_, pos, steps).
     Option.bind (wrapOtherEventsForSort n authEventMap mainlinePos events) (\<lambda>block.
       Some (\<lparr>co_mainlinePosition = pos, co_mainlineSteps = steps, co_originServerTS = OriginServerTS event,
              co_eventID = EventID event, co_event = event\<rparr> # block)))"

type_synonym TopologicalOrder = int

abbreviation "TopologicalOrderByPrevEvents \<equiv> (1 :: TopologicalOrder)"
abbreviation "TopologicalOrderByAuthEvents \<equiv> (2 :: TopologicalOrder)"

text \<open>
  The two orderings, on the parts of the resolver that they read. The fuel is for the mainline
  search of the second; the first also gives the cache of power level contents back.
\<close>

definition reverseTopologicalOrderingAuth :: "string range_order \<Rightarrow> (string, PDU) gomap
    \<Rightarrow> (string, PowerLevelContent) gomap \<Rightarrow> PDU list \<Rightarrow> ((string, PowerLevelContent) gomap \<times> PDU list) outcome" where
  "reverseTopologicalOrderingAuth rng authEventMap contents events =
     and_then (wrapPowerLevelEventsForSort authEventMap events contents) (\<lambda>(contents', block).
       Ok (contents', map cp_event (kahnsAlgorithmUsingAuthEvents rng block)))"

definition reverseTopologicalOrderingPrev :: "string range_order \<Rightarrow> nat \<Rightarrow> (string, PDU) gomap
    \<Rightarrow> (string, int) gomap \<Rightarrow> PDU list \<Rightarrow> PDU list option" where
  "reverseTopologicalOrderingPrev rng n authEventMap mainlinePos events =
     map_option (\<lambda>block. map co_event (kahnsAlgorithmUsingPrevEvents rng block))
       (wrapOtherEventsForSort n authEventMap mainlinePos events)"

text \<open>
  The exported function starts from an empty resolver, in which no auth event is known: the
  mainline search ends at once, so one unit of fuel is enough. An unknown ordering panics.
\<close>

definition ReverseTopologicalOrdering :: "string range_order \<Rightarrow> PDU list \<Rightarrow> TopologicalOrder \<Rightarrow> PDU list outcome" where
  "ReverseTopologicalOrdering rng input order =
     (if order = TopologicalOrderByAuthEvents
        then and_then (reverseTopologicalOrderingAuth rng [] [] input) (\<lambda>(_, result). Ok result)
      else if order = TopologicalOrderByPrevEvents
        then (case reverseTopologicalOrderingPrev rng 1 [] [] input of None \<Rightarrow> Panic | Some result \<Rightarrow> Ok result)
      else Panic)"

definition mainlineOrdering :: "nat \<Rightarrow> (string, PDU) gomap \<Rightarrow> (string, int) gomap \<Rightarrow> PDU list \<Rightarrow> PDU list option" where
  "mainlineOrdering n authEventMap mainlinePos events =
     map_option (\<lambda>block. map co_event (SortStableFunc sortStateResV2ConflictedOtherHeap block))
       (wrapOtherEventsForSort n authEventMap mainlinePos events)"

section \<open>Applying events to the partial state\<close>

definition applyEvent :: "PDU \<Rightarrow> stateResolverV2 \<Rightarrow> stateResolverV2" where
  "applyEvent event r =
     (let st = EventType event in
      case StateKey event of
        None \<Rightarrow> r
      | Some sk \<Rightarrow>
          if sk = [] then
            (if st = MRoomCreate then r\<lparr>sr_resolvedCreate := Some event\<rparr>
             else if st = MRoomPowerLevels then r\<lparr>sr_resolvedPowerLevels := Some event\<rparr>
             else if st = MRoomJoinRules then r\<lparr>sr_resolvedJoinRules := Some event\<rparr>
             else r\<lparr>sr_resolvedOthers := AList.update (st, sk) event (sr_resolvedOthers r)\<rparr>)
          else
            (if st = MRoomThirdPartyInvite
               then r\<lparr>sr_resolvedThirdPartyInvites := AList.update sk event (sr_resolvedThirdPartyInvites r)\<rparr>
             else if st = MRoomMember
               then r\<lparr>sr_resolvedMembers := AList.update sk event (sr_resolvedMembers r)\<rparr>
             else r\<lparr>sr_resolvedOthers := AList.update (st, sk) event (sr_resolvedOthers r)\<rparr>))"

definition applyEvents :: "PDU list \<Rightarrow> stateResolverV2 \<Rightarrow> stateResolverV2" where
  "applyEvents events r = fold applyEvent events r"

text \<open>\<^verbatim>\<open>_ = r.authProvider.AddEvent(e)\<close>: an error leaves the provider as it is.\<close>

definition addAuth :: "PDU \<Rightarrow> stateResolverV2 \<Rightarrow> stateResolverV2" where
  "addAuth event r =
     (case AddEvent (sr_authProvider r) event of Ok a \<Rightarrow> r\<lparr>sr_authProvider := a\<rparr> | _ \<Rightarrow> r)"

text \<open>The source adds the event that is being checked, not the auth event it found.\<close>

fun addFromAuthEventsIfNotRejected :: "(string \<Rightarrow> bool) \<Rightarrow> PDU \<Rightarrow> string \<Rightarrow> string \<Rightarrow> string list
    \<Rightarrow> stateResolverV2 \<Rightarrow> stateResolverV2" where
  "addFromAuthEventsIfNotRejected isRejectedFn event eventType stateKey [] r = r"
| "addFromAuthEventsIfNotRejected isRejectedFn event eventType stateKey (authEventID # ids) r =
     (let rejected = (case map_of (sr_isRejectedCache r) authEventID of
                        Some b \<Rightarrow> b | None \<Rightarrow> isRejectedFn authEventID);
          r1 = (if map_of (sr_isRejectedCache r) authEventID = None
                then r\<lparr>sr_isRejectedCache := AList.update authEventID rejected (sr_isRejectedCache r)\<rparr> else r);
          r2 = (if rejected then r1
                else (case map_of (sr_authEventMap r1) authEventID of
                    None \<Rightarrow> r1
                  | Some authEv \<Rightarrow>
                      if EventType authEv \<noteq> eventType \<or> \<not> StateKeyEquals authEv stateKey then r1
                      else addAuth event r1))
      in addFromAuthEventsIfNotRejected isRejectedFn event eventType stateKey ids r2)"

definition layer :: "(string \<Rightarrow> bool) \<Rightarrow> PDU \<Rightarrow> PDU option \<Rightarrow> string \<Rightarrow> string \<Rightarrow> stateResolverV2 \<Rightarrow> stateResolverV2" where
  "layer isRejectedFn event resolved eventType stateKey r =
     (case resolved of
        Some e \<Rightarrow> addAuth e r
      | None \<Rightarrow> addFromAuthEventsIfNotRejected isRejectedFn event eventType stateKey (AuthEventIDs event) r)"

definition layerPartialState :: "(string \<Rightarrow> bool) \<Rightarrow> PDU \<Rightarrow> stateResolverV2 \<Rightarrow> stateResolverV2" where
  "layerPartialState isRejectedFn event r0 =
     (let needed = StateNeededForAuth [event];
          lay = layer isRejectedFn event;
          r = r0\<lparr>sr_authProvider := Clear (sr_authProvider r0)\<rparr>;
          r1 = (if sn_Create needed then lay (sr_resolvedCreate r) MRoomCreate [] r else r);
          r2 = (if sn_JoinRules needed then lay (sr_resolvedJoinRules r1) MRoomJoinRules [] r1 else r1);
          r3 = (if sn_PowerLevels needed then lay (sr_resolvedPowerLevels r2) MRoomPowerLevels [] r2 else r2);
          r4 = fold (\<lambda>m s. lay (map_of (sr_resolvedMembers s) m) MRoomMember m s) (sn_Member needed) r3
      in fold (\<lambda>t s. lay (map_of (sr_resolvedThirdPartyInvites s) t) MRoomThirdPartyInvite t s)
           (sn_ThirdPartyInvite needed) r4)"

definition authAndApplyEvent :: "ed25519_verifier \<Rightarrow> UserIDForSender \<Rightarrow> (string \<Rightarrow> bool) \<Rightarrow> PDU
    \<Rightarrow> stateResolverV2 \<Rightarrow> stateResolverV2 outcome" where
  "authAndApplyEvent edv q isRejectedFn event r0 =
     (let r = layerPartialState isRejectedFn event r0 in
      and_then (update_ctx q (AuthEvents_provider 0 (sr_authProvider r)) (sr_allower r)) (\<lambda>a.
        case allowed edv q a event of (a', verdict) \<Rightarrow>
          (case verdict of
             Panic \<Rightarrow> Panic
           | Err _ \<Rightarrow> Ok (r\<lparr>sr_allower := a'\<rparr>)
           | Ok _ \<Rightarrow> Ok (applyEvent event (r\<lparr>sr_allower := a'\<rparr>)))))"

fun authAndApplyEvents :: "ed25519_verifier \<Rightarrow> UserIDForSender \<Rightarrow> (string \<Rightarrow> bool) \<Rightarrow> PDU list
    \<Rightarrow> stateResolverV2 \<Rightarrow> stateResolverV2 outcome" where
  "authAndApplyEvents edv q isRejectedFn [] r = Ok r"
| "authAndApplyEvents edv q isRejectedFn (event # events) r =
     and_then (authAndApplyEvent edv q isRejectedFn event r) (authAndApplyEvents edv q isRejectedFn events)"

section \<open>The whole resolution\<close>

text \<open>Fuel, then a panic or error, then the value.\<close>

definition run_then :: "'a outcome option \<Rightarrow> ('a \<Rightarrow> 'b outcome option) \<Rightarrow> 'b outcome option" where
  "run_then m f = (case m of None \<Rightarrow> None | Some Panic \<Rightarrow> Some Panic | Some (Err e) \<Rightarrow> Some (Err e) | Some (Ok x) \<Rightarrow> f x)"

lemma run_then_simps [simp]:
  "run_then None f = None" "run_then (Some Panic) f = Some Panic" "run_then (Some (Err e)) f = Some (Err e)"
  "run_then (Some (Ok x)) f = f x"
  by (simp_all add: run_then_def)

definition newResolverV2 :: "PDU list \<Rightarrow> PDU list \<Rightarrow> allowerContext \<Rightarrow> stateResolverV2" where
  "newResolverV2 conflicted authEvents allower =
     \<lparr>sr_allower = allower, sr_authProvider = empty_AuthEvents, sr_authEventMap = eventMapFromEvents authEvents,
      sr_conflictedEventMap = eventMapFromEvents conflicted, sr_powerLevelContents = [],
      sr_powerLevelMainlinePos = [], sr_resolvedCreate = None, sr_resolvedPowerLevels = None,
      sr_resolvedJoinRules = None, sr_resolvedThirdPartyInvites = [], sr_resolvedMembers = [],
      sr_resolvedOthers = [], sr_isRejectedCache = []\<rparr>"

text \<open>The room ID: of the auth events if there are any, else of the unconflicted or conflicted ones.\<close>

definition roomIDOf :: "PDU list \<Rightarrow> PDU list \<Rightarrow> PDU list \<Rightarrow> RoomID option" where
  "roomIDOf conflicted unconflicted authEvents =
     (if authEvents \<noteq> [] then Some (EventRoomID (hd authEvents))
      else if unconflicted \<noteq> [] then Some (EventRoomID (hd unconflicted))
      else if conflicted \<noteq> [] then Some (EventRoomID (hd conflicted)) else None)"

text \<open>The events that are neither control events nor pulled in by one.\<close>

definition conflictedOthersOf :: "PDU list \<Rightarrow> string list \<Rightarrow> PDU list \<Rightarrow> PDU list" where
  "conflictedOthersOf controlEvents isUnconflicted fullConflictedSet =
     filter (\<lambda>p. EventID p \<notin> set isUnconflicted \<and> \<not> isControlEvent p \<and>
               EventID p \<notin> EventID ` set controlEvents) fullConflictedSet"

definition mainline_positions :: "PDU list \<Rightarrow> (string, int) gomap" where
  "mainline_positions mainline =
     fold (\<lambda>(pos, event) m. AList.update (EventID event) (int pos) m) (enumerate 0 mainline) []"

definition resolvedResult :: "string range_order \<Rightarrow> StateKeyTuple range_order \<Rightarrow> stateResolverV2 \<Rightarrow> PDU list" where
  "resolvedResult rng rng3 r =
     (case sr_resolvedCreate r of None \<Rightarrow> [] | Some e \<Rightarrow> [e]) @
     (case sr_resolvedJoinRules r of None \<Rightarrow> [] | Some e \<Rightarrow> [e]) @
     (case sr_resolvedPowerLevels r of None \<Rightarrow> [] | Some e \<Rightarrow> [e]) @
     List.map_filter (map_of (sr_resolvedMembers r)) (rng 12 (keys (sr_resolvedMembers r))) @
     List.map_filter (map_of (sr_resolvedThirdPartyInvites r)) (rng 13 (keys (sr_resolvedThirdPartyInvites r))) @
     List.map_filter (map_of (sr_resolvedOthers r)) (rng3 0 (keys (sr_resolvedOthers r)))"

text \<open>The steps after the conflicted events have been split into control events and others.\<close>

definition resolveV2_steps :: "string range_order \<Rightarrow> nat \<Rightarrow> ed25519_verifier \<Rightarrow> UserIDForSender \<Rightarrow> (string \<Rightarrow> bool)
    \<Rightarrow> PDU list \<Rightarrow> PDU list \<Rightarrow> PDU list \<Rightarrow> stateResolverV2 \<Rightarrow> stateResolverV2 outcome option" where
  "resolveV2_steps rng n edv q isRejectedFn unconflicted control others r0 =
     run_then (Some (reverseTopologicalOrderingAuth rng (sr_authEventMap r0) (sr_powerLevelContents r0) unconflicted))
       (\<lambda>(contents1, unconflicted').
     let r1 = applyEvents unconflicted' (r0\<lparr>sr_powerLevelContents := contents1\<rparr>) in
     run_then (Some (reverseTopologicalOrderingAuth (\<lambda>i. rng (i + 2)) (sr_authEventMap r1)
                 (sr_powerLevelContents r1) control)) (\<lambda>(contents2, control').
     run_then (Some (authAndApplyEvents edv q isRejectedFn control' (r1\<lparr>sr_powerLevelContents := contents2\<rparr>))) (\<lambda>r2.
     run_then (map_option Ok (createPowerLevelMainline n (sr_authEventMap r2) (sr_resolvedPowerLevels r2))) (\<lambda>mainline.
     let r3 = r2\<lparr>sr_powerLevelMainlinePos := mainline_positions mainline\<rparr> in
     run_then (map_option Ok (mainlineOrdering n (sr_authEventMap r3) (sr_powerLevelMainlinePos r3) others)) (\<lambda>others'.
     run_then (Some (authAndApplyEvents edv q isRejectedFn others' r3)) (\<lambda>r4.
       Some (Ok (applyEvents unconflicted' r4))))))))"

definition ResolveStateConflictsV2 :: "string range_order \<Rightarrow> StateKeyTuple range_order \<Rightarrow> nat \<Rightarrow> ed25519_verifier
    \<Rightarrow> PDU list \<Rightarrow> PDU list \<Rightarrow> PDU list \<Rightarrow> UserIDForSender \<Rightarrow> (string \<Rightarrow> bool) \<Rightarrow> PDU list outcome option" where
  "ResolveStateConflictsV2 rng rng3 n edv conflicted unconflicted authEvents q isRejectedFn =
     (case roomIDOf conflicted unconflicted authEvents of
        None \<Rightarrow> Some (Ok [])
      | Some roomID \<Rightarrow>
          run_then (Some (newAllowerContext (AuthEvents_provider 0 empty_AuthEvents) q roomID)) (\<lambda>allower.
          let r0 = newResolverV2 conflicted authEvents allower;
              isUnconflicted = map EventID unconflicted in
          run_then (map_option Ok (calculateAuthDifference rng n (sr_conflictedEventMap r0) (sr_authEventMap r0)))
            (\<lambda>authDifference.
          let fullConflictedSet = conflicted @ authDifference in
          run_then (map_option Ok (collect_control n (sr_conflictedEventMap r0) isUnconflicted fullConflictedSet []))
            (\<lambda>control.
          run_then (resolveV2_steps rng n edv q isRejectedFn unconflicted control
                      (conflictedOthersOf control isUnconflicted fullConflictedSet) r0)
            (\<lambda>r. Some (Ok (resolvedResult rng rng3 r)))))))"

end
