(* ===== verification/Samples.thy ===== *)
theory Samples
  imports MembershipAuth
begin

text \<open>
  Concrete rooms and events on which the theorems of the other theories are applied: two range
  orders, a room, a user lookup that parses the sender ID, and a builder for events.
\<close>

definition range_id :: "'k range_order" where
  "range_id site ks = ks"

lemma range_id_ok [simp]: "is_range_order range_id"
  by (simp add: is_range_order_def range_id_def)

definition range_rev :: "'k range_order" where
  "range_rev site ks = rev ks"

lemma range_rev_ok [simp]: "is_range_order range_rev"
  by (simp add: is_range_order_def range_rev_def)

definition sample_room :: RoomID where
  "sample_room = \<lparr>room_raw = ''!r:a'', room_opaqueID = ''r'', room_domain = ''a''\<rparr>"

text \<open>The user lookup of rooms without pseudo IDs: the sender ID is the user ID.\<close>

definition sample_users :: UserIDForSender where
  "sample_users room sender = and_then (NewUserID sender True) (\<lambda>u. Ok (Some u))"

definition mk_event :: "string \<Rightarrow> string \<Rightarrow> string option \<Rightarrow> string \<Rightarrow> (string \<times> json) list \<Rightarrow> string list \<Rightarrow> nat \<Rightarrow> PDU" where
  "mk_event eid type sk sender content auth ts =
     \<lparr>EventID = eid, StateKey = sk, EventType = type, Content = Some (JObj content), SenderID = sender,
      EventRoomID = sample_room, Version = ''10'', Redacts = [], PrevEventIDs = auth, AuthEventIDs = auth,
      OriginServerTS = ts, Depth = 0\<rparr>"

lemmas mk_event_simps [simp] = mk_event_def

definition no_signature :: ed25519_verifier where
  "no_signature key message signature = Ok False"

text \<open>
  A room with its creator, who has level 100, a moderator with level 50 and a banned user. The
  context is what the checks load from these events.
\<close>

definition sample_levels :: "(string \<times> json) list" where
  "sample_levels = [(''users'', JObj [(''@u:a'', JNum ''100''), (''@m:a'', JNum ''50'')])]"

definition sample_state :: "PDU list" where
  "sample_state =
     [mk_event ''$c'' MRoomCreate (Some []) ''@u:a'' [(''creator'', JStr ''@u:a''), (''room_version'', JStr ''10'')] [] 1,
      mk_event ''$j'' MRoomMember (Some ''@u:a'') ''@u:a'' [(''membership'', JStr Join)] [''$c''] 2,
      mk_event ''$p'' MRoomPowerLevels (Some []) ''@u:a'' sample_levels [''$c'', ''$j''] 3,
      mk_event ''$r'' MRoomJoinRules (Some []) ''@u:a'' [(''join_rule'', JStr Public)] [''$c'', ''$j'', ''$p''] 4,
      mk_event ''$m'' MRoomMember (Some ''@m:a'') ''@m:a'' [(''membership'', JStr Join)] [''$c'', ''$p'', ''$r''] 5,
      mk_event ''$b'' MRoomMember (Some ''@b:a'') ''@u:a'' [(''membership'', JStr Ban)] [''$c'', ''$j'', ''$p''] 6]"

fun the_ok :: "'a outcome \<Rightarrow> 'a" where
  "the_ok (Ok x) = x"

fun is_ok :: "'a outcome \<Rightarrow> bool" where
  "is_ok (Ok x) = True"
| "is_ok _ = False"

lemma the_ok: "is_ok r \<Longrightarrow> r = Ok (the_ok r)"
  by (cases r) simp_all

definition context_of :: "PDU list \<Rightarrow> allowerContext" where
  "context_of events =
     the_ok (newAllowerContext (AuthEvents_provider 0 (the_ok (NewAuthEvents events))) sample_users sample_room)"

definition sample_member :: "string \<Rightarrow> string \<Rightarrow> (string \<times> json) list \<Rightarrow> PDU" where
  "sample_member sender target content = mk_event ''$n'' MRoomMember (Some target) sender content [''$c'', ''$p'', ''$r''] 9"

abbreviation sample_allower :: "PDU \<Rightarrow> membershipAllower" where
  "sample_allower event \<equiv>
     the_ok (newMembershipAllower (context_of sample_state) (ac_provider (context_of sample_state)) event)"

end
