(* ===== verification/PartialState.thy ===== *)
theory PartialState
  imports StateResV2 "HOL-Library.Sublist"
begin

text \<open>
  The partial state of the second state resolution algorithm as one map from state key tuples to
  events. The interface \<open>event_store\<close> says what storing an event does to such a map; it holds
  of the resolver's six fields and of the auth event provider, and its lemmas give what a
  sequence of stores leaves behind. The list that the resolution returns is then this map's
  range, one event per tuple.
\<close>

section \<open>Stores of events by state key tuple\<close>

locale event_store =
  fixes store :: "PDU \<Rightarrow> 's \<Rightarrow> 's" and lookup :: "'s \<Rightarrow> StateKeyTuple \<Rightarrow> PDU option" and ok :: "'s \<Rightarrow> bool"
  assumes store_ok: "ok s \<Longrightarrow> ok (store e s)"
    and lookup_store: "ok s \<Longrightarrow> lookup (store e s) = (case tuple_of e of None \<Rightarrow> lookup s | Some t \<Rightarrow> (lookup s)(t \<mapsto> e))"
    and lookup_own: "ok s \<Longrightarrow> lookup s t = Some e \<Longrightarrow> tuple_of e = Some t"
begin

lemma store_all_ok: "ok s \<Longrightarrow> ok (fold store es s)"
  by (induction es arbitrary: s) (auto intro: store_ok)

text \<open>The last event with a tuple is the one that is found.\<close>

lemma lookup_store_all:
  "ok s \<Longrightarrow> lookup (fold store es s) t =
     (case List.find (\<lambda>e. tuple_of e = Some t) (rev es) of Some e \<Rightarrow> Some e | None \<Rightarrow> lookup s t)"
proof (induction es rule: rev_induct)
  case (snoc e es)
  then show ?case by (auto simp: lookup_store store_all_ok split: option.splits)
qed simp

lemma lookup_stored:
  assumes "ok s" "e \<in> set es" "tuple_of e = Some t" "\<And>f. f \<in> set es \<Longrightarrow> tuple_of f = Some t \<Longrightarrow> f = e"
  shows "lookup (fold store es s) t = Some e"
proof (cases "List.find (\<lambda>e. tuple_of e = Some t) (rev es)")
  case None
  with assms(2,3) show ?thesis by (auto simp: find_None_iff)
next
  case (Some f)
  with assms(4) have "f = e" by (auto dest: find_SomeD)
  with Some assms(1) show ?thesis by (simp add: lookup_store_all)
qed

lemma lookup_from:
  assumes "ok s" "lookup (fold store es s) t = Some e"
  shows "e \<in> set es \<or> lookup s t = Some e"
  using assms by (auto simp: lookup_store_all split: option.splits dest: find_SomeD)

lemma lookup_kept: "ok s \<Longrightarrow> lookup s t \<noteq> None \<Longrightarrow> lookup (fold store es s) t \<noteq> None"
  by (auto simp: lookup_store_all split: option.splits)

end

section \<open>The auth event provider\<close>

definition add_ignoring :: "PDU \<Rightarrow> AuthEvents \<Rightarrow> AuthEvents" where
  "add_ignoring e a = (case AddEvent a e of Ok a' \<Rightarrow> a' | _ \<Rightarrow> a)"

definition AuthEvents_ok :: "AuthEvents \<Rightarrow> bool" where
  "AuthEvents_ok a \<longleftrightarrow> (\<forall>t e. map_of (ae_events a) t = Some e \<longrightarrow> tuple_of e = Some t)"

interpretation auth_store: event_store add_ignoring "\<lambda>a. map_of (ae_events a)" AuthEvents_ok
proof
  fix a e t f
  show "AuthEvents_ok a \<Longrightarrow> AuthEvents_ok (add_ignoring e a)"
    by (auto simp: AuthEvents_ok_def add_ignoring_def AddEvent_def map_simps tuple_of_def split: option.splits)
  show "map_of (ae_events (add_ignoring e a)) =
      (case tuple_of e of None \<Rightarrow> map_of (ae_events a) | Some t \<Rightarrow> (map_of (ae_events a))(t \<mapsto> e))"
    by (auto simp: add_ignoring_def AddEvent_def map_simps tuple_of_def split: option.splits)
  show "AuthEvents_ok a \<Longrightarrow> map_of (ae_events a) t = Some f \<Longrightarrow> tuple_of f = Some t"
    unfolding AuthEvents_ok_def by blast
qed

section \<open>The resolver's fields\<close>

fun resolved_state :: "stateResolverV2 \<Rightarrow> StateKeyTuple \<Rightarrow> PDU option" where
  "resolved_state r (t, k) =
     (if k = [] then
        (if t = MRoomCreate then sr_resolvedCreate r
         else if t = MRoomPowerLevels then sr_resolvedPowerLevels r
         else if t = MRoomJoinRules then sr_resolvedJoinRules r
         else map_of (sr_resolvedOthers r) (t, k))
      else
        (if t = MRoomThirdPartyInvite then map_of (sr_resolvedThirdPartyInvites r) k
         else if t = MRoomMember then map_of (sr_resolvedMembers r) k
         else map_of (sr_resolvedOthers r) (t, k)))"

text \<open>Tuples with a place of their own, and the invariant of the fields.\<close>

definition special :: "StateKeyTuple \<Rightarrow> bool" where
  "special t \<longleftrightarrow> (if snd t = [] then fst t \<in> {MRoomCreate, MRoomPowerLevels, MRoomJoinRules}
     else fst t \<in> {MRoomThirdPartyInvite, MRoomMember})"

definition resolver_ok :: "stateResolverV2 \<Rightarrow> bool" where
  "resolver_ok r \<longleftrightarrow>
     distinct (keys (sr_resolvedMembers r)) \<and> [] \<notin> set (keys (sr_resolvedMembers r)) \<and>
     distinct (keys (sr_resolvedThirdPartyInvites r)) \<and> [] \<notin> set (keys (sr_resolvedThirdPartyInvites r)) \<and>
     distinct (keys (sr_resolvedOthers r)) \<and> (\<forall>t \<in> set (keys (sr_resolvedOthers r)). \<not> special t) \<and>
     (\<forall>t e. resolved_state r t = Some e \<longrightarrow> tuple_of e = Some t)"

lemma resolver_ok_own: "resolver_ok r \<Longrightarrow> resolved_state r t = Some e \<Longrightarrow> tuple_of e = Some t"
  unfolding resolver_ok_def by blast

lemma resolver_ok_keys:
  assumes "resolver_ok r"
  shows "k \<in> set (keys (sr_resolvedMembers r)) \<Longrightarrow> k \<noteq> []"
    and "k \<in> set (keys (sr_resolvedThirdPartyInvites r)) \<Longrightarrow> k \<noteq> []"
    and "t \<in> set (keys (sr_resolvedOthers r)) \<Longrightarrow> \<not> special t"
    and "distinct (keys (sr_resolvedMembers r))" "distinct (keys (sr_resolvedThirdPartyInvites r))"
    "distinct (keys (sr_resolvedOthers r))"
  using assms unfolding resolver_ok_def by blast+

text \<open>Where an event is stored.\<close>

lemma applyEvent_cases:
  obtains (none) "tuple_of e = None" "applyEvent e r = r"
  | (create) "tuple_of e = Some (MRoomCreate, [])" "applyEvent e r = r\<lparr>sr_resolvedCreate := Some e\<rparr>"
  | (levels) "tuple_of e = Some (MRoomPowerLevels, [])" "applyEvent e r = r\<lparr>sr_resolvedPowerLevels := Some e\<rparr>"
  | (rules) "tuple_of e = Some (MRoomJoinRules, [])" "applyEvent e r = r\<lparr>sr_resolvedJoinRules := Some e\<rparr>"
  | (invite) k where "tuple_of e = Some (MRoomThirdPartyInvite, k)" "k \<noteq> []"
      "applyEvent e r = r\<lparr>sr_resolvedThirdPartyInvites := AList.update k e (sr_resolvedThirdPartyInvites r)\<rparr>"
  | (member) k where "tuple_of e = Some (MRoomMember, k)" "k \<noteq> []"
      "applyEvent e r = r\<lparr>sr_resolvedMembers := AList.update k e (sr_resolvedMembers r)\<rparr>"
  | (other) t where "tuple_of e = Some t" "\<not> special t"
      "applyEvent e r = r\<lparr>sr_resolvedOthers := AList.update t e (sr_resolvedOthers r)\<rparr>"
proof (cases "StateKey e")
  case None
  then show ?thesis by (intro none) (simp_all add: applyEvent_def tuple_of_def)
next
  case (Some k)
  have tup: "tuple_of e = Some (EventType e, k)" using Some by simp
  show ?thesis
  proof (cases "k = []")
    case True
    consider "EventType e = MRoomCreate" | "EventType e = MRoomPowerLevels" | "EventType e = MRoomJoinRules"
      | "EventType e \<notin> {MRoomCreate, MRoomPowerLevels, MRoomJoinRules}" by auto
    then show ?thesis
    proof cases
      case 4
      then show ?thesis using Some True tup by (intro other [OF tup]) (simp_all add: special_def applyEvent_def Let_def)
    qed (use Some True in \<open>simp_all add: create levels rules applyEvent_def Let_def\<close>)
  next
    case False
    consider "EventType e = MRoomThirdPartyInvite" | "EventType e = MRoomMember"
      | "EventType e \<notin> {MRoomThirdPartyInvite, MRoomMember}" by auto
    then show ?thesis
    proof cases
      case 3
      then show ?thesis using Some False tup by (intro other [OF tup]) (simp_all add: special_def applyEvent_def Let_def)
    qed (use Some False in \<open>simp_all add: invite [of k] member [of k] applyEvent_def Let_def\<close>)
  qed
qed

lemma resolved_state_special:
  "resolved_state r (MRoomCreate, []) = sr_resolvedCreate r"
  "resolved_state r (MRoomPowerLevels, []) = sr_resolvedPowerLevels r"
  "resolved_state r (MRoomJoinRules, []) = sr_resolvedJoinRules r"
  "k \<noteq> [] \<Longrightarrow> resolved_state r (MRoomThirdPartyInvite, k) = map_of (sr_resolvedThirdPartyInvites r) k"
  "k \<noteq> [] \<Longrightarrow> resolved_state r (MRoomMember, k) = map_of (sr_resolvedMembers r) k"
  "\<not> special t \<Longrightarrow> resolved_state r t = map_of (sr_resolvedOthers r) t"
  by simp_all (cases t, auto simp: special_def split: if_splits)

lemma tuple_kinds:
  obtains "t = (MRoomCreate, [])" | "t = (MRoomPowerLevels, [])" | "t = (MRoomJoinRules, [])"
  | k where "t = (MRoomThirdPartyInvite, k)" "k \<noteq> []" | k where "t = (MRoomMember, k)" "k \<noteq> []" | "\<not> special t"
proof (cases "special t")
  case True
  moreover obtain ty k where "t = (ty, k)" by (cases t)
  ultimately show ?thesis using that(1-5) by (cases "k = []") (auto simp: special_def)
qed (use that(6) in blast)

lemma special_kinds [simp]:
  "special (MRoomCreate, [])" "special (MRoomPowerLevels, [])" "special (MRoomJoinRules, [])"
  "k \<noteq> [] \<Longrightarrow> special (MRoomThirdPartyInvite, k)" "k \<noteq> [] \<Longrightarrow> special (MRoomMember, k)"
  by (simp_all add: special_def)

lemma applyEvent_state:
  "resolved_state (applyEvent e r) =
     (case tuple_of e of None \<Rightarrow> resolved_state r | Some t \<Rightarrow> (resolved_state r)(t \<mapsto> e))"
proof
  fix t show "resolved_state (applyEvent e r) t =
      (case tuple_of e of None \<Rightarrow> resolved_state r | Some t \<Rightarrow> (resolved_state r)(t \<mapsto> e)) t"
    by (cases t rule: tuple_kinds; cases e r rule: applyEvent_cases)
      (simp_all add: resolved_state_special map_simps del: resolved_state.simps tuple_of_Some; (auto; fail)?)+
qed

lemma applyEvent_ok:
  assumes "resolver_ok r"
  shows "resolver_ok (applyEvent e r)"
proof -
  have "\<forall>t f. resolved_state (applyEvent e r) t = Some f \<longrightarrow> tuple_of f = Some t"
    using resolver_ok_own [OF assms] unfolding applyEvent_state
    by (cases "tuple_of e") (auto simp del: resolved_state.simps tuple_of_Some split: if_splits)
  then show ?thesis
    using assms unfolding resolver_ok_def
    by (cases e r rule: applyEvent_cases)
      (simp_all add: dom_update del: resolved_state.simps tuple_of_Some split_paired_All)
qed

interpretation partial_state: event_store applyEvent resolved_state resolver_ok
proof
  fix r e t f
  show "resolver_ok r \<Longrightarrow> resolver_ok (applyEvent e r)" by (rule applyEvent_ok)
  show "resolved_state (applyEvent e r) =
      (case tuple_of e of None \<Rightarrow> resolved_state r | Some t \<Rightarrow> (resolved_state r)(t \<mapsto> e))" by (rule applyEvent_state)
  show "resolver_ok r \<Longrightarrow> resolved_state r t = Some f \<Longrightarrow> tuple_of f = Some t" by (rule resolver_ok_own)
qed

section \<open>The list that is returned\<close>

definition result_tuples :: "string range_order \<Rightarrow> StateKeyTuple range_order \<Rightarrow> stateResolverV2 \<Rightarrow> StateKeyTuple list" where
  "result_tuples rng rng3 r =
     [(MRoomCreate, []), (MRoomJoinRules, []), (MRoomPowerLevels, [])] @
     map (Pair MRoomMember) (rng 12 (keys (sr_resolvedMembers r))) @
     map (Pair MRoomThirdPartyInvite) (rng 13 (keys (sr_resolvedThirdPartyInvites r))) @
     rng3 0 (keys (sr_resolvedOthers r))"

lemma map_filter_append: "List.map_filter f (xs @ ys) = List.map_filter f xs @ List.map_filter f ys"
  by (simp add: List.map_filter_def)

lemma map_filter_map: "List.map_filter f (map g xs) = List.map_filter (\<lambda>x. f (g x)) xs"
  by (induction xs) (auto simp: List.map_filter_simps split: option.splits)

lemma resolvedResult_eq:
  assumes "resolver_ok r" "is_range_order rng" "is_range_order rng3"
  shows "resolvedResult rng rng3 r = List.map_filter (resolved_state r) (result_tuples rng rng3 r)"
proof -
  note keys = resolver_ok_keys [OF assms(1)]
  have "List.map_filter (map_of (sr_resolvedMembers r)) (rng 12 (keys (sr_resolvedMembers r))) =
      List.map_filter (resolved_state r) (map (Pair MRoomMember) (rng 12 (keys (sr_resolvedMembers r))))"
    unfolding map_filter_map using keys(1) by (intro map_filter_cong) (simp only: range_order_set [OF assms(2)], simp)
  moreover have "List.map_filter (map_of (sr_resolvedThirdPartyInvites r)) (rng 13 (keys (sr_resolvedThirdPartyInvites r))) =
      List.map_filter (resolved_state r) (map (Pair MRoomThirdPartyInvite) (rng 13 (keys (sr_resolvedThirdPartyInvites r))))"
    unfolding map_filter_map using keys(2) by (intro map_filter_cong) (simp only: range_order_set [OF assms(2)], simp)
  moreover have "List.map_filter (map_of (sr_resolvedOthers r)) (rng3 0 (keys (sr_resolvedOthers r))) =
      List.map_filter (resolved_state r) (rng3 0 (keys (sr_resolvedOthers r)))"
  proof (rule map_filter_cong)
    fix t assume "t \<in> set (rng3 0 (keys (sr_resolvedOthers r)))"
    then have "\<not> special t" by (intro keys(3)) (simp only: range_order_set [OF assms(3)])
    then show "map_of (sr_resolvedOthers r) t = resolved_state r t"
      by (cases t) (auto simp: special_def split: if_splits)
  qed
  ultimately show ?thesis
    by (simp add: resolvedResult_def result_tuples_def map_filter_append List.map_filter_simps split: option.splits)
qed

lemma result_tuples_distinct:
  assumes "resolver_ok r" "is_range_order rng" "is_range_order rng3"
  shows "distinct (result_tuples rng rng3 r)"
proof -
  note keys = resolver_ok_keys [OF assms(1)]
  have "distinct (rng 12 (keys (sr_resolvedMembers r)))" "distinct (rng 13 (keys (sr_resolvedThirdPartyInvites r)))"
    "distinct (rng3 0 (keys (sr_resolvedOthers r)))"
    using keys(4-6) by (simp_all only: range_order_distinct [OF assms(2)] range_order_distinct [OF assms(3)])
  moreover have "t \<notin> set (rng3 0 (keys (sr_resolvedOthers r)))" if "special t" for t
    using that keys(3) [of t] unfolding range_order_set [OF assms(3)] by blast
  moreover have "k \<noteq> []" if "k \<in> set (rng 12 (keys (sr_resolvedMembers r)))" for k
    using that by (intro keys(1)) (simp only: range_order_set [OF assms(2)])
  moreover have "k \<noteq> []" if "k \<in> set (rng 13 (keys (sr_resolvedThirdPartyInvites r)))" for k
    using that by (intro keys(2)) (simp only: range_order_set [OF assms(2)])
  ultimately show ?thesis unfolding result_tuples_def by (auto simp: distinct_map inj_on_def)
qed

lemma result_tuples_all:
  assumes "is_range_order rng" "is_range_order rng3" "resolved_state r t = Some e"
  shows "t \<in> set (result_tuples rng rng3 r)"
proof -
  obtain ty k where t: "t = (ty, k)" by (cases t)
  consider "t \<in> {(MRoomCreate, []), (MRoomJoinRules, []), (MRoomPowerLevels, [])}"
    | "ty = MRoomThirdPartyInvite" "map_of (sr_resolvedThirdPartyInvites r) k = Some e"
    | "ty = MRoomMember" "map_of (sr_resolvedMembers r) k = Some e"
    | "map_of (sr_resolvedOthers r) t = Some e"
    using assms(3) unfolding t resolved_state.simps by (auto split: if_splits)
  then show ?thesis
  proof cases
    case 2
    then have "k \<in> set (rng 13 (keys (sr_resolvedThirdPartyInvites r)))"
      unfolding range_order_set [OF assms(1)] by (intro map_of_Some_in_keys)
    with 2 show ?thesis by (simp add: t result_tuples_def)
  next
    case 3
    then have "k \<in> set (rng 12 (keys (sr_resolvedMembers r)))"
      unfolding range_order_set [OF assms(1)] by (intro map_of_Some_in_keys)
    with 3 show ?thesis by (simp add: t result_tuples_def)
  next
    case 4
    then have "t \<in> set (rng3 0 (keys (sr_resolvedOthers r)))"
      unfolding range_order_set [OF assms(2)] by (intro map_of_Some_in_keys)
    then show ?thesis by (simp add: result_tuples_def)
  qed (auto simp: result_tuples_def)
qed

text \<open>The returned list holds the state, one event for each tuple that has one.\<close>

lemma resolvedResult_tuples:
  assumes "resolver_ok r" "is_range_order rng" "is_range_order rng3"
  shows "map tuple_of (resolvedResult rng rng3 r) =
    map Some (filter (\<lambda>t. resolved_state r t \<noteq> None) (result_tuples rng rng3 r))"
proof -
  have "map tuple_of (List.map_filter (resolved_state r) ts) = map Some (filter (\<lambda>t. resolved_state r t \<noteq> None) ts)" for ts
    by (induction ts) (auto simp: List.map_filter_simps resolver_ok_own [OF assms(1)] simp del: resolved_state.simps
        split: option.splits)
  then show ?thesis unfolding resolvedResult_eq [OF assms] .
qed

lemma resolvedResult_state:
  assumes "resolver_ok r" "is_range_order rng" "is_range_order rng3"
  shows "e \<in> set (resolvedResult rng rng3 r) \<longleftrightarrow> (\<exists>t. resolved_state r t = Some e)"
    and "distinct (map tuple_of (resolvedResult rng rng3 r))"
proof -
  show "e \<in> set (resolvedResult rng rng3 r) \<longleftrightarrow> (\<exists>t. resolved_state r t = Some e)"
    unfolding resolvedResult_eq [OF assms] in_set_map_filter using result_tuples_all [OF assms(2,3)] by blast
  show "distinct (map tuple_of (resolvedResult rng rng3 r))"
    unfolding resolvedResult_tuples [OF assms] using result_tuples_distinct [OF assms] by (simp add: distinct_map)
qed

section \<open>What the authorisation loop does to the partial state\<close>

text \<open>The fields that make up the partial state, with the map of known auth events.\<close>

definition partial_of :: "stateResolverV2 \<Rightarrow> PDU option \<times> PDU option \<times> PDU option \<times> (string, PDU) gomap \<times>
    (string, PDU) gomap \<times> (StateKeyTuple, PDU) gomap \<times> (string, PDU) gomap" where
  "partial_of r = (sr_resolvedCreate r, sr_resolvedPowerLevels r, sr_resolvedJoinRules r,
     sr_resolvedThirdPartyInvites r, sr_resolvedMembers r, sr_resolvedOthers r, sr_authEventMap r)"

lemma partial_of_state: "partial_of r = partial_of s \<Longrightarrow> resolved_state r = resolved_state s \<and> resolver_ok r = resolver_ok s"
proof -
  assume eq: "partial_of r = partial_of s"
  then have st: "resolved_state r = resolved_state s" by (auto simp: partial_of_def fun_eq_iff)
  with eq show ?thesis by (simp add: partial_of_def resolver_ok_def del: resolved_state.simps split_paired_All)
qed

lemma partial_of_applyEvent: "partial_of r = partial_of s \<Longrightarrow> partial_of (applyEvent e r) = partial_of (applyEvent e s)"
  by (auto simp: partial_of_def applyEvent_def Let_def split: option.splits)

lemma partial_of_fold:
  "partial_of r = partial_of s \<Longrightarrow> partial_of (fold applyEvent es r) = partial_of (fold applyEvent es s)"
proof (induction es arbitrary: r s)
  case (Cons e es)
  show ?case unfolding fold.simps comp_def using Cons.prems by (intro Cons.IH partial_of_applyEvent)
qed simp

lemma applyEvent_keeps [simp]:
  "sr_authEventMap (applyEvent e r) = sr_authEventMap r"
  "sr_powerLevelContents (applyEvent e r) = sr_powerLevelContents r"
  by (cases e r rule: applyEvent_cases; simp)+

lemma fold_applyEvent_keeps [simp]:
  "sr_authEventMap (fold applyEvent es r) = sr_authEventMap r"
  "sr_powerLevelContents (fold applyEvent es r) = sr_powerLevelContents r"
  by (induction es arbitrary: r) simp_all

lemma partial_of_bookkeeping [simp]:
  "partial_of (r\<lparr>sr_powerLevelContents := c\<rparr>) = partial_of r"
  "partial_of (r\<lparr>sr_powerLevelMainlinePos := p\<rparr>) = partial_of r"
  by (simp_all add: partial_of_def)

lemma partial_of_addAuth [simp]: "partial_of (addAuth e r) = partial_of r"
  by (simp add: addAuth_def partial_of_def split: outcome.splits)

lemma partial_of_addFrom [simp]: "partial_of (addFromAuthEventsIfNotRejected f e ty k ids r) = partial_of r"
proof (induction ids arbitrary: r)
  case (Cons i ids)
  have "partial_of (r\<lparr>sr_isRejectedCache := c\<rparr>) = partial_of r" for c by (simp add: partial_of_def)
  with Cons.IH show ?case by (simp add: Let_def split: option.splits)
qed simp

lemma partial_of_layer [simp]: "partial_of (layer f e res ty k r) = partial_of r"
  by (simp add: layer_def split: option.splits)

lemma partial_of_layerPartialState [simp]: "partial_of (layerPartialState f e r) = partial_of r"
proof -
  have fold_m: "partial_of (fold (\<lambda>m s. layer f e (g s m) ty m s) ms s) = partial_of s" for g ty ms s
    by (induction ms arbitrary: s) auto
  have "partial_of (r\<lparr>sr_authProvider := a\<rparr>) = partial_of r" for a by (simp add: partial_of_def)
  then show ?thesis by (simp add: layerPartialState_def Let_def fold_m)
qed

text \<open>Each event is either dropped or stored; the ones that are stored passed the checks.\<close>

lemma authAndApplyEvent_state:
  assumes "authAndApplyEvent edv q f e r = Ok r'"
  shows "partial_of r' = partial_of r \<or>
    (partial_of r' = partial_of (applyEvent e r) \<and> (\<exists>a. snd (allowed edv q a e) = Ok ()))"
proof -
  let ?r = "layerPartialState f e r"
  obtain a where a: "update_ctx q (AuthEvents_provider 0 (sr_authProvider ?r)) (sr_allower ?r) = Ok a"
    using assms by (auto simp: authAndApplyEvent_def Let_def go_simps)
  obtain a' v where v: "allowed edv q a e = (a', v)" by (cases "allowed edv q a e")
  have upd: "partial_of (?r\<lparr>sr_allower := a'\<rparr>) = partial_of r"
    using partial_of_layerPartialState [of f e r] by (simp add: partial_of_def)
  show ?thesis
  proof (cases v)
    case (Ok u)
    then have "r' = applyEvent e (?r\<lparr>sr_allower := a'\<rparr>)"
      using assms a v by (simp add: authAndApplyEvent_def Let_def)
    moreover have "snd (allowed edv q a e) = Ok ()" using v Ok by simp
    ultimately show ?thesis using partial_of_applyEvent [OF upd] by blast
  next
    case (Err x)
    then have "r' = ?r\<lparr>sr_allower := a'\<rparr>" using assms a v by (simp add: authAndApplyEvent_def Let_def)
    with upd show ?thesis by simp
  next
    case Panic
    with assms a v show ?thesis by (simp add: authAndApplyEvent_def Let_def)
  qed
qed

lemma authAndApplyEvents_state:
  assumes "authAndApplyEvents edv q f es r = Ok r'"
  shows "\<exists>accepted. subseq accepted es \<and> (\<forall>e \<in> set accepted. \<exists>a. snd (allowed edv q a e) = Ok ()) \<and>
    partial_of r' = partial_of (fold applyEvent accepted r)"
  using assms
proof (induction es arbitrary: r)
  case Nil
  then show ?case by (intro exI [of _ "[]"]) simp
next
  case (Cons e es)
  from Cons.prems obtain r1 where r1: "authAndApplyEvent edv q f e r = Ok r1" "authAndApplyEvents edv q f es r1 = Ok r'"
    by (auto simp: go_simps)
  from Cons.IH [OF r1(2)] obtain acc where acc: "subseq acc es" "\<forall>e \<in> set acc. \<exists>a. snd (allowed edv q a e) = Ok ()"
    "partial_of r' = partial_of (fold applyEvent acc r1)" by blast
  from authAndApplyEvent_state [OF r1(1)] show ?case
  proof (elim disjE conjE)
    assume "partial_of r1 = partial_of r"
    from partial_of_fold [OF this] acc show ?thesis by (intro exI [of _ acc]) (simp add: list_emb_Cons)
  next
    assume "partial_of r1 = partial_of (applyEvent e r)" "\<exists>a. snd (allowed edv q a e) = Ok ()"
    with partial_of_fold [OF this(1)] acc show ?thesis by (intro exI [of _ "e # acc"]) simp
  qed
qed

end
