(* ===== verification/ResolutionV2.thy ===== *)
theory ResolutionV2
  imports StateResV2_Correct PartialState
begin

text \<open>
  What \<^verbatim>\<open>ResolveStateConflictsV2\<close> as a whole guarantees: it returns whenever the auth
  events have no cycle, its result has one event for each state key tuple, comes from the input,
  keeps every unconflicted event, and has only events that passed the authorisation rules besides.
\<close>

section \<open>The parts of a run\<close>

lemma run_then_Ok_iff: "run_then m f = Some (Ok y) \<longleftrightarrow> (\<exists>x. m = Some (Ok x) \<and> f x = Some (Ok y))"
  by (simp add: run_then_def split: option.splits outcome.splits)

lemma run_then_None_iff: "run_then m f = None \<longleftrightarrow> m = None \<or> (\<exists>x. m = Some (Ok x) \<and> f x = None)"
  by (simp add: run_then_def split: option.splits outcome.splits)

lemma set_mono_subseq: "subseq xs ys \<Longrightarrow> set xs \<subseteq> set ys"
  by (auto elim: list_emb_set)

lemma reverseTopologicalOrderingAuth_events:
  assumes "is_range_order rng" "cache_ok am contents" "reverseTopologicalOrderingAuth rng am contents es = Ok (contents', es')"
  shows "cache_ok am contents'" and "distinct (map EventID es')" and "EventID ` set es' = EventID ` set es"
    and "set es' \<subseteq> set es"
proof -
  let ?w = "\<lambda>e. wrap_power_level e (level_val (level_of am e))"
  let ?k = "kahn rng cp_eventID (\<lambda>e. AuthEventIDs (cp_event e)) sortStateResV2ConflictedPowerLevelHeap (map ?w es)"
  have "wrapPowerLevelEventsForSort am es contents = Ok (contents', map ?w es) \<and> cache_ok am contents' \<and> es' = map cp_event ?k"
    using assms(3) wrapPowerLevelEventsForSort_ref [OF assms(2), of es]
    by (auto simp: reverseTopologicalOrderingAuth_def kahnsAlgorithmUsingAuthEvents_def split: if_splits)
  then have ok: "cache_ok am contents'" and es': "es' = map cp_event ?k" by auto
  show "cache_ok am contents'" by (rule ok)
  let ?em = "kahn_event_map cp_eventID (map ?w es)"
  have em: "mset ?k = mset (map snd ?em)" by (rule kahn_mset [OF assms(1)])
  have entry: "cp_eventID x = k \<and> x \<in> ?w ` set es" if "(k, x) \<in> set ?em" for k x
    using kahn_event_map_ident [OF that] by auto
  have in_k: "x \<in> ?w ` set es" if "x \<in> set ?k" for x
    using that mset_eq_setD [OF em] entry by auto
  then show "set es' \<subseteq> set es" by (force simp: es')
  have id: "cp_eventID x = EventID (cp_event x)" if "x \<in> set ?k" for x using in_k [OF that] by auto
  have "map cp_eventID (map snd ?em) = keys ?em" using entry by auto
  then have ids: "mset (map cp_eventID ?k) = mset (keys ?em)" using em by (metis mset_map)
  moreover have "map EventID es' = map cp_eventID ?k" using id by (simp add: es')
  ultimately have ids': "mset (map EventID es') = mset (keys ?em)" by simp
  show "distinct (map EventID es')"
    using kahn_event_map_distinct mset_eq_imp_distinct_iff [OF ids'] by blast
  show "EventID ` set es' = EventID ` set es"
    using mset_eq_setD [OF ids'] kahn_event_map_keys [of cp_eventID "map ?w es"] by (simp add: image_image)
qed

lemma wrapOtherEventsForSort_events:
  "wrapOtherEventsForSort n am pos es = Some block \<Longrightarrow> map co_event block = es"
  by (induction es arbitrary: block) (auto simp: bind_eq_Some_conv split: prod.splits)

lemma mainlineOrdering_mset: "mainlineOrdering n am pos es = Some es' \<Longrightarrow> mset es' = mset es"
  by (auto simp: mainlineOrdering_def dest!: wrapOtherEventsForSort_events)

lemma control_loop_events:
  assumes "\<And>e v es v'. rec e v = Some (es, v') \<Longrightarrow> set es \<subseteq> insert e (ran (map_of cm))"
    and "control_loop rec cm ids (es, v) = Some (es', v')"
  shows "set es' \<subseteq> set es \<union> ran (map_of cm)"
  using assms(2)
proof (induction ids arbitrary: es v)
  case (Cons k ids)
  show ?case
  proof (cases "k \<in> set v \<or> map_of cm k = None")
    case True
    then show ?thesis using Cons by (auto split: if_splits)
  next
    case False
    then obtain e where e: "map_of cm k = Some e" by auto
    with False Cons.prems obtain more v1 where more: "rec e v = Some (more, v1)"
      "control_loop rec cm ids (es @ more, List.insert k v1) = Some (es', v')"
      by (auto simp: bind_eq_Some_conv)
    have "e \<in> ran (map_of cm)" using e by (auto simp: ran_def)
    with assms(1) [OF more(1)] Cons.IH [OF more(2)] show ?thesis by auto
  qed
qed simp

lemma fullControlSet_events:
  "fullControlSet n cm e v = Some (es, v') \<Longrightarrow> set es \<subseteq> insert e (ran (map_of cm))"
proof (induction n arbitrary: e v es v')
  case (Suc n)
  then have "set es \<subseteq> set [e] \<union> ran (map_of cm)"
    by (intro control_loop_events [where rec = "fullControlSet n cm"]) auto
  then show ?case by simp
qed simp

lemma collect_control_events:
  "collect_control n cm un ps v = Some control \<Longrightarrow> set control \<subseteq> set ps \<union> ran (map_of cm)"
proof (induction ps arbitrary: v control)
  case (Cons p ps)
  show ?case
  proof (cases "EventID p \<in> set un \<or> \<not> isControlEvent p")
    case True
    then show ?thesis using Cons by fastforce
  next
    case False
    then obtain related v1 rest where "fullControlSet n cm p v = Some (related, v1)"
      "collect_control n cm un ps v1 = Some rest" "control = related @ rest"
      using Cons.prems by (auto simp: bind_eq_Some_conv)
    with fullControlSet_events Cons.IH show ?thesis by fastforce
  qed
qed simp

text \<open>
  A run that returns stores the ordered unconflicted events, then accepted control events, then
  accepted other events, then the unconflicted events again.
\<close>

lemma resolveV2_steps_state:
  assumes rng: "\<And>i ks. mset (rng i ks) = mset ks" and cache: "cache_ok (sr_authEventMap r0) (sr_powerLevelContents r0)"
    and run: "resolveV2_steps rng n edv q f unconflicted control others r0 = Some (Ok r)"
  obtains uncs accepted where "set uncs \<subseteq> set unconflicted" "EventID ` set uncs = EventID ` set unconflicted"
    "set accepted \<subseteq> set control \<union> set others" "\<forall>e \<in> set accepted. \<exists>a. snd (allowed edv q a e) = Ok ()"
    "partial_of r = partial_of (fold applyEvent (uncs @ accepted @ uncs) r0)"
proof -
  have ranges: "is_range_order rng" "is_range_order (\<lambda>i. rng (i + 2))" using rng by (simp_all add: is_range_order_def)
  obtain contents1 uncs contents2 control' r2 mainline others' r4 where
    u: "reverseTopologicalOrderingAuth rng (sr_authEventMap r0) (sr_powerLevelContents r0) unconflicted = Ok (contents1, uncs)" and
    c: "reverseTopologicalOrderingAuth (\<lambda>i. rng (i + 2)) (sr_authEventMap r0) contents1 control = Ok (contents2, control')" and
    a1: "authAndApplyEvents edv q f control'
      ((applyEvents uncs (r0\<lparr>sr_powerLevelContents := contents1\<rparr>))\<lparr>sr_powerLevelContents := contents2\<rparr>) = Ok r2" and
    o: "mainlineOrdering n (sr_authEventMap r2) (mainline_positions mainline) others = Some others'" and
    a2: "authAndApplyEvents edv q f others' (r2\<lparr>sr_powerLevelMainlinePos := mainline_positions mainline\<rparr>) = Ok r4" and
    r: "r = applyEvents uncs r4"
    using run by (auto simp: resolveV2_steps_def run_then_Ok_iff Let_def applyEvents_def)
  note uo = reverseTopologicalOrderingAuth_events [OF ranges(1) cache u]
  note co = reverseTopologicalOrderingAuth_events [OF ranges(2) uo(1) c]
  obtain acc1 where acc1: "subseq acc1 control'" "\<forall>e \<in> set acc1. \<exists>a. snd (allowed edv q a e) = Ok ()"
    "partial_of r2 = partial_of (fold applyEvent acc1 ((applyEvents uncs (r0\<lparr>sr_powerLevelContents := contents1\<rparr>))\<lparr>sr_powerLevelContents := contents2\<rparr>))"
    using authAndApplyEvents_state [OF a1] by blast
  obtain acc2 where acc2: "subseq acc2 others'" "\<forall>e \<in> set acc2. \<exists>a. snd (allowed edv q a e) = Ok ()"
    "partial_of r4 = partial_of (fold applyEvent acc2 (r2\<lparr>sr_powerLevelMainlinePos := mainline_positions mainline\<rparr>))"
    using authAndApplyEvents_state [OF a2] by blast
  have "partial_of (applyEvents uncs (r0\<lparr>sr_powerLevelContents := contents1\<rparr>)) = partial_of (fold applyEvent uncs r0)"
    unfolding applyEvents_def by (rule partial_of_fold) simp
  then have r2: "partial_of r2 = partial_of (fold applyEvent (uncs @ acc1) r0)"
    unfolding acc1(3) fold_append comp_def by (intro partial_of_fold) simp
  then have r4: "partial_of r4 = partial_of (fold applyEvent (uncs @ acc1 @ acc2) r0)"
    unfolding acc2(3) fold_append comp_def by (intro partial_of_fold) simp
  then have "partial_of r = partial_of (fold applyEvent (uncs @ (acc1 @ acc2) @ uncs) r0)"
    unfolding r applyEvents_def fold_append comp_def by (intro partial_of_fold) simp
  moreover have "set (acc1 @ acc2) \<subseteq> set control \<union> set others"
    using set_mono_subseq [OF acc1(1)] set_mono_subseq [OF acc2(1)] co(4) mset_eq_setD [OF mainlineOrdering_mset [OF o]]
    by auto
  moreover have "\<forall>e \<in> set (acc1 @ acc2). \<exists>a. snd (allowed edv q a e) = Ok ()" using acc1(2) acc2(2) by auto
  ultimately show thesis using uo(3,4) by (intro that [of uncs "acc1 @ acc2"])
qed

section \<open>The resolved state\<close>

lemma newResolverV2_ok: "resolver_ok (newResolverV2 conflicted authEvents a)"
  by (auto simp: resolver_ok_def newResolverV2_def split: if_splits)

lemma newResolverV2_state: "resolved_state (newResolverV2 conflicted authEvents a) t = None"
  by (cases t) (simp add: newResolverV2_def)

lemma ResolveStateConflictsV2_state:
  assumes rng: "is_range_order rng" "is_range_order rng3"
    and run: "ResolveStateConflictsV2 rng rng3 n edv conflicted unconflicted authEvents q f = Some (Ok result)"
    and ne: "roomIDOf conflicted unconflicted authEvents \<noteq> None"
  obtains r uncs accepted where "resolver_ok r" "result = resolvedResult rng rng3 r"
    "set uncs \<subseteq> set unconflicted" "EventID ` set uncs = EventID ` set unconflicted"
    "\<forall>e \<in> set accepted. e \<in> set conflicted \<or> (e \<in> set authEvents \<and> EventID e \<in> EventID ` set conflicted)"
    "\<forall>e \<in> set accepted. \<exists>a. snd (allowed edv q a e) = Ok ()"
    "\<And>t. resolved_state r t =
       (case List.find (\<lambda>e. tuple_of e = Some t) (rev (uncs @ accepted @ uncs)) of Some e \<Rightarrow> Some e | None \<Rightarrow> None)"
proof -
  let ?cm = "eventMapFromEvents conflicted" and ?am = "eventMapFromEvents authEvents" and ?un = "map EventID unconflicted"
  obtain a diff control r where
    d: "calculateAuthDifference rng n ?cm ?am = Some diff" and
    c: "collect_control n ?cm ?un (conflicted @ diff) [] = Some control" and
    st: "resolveV2_steps rng n edv q f unconflicted control (conflictedOthersOf control ?un (conflicted @ diff))
      (newResolverV2 conflicted authEvents a) = Some (Ok r)" and res: "result = resolvedResult rng rng3 r"
    using run ne by (auto simp: ResolveStateConflictsV2_def run_then_Ok_iff Let_def newResolverV2_def)
  obtain uncs accepted where ua: "set uncs \<subseteq> set unconflicted" "EventID ` set uncs = EventID ` set unconflicted"
    "set accepted \<subseteq> set control \<union> set (conflictedOthersOf control ?un (conflicted @ diff))"
    "\<forall>e \<in> set accepted. \<exists>a. snd (allowed edv q a e) = Ok ()"
    "partial_of r = partial_of (fold applyEvent (uncs @ accepted @ uncs) (newResolverV2 conflicted authEvents a))"
    using rng(1) st by (elim resolveV2_steps_state [rotated 2]) (auto simp: is_range_order_def newResolverV2_def)
  have state: "resolved_state r = resolved_state (fold applyEvent (uncs @ accepted @ uncs) (newResolverV2 conflicted authEvents a))"
    and ok: "resolver_ok r"
    using partial_of_state [OF ua(5)] partial_state.store_all_ok [OF newResolverV2_ok] by blast+
  have lookup: "resolved_state r t =
      (case List.find (\<lambda>e. tuple_of e = Some t) (rev (uncs @ accepted @ uncs)) of Some e \<Rightarrow> Some e | None \<Rightarrow> None)" for t
    unfolding state partial_state.lookup_store_all [OF newResolverV2_ok] newResolverV2_state ..
  have diff: "set diff \<subseteq> set authEvents \<and> EventID ` set diff \<subseteq> EventID ` set conflicted"
    by (rule calculateAuthDifference_ids [OF rng(1) d])
  have "ran (map_of ?cm) \<subseteq> set conflicted" by (auto simp: ran_def dest: eventMapFromEvents_entry)
  then have "set accepted \<subseteq> set conflicted \<union> set diff"
    using ua(3) collect_control_events [OF c] by (auto simp: conflictedOthersOf_def)
  with diff have "\<forall>e \<in> set accepted. e \<in> set conflicted \<or> (e \<in> set authEvents \<and> EventID e \<in> EventID ` set conflicted)"
    by blast
  then show thesis
    using ok res ua(1,2,4) lookup by (intro that [of r uncs accepted])
qed

lemma roomIDOf_None: "roomIDOf conflicted unconflicted authEvents = None \<longleftrightarrow> conflicted = [] \<and> unconflicted = [] \<and> authEvents = []"
  by (simp add: roomIDOf_def)

lemma ResolveStateConflictsV2_empty:
  "roomIDOf conflicted unconflicted authEvents = None \<Longrightarrow>
     ResolveStateConflictsV2 rng rng3 n edv conflicted unconflicted authEvents q f = Some (Ok [])"
  by (simp add: ResolveStateConflictsV2_def)

lemma resolution_sound:
  assumes "is_range_order rng" "is_range_order rng3"
    and "ResolveStateConflictsV2 rng rng3 n edv conflicted unconflicted authEvents q isRejectedFn = Some (Ok result)"
  shows "distinct (map tuple_of result) \<and> None \<notin> tuple_of ` set result \<and>
    (\<forall>e \<in> set result. e \<in> set unconflicted \<or>
       (e \<in> set (conflicted @ authEvents) \<and> EventID e \<in> EventID ` set conflicted \<and>
        (\<exists>ctx. snd (allowed edv q ctx e) = Ok ())))"
proof (cases "roomIDOf conflicted unconflicted authEvents = None")
  case True
  then show ?thesis using assms(3) by (simp add: ResolveStateConflictsV2_empty)
next
  case False
  obtain r uncs accepted where r: "resolver_ok r" "result = resolvedResult rng rng3 r"
    "set uncs \<subseteq> set unconflicted" "EventID ` set uncs = EventID ` set unconflicted"
    "\<forall>e \<in> set accepted. e \<in> set conflicted \<or> (e \<in> set authEvents \<and> EventID e \<in> EventID ` set conflicted)"
    "\<forall>e \<in> set accepted. \<exists>a. snd (allowed edv q a e) = Ok ()"
    "\<And>t. resolved_state r t =
       (case List.find (\<lambda>e. tuple_of e = Some t) (rev (uncs @ accepted @ uncs)) of Some e \<Rightarrow> Some e | None \<Rightarrow> None)"
    by (rule ResolveStateConflictsV2_state [OF assms False]) (rule that; assumption)
  note state = resolvedResult_state [OF r(1) assms(1,2)]
  have origin: "e \<in> set uncs \<union> set accepted \<and> tuple_of e \<noteq> None" if e: "e \<in> set result" for e
  proof -
    obtain t where t: "resolved_state r t = Some e" using e state(1) unfolding r(2) by blast
    then have "List.find (\<lambda>e. tuple_of e = Some t) (rev (uncs @ accepted @ uncs)) = Some e"
      unfolding r(7) by (simp split: option.splits)
    then show ?thesis using find_SomeD by fastforce
  qed
  show ?thesis
  proof (intro conjI ballI)
    show "distinct (map tuple_of result)" using state(2) unfolding r(2) .
    show "None \<notin> tuple_of ` set result" by (metis imageE origin)
    fix e assume "e \<in> set result"
    with origin consider "e \<in> set uncs" | "e \<in> set accepted" by blast
    then show "e \<in> set unconflicted \<or> (e \<in> set (conflicted @ authEvents) \<and>
        EventID e \<in> EventID ` set conflicted \<and> (\<exists>ctx. snd (allowed edv q ctx e) = Ok ()))"
      by cases (use r(3) in blast, use r(5,6) in auto)
  qed
qed


text \<open>
  A room with its creator, and two topics to choose from: the later one wins, since events are
  applied in order of their time stamps.
\<close>

definition sample_unconflicted :: "PDU list" where
  "sample_unconflicted =
     [mk_event ''$c'' MRoomCreate (Some []) ''@u:a'' [(''creator'', JStr ''@u:a''), (''room_version'', JStr ''10'')] [] 1,
      mk_event ''$j'' MRoomMember (Some ''@u:a'') ''@u:a'' [(''membership'', JStr ''join'')] [''$c''] 2]"

definition sample_topic :: "string \<Rightarrow> nat \<Rightarrow> PDU" where
  "sample_topic eid ts = mk_event eid ''m.room.topic'' (Some []) ''@u:a'' [] [''$c'', ''$j''] ts"

definition sample_conflicted :: "PDU list" where
  "sample_conflicted = [sample_topic ''$s'' 5, sample_topic ''$t'' 4]"

definition sample_resolution :: "PDU list outcome option" where
  "sample_resolution = ResolveStateConflictsV2 range_id range_rev 6 no_signature sample_conflicted sample_unconflicted
     sample_unconflicted sample_users (\<lambda>_. False)"

lemma sample_resolution_result: "sample_resolution = Some (Ok (sample_unconflicted @ [sample_topic ''$s'' 5]))"
  by code_simp


lemma resolution_keeps_unconflicted:
  assumes "is_range_order rng" "is_range_order rng3"
    and "ResolveStateConflictsV2 rng rng3 n edv conflicted unconflicted authEvents q isRejectedFn = Some (Ok result)"
    and "u \<in> set unconflicted" "tuple_of u \<noteq> None"
    and "\<forall>v \<in> set unconflicted. EventID v = EventID u \<or> tuple_of v = tuple_of u \<longrightarrow> v = u"
  shows "u \<in> set result"
proof -
  have ne: "roomIDOf conflicted unconflicted authEvents \<noteq> None" using assms(4) by (auto simp: roomIDOf_None)
  obtain r uncs accepted where r: "resolver_ok r" "result = resolvedResult rng rng3 r"
    "set uncs \<subseteq> set unconflicted" "EventID ` set uncs = EventID ` set unconflicted"
    "\<forall>e \<in> set accepted. e \<in> set conflicted \<or> (e \<in> set authEvents \<and> EventID e \<in> EventID ` set conflicted)"
    "\<forall>e \<in> set accepted. \<exists>a. snd (allowed edv q a e) = Ok ()"
    "\<And>t. resolved_state r t =
       (case List.find (\<lambda>e. tuple_of e = Some t) (rev (uncs @ accepted @ uncs)) of Some e \<Rightarrow> Some e | None \<Rightarrow> None)"
    by (rule ResolveStateConflictsV2_state [OF assms(1-3) ne]) (rule that; assumption)
  obtain v where "v \<in> set uncs" "EventID v = EventID u"
    using assms(4) r(4) by (metis imageE imageI)
  with r(3) assms(6) have u: "u \<in> set uncs" by blast
  obtain t where t: "tuple_of u = Some t" using assms(5) by blast
  have "List.find (\<lambda>e. tuple_of e = Some t) (rev uncs) \<noteq> None"
    unfolding find_None_iff set_rev using u t by blast
  then obtain w where w: "List.find (\<lambda>e. tuple_of e = Some t) (rev uncs) = Some w" by blast
  have "w \<in> set uncs" "tuple_of w = Some t" using find_SomeD [OF w] by simp_all
  then have "w = u" using r(3) assms(6) t by (metis subsetD)
  moreover have "List.find P (xs @ ys) = Some x" if "List.find P xs = Some x" for P and x :: PDU and xs ys
    using that by (induction xs) (auto split: if_splits)
  ultimately have "List.find (\<lambda>e. tuple_of e = Some t) (rev (uncs @ accepted @ uncs)) = Some u"
    unfolding rev_append append_assoc using w by blast
  then have "resolved_state r t = Some u" unfolding r(7) by (simp only: option.case)
  then show ?thesis unfolding r(2) using resolvedResult_state(1) [OF r(1) assms(1,2)] by blast
qed



section \<open>Resolution returns\<close>

lemma length_eventMapFromEvents: "length (eventMapFromEvents es) \<le> length es"
proof -
  have "length (eventMapFromEvents es) = card (set (keys (eventMapFromEvents es)))"
    using distinct_card [OF eventMapFromEvents_distinct, of es] by simp
  also have "\<dots> = card (set (map EventID es))" by (simp add: eventMapFromEvents_keys)
  also have "\<dots> \<le> length es" by (metis card_length length_map)
  finally show ?thesis .
qed

lemma map_refs_subset: "map_refs (eventMapFromEvents es) \<subseteq> refers EventID AuthEventIDs es"
  by (auto simp: map_refs_def refers_def dest!: eventMapFromEvents_entry)

lemma acyclic_map_ranked:
  assumes "acyclic (refers EventID AuthEventIDs es)"
  shows "\<exists>rank. well_ranked (eventMapFromEvents es) rank (length (eventMapFromEvents es))"
  using assms by (intro acyclic_well_ranked) (rule acyclic_subset [OF _ map_refs_subset])

lemma collect_control_total:
  "(\<And>e v. fullControlSet n cm e v \<noteq> None) \<Longrightarrow> collect_control n cm un ps v \<noteq> None"
proof (induction ps arbitrary: v)
  case (Cons p ps)
  obtain es v' where "fullControlSet n cm p v = Some (es, v')" using Cons.prems by (metis option.exhaust surj_pair)
  moreover obtain rest where "collect_control n cm un ps v' = Some rest" using Cons by (metis option.exhaust)
  moreover obtain rest2 where "collect_control n cm un ps v = Some rest2" using Cons by (metis option.exhaust)
  ultimately show ?case by simp
qed simp

lemma wrapOtherEventsForSort_total:
  "(\<And>e st. first_mainline_iter n am pos e st \<noteq> None) \<Longrightarrow> wrapOtherEventsForSort n am pos es \<noteq> None"
proof (induction es)
  case (Cons e es)
  obtain ev p steps where "getFirstPowerLevelMainlineEvent n am pos e = Some (ev, p, steps)"
    unfolding getFirstPowerLevelMainlineEvent_def using Cons.prems by (metis option.exhaust prod_cases3)
  moreover obtain block where "wrapOtherEventsForSort n am pos es = Some block" using Cons by (metis option.exhaust)
  ultimately show ?case by simp
qed simp

text \<open>
  C9. Resolution returns: when the references among the auth events and among the conflicted
  events have no cycle, as many levels of recursion as there are such events, and two more, are
  enough whatever the order of iteration.
\<close>

theorem ResolveStateConflictsV2_returns:
  assumes rng: "is_range_order rng" and auth: "acyclic (refers EventID AuthEventIDs authEvents)"
    and conf: "acyclic (refers EventID AuthEventIDs conflicted)" and n: "length authEvents + length conflicted + 2 \<le> n"
  shows "ResolveStateConflictsV2 rng rng3 n edv conflicted unconflicted authEvents q isRejectedFn \<noteq> None"
proof -
  let ?cm = "eventMapFromEvents conflicted" and ?am = "eventMapFromEvents authEvents"
  obtain arank where ar: "well_ranked ?am arank (length ?am)" using acyclic_map_ranked [OF auth] by blast
  obtain crank where cr: "well_ranked ?cm crank (length ?cm)" using acyclic_map_ranked [OF conf] by blast
  have la: "length ?am + 2 \<le> n" and lc: "length ?cm + 2 \<le> n"
    using length_eventMapFromEvents [of authEvents] length_eventMapFromEvents [of conflicted] n by auto
  have diff: "calculateAuthDifference rng n ?cm ?am \<noteq> None"
    using all_auth_sets_total [of ?am n] la
    by (auto simp: calculateAuthDifference_def bind_eq_None_conv simp del: not_None_eq)
  have control: "collect_control n ?cm un ps v \<noteq> None" for un ps v
    by (rule collect_control_total) (rule fullControlSet_total [OF cr lc])
  have main: "createPowerLevelMainline n ?am p \<noteq> None" for p
    unfolding createPowerLevelMainline_def using mainline_iter_total [OF ar la] by (cases p) auto
  have other: "mainlineOrdering n ?am pos es \<noteq> None" for pos es
    unfolding mainlineOrdering_def
    using wrapOtherEventsForSort_total [OF first_mainline_iter_total [OF ar la]] by (auto simp: option.map_disc_iff)
  have steps: "resolveV2_steps rng n edv q isRejectedFn unconflicted control others r0 \<noteq> None"
    if r0: "sr_authEventMap r0 = ?am" for control others r0
  proof -
    have keep: "sr_authEventMap r2 = ?am"
      if run: "authAndApplyEvents edv q isRejectedFn es (applyEvents us (r0\<lparr>sr_powerLevelContents := c\<rparr>)\<lparr>sr_powerLevelContents := d\<rparr>) = Ok r2"
      for es us c d r2
    proof -
      from authAndApplyEvents_state [OF run] obtain acc where
        "partial_of r2 = partial_of (fold applyEvent acc (applyEvents us (r0\<lparr>sr_powerLevelContents := c\<rparr>)\<lparr>sr_powerLevelContents := d\<rparr>))"
        by blast
      then show ?thesis using r0 by (simp add: partial_of_def applyEvents_def)
    qed
    show ?thesis
      using keep main other
      by (auto simp: resolveV2_steps_def Let_def run_then_None_iff option.map_disc_iff simp del: not_None_eq)
  qed
  show ?thesis
  proof (cases "roomIDOf conflicted unconflicted authEvents")
    case (Some room)
    then show ?thesis
      using diff control steps
      by (auto simp: ResolveStateConflictsV2_def Let_def newResolverV2_def run_then_None_iff simp del: not_None_eq)
  qed (simp add: ResolveStateConflictsV2_empty)
qed

theorem ResolveStateConflictsV2_returns_witness:
  "ResolveStateConflictsV2 range_rev range_id 6 no_signature sample_conflicted sample_unconflicted
     sample_unconflicted sample_users (\<lambda>_. True) \<noteq> None"
proof (rule ResolveStateConflictsV2_returns)
  show "acyclic (refers EventID AuthEventIDs sample_unconflicted)"
    by (rule acyclic_by_rank [where f = "\<lambda>k. if k = ''$j'' then 1 else 0"])
      (auto simp: refers_def sample_unconflicted_def)
  show "acyclic (refers EventID AuthEventIDs sample_conflicted)"
    by (rule acyclic_by_rank [where f = "\<lambda>k. if k \<in> {''$s'', ''$t''} then 1 else 0"])
      (auto simp: refers_def sample_conflicted_def sample_topic_def)
qed (simp_all add: sample_unconflicted_def sample_conflicted_def)

end
