(* ===== verification/StateResV1.thy ===== *)
theory StateResV1
  imports ResolutionV2
begin

text \<open>
  State resolution for room version 1 and the entry point for both algorithms
  (\<^verbatim>\<open>internal/matrixserver/stateresolution.go\<close>).

  \<^verbatim>\<open>sha1.Sum\<close> is the argument \<open>sha1\<close>. \<^verbatim>\<open>sort.Sort\<close> is modelled by a stable sort: the two
  agree unless two events of a block have the same depth and the same hash. The resolver is
  itself the provider of the auth events for the checks.
\<close>

section \<open>The resolver\<close>

record stateResolver =
  s1_creates :: "PDU list"
  s1_powerLevels :: "PDU list"
  s1_joinRules :: "PDU list"
  s1_thirdPartyInvites :: "PDU list list"
  s1_members :: "PDU list list"
  s1_others :: "PDU list list"
  s1_resolvedCreate :: "PDU option"
  s1_resolvedPowerLevels :: "PDU option"
  s1_resolvedJoinRules :: "PDU option"
  s1_resolvedThirdPartyInvites :: "(string, PDU option) gomap"
  s1_resolvedMembers :: "(string, PDU option) gomap"
  s1_result :: "PDU list"
  s1_roomID :: string
  s1_valid :: bool

definition new_stateResolver :: stateResolver where
  "new_stateResolver = \<lparr>s1_creates = [], s1_powerLevels = [], s1_joinRules = [], s1_thirdPartyInvites = [],
     s1_members = [], s1_others = [], s1_resolvedCreate = None, s1_resolvedPowerLevels = None,
     s1_resolvedJoinRules = None, s1_resolvedThirdPartyInvites = [], s1_resolvedMembers = [],
     s1_result = [], s1_roomID = [], s1_valid = True\<rparr>"

text \<open>A lookup in a map of pointers gives nil for a key that is absent and for a nil entry.\<close>

definition lookup_nil :: "(string, PDU option) gomap \<Rightarrow> string \<Rightarrow> PDU option" where
  "lookup_nil m k = (case map_of m k of None \<Rightarrow> None | Some v \<Rightarrow> v)"

definition stateResolver_provider :: "nat \<Rightarrow> stateResolver \<Rightarrow> AuthEventProvider" where
  "stateResolver_provider ident r =
     \<lparr>prov_ident = ident,
      prov_Create = Ok (s1_resolvedCreate r),
      prov_JoinRules = Ok (s1_resolvedJoinRules r),
      prov_PowerLevels = Ok (s1_resolvedPowerLevels r),
      prov_Member = (\<lambda>key. Ok (lookup_nil (s1_resolvedMembers r) key)),
      prov_ThirdPartyInvite = (\<lambda>key. Ok (lookup_nil (s1_resolvedThirdPartyInvites r) key)),
      prov_Valid = s1_valid r\<rparr>"

section \<open>Grouping the conflicted events\<close>

definition add_to_block :: "StateKeyTuple \<Rightarrow> PDU \<Rightarrow> (StateKeyTuple, nat) gomap \<Rightarrow> PDU list list
    \<Rightarrow> (StateKeyTuple, nat) gomap \<times> PDU list list" where
  "add_to_block key event offsets blockList =
     (case map_of offsets key of
        Some offset \<Rightarrow> (offsets, blockList[offset := blockList ! offset @ [event]])
      | None \<Rightarrow> (AList.update key (length blockList) offsets, blockList @ [[event]]))"

definition addConflicted_one :: "PDU \<Rightarrow> string \<Rightarrow> stateResolver \<times> (StateKeyTuple, nat) gomap
    \<Rightarrow> stateResolver \<times> (StateKeyTuple, nat) gomap" where
  "addConflicted_one event stateKey st =
     (case st of (r, offsets) \<Rightarrow>
        let key = (EventType event, stateKey) in
        if EventType event = MRoomCreate \<and> stateKey = [] then (r\<lparr>s1_creates := s1_creates r @ [event]\<rparr>, offsets)
        else if EventType event = MRoomPowerLevels \<and> stateKey = []
          then (r\<lparr>s1_powerLevels := s1_powerLevels r @ [event]\<rparr>, offsets)
        else if EventType event = MRoomJoinRules \<and> stateKey = []
          then (r\<lparr>s1_joinRules := s1_joinRules r @ [event]\<rparr>, offsets)
        else if EventType event = MRoomMember
          then (case add_to_block key event offsets (s1_members r) of (offsets', bs) \<Rightarrow> (r\<lparr>s1_members := bs\<rparr>, offsets'))
        else if EventType event = MRoomThirdPartyInvite
          then (case add_to_block key event offsets (s1_thirdPartyInvites r) of
                  (offsets', bs) \<Rightarrow> (r\<lparr>s1_thirdPartyInvites := bs\<rparr>, offsets'))
        else (case add_to_block key event offsets (s1_others r) of (offsets', bs) \<Rightarrow> (r\<lparr>s1_others := bs\<rparr>, offsets')))"

fun addConflicted :: "PDU list \<Rightarrow> stateResolver \<times> (StateKeyTuple, nat) gomap
    \<Rightarrow> (stateResolver \<times> (StateKeyTuple, nat) gomap) outcome" where
  "addConflicted [] st = Ok st"
| "addConflicted (event # events) st =
     and_then (deref (StateKey event)) (\<lambda>stateKey. addConflicted events (addConflicted_one event stateKey st))"

section \<open>The resolved auth events\<close>

definition addAuthEvent :: "PDU \<Rightarrow> stateResolver \<Rightarrow> stateResolver outcome" where
  "addAuthEvent event r0 =
     (let roomID = room_raw (EventRoomID event);
          r1 = (if roomID \<noteq> [] \<and> s1_roomID r0 = [] then r0\<lparr>s1_roomID := roomID\<rparr> else r0);
          r = (if s1_roomID r1 \<noteq> roomID then r1\<lparr>s1_valid := False\<rparr> else r1) in
      if EventType event = MRoomCreate
        then Ok (if StateKeyEquals event [] then r\<lparr>s1_resolvedCreate := Some event\<rparr> else r)
      else if EventType event = MRoomPowerLevels
        then Ok (if StateKeyEquals event [] then r\<lparr>s1_resolvedPowerLevels := Some event\<rparr> else r)
      else if EventType event = MRoomJoinRules
        then Ok (if StateKeyEquals event [] then r\<lparr>s1_resolvedJoinRules := Some event\<rparr> else r)
      else if EventType event = MRoomMember
        then and_then (deref (StateKey event)) (\<lambda>k.
          Ok (r\<lparr>s1_resolvedMembers := AList.update k (Some event) (s1_resolvedMembers r)\<rparr>))
      else if EventType event = MRoomThirdPartyInvite
        then and_then (deref (StateKey event)) (\<lambda>k.
          Ok (r\<lparr>s1_resolvedThirdPartyInvites := AList.update k (Some event) (s1_resolvedThirdPartyInvites r)\<rparr>))
      else Ok r)"

fun addAuthEvents :: "PDU list \<Rightarrow> stateResolver \<Rightarrow> stateResolver outcome" where
  "addAuthEvents [] r = Ok r"
| "addAuthEvents (e # es) r = and_then (addAuthEvent e r) (addAuthEvents es)"

definition removeAuthEvent :: "string \<Rightarrow> string \<Rightarrow> stateResolver \<Rightarrow> stateResolver" where
  "removeAuthEvent eventType stateKey r =
     (if eventType = MRoomCreate then (if stateKey = [] then r\<lparr>s1_resolvedCreate := None\<rparr> else r)
      else if eventType = MRoomPowerLevels then (if stateKey = [] then r\<lparr>s1_resolvedPowerLevels := None\<rparr> else r)
      else if eventType = MRoomJoinRules then (if stateKey = [] then r\<lparr>s1_resolvedJoinRules := None\<rparr> else r)
      else if eventType = MRoomMember
        then r\<lparr>s1_resolvedMembers := AList.update stateKey None (s1_resolvedMembers r)\<rparr>
      else if eventType = MRoomThirdPartyInvite
        then r\<lparr>s1_resolvedThirdPartyInvites := AList.update stateKey None (s1_resolvedThirdPartyInvites r)\<rparr>
      else r)"

section \<open>Resolving a block\<close>

record conflictedEvent =
  ce_depth :: int
  ce_eventIDSHA1 :: string
  ce_event :: PDU

definition conflictedEvent_Less :: "conflictedEvent \<Rightarrow> conflictedEvent \<Rightarrow> bool" where
  "conflictedEvent_Less a b =
     (if ce_depth a = ce_depth b then 0 < strings_Compare (ce_eventIDSHA1 a) (ce_eventIDSHA1 b)
      else ce_depth a < ce_depth b)"

definition conflictedEvent_cmp :: "conflictedEvent \<Rightarrow> conflictedEvent \<Rightarrow> int" where
  "conflictedEvent_cmp a b = (if conflictedEvent_Less a b then -1 else if conflictedEvent_Less b a then 1 else 0)"

definition sortConflictedEventsByDepthAndSHA1 :: "(string \<Rightarrow> string) \<Rightarrow> PDU list \<Rightarrow> conflictedEvent list" where
  "sortConflictedEventsByDepthAndSHA1 sha1 events =
     SortStableFunc conflictedEvent_cmp
       (map (\<lambda>e. \<lparr>ce_depth = Depth e, ce_eventIDSHA1 = sha1 (EventID e), ce_event = e\<rparr>) events)"

text \<open>The loop over the later candidates, which stops at the first that is not allowed.\<close>

fun auth_block_loop :: "ed25519_verifier \<Rightarrow> UserIDForSender \<Rightarrow> PDU list \<Rightarrow> PDU \<Rightarrow> stateResolver
    \<Rightarrow> (PDU \<times> stateResolver) outcome" where
  "auth_block_loop edv q [] result r = Ok (result, r)"
| "auth_block_loop edv q (event # events) result r =
     (case Allowed edv q event (stateResolver_provider 0 r) of
        Panic \<Rightarrow> Panic
      | Err _ \<Rightarrow> Ok (result, r)
      | Ok _ \<Rightarrow> and_then (addAuthEvent event r) (auth_block_loop edv q events event))"

definition resolveAuthBlock :: "(string \<Rightarrow> string) \<Rightarrow> ed25519_verifier \<Rightarrow> UserIDForSender \<Rightarrow> PDU list \<Rightarrow> stateResolver
    \<Rightarrow> (PDU \<times> stateResolver) outcome" where
  "resolveAuthBlock sha1 edv q events r0 =
     (case map ce_event (sortConflictedEventsByDepthAndSHA1 sha1 events) of
        [] \<Rightarrow> Panic
      | oldest # newer \<Rightarrow>
          and_then (addAuthEvent oldest r0) (\<lambda>r1.
          and_then (auth_block_loop edv q newer oldest r1) (\<lambda>(result, r2).
          and_then (deref (StateKey result)) (\<lambda>k. Ok (result, removeAuthEvent (EventType result) k r2)))))"

text \<open>Backwards from the newest event, without the oldest.\<close>

fun normal_block_loop :: "ed25519_verifier \<Rightarrow> UserIDForSender \<Rightarrow> PDU list \<Rightarrow> stateResolver \<Rightarrow> PDU option outcome" where
  "normal_block_loop edv q [] r = Ok None"
| "normal_block_loop edv q (event # events) r =
     (case Allowed edv q event (stateResolver_provider 0 r) of
        Panic \<Rightarrow> Panic
      | Err _ \<Rightarrow> normal_block_loop edv q events r
      | Ok _ \<Rightarrow> Ok (Some event))"

definition resolveNormalBlock :: "(string \<Rightarrow> string) \<Rightarrow> ed25519_verifier \<Rightarrow> UserIDForSender \<Rightarrow> PDU list \<Rightarrow> stateResolver
    \<Rightarrow> PDU outcome" where
  "resolveNormalBlock sha1 edv q events r =
     (case map ce_event (sortConflictedEventsByDepthAndSHA1 sha1 events) of
        [] \<Rightarrow> Panic
      | oldest # newer \<Rightarrow>
          and_then (normal_block_loop edv q (rev newer) r) (\<lambda>found.
            Ok (case found of Some e \<Rightarrow> e | None \<Rightarrow> oldest)))"

section \<open>All blocks\<close>

fun resolve_blocks :: "(string \<Rightarrow> string) \<Rightarrow> ed25519_verifier \<Rightarrow> UserIDForSender \<Rightarrow> PDU list list \<Rightarrow> stateResolver
    \<Rightarrow> stateResolver outcome" where
  "resolve_blocks sha1 edv q [] r = Ok r"
| "resolve_blocks sha1 edv q (block # blocks) r =
     (if block = [] then resolve_blocks sha1 edv q blocks r
      else and_then (resolveAuthBlock sha1 edv q block r) (\<lambda>(event, r').
        resolve_blocks sha1 edv q blocks (r'\<lparr>s1_result := s1_result r' @ [event]\<rparr>)))"

definition resolveAndAddAuthBlocks :: "(string \<Rightarrow> string) \<Rightarrow> ed25519_verifier \<Rightarrow> UserIDForSender \<Rightarrow> PDU list list
    \<Rightarrow> stateResolver \<Rightarrow> stateResolver outcome" where
  "resolveAndAddAuthBlocks sha1 edv q blocks r =
     (let start = length (s1_result r) in
      and_then (resolve_blocks sha1 edv q blocks r) (\<lambda>r'.
        addAuthEvents (drop start (s1_result r')) r'))"

fun resolve_others :: "(string \<Rightarrow> string) \<Rightarrow> ed25519_verifier \<Rightarrow> UserIDForSender \<Rightarrow> PDU list list \<Rightarrow> stateResolver
    \<Rightarrow> stateResolver outcome" where
  "resolve_others sha1 edv q [] r = Ok r"
| "resolve_others sha1 edv q (block # blocks) r =
     and_then (resolveNormalBlock sha1 edv q block r) (\<lambda>event.
       resolve_others sha1 edv q blocks (r\<lparr>s1_result := s1_result r @ [event]\<rparr>))"

definition ResolveStateConflicts :: "(string \<Rightarrow> string) \<Rightarrow> ed25519_verifier \<Rightarrow> PDU list \<Rightarrow> PDU list \<Rightarrow> UserIDForSender
    \<Rightarrow> PDU list outcome" where
  "ResolveStateConflicts sha1 edv conflicted authEvents q =
     and_then (addConflicted conflicted (new_stateResolver, [])) (\<lambda>(r1, _).
     and_then (addAuthEvents authEvents r1) (\<lambda>r2.
     and_then (resolveAndAddAuthBlocks sha1 edv q [s1_creates r2] r2) (\<lambda>r3.
     and_then (resolveAndAddAuthBlocks sha1 edv q [s1_powerLevels r3] r3) (\<lambda>r4.
     and_then (resolveAndAddAuthBlocks sha1 edv q [s1_joinRules r4] r4) (\<lambda>r5.
     and_then (resolveAndAddAuthBlocks sha1 edv q (s1_thirdPartyInvites r5) r5) (\<lambda>r6.
     and_then (resolveAndAddAuthBlocks sha1 edv q (s1_members r6) r6) (\<lambda>r7.
     and_then (resolve_others sha1 edv q (s1_others r7) r7) (\<lambda>r8. Ok (s1_result r8)))))))))"

section \<open>The entry point\<close>

text \<open>The state events by tuple, each event ID once.\<close>

fun group_events :: "PDU list \<Rightarrow> string list \<Rightarrow> (StateKeyTuple, PDU list) gomap \<Rightarrow> (StateKeyTuple, PDU list) gomap" where
  "group_events [] seen eventMap = eventMap"
| "group_events (event # events) seen eventMap =
     (if EventID event \<in> set seen then group_events events seen eventMap
      else (case StateKey event of
          None \<Rightarrow> group_events events (EventID event # seen) eventMap
        | Some k \<Rightarrow>
            let tuple = (EventType event, k) in
            group_events events (EventID event # seen)
              (AList.update tuple ((case map_of eventMap tuple of None \<Rightarrow> [] | Some l \<Rightarrow> l) @ [event]) eventMap)))"

definition conflicted_lists :: "StateKeyTuple range_order \<Rightarrow> (StateKeyTuple, PDU list) gomap \<Rightarrow> PDU list \<times> PDU list" where
  "conflicted_lists rng3 eventMap =
     (let lists = List.map_filter (map_of eventMap) (rng3 1 (keys eventMap)) in
      (concat (filter (\<lambda>l. 1 < length l) lists), concat (filter (\<lambda>l. \<not> 1 < length l) lists)))"

definition ResolveConflicts :: "string range_order \<Rightarrow> StateKeyTuple range_order \<Rightarrow> nat \<Rightarrow> (string \<Rightarrow> string)
    \<Rightarrow> ed25519_verifier \<Rightarrow> RoomVersion \<Rightarrow> PDU list \<Rightarrow> PDU list \<Rightarrow> UserIDForSender \<Rightarrow> (string \<Rightarrow> bool)
    \<Rightarrow> PDU list outcome option" where
  "ResolveConflicts rng rng3 n sha1 edv version events authEvents q isRejectedFn =
     (case conflicted_lists rng3 (group_events events [] []) of (conflicted, notConflicted) \<Rightarrow>
        (case GetRoomVersion version of
           Panic \<Rightarrow> Some Panic
         | Err e \<Rightarrow> Some (Err e)
         | Ok verImpl \<Rightarrow>
             (case stateResAlgorithm verImpl of
                StateResV1 \<Rightarrow> Some (and_then (ResolveStateConflicts sha1 edv conflicted authEvents q)
                  (\<lambda>resolved. Ok (resolved @ notConflicted)))
              | StateResV2 \<Rightarrow> ResolveStateConflictsV2 rng rng3 n edv conflicted notConflicted authEvents q isRejectedFn)))"

end
