(* ===== verification/ResolutionV1.thy ===== *)
theory ResolutionV1
  imports StateResV1
begin

text \<open>
  What version 1 of state resolution, and the entry point, guarantee: the conflicted events are
  grouped by state key tuple, each group gives exactly one event of its own, and the resolved
  state has exactly one event for every tuple of the input.
\<close>

section \<open>Grouping\<close>

text \<open>
  The blocks of one list and their tuples \<open>ks\<close>: every block is non-empty and has events of its
  tuple only, and the offsets of the tuples that belong to the list, \<open>P\<close>, are their positions.
\<close>

definition blocks_ok :: "(StateKeyTuple \<Rightarrow> bool) \<Rightarrow> (StateKeyTuple, nat) gomap \<Rightarrow> StateKeyTuple list \<Rightarrow> PDU list list \<Rightarrow> bool" where
  "blocks_ok P offsets ks bs \<longleftrightarrow>
     distinct ks \<and> list_all P ks \<and> list_all2 (\<lambda>k b. b \<noteq> [] \<and> (\<forall>e \<in> set b. tuple_of e = Some k)) ks bs \<and>
     (\<forall>k i. P k \<longrightarrow> (map_of offsets k = Some i \<longleftrightarrow> i < length ks \<and> ks ! i = k))"

lemma blocks_ok_empty [simp]: "blocks_ok P [] [] []"
  by (simp add: blocks_ok_def)

lemma add_to_block_new:
  assumes ok: "blocks_ok P offsets ks bs" and P: "P key" and e: "tuple_of e = Some key" and none: "map_of offsets key = None"
  shows "blocks_ok P (AList.update key (length bs) offsets) (ks @ [key]) (bs @ [[e]])"
proof -
  have len: "length bs = length ks" using ok by (auto simp: blocks_ok_def dest: list_all2_lengthD)
  have off: "map_of offsets k = Some i \<longleftrightarrow> i < length ks \<and> ks ! i = k" if "P k" for k i
    using ok that unfolding blocks_ok_def by blast
  have "key \<notin> set ks"
  proof
    assume "key \<in> set ks"
    then obtain i where "i < length ks" "ks ! i = key" by (auto simp: in_set_conv_nth)
    with off [OF P] none show False by auto
  qed
  moreover have "map_of (AList.update key (length bs) offsets) k = Some i \<longleftrightarrow>
      i < length (ks @ [key]) \<and> (ks @ [key]) ! i = k" if "P k" for k i
  proof (cases "k = key")
    case True
    with \<open>key \<notin> set ks\<close> show ?thesis by (auto simp: map_simps len nth_append)
  next
    case False
    with off [OF that] show ?thesis by (auto simp: map_simps len nth_append)
  qed
  ultimately show ?thesis
    using ok P e len unfolding blocks_ok_def by (simp add: list_all2_append del: tuple_of_Some split_paired_All)
qed

lemma add_to_block_old:
  assumes ok: "blocks_ok P offsets ks bs" and P: "P key" and e: "tuple_of e = Some key" and some: "map_of offsets key = Some off"
  shows "blocks_ok P offsets ks (bs[off := bs ! off @ [e]])" and "off < length bs"
proof -
  have off: "off < length ks" "ks ! off = key" using ok P some unfolding blocks_ok_def by blast+
  then show "off < length bs" using ok by (auto simp: blocks_ok_def dest: list_all2_lengthD)
  show "blocks_ok P offsets ks (bs[off := bs ! off @ [e]])"
    using ok off e unfolding blocks_ok_def
    by (auto simp: list_all2_conv_all_nth nth_list_update simp del: tuple_of_Some split_paired_All)
qed

lemma mset_concat_update:
  "i < length bs \<Longrightarrow> mset (concat (bs[i := bs ! i @ [e]])) = add_mset e (mset (concat bs))"
proof (induction bs arbitrary: i)
  case (Cons b bs)
  then show ?case by (cases i) auto
qed simp

lemma add_to_block_ok:
  assumes ok: "blocks_ok P offsets ks bs" and P: "P key" and e: "tuple_of e = Some key"
    and add: "add_to_block key e offsets bs = (offsets', bs')"
  shows "\<exists>ks'. blocks_ok P offsets' ks' bs'" and "mset (concat bs') = add_mset e (mset (concat bs))"
proof (atomize (full), cases "map_of offsets key")
  case None
  then have "offsets' = AList.update key (length bs) offsets" "bs' = bs @ [[e]]" using add by (simp_all add: add_to_block_def)
  with add_to_block_new [OF ok P e None] show "(\<exists>ks'. blocks_ok P offsets' ks' bs') \<and> mset (concat bs') = add_mset e (mset (concat bs))"
    by auto
next
  case (Some off)
  then have "offsets' = offsets" "bs' = bs[off := bs ! off @ [e]]" using add by (simp_all add: add_to_block_def)
  with add_to_block_old [OF ok P e Some] mset_concat_update
  show "(\<exists>ks'. blocks_ok P offsets' ks' bs') \<and> mset (concat bs') = add_mset e (mset (concat bs))" by auto
qed

text \<open>A list that the tuple does not belong to is not affected.\<close>

lemma add_to_block_frame:
  assumes "blocks_ok Q offsets ks bs" "\<not> Q key" "add_to_block key e offsets cs = (offsets', cs')"
  shows "blocks_ok Q offsets' ks bs"
proof -
  have "map_of offsets' k = map_of offsets k" if "Q k" for k
    using assms(2,3) that by (auto simp: add_to_block_def map_simps split: option.splits)
  with assms(1) show ?thesis by (simp add: blocks_ok_def del: split_paired_All)
qed

section \<open>The conflicted events in blocks\<close>

definition for_members :: "StateKeyTuple \<Rightarrow> bool" where
  "for_members t \<longleftrightarrow> fst t = MRoomMember"

definition for_invites :: "StateKeyTuple \<Rightarrow> bool" where
  "for_invites t \<longleftrightarrow> fst t = MRoomThirdPartyInvite"

definition for_others :: "StateKeyTuple \<Rightarrow> bool" where
  "for_others t \<longleftrightarrow> fst t \<notin> {MRoomMember, MRoomThirdPartyInvite} \<and>
     t \<notin> {(MRoomCreate, []), (MRoomPowerLevels, []), (MRoomJoinRules, [])}"

definition single_ok :: "StateKeyTuple \<Rightarrow> PDU list \<Rightarrow> bool" where
  "single_ok t es \<longleftrightarrow> (\<forall>e \<in> set es. tuple_of e = Some t)"

definition grouped :: "PDU list \<Rightarrow> stateResolver \<times> (StateKeyTuple, nat) gomap \<Rightarrow> bool" where
  "grouped es st \<longleftrightarrow> (case st of (r, offsets) \<Rightarrow>
     single_ok (MRoomCreate, []) (s1_creates r) \<and> single_ok (MRoomPowerLevels, []) (s1_powerLevels r) \<and>
     single_ok (MRoomJoinRules, []) (s1_joinRules r) \<and>
     (\<exists>ks. blocks_ok for_invites offsets ks (s1_thirdPartyInvites r)) \<and>
     (\<exists>ks. blocks_ok for_members offsets ks (s1_members r)) \<and> (\<exists>ks. blocks_ok for_others offsets ks (s1_others r)) \<and>
     mset es = mset (s1_creates r @ s1_powerLevels r @ s1_joinRules r @ concat (s1_thirdPartyInvites r) @
       concat (s1_members r) @ concat (s1_others r)))"

lemma addConflicted_one_grouped:
  assumes "grouped es (r, offsets)" "StateKey e = Some k"
  shows "grouped (es @ [e]) (addConflicted_one e k (r, offsets))"
proof -
  let ?key = "(EventType e, k)"
  have key: "tuple_of e = Some ?key" using assms(2) by simp
  consider (create) "?key = (MRoomCreate, [])" | (levels) "?key = (MRoomPowerLevels, [])" | (rules) "?key = (MRoomJoinRules, [])"
    | (member) "for_members ?key" | (invite) "for_invites ?key" | (other) "for_others ?key"
    by (auto simp: for_members_def for_invites_def for_others_def)
  then show ?thesis
  proof cases
    case create
    then have "addConflicted_one e k (r, offsets) = (r\<lparr>s1_creates := s1_creates r @ [e]\<rparr>, offsets)"
      by (simp add: addConflicted_one_def)
    then show ?thesis using assms create by (simp add: grouped_def single_ok_def)
  next
    case levels
    then have "addConflicted_one e k (r, offsets) = (r\<lparr>s1_powerLevels := s1_powerLevels r @ [e]\<rparr>, offsets)"
      by (simp add: addConflicted_one_def)
    then show ?thesis using assms levels by (simp add: grouped_def single_ok_def)
  next
    case rules
    then have "addConflicted_one e k (r, offsets) = (r\<lparr>s1_joinRules := s1_joinRules r @ [e]\<rparr>, offsets)"
      by (simp add: addConflicted_one_def)
    then show ?thesis using assms rules by (simp add: grouped_def single_ok_def)
  next
    case member
    obtain o' bs where add: "add_to_block ?key e offsets (s1_members r) = (o', bs)" by (metis surj_pair)
    have step: "addConflicted_one e k (r, offsets) = (r\<lparr>s1_members := bs\<rparr>, o')"
      using member add by (simp add: addConflicted_one_def for_members_def)
    have "\<not> for_invites ?key" "\<not> for_others ?key" using member by (simp_all add: for_members_def for_invites_def for_others_def)
    then show ?thesis
      using assms(1) add_to_block_ok [where P = for_members, OF _ member key add] add_to_block_frame [OF _ _ add]
      unfolding step grouped_def by (auto simp del: split_paired_Ex; blast)
  next
    case invite
    obtain o' bs where add: "add_to_block ?key e offsets (s1_thirdPartyInvites r) = (o', bs)" by (metis surj_pair)
    have step: "addConflicted_one e k (r, offsets) = (r\<lparr>s1_thirdPartyInvites := bs\<rparr>, o')"
      using invite add by (simp add: addConflicted_one_def for_invites_def)
    have "\<not> for_members ?key" "\<not> for_others ?key" using invite by (simp_all add: for_members_def for_invites_def for_others_def)
    then show ?thesis
      using assms(1) add_to_block_ok [where P = for_invites, OF _ invite key add] add_to_block_frame [OF _ _ add]
      unfolding step grouped_def by (auto simp del: split_paired_Ex; blast)
  next
    case other
    obtain o' bs where add: "add_to_block ?key e offsets (s1_others r) = (o', bs)" by (metis surj_pair)
    have step: "addConflicted_one e k (r, offsets) = (r\<lparr>s1_others := bs\<rparr>, o')"
      using other add by (auto simp: addConflicted_one_def for_others_def)
    have "\<not> for_members ?key" "\<not> for_invites ?key" using other by (simp_all add: for_members_def for_invites_def for_others_def)
    then show ?thesis
      using assms(1) add_to_block_ok [where P = for_others, OF _ other key add] add_to_block_frame [OF _ _ add]
      unfolding step grouped_def by (auto simp del: split_paired_Ex; blast)
  qed
qed

lemma addConflicted_grouped:
  assumes "addConflicted es st = Ok st'" "grouped ds st"
  shows "grouped (ds @ es) st'"
  using assms
proof (induction es arbitrary: st ds)
  case (Cons e es)
  obtain r offsets where st: "st = (r, offsets)" by (cases st)
  from Cons.prems(1) obtain k where k: "StateKey e = Some k" "addConflicted es (addConflicted_one e k st) = Ok st'"
    by (cases "StateKey e") auto
  from Cons.IH [OF k(2)] addConflicted_one_grouped [of ds r offsets e k] Cons.prems(2) k(1) st
  show ?case by fastforce
qed simp

lemma addConflicted_result:
  "addConflicted es st = Ok st' \<Longrightarrow> s1_result (fst st') = s1_result (fst st)"
proof (induction es arbitrary: st)
  case (Cons e es)
  have one: "s1_result (fst (addConflicted_one e k st)) = s1_result (fst st)" for k
    by (auto simp: addConflicted_one_def Let_def split: prod.splits)
  from Cons.prems obtain k where "addConflicted es (addConflicted_one e k st) = Ok st'" by (cases "StateKey e") auto
  from Cons.IH [OF this] one show ?case by simp
qed simp

definition all_blocks :: "stateResolver \<Rightarrow> PDU list list" where
  "all_blocks r = filter (\<lambda>b. b \<noteq> []) [s1_creates r] @ filter (\<lambda>b. b \<noteq> []) [s1_powerLevels r] @
     filter (\<lambda>b. b \<noteq> []) [s1_joinRules r] @ s1_thirdPartyInvites r @ s1_members r @ s1_others r"

text \<open>The blocks together have the conflicted events, and each has a tuple of its own.\<close>

lemma grouped_blocks:
  assumes "grouped es (r, offsets)"
  obtains ks where "distinct ks" "list_all2 (\<lambda>k b. b \<noteq> [] \<and> (\<forall>e \<in> set b. tuple_of e = Some k)) ks (all_blocks r)"
    "set es = \<Union> (set ` set (all_blocks r))"
proof -
  let ?good = "\<lambda>k b. b \<noteq> [] \<and> (\<forall>e \<in> set b. tuple_of e = Some k)"
  from assms obtain ti me ot where
    ti: "blocks_ok for_invites offsets ti (s1_thirdPartyInvites r)" and
    me: "blocks_ok for_members offsets me (s1_members r)" and
    ot: "blocks_ok for_others offsets ot (s1_others r)"
    unfolding grouped_def by blast
  define one where "one t b = (if b = [] then [] else [t])" for t :: StateKeyTuple and b :: "PDU list"
  have one: "list_all2 ?good (one t b) (filter (\<lambda>b. b \<noteq> []) [b])" if "single_ok t b" for t b
    using that by (simp add: one_def single_ok_def del: tuple_of_Some)
  let ?ks = "one (MRoomCreate, []) (s1_creates r) @ one (MRoomPowerLevels, []) (s1_powerLevels r) @
    one (MRoomJoinRules, []) (s1_joinRules r) @ ti @ me @ ot"
  have "list_all2 ?good ?ks (all_blocks r)"
    unfolding all_blocks_def using assms ti me ot
    by (intro list_all2_appendI one) (simp_all add: grouped_def blocks_ok_def del: tuple_of_Some split_paired_All)
  moreover have "distinct ?ks"
  proof -
    have "for_invites t" if "t \<in> set ti" for t using ti that by (simp add: blocks_ok_def list_all_iff)
    moreover have "for_members t" if "t \<in> set me" for t using me that by (simp add: blocks_ok_def list_all_iff)
    moreover have "for_others t" if "t \<in> set ot" for t using ot that by (simp add: blocks_ok_def list_all_iff)
    moreover have "distinct ti" "distinct me" "distinct ot" using ti me ot by (simp_all add: blocks_ok_def)
    moreover have "\<not> (for_invites t \<and> for_members t)" "\<not> (for_invites t \<and> for_others t)" "\<not> (for_members t \<and> for_others t)"
      "for_invites t \<or> for_members t \<or> for_others t \<Longrightarrow> t \<notin> {(MRoomCreate, []), (MRoomPowerLevels, []), (MRoomJoinRules, [])}" for t
      by (auto simp: for_invites_def for_members_def for_others_def)
    ultimately show ?thesis unfolding one_def by (simp add: disjoint_iff) blast
  qed
  moreover have "set es = \<Union> (set ` set (all_blocks r))"
  proof -
    have "set es = set (s1_creates r @ s1_powerLevels r @ s1_joinRules r @ concat (s1_thirdPartyInvites r) @
        concat (s1_members r) @ concat (s1_others r))"
      using assms unfolding grouped_def prod.case by (intro mset_eq_setD) blast
    then show ?thesis by (auto simp: all_blocks_def)
  qed
  ultimately show thesis using that by blast
qed

section \<open>One event from each block\<close>

text \<open>Adding and removing auth events leaves the blocks and the result alone.\<close>

definition same_work :: "stateResolver \<Rightarrow> stateResolver \<Rightarrow> bool" where
  "same_work r s \<longleftrightarrow> s1_creates s = s1_creates r \<and> s1_powerLevels s = s1_powerLevels r \<and> s1_joinRules s = s1_joinRules r \<and>
     s1_thirdPartyInvites s = s1_thirdPartyInvites r \<and> s1_members s = s1_members r \<and> s1_others s = s1_others r"

lemma same_work_refl [simp]: "same_work r r"
  by (simp add: same_work_def)

lemma same_work_trans: "same_work r s \<Longrightarrow> same_work s t \<Longrightarrow> same_work r t"
  by (simp add: same_work_def)

lemma addAuthEvent_work: "addAuthEvent e r = Ok r' \<Longrightarrow> same_work r r' \<and> s1_result r' = s1_result r"
  by (auto simp: addAuthEvent_def Let_def same_work_def go_simps split: if_splits)

lemma addAuthEvents_work: "addAuthEvents es r = Ok r' \<Longrightarrow> same_work r r' \<and> s1_result r' = s1_result r"
proof (induction es arbitrary: r)
  case (Cons e es)
  then obtain r1 where "addAuthEvent e r = Ok r1" "addAuthEvents es r1 = Ok r'" by (auto simp: go_simps)
  with Cons.IH addAuthEvent_work show ?case by (metis same_work_trans)
qed simp

lemma removeAuthEvent_work: "same_work r (removeAuthEvent t k r) \<and> s1_result (removeAuthEvent t k r) = s1_result r"
  by (simp add: removeAuthEvent_def same_work_def)

lemma auth_block_loop_work:
  assumes "auth_block_loop edv q es result r = Ok (result', r')"
  shows "result' \<in> insert result (set es) \<and> same_work r r' \<and> s1_result r' = s1_result r"
  using assms
proof (induction es arbitrary: result r)
  case (Cons e es)
  show ?case
  proof (cases "Allowed edv q e (stateResolver_provider 0 r)")
    case (Ok u)
    with Cons.prems obtain r1 where r1: "addAuthEvent e r = Ok r1" "auth_block_loop edv q es e r1 = Ok (result', r')"
      by (auto simp: go_simps)
    from Cons.IH [OF r1(2)] addAuthEvent_work [OF r1(1)] show ?thesis by (auto dest: same_work_trans)
  qed (use Cons.prems in simp_all)
qed simp

lemma set_sortConflicted: "set (map ce_event (sortConflictedEventsByDepthAndSHA1 sha1 es)) = set es"
  by (auto simp: sortConflictedEventsByDepthAndSHA1_def image_image)

lemma resolveAuthBlock_work:
  assumes "resolveAuthBlock sha1 edv q es r = Ok (e, r')"
  shows "e \<in> set es \<and> same_work r r' \<and> s1_result r' = s1_result r"
proof (cases "map ce_event (sortConflictedEventsByDepthAndSHA1 sha1 es)")
  case Nil
  with assms show ?thesis by (simp add: resolveAuthBlock_def)
next
  case (Cons oldest newer)
  with assms obtain r1 r2 k where r1: "addAuthEvent oldest r = Ok r1" and
    r2: "auth_block_loop edv q newer oldest r1 = Ok (e, r2)" and r': "r' = removeAuthEvent (EventType e) k r2"
    by (auto simp: resolveAuthBlock_def go_simps)
  have "e \<in> set es" using auth_block_loop_work [OF r2] set_sortConflicted [of sha1 es] Cons by auto
  moreover have "same_work r r'" "s1_result r' = s1_result r"
    using addAuthEvent_work [OF r1] auth_block_loop_work [OF r2] removeAuthEvent_work [of r2]
    unfolding r' by (metis same_work_trans, simp)
  ultimately show ?thesis by blast
qed

lemma resolve_blocks_work:
  assumes "resolve_blocks sha1 edv q bs r = Ok r'"
  shows "same_work r r' \<and> (\<exists>new. s1_result r' = s1_result r @ new \<and>
    list_all2 (\<lambda>b e. e \<in> set b) (filter (\<lambda>b. b \<noteq> []) bs) new)"
  using assms
proof (induction bs arbitrary: r)
  case (Cons b bs)
  show ?case
  proof (cases "b = []")
    case False
    with Cons.prems obtain e r1 where e: "resolveAuthBlock sha1 edv q b r = Ok (e, r1)"
      "resolve_blocks sha1 edv q bs (r1\<lparr>s1_result := s1_result r1 @ [e]\<rparr>) = Ok r'"
      by (auto simp: go_simps)
    from Cons.IH [OF e(2)] obtain new where new: "same_work (r1\<lparr>s1_result := s1_result r1 @ [e]\<rparr>) r'"
      "s1_result r' = (s1_result r1 @ [e]) @ new" "list_all2 (\<lambda>b e. e \<in> set b) (filter (\<lambda>b. b \<noteq> []) bs) new" by auto
    have "same_work r r'" using new(1) resolveAuthBlock_work [OF e(1)] by (auto simp: same_work_def)
    moreover have "s1_result r' = s1_result r @ (e # new)" using new(2) resolveAuthBlock_work [OF e(1)] by simp
    ultimately show ?thesis using False new(3) resolveAuthBlock_work [OF e(1)] by auto
  qed (use Cons in simp)
qed simp

lemma resolveAndAddAuthBlocks_work:
  assumes "resolveAndAddAuthBlocks sha1 edv q bs r = Ok r'"
  shows "same_work r r' \<and> (\<exists>new. s1_result r' = s1_result r @ new \<and>
    list_all2 (\<lambda>b e. e \<in> set b) (filter (\<lambda>b. b \<noteq> []) bs) new)"
proof -
  from assms obtain r1 where r1: "resolve_blocks sha1 edv q bs r = Ok r1"
    "addAuthEvents (drop (length (s1_result r)) (s1_result r1)) r1 = Ok r'"
    by (auto simp: resolveAndAddAuthBlocks_def Let_def go_simps)
  have "same_work r r'" using resolve_blocks_work [OF r1(1)] addAuthEvents_work [OF r1(2)] by (blast intro: same_work_trans)
  with resolve_blocks_work [OF r1(1)] addAuthEvents_work [OF r1(2)] show ?thesis by simp
qed

lemma normal_block_loop_found:
  "normal_block_loop edv q es r = Ok (Some e) \<Longrightarrow> e \<in> set es"
  by (induction es) (auto split: outcome.splits)

lemma resolveNormalBlock_mem:
  assumes "resolveNormalBlock sha1 edv q es r = Ok e"
  shows "e \<in> set es"
proof (cases "map ce_event (sortConflictedEventsByDepthAndSHA1 sha1 es)")
  case Nil
  with assms show ?thesis by (simp add: resolveNormalBlock_def)
next
  case (Cons oldest newer)
  with assms obtain found where "normal_block_loop edv q (rev newer) r = Ok found"
    "e = (case found of Some e \<Rightarrow> e | None \<Rightarrow> oldest)"
    by (auto simp: resolveNormalBlock_def go_simps)
  then have "e \<in> set (oldest # newer)" by (auto dest: normal_block_loop_found split: option.splits)
  then show ?thesis using set_sortConflicted [of sha1 es] Cons by auto
qed

lemma resolve_others_work:
  assumes "resolve_others sha1 edv q bs r = Ok r'"
  shows "\<exists>new. s1_result r' = s1_result r @ new \<and> list_all2 (\<lambda>b e. e \<in> set b) bs new"
  using assms
proof (induction bs arbitrary: r)
  case (Cons b bs)
  then obtain e where e: "resolveNormalBlock sha1 edv q b r = Ok e"
    "resolve_others sha1 edv q bs (r\<lparr>s1_result := s1_result r @ [e]\<rparr>) = Ok r'" by (auto simp: go_simps)
  from Cons.IH [OF e(2)] resolveNormalBlock_mem [OF e(1)] show ?case by (fastforce simp: list_all2_Cons1)
qed simp

text \<open>The result has an event of every block, in the order of the blocks.\<close>

lemma ResolveStateConflicts_blocks:
  assumes "ResolveStateConflicts sha1 edv conflicted authEvents q = Ok result"
  obtains r offsets where "grouped conflicted (r, offsets)" "list_all2 (\<lambda>b e. e \<in> set b) (all_blocks r) result"
proof -
  obtain r1 offsets r2 r3 r4 r5 r6 r7 r8 where
    1: "addConflicted conflicted (new_stateResolver, []) = Ok (r1, offsets)" and 2: "addAuthEvents authEvents r1 = Ok r2" and
    3: "resolveAndAddAuthBlocks sha1 edv q [s1_creates r2] r2 = Ok r3" and
    4: "resolveAndAddAuthBlocks sha1 edv q [s1_powerLevels r3] r3 = Ok r4" and
    5: "resolveAndAddAuthBlocks sha1 edv q [s1_joinRules r4] r4 = Ok r5" and
    6: "resolveAndAddAuthBlocks sha1 edv q (s1_thirdPartyInvites r5) r5 = Ok r6" and
    7: "resolveAndAddAuthBlocks sha1 edv q (s1_members r6) r6 = Ok r7" and
    8: "resolve_others sha1 edv q (s1_others r7) r7 = Ok r8" and res: "result = s1_result r8"
    using assms by (auto simp: ResolveStateConflicts_def go_simps)
  have "grouped [] (new_stateResolver, [])"
    by (auto simp: grouped_def new_stateResolver_def single_ok_def simp del: split_paired_Ex intro: blocks_ok_empty)
  from addConflicted_grouped [OF 1 this] have g: "grouped conflicted (r1, offsets)" by simp
  have "s1_result r1 = []" using addConflicted_result [OF 1] by (simp add: new_stateResolver_def)
  then have res2: "s1_result r2 = []" and w2: "same_work r1 r2" using addAuthEvents_work [OF 2] by auto
  note w3 = resolveAndAddAuthBlocks_work [OF 3] and w4 = resolveAndAddAuthBlocks_work [OF 4]
    and w5 = resolveAndAddAuthBlocks_work [OF 5] and w6 = resolveAndAddAuthBlocks_work [OF 6]
    and w7 = resolveAndAddAuthBlocks_work [OF 7]
  have blocks: "s1_creates r2 = s1_creates r1" "s1_powerLevels r3 = s1_powerLevels r1" "s1_joinRules r4 = s1_joinRules r1"
    "s1_thirdPartyInvites r5 = s1_thirdPartyInvites r1" "s1_members r6 = s1_members r1" "s1_others r7 = s1_others r1"
    using w2 w3 w4 w5 w6 w7 by (simp_all add: same_work_def)
  let ?one = "list_all2 (\<lambda>b e. e \<in> set b)"
  obtain n3 n4 n5 n6 n7 n8 where n: "result = n3 @ n4 @ n5 @ n6 @ n7 @ n8"
    "?one (filter (\<lambda>b. b \<noteq> []) [s1_creates r1]) n3" "?one (filter (\<lambda>b. b \<noteq> []) [s1_powerLevels r1]) n4"
    "?one (filter (\<lambda>b. b \<noteq> []) [s1_joinRules r1]) n5" "?one (filter (\<lambda>b. b \<noteq> []) (s1_thirdPartyInvites r1)) n6"
    "?one (filter (\<lambda>b. b \<noteq> []) (s1_members r1)) n7" "?one (s1_others r1) n8"
    using w3 w4 w5 w6 w7 resolve_others_work [OF 8] unfolding res blocks by (auto simp: res2)
  have ne: "filter (\<lambda>b. b \<noteq> []) bs = bs" if "blocks_ok P offsets ks bs" for P ks bs
    using that by (auto simp: blocks_ok_def filter_id_conv list_all2_conv_all_nth in_set_conv_nth simp del: split_paired_All tuple_of_Some)
  have "filter (\<lambda>b. b \<noteq> []) (s1_thirdPartyInvites r1) = s1_thirdPartyInvites r1"
    "filter (\<lambda>b. b \<noteq> []) (s1_members r1) = s1_members r1" using g ne unfolding grouped_def by blast+
  with n have "?one (all_blocks r1) result" unfolding n(1) all_blocks_def by (intro list_all2_appendI) simp_all
  with g show thesis by (rule that)
qed

lemma resolution_v1_tuples:
  assumes "ResolveStateConflicts sha1 edv conflicted authEvents q = Ok result"
  shows "distinct (map tuple_of result) \<and> set (map tuple_of result) = tuple_of ` set conflicted \<and> set result \<subseteq> set conflicted"
proof -
  obtain r offsets where g: "grouped conflicted (r, offsets)" and one: "list_all2 (\<lambda>b e. e \<in> set b) (all_blocks r) result"
    by (rule ResolveStateConflicts_blocks [OF assms])
  obtain ks where ks: "distinct ks" "list_all2 (\<lambda>k b. b \<noteq> [] \<and> (\<forall>e \<in> set b. tuple_of e = Some k)) ks (all_blocks r)"
    and es: "set conflicted = \<Union> (set ` set (all_blocks r))" by (rule grouped_blocks [OF g])
  have tuples: "map tuple_of result = map Some ks"
    using ks(2) one by (auto simp: list_all2_conv_all_nth intro!: nth_equalityI simp del: tuple_of_Some)
  have "tuple_of ` set conflicted = Some ` set ks"
  proof (intro set_eqI iffI)
    fix t assume "t \<in> tuple_of ` set conflicted"
    then obtain b e where "b \<in> set (all_blocks r)" "e \<in> set b" "t = tuple_of e" using es by auto
    then obtain i where "i < length ks" "t = Some (ks ! i)"
      using ks(2) by (auto simp: list_all2_conv_all_nth in_set_conv_nth simp del: tuple_of_Some) (metis nth_mem)
    then show "t \<in> Some ` set ks" by simp
  next
    fix t assume "t \<in> Some ` set ks"
    then obtain i where i: "i < length ks" "t = Some (ks ! i)" by (auto simp: in_set_conv_nth)
    then have "all_blocks r ! i \<in> set (all_blocks r)" "all_blocks r ! i \<noteq> []" "\<forall>e \<in> set (all_blocks r ! i). tuple_of e = t"
      using ks(2) by (auto simp: list_all2_conv_all_nth simp del: tuple_of_Some)
    then show "t \<in> tuple_of ` set conflicted" using es by (metis UN_I image_eqI list.set_intros(1) neq_Nil_conv)
  qed
  moreover have "set result \<subseteq> set conflicted"
    using one es by (fastforce simp: list_all2_conv_all_nth in_set_conv_nth)
  ultimately show ?thesis using tuples ks(1) by (simp add: distinct_map flip: set_map)
qed

text \<open>
  C24. Version 1 resolves every conflict: its result has exactly one event for each state key tuple
  that the conflicted events have, and it is one of those events.
\<close>

theorem ResolveStateConflicts_one_each:
  assumes "ResolveStateConflicts sha1 edv conflicted authEvents q = Ok result"
  shows "distinct (map tuple_of result) \<and> set (map tuple_of result) = tuple_of ` set conflicted \<and> set result \<subseteq> set conflicted"
  using assms by (rule resolution_v1_tuples)

theorem ResolveStateConflicts_one_each_witness:
  "\<exists>result. ResolveStateConflicts (\<lambda>x. x) no_signature sample_conflicted sample_unconflicted sample_users = Ok result \<and>
     set (map tuple_of result) = {Some (''m.room.topic'', [])}"
proof -
  have run: "ResolveStateConflicts (\<lambda>x. x) no_signature sample_conflicted sample_unconflicted sample_users = Ok [sample_topic ''$s'' 5]"
    by code_simp
  show ?thesis using run ResolveStateConflicts_one_each [OF run] by (auto simp: sample_conflicted_def sample_topic_def)
qed

section \<open>Which event of a block\<close>

lemma normal_block_loop_split:
  assumes "normal_block_loop edv q es r = Ok found"
  shows "case found of
      None \<Rightarrow> \<forall>e \<in> set es. Allowed edv q e (stateResolver_provider 0 r) \<noteq> Ok ()
    | Some e \<Rightarrow> Allowed edv q e (stateResolver_provider 0 r) = Ok () \<and>
        (\<exists>pre post. es = pre @ e # post \<and> (\<forall>f \<in> set pre. Allowed edv q f (stateResolver_provider 0 r) \<noteq> Ok ()))"
  using assms
proof (induction es)
  case (Cons e es)
  show ?case
  proof (cases "Allowed edv q e (stateResolver_provider 0 r)")
    case (Ok u)
    with Cons.prems have "found = Some e" by simp
    then show ?thesis using Ok by simp (rule exI [of _ "[]"], simp)
  next
    case (Err x)
    with Cons have IH: "case found of
        None \<Rightarrow> \<forall>e \<in> set es. Allowed edv q e (stateResolver_provider 0 r) \<noteq> Ok ()
      | Some e \<Rightarrow> Allowed edv q e (stateResolver_provider 0 r) = Ok () \<and>
          (\<exists>pre post. es = pre @ e # post \<and> (\<forall>f \<in> set pre. Allowed edv q f (stateResolver_provider 0 r) \<noteq> Ok ()))" by simp
    show ?thesis
    proof (cases found)
      case None
      with IH Err show ?thesis by simp
    next
      case (Some f)
      with IH obtain pre post where "es = pre @ f # post" "\<forall>f \<in> set pre. Allowed edv q f (stateResolver_provider 0 r) \<noteq> Ok ()"
        "Allowed edv q f (stateResolver_provider 0 r) = Ok ()" by auto
      with Some Err show ?thesis by simp (rule exI [of _ "e # pre"], auto)
    qed
  qed (use Cons.prems in simp)
qed simp

text \<open>
  Of events without special rules, version 1 picks the newest one that the resolved auth
  events allow: all later ones in the order of depth and hash are refused, and the pick is
  allowed unless it is the oldest.
\<close>

lemma resolveNormalBlock_newest_allowed:
  assumes "resolveNormalBlock sha1 edv q events r = Ok e"
  shows "\<exists>older newer. map ce_event (sortConflictedEventsByDepthAndSHA1 sha1 events) = older @ e # newer \<and>
    (\<forall>f \<in> set newer. Allowed edv q f (stateResolver_provider 0 r) \<noteq> Ok ()) \<and>
    (older = [] \<or> Allowed edv q e (stateResolver_provider 0 r) = Ok ())"
proof (cases "map ce_event (sortConflictedEventsByDepthAndSHA1 sha1 events)")
  case Nil
  with assms show ?thesis by (simp add: resolveNormalBlock_def)
next
  case (Cons oldest later)
  with assms obtain found where f: "normal_block_loop edv q (rev later) r = Ok found"
    and e: "e = (case found of Some e \<Rightarrow> e | None \<Rightarrow> oldest)"
    by (auto simp: resolveNormalBlock_def go_simps)
  show ?thesis
  proof (cases found)
    case None
    then show ?thesis using normal_block_loop_split [OF f] e Cons by (intro exI [of _ "[]"] exI [of _ later]) simp
  next
    case (Some g)
    with normal_block_loop_split [OF f] e obtain pre post where
      split: "rev later = pre @ e # post" "\<forall>f \<in> set pre. Allowed edv q f (stateResolver_provider 0 r) \<noteq> Ok ()"
        "Allowed edv q e (stateResolver_provider 0 r) = Ok ()" by auto
    then have "later = rev post @ e # rev pre" by (simp add: rev_eq_append_conv)
    with split Cons show ?thesis by (intro exI [of _ "oldest # rev post"] exI [of _ "rev pre"]) simp
  qed
qed

section \<open>The entry point\<close>

text \<open>The events that are looked at: the first with each ID.\<close>

fun fresh :: "PDU list \<Rightarrow> string list \<Rightarrow> PDU list" where
  "fresh [] seen = []"
| "fresh (e # es) seen = (if EventID e \<in> set seen then fresh es seen else e # fresh es (EventID e # seen))"

lemma fresh_subset: "set (fresh es seen) \<subseteq> set es"
  by (induction es arbitrary: seen) (auto split: if_splits)

lemma fresh_covers: "e \<in> set es \<Longrightarrow> EventID e \<notin> set seen \<Longrightarrow> \<exists>f \<in> set (fresh es seen). EventID f = EventID e"
proof (induction es arbitrary: seen)
  case (Cons a es)
  then show ?case by (cases "EventID a = EventID e") auto
qed simp

lemma fresh_all:
  assumes "\<forall>e \<in> set es. \<forall>f \<in> set es. EventID e = EventID f \<longrightarrow> e = f"
  shows "set (fresh es []) = set es"
proof (intro equalityI fresh_subset subsetI)
  fix e assume e: "e \<in> set es"
  then obtain f where "f \<in> set (fresh es [])" "EventID f = EventID e" using fresh_covers [OF e, of "[]"] by auto
  moreover have "f \<in> set es" using fresh_subset calculation(1) by blast
  ultimately show "e \<in> set (fresh es [])" using assms e by metis
qed

definition with_tuple :: "StateKeyTuple \<Rightarrow> PDU list \<Rightarrow> PDU list" where
  "with_tuple t es = filter (\<lambda>e. tuple_of e = Some t) es"

lemma with_tuple_simps [simp]:
  "with_tuple t [] = []"
  "with_tuple t (e # es) = (if tuple_of e = Some t then e # with_tuple t es else with_tuple t es)"
  by (simp_all add: with_tuple_def)

lemma group_events_lookup:
  "map_of (group_events es seen em) t =
     (case map_of em t of
        Some l \<Rightarrow> Some (l @ with_tuple t (fresh es seen))
      | None \<Rightarrow> if with_tuple t (fresh es seen) = [] then None else Some (with_tuple t (fresh es seen)))"
proof (induction es arbitrary: seen em)
  case (Cons e es)
  show ?case
  proof (cases "EventID e \<in> set seen")
    case False
    show ?thesis
    proof (cases "StateKey e")
      case (Some k)
      then have "tuple_of e = Some (EventType e, k)" by simp
      with False Some show ?thesis
        by (auto simp: Cons.IH Let_def map_simps simp del: tuple_of_Some split: option.splits)
    qed (use False in \<open>simp add: Cons.IH tuple_of_def split: option.splits\<close>)
  qed (simp add: Cons.IH split: option.splits)
qed (simp split: option.splits)

lemma group_events_distinct: "distinct (keys em) \<Longrightarrow> distinct (keys (group_events es seen em))"
proof (induction es arbitrary: seen em)
  case (Cons e es)
  then show ?case by (simp add: Let_def split: option.splits)
qed simp

text \<open>The lists of the map, one for each tuple of a state event, split by whether there is a conflict.\<close>

lemma conflicted_lists_set:
  assumes rng: "is_range_order rng3" and split: "conflicted_lists rng3 (group_events es [] []) = (conflicted, notConflicted)"
  shows "e \<in> set conflicted \<longleftrightarrow> (\<exists>t. e \<in> set (with_tuple t (fresh es [])) \<and> 1 < length (with_tuple t (fresh es [])))"
    and "e \<in> set notConflicted \<longleftrightarrow> (\<exists>t. with_tuple t (fresh es []) = [e])"
proof -
  let ?em = "group_events es [] []"
  let ?lists = "List.map_filter (map_of ?em) (rng3 1 (keys ?em))"
  have lists: "l \<in> set ?lists \<longleftrightarrow> (\<exists>t. l = with_tuple t (fresh es []) \<and> l \<noteq> [])" for l
  proof -
    have "l \<in> set ?lists \<longleftrightarrow> (\<exists>t \<in> set (keys ?em). map_of ?em t = Some l)"
      by (simp only: in_set_map_filter range_order_set [OF rng])
    also have "\<dots> \<longleftrightarrow> (\<exists>t. map_of ?em t = Some l)" using map_of_Some_in_keys by fast
    also have "\<dots> \<longleftrightarrow> (\<exists>t. l = with_tuple t (fresh es []) \<and> l \<noteq> [])" by (auto simp: group_events_lookup)
    finally show ?thesis .
  qed
  have c: "conflicted = concat (filter (\<lambda>l. 1 < length l) ?lists)" "notConflicted = concat (filter (\<lambda>l. \<not> 1 < length l) ?lists)"
    using split by (simp_all add: conflicted_lists_def Let_def)
  show "e \<in> set conflicted \<longleftrightarrow> (\<exists>t. e \<in> set (with_tuple t (fresh es [])) \<and> 1 < length (with_tuple t (fresh es [])))"
    unfolding c(1) set_concat set_filter UN_iff mem_Collect_eq bex_simps Bex_def lists by (metis empty_iff empty_set)
  have one: "l \<noteq> [] \<and> \<not> 1 < length l \<longleftrightarrow> (\<exists>x. l = [x])" for l :: "PDU list" by (cases l) (auto simp: not_less)
  have "e \<in> set notConflicted \<longleftrightarrow> (\<exists>t. e \<in> set (with_tuple t (fresh es [])) \<and> with_tuple t (fresh es []) \<noteq> [] \<and> \<not> 1 < length (with_tuple t (fresh es [])))"
    unfolding c(2) set_concat set_filter UN_iff mem_Collect_eq Bex_def lists by blast
  also have "\<dots> \<longleftrightarrow> (\<exists>t. e \<in> set (with_tuple t (fresh es [])) \<and> (\<exists>x. with_tuple t (fresh es []) = [x]))"
    unfolding one ..
  finally show "e \<in> set notConflicted \<longleftrightarrow> (\<exists>t. with_tuple t (fresh es []) = [e])"
    by (metis empty_iff empty_set list.set_intros(1) set_ConsD)
qed

lemma conflicted_lists_unique:
  assumes rng: "is_range_order rng3" and split: "conflicted_lists rng3 (group_events es [] []) = (conflicted, notConflicted)"
  shows "distinct (map tuple_of notConflicted)" and "tuple_of ` set conflicted \<inter> tuple_of ` set notConflicted = {}"
proof -
  let ?em = "group_events es [] []"
  let ?ts = "filter (\<lambda>t. \<not> 1 < length (with_tuple t (fresh es []))) (rng3 1 (keys ?em))"
  have look: "map_of ?em t = Some l \<longleftrightarrow> l = with_tuple t (fresh es []) \<and> l \<noteq> []" for t l
    by (auto simp: group_events_lookup)
  have "map tuple_of (concat (filter (\<lambda>l. \<not> 1 < length l) (List.map_filter (map_of ?em) ts))) =
      map Some (filter (\<lambda>t. map_of ?em t \<noteq> None \<and> \<not> 1 < length (with_tuple t (fresh es []))) ts)" for ts
  proof (induction ts)
    case (Cons t ts)
    show ?case
    proof (cases "map_of ?em t")
      case (Some l)
      then have l: "l = with_tuple t (fresh es [])" "l \<noteq> []" using look by auto
      have "\<forall>e \<in> set l. tuple_of e = Some t" using l(1) by (simp add: with_tuple_def del: tuple_of_Some)
      moreover have "\<not> 1 < length l \<Longrightarrow> \<exists>x. l = [x]" using l(2) by (cases l) simp_all
      ultimately have "\<not> 1 < length l \<Longrightarrow> map tuple_of l = [Some t]" by (auto simp del: tuple_of_Some)
      with Some l Cons show ?thesis by (simp add: List.map_filter_simps del: tuple_of_Some)
    qed (use Cons in \<open>simp add: List.map_filter_simps\<close>)
  qed (simp add: List.map_filter_simps)
  moreover have "notConflicted = concat (filter (\<lambda>l. \<not> 1 < length l) (List.map_filter (map_of ?em) (rng3 1 (keys ?em))))"
    using split by (simp add: conflicted_lists_def Let_def)
  moreover have "distinct (rng3 1 (keys ?em))"
    using group_events_distinct [of "[]" es "[]"] by (simp add: range_order_distinct [OF rng])
  ultimately show "distinct (map tuple_of notConflicted)" by (simp add: distinct_map)
  show "tuple_of ` set conflicted \<inter> tuple_of ` set notConflicted = {}"
  proof (rule ccontr)
    assume "\<not> ?thesis"
    then obtain e f where ef: "e \<in> set conflicted" "f \<in> set notConflicted" "tuple_of e = tuple_of f" by (auto simp: image_iff)
    from ef(1) obtain t where t: "e \<in> set (with_tuple t (fresh es []))" "1 < length (with_tuple t (fresh es []))"
      unfolding conflicted_lists_set(1) [OF rng split] by blast
    from ef(2) obtain u where u: "with_tuple u (fresh es []) = [f]" unfolding conflicted_lists_set(2) [OF rng split] by blast
    have "f \<in> set (with_tuple u (fresh es []))" using u by simp
    then have "tuple_of f = Some u" by (simp add: with_tuple_def del: tuple_of_Some)
    moreover have "tuple_of e = Some t" using t(1) by (simp add: with_tuple_def del: tuple_of_Some)
    ultimately have "t = u" using ef(3) by simp
    with t(2) u show False by simp
  qed
qed

lemma conflicted_lists_tuples:
  assumes rng: "is_range_order rng3" and split: "conflicted_lists rng3 (group_events es [] []) = (conflicted, notConflicted)"
  shows "set conflicted \<union> set notConflicted = {e \<in> set (fresh es []). tuple_of e \<noteq> None}"
proof (intro set_eqI iffI)
  fix e assume "e \<in> set conflicted \<union> set notConflicted"
  then obtain t where "e \<in> set (with_tuple t (fresh es []))"
    unfolding Un_iff conflicted_lists_set [OF rng split] by (metis list.set_intros(1))
  then show "e \<in> {e \<in> set (fresh es []). tuple_of e \<noteq> None}" by (simp add: with_tuple_def del: tuple_of_Some)
next
  fix e assume "e \<in> {e \<in> set (fresh es []). tuple_of e \<noteq> None}"
  then obtain t where t: "e \<in> set (with_tuple t (fresh es []))" by (auto simp: with_tuple_def simp del: tuple_of_Some)
  show "e \<in> set conflicted \<union> set notConflicted"
  proof (cases "1 < length (with_tuple t (fresh es []))")
    case True
    with t show ?thesis using conflicted_lists_set(1) [OF rng split] by blast
  next
    case False
    with t have "with_tuple t (fresh es []) = [e]" by (cases "with_tuple t (fresh es [])") auto
    then show ?thesis using conflicted_lists_set(2) [OF rng split] by blast
  qed
qed

text \<open>
  For rooms of version 1 the entry point returns a complete state: exactly one event for
  every state key tuple of the given events, all of them given events.
\<close>

lemma ResolveConflicts_v1_complete:
  assumes "is_range_order rng3" "GetRoomVersion version = Ok impl" "stateResAlgorithm impl = StateResV1"
    and "\<forall>e \<in> set events. \<forall>f \<in> set events. EventID e = EventID f \<longrightarrow> e = f"
    and "ResolveConflicts rng rng3 n sha1 edv version events authEvents q isRejectedFn = Some (Ok result)"
  shows "distinct (map tuple_of result) \<and> set result \<subseteq> set events \<and>
    set (map tuple_of result) = {tuple_of e |e. e \<in> set events \<and> tuple_of e \<noteq> None}"
proof -
  obtain conflicted notConflicted where c: "conflicted_lists rng3 (group_events events [] []) = (conflicted, notConflicted)"
    by (metis surj_pair)
  obtain resolved where v1: "ResolveStateConflicts sha1 edv conflicted authEvents q = Ok resolved"
    and res: "result = resolved @ notConflicted"
    using assms(2,3,5) c by (auto simp: ResolveConflicts_def go_simps)
  note v = resolution_v1_tuples [OF v1]
  note u = conflicted_lists_unique [OF assms(1) c] and t = conflicted_lists_tuples [OF assms(1) c]
  have "distinct (map tuple_of result)" using v u by (simp add: res)
  moreover have "set (map tuple_of result) = tuple_of ` (set conflicted \<union> set notConflicted)"
    using v unfolding res by (simp add: image_Un)
  moreover have "set result \<subseteq> set conflicted \<union> set notConflicted" using v unfolding res by auto
  ultimately show ?thesis using t fresh_all [OF assms(4)] by auto
qed

definition sample_state_sets :: "PDU list" where
  "sample_state_sets = sample_unconflicted @ sample_conflicted"

lemma sample_state_sets_IDs:
  "\<forall>e \<in> set sample_state_sets. \<forall>f \<in> set sample_state_sets. EventID e = EventID f \<longrightarrow> e = f"
  by (simp add: sample_state_sets_def sample_unconflicted_def sample_conflicted_def sample_topic_def)

text \<open>
  In every room version, a given state event whose tuple no other given event has is in
  the resolved state.
\<close>

lemma ResolveConflicts_keeps_unconflicted:
  assumes "is_range_order rng" "is_range_order rng3"
    and "\<forall>e \<in> set events. \<forall>f \<in> set events. EventID e = EventID f \<longrightarrow> e = f"
    and "ResolveConflicts rng rng3 n sha1 edv version events authEvents q isRejectedFn = Some (Ok result)"
    and "u \<in> set events" "tuple_of u \<noteq> None" "\<forall>v \<in> set events. tuple_of v = tuple_of u \<longrightarrow> v = u"
  shows "u \<in> set result"
proof -
  obtain conflicted notConflicted where c: "conflicted_lists rng3 (group_events events [] []) = (conflicted, notConflicted)"
    by (metis surj_pair)
  note u = conflicted_lists_unique [OF assms(2) c] and t = conflicted_lists_tuples [OF assms(2) c]
  have un: "u \<in> set notConflicted"
  proof (rule ccontr)
    assume "u \<notin> set notConflicted"
    then have "u \<in> set conflicted" using t fresh_all [OF assms(3)] assms(5,6) by blast
    then obtain k where k: "u \<in> set (with_tuple k (fresh events []))" "1 < length (with_tuple k (fresh events []))"
      unfolding conflicted_lists_set(1) [OF assms(2) c] by blast
    have "set (with_tuple k (fresh events [])) \<subseteq> {u}"
      using k(1) assms(7) fresh_subset [of events "[]"] by (auto simp: with_tuple_def simp del: tuple_of_Some)
    moreover have "distinct (with_tuple k (fresh events []))"
    proof -
      have "EventID e \<in> set seen \<Longrightarrow> e \<notin> set (fresh es seen)" for e es seen
        by (induction es arbitrary: seen) auto
      then have "distinct (fresh es seen)" for es seen by (induction es arbitrary: seen) auto
      then show ?thesis by (simp add: with_tuple_def)
    qed
    ultimately have "length (with_tuple k (fresh events [])) \<le> 1"
      by (metis card_mono distinct_card finite.emptyI finite_insert is_singletonI is_singleton_altdef)
    with k(2) show False by simp
  qed
  obtain impl where impl: "GetRoomVersion version = Ok impl"
    using assms(4) c by (cases "GetRoomVersion version") (auto simp: ResolveConflicts_def)
  show ?thesis
  proof (cases "stateResAlgorithm impl")
    case StateResV1
    then show ?thesis using assms(4) c impl un by (auto simp: ResolveConflicts_def go_simps)
  next
    case StateResV2
    have "\<forall>v \<in> set notConflicted. EventID v = EventID u \<or> tuple_of v = tuple_of u \<longrightarrow> v = u"
      using t fresh_subset [of events "[]"] assms(3,5,7) by blast
    moreover have "ResolveStateConflictsV2 rng rng3 n edv conflicted notConflicted authEvents q isRejectedFn = Some (Ok result)"
      using StateResV2 assms(4) c impl by (simp add: ResolveConflicts_def)
    ultimately show ?thesis using resolution_keeps_unconflicted [OF assms(1,2) _ un assms(6)] by blast
  qed
qed

end
