(* ===== verification/PowerLevelRules.thy ===== *)
theory PowerLevelRules
  imports MembershipAuth Samples
begin

text \<open>
  What the checks of \<^verbatim>\<open>eventauth.go\<close> guarantee about events other than membership events:
  who may send them, what a change of power levels may do, and when a create event or a
  redaction is accepted.
\<close>

section \<open>Changes of levels\<close>

text \<open>The change of a level that a sender may make, and that of another user's level.\<close>

definition change_ok :: "int \<Rightarrow> int \<Rightarrow> int \<Rightarrow> bool" where
  "change_ok s old new \<longleftrightarrow> old = new \<or> (old \<le> s \<and> new \<le> s)"

definition user_change_ok :: "int \<Rightarrow> bool \<Rightarrow> int \<Rightarrow> int \<Rightarrow> bool" where
  "user_change_ok s own old new \<longleftrightarrow> old = new \<or> (new \<le> s \<and> (own \<or> old < s))"

lemma checkLevelChange_Ok: "checkLevelChange s (old, new) = Ok () \<longleftrightarrow> change_ok s old new"
  by (auto simp: checkLevelChange_def change_ok_def)

lemma checkUserLevelChange_Ok:
  "checkUserLevelChange s sender (u, old, new) = Ok () \<longleftrightarrow> user_change_ok s (u = sender) old new"
  by (auto simp: checkUserLevelChange_def user_change_ok_def)

lemma checkNotificationLevelChange_Ok:
  "checkNotificationLevelChange s (old, new) = Ok () \<longleftrightarrow> user_change_ok s False old new"
  by (auto simp: checkNotificationLevelChange_def user_change_ok_def)

definition named_levels_ok :: "int \<Rightarrow> PowerLevelContent \<Rightarrow> PowerLevelContent \<Rightarrow> bool" where
  "named_levels_ok s old new \<longleftrightarrow> change_ok s (pl_Ban old) (pl_Ban new) \<and> change_ok s (pl_Invite old) (pl_Invite new) \<and>
     change_ok s (pl_Kick old) (pl_Kick new) \<and> change_ok s (pl_Redact old) (pl_Redact new) \<and>
     change_ok s (pl_StateDefault old) (pl_StateDefault new) \<and> change_ok s (pl_EventsDefault old) (pl_EventsDefault new)"

text \<open>
  Checking the listed event types checks them all: a type that neither list has gets the
  default, or the invite level, and those are checked by name.
\<close>

lemma checkEventLevels_Ok:
  "checkEventLevels s old new = Ok () \<longleftrightarrow>
     named_levels_ok s old new \<and> (\<forall>t. change_ok s (EventLevel old t False) (EventLevel new t False))"
  (is "?l \<longleftrightarrow> ?named \<and> ?all")
proof -
  let ?listed = "\<forall>t \<in> fst ` set (pl_Events new) \<union> fst ` set (pl_Events old).
    change_ok s (EventLevel old t False) (EventLevel new t False)"
  have "?l \<longleftrightarrow> ?named \<and> ?listed"
    by (simp add: checkEventLevels_def go_simps eventLevelChecks_def checkLevelChange_Ok named_levels_ok_def ball_Un conj_assoc)
  moreover have "?named \<Longrightarrow> ?listed \<Longrightarrow> change_ok s (EventLevel old t False) (EventLevel new t False)" for t
  proof (cases "t \<in> fst ` set (pl_Events new) \<union> fst ` set (pl_Events old)")
    case False
    then have "map_of (pl_Events old) t = None" "map_of (pl_Events new) t = None" by (simp_all add: map_of_eq_None_iff)
    then show "?named \<Longrightarrow> change_ok s (EventLevel old t False) (EventLevel new t False)"
      by (simp add: EventLevel_def named_levels_ok_def)
  qed blast
  ultimately show ?thesis by blast
qed

lemma userLevelChecks_set:
  "set (userLevelChecks old new) =
     (\<lambda>u. (u, UserLevel old u, UserLevel new u)) ` (fst ` set (pl_Users old) \<union> fst ` set (pl_Users new))"
proof -
  let ?f = "\<lambda>u. (UserLevel old u, UserLevel new u)"
  have "set (AList.update u (?f u) m) = insert (u, ?f u) (set m)" if "\<forall>(k, v) \<in> set m. v = ?f k" for u m
    using that by (induction m) auto
  then have "\<forall>(k, v) \<in> set m. v = ?f k \<Longrightarrow>
      set (fold (\<lambda>u m. AList.update u (?f u) m) us m) = set m \<union> (\<lambda>u. (u, ?f u)) ` set us" for us m
    by (induction us arbitrary: m) auto
  from this [of "[]" "keys (pl_Users new) @ keys (pl_Users old)"] show ?thesis
    unfolding userLevelChecks_def by (simp add: Un_commute del: fold_append)
qed

lemma checkUserLevels_Ok:
  "checkUserLevels s sender old new = Ok () \<longleftrightarrow>
     (\<forall>u \<in> set (keys (pl_Users old)) \<union> set (keys (pl_Users new)).
        user_change_ok s (u = sender) (UserLevel old u) (UserLevel new u))"
  by (simp add: checkUserLevels_def go_simps userLevelChecks_set checkUserLevelChange_Ok image_Un ball_Un)

lemma checkNotificationLevels_Ok:
  "checkNotificationLevels s old new = Ok () \<longleftrightarrow>
     (\<forall>k \<in> set (keys (pl_Notifications old)) \<union> set (keys (pl_Notifications new)).
        user_change_ok s False (NotificationLevel old k) (NotificationLevel new k))"
  by (simp add: checkNotificationLevels_def go_simps checkNotificationLevelChange_Ok ball_Un conj_commute)

section \<open>Who may send an event\<close>

text \<open>What every event other than create, alias and membership events has to satisfy.\<close>

definition sender_ok :: "UserIDForSender \<Rightarrow> allowerContext \<Rightarrow> PDU \<Rightarrow> bool" where
  "sender_ok q a event \<longleftrightarrow>
     room_raw (EventRoomID event) = cc_roomID (ac_create a) \<and>
     (\<exists>m. NewMemberContentFromAuthEvents (ac_provider a) (SenderID event) = Ok m \<and> mc_Membership m = Join) \<and>
     (\<exists>user. q (ac_roomID a) (SenderID event) = Ok (Some user) \<and> UserIDAllowed (ac_create a) user = Ok ()) \<and>
     EventLevel (ac_powerLevels a) (EventType event) (StateKey event \<noteq> None) \<le> UserLevel (ac_powerLevels a) (SenderID event) \<and>
     (\<forall>k. StateKey event = Some k \<longrightarrow> k \<noteq> [] \<and> hd k = CHR ''@'' \<longrightarrow> k = SenderID event)"

lemma commonChecks_Ok:
  "and_then (newEventAllower a (SenderID event)) (\<lambda>allower. commonChecks q allower event) = Ok () \<longleftrightarrow> sender_ok q a event"
proof -
  have "commonChecks q \<lparr>ea_ctx = a, ea_member = m\<rparr> event = Ok () \<longleftrightarrow>
      room_raw (EventRoomID event) = cc_roomID (ac_create a) \<and> mc_Membership m = Join \<and>
      (\<exists>user. q (ac_roomID a) (SenderID event) = Ok (Some user) \<and> UserIDAllowed (ac_create a) user = Ok ()) \<and>
      EventLevel (ac_powerLevels a) (EventType event) (StateKey event \<noteq> None) \<le> UserLevel (ac_powerLevels a) (SenderID event) \<and>
      (\<forall>k. StateKey event = Some k \<longrightarrow> k \<noteq> [] \<and> hd k = CHR ''@'' \<longrightarrow> k = SenderID event)" for m
    by (auto simp: commonChecks_def go_simps split: option.splits if_splits)
  then show ?thesis by (auto simp: newEventAllower_def go_simps sender_ok_def)
qed

text \<open>
  C22. An event of a type without rules of its own is accepted exactly when its sender is joined,
  the room's creator lets the sender's server take part, the event is for this room, the sender has
  the level its type needs, and a state key that is a user ID is the sender's own.
\<close>

theorem default_event_allowed_iff:
  assumes "EventType event \<notin> {MRoomCreate, MRoomAliases, MRoomMember, MRoomPowerLevels, MRoomRedaction}"
  shows "snd (allowed edv q a event) = Ok () \<longleftrightarrow> sender_ok q a event"
  using assms by (simp add: allowed_def defaultEventAllowed_def commonChecks_Ok)

definition sample_message :: PDU where
  "sample_message = mk_event ''$x'' ''m.room.message'' None ''@m:a'' [] [''$c'', ''$p'', ''$m''] 7"

theorem default_event_allowed_iff_witness:
  "sender_ok sample_users (context_of sample_state) sample_message"
proof -
  have "snd (allowed no_signature sample_users (context_of sample_state) sample_message) = Ok ()" by code_simp
  then show ?thesis
    using default_event_allowed_iff [of sample_message no_signature sample_users "context_of sample_state"]
    by (simp add: sample_message_def)
qed

section \<open>Power level events\<close>

lemma NewPowerLevelContentFromEvent_known:
  "NewPowerLevelContentFromEvent event = Ok c \<Longrightarrow> \<exists>impl. GetRoomVersion (Version event) = Ok impl"
  by (auto simp: NewPowerLevelContentFromEvent_def go_simps)

lemma powerLevelsEventAllowed_Ok:
  "powerLevelsEventAllowed q a event = Ok () \<longleftrightarrow>
     sender_ok q a event \<and> (\<exists>new impl. NewPowerLevelContentFromEvent event = Ok new \<and>
       GetRoomVersion (Version event) = Ok impl \<and> each (checkPowerLevelUser q a) (keys (pl_Users new)) = Ok () \<and>
       checkEventLevels (UserLevel (ac_powerLevels a) (SenderID event)) (ac_powerLevels a) new = Ok () \<and>
       CheckNotificationLevels impl (UserLevel (ac_powerLevels a) (SenderID event)) (ac_powerLevels a) new = Ok () \<and>
       checkUserLevels (UserLevel (ac_powerLevels a) (SenderID event)) (SenderID event) (ac_powerLevels a) new = Ok ())"
  (is "_ \<longleftrightarrow> _ \<and> ?levels")
proof -
  have "powerLevelsEventAllowed q a event = Ok () \<longleftrightarrow>
      (\<exists>m. newEventAllower a (SenderID event) = Ok m \<and> commonChecks q m event = Ok ()) \<and> ?levels"
  proof (cases "\<exists>impl. GetRoomVersion (Version event) = Ok impl")
    case True
    then obtain impl where "GetRoomVersion (Version event) = Ok impl" ..
    then show ?thesis by (simp add: powerLevelsEventAllowed_def and_then_Ok_iff Let_def) blast
  next
    case False
    then have "NewPowerLevelContentFromEvent event \<noteq> Ok c" for c using NewPowerLevelContentFromEvent_known by blast
    then show ?thesis by (simp add: powerLevelsEventAllowed_def and_then_Ok_iff)
  qed
  also have "(\<exists>m. newEventAllower a (SenderID event) = Ok m \<and> commonChecks q m event = Ok ()) \<longleftrightarrow> sender_ok q a event"
    by (simp add: commonChecks_Ok [symmetric] and_then_Ok_iff)
  finally show ?thesis .
qed


definition sample_level_change :: "(string \<times> json) list \<Rightarrow> PDU" where
  "sample_level_change content = mk_event ''$q'' MRoomPowerLevels (Some []) ''@m:a'' content [''$c'', ''$p'', ''$m''] 8"

definition sample_promotion :: PDU where
  "sample_promotion = sample_level_change
     [(''users'', JObj [(''@u:a'', JNum ''100''), (''@m:a'', JNum ''50''), (''@n:a'', JNum ''50'')])]"




text \<open>
  The default for users that the event does not list is not among the levels that are compared:
  a moderator with level 50 can give level 100 to everyone else.
\<close>

definition sample_raise_default :: PDU where
  "sample_raise_default = sample_level_change
     [(''users'', JObj [(''@u:a'', JNum ''100''), (''@m:a'', JNum ''50'')]), (''users_default'', JNum ''100'')]"

theorem users_default_not_checked:
  "snd (allowed no_signature sample_users (context_of sample_state) sample_raise_default) = Ok () \<and>
   UserLevel (ac_powerLevels (context_of sample_state)) (SenderID sample_raise_default) = 50 \<and>
   UserLevel (ac_powerLevels (context_of sample_state)) ''@n:a'' = 0 \<and>
   UserLevel (the_ok (NewPowerLevelContentFromEvent sample_raise_default)) ''@n:a'' = 100"
  by code_simp

end
