(* ===== verification/MembershipRules.thy ===== *)
theory MembershipRules
  imports PowerLevelRules
begin

text \<open>
  What the checks of \<^verbatim>\<open>m.room.member\<close> events guarantee: the rules for joining, leaving,
  knocking, inviting, kicking and banning as conditions on the loaded state, and what follows
  from them for banned users, for joins and for changes to other users.
\<close>

section \<open>The rules as conditions\<close>

abbreviation old_membership :: "membershipAllower \<Rightarrow> string" where
  "old_membership m \<equiv> mc_Membership (ma_oldMember m)"

abbreviation new_membership :: "membershipAllower \<Rightarrow> string" where
  "new_membership m \<equiv> mc_Membership (ma_newMember m)"

abbreviation level_in :: "membershipAllower \<Rightarrow> string \<Rightarrow> int" where
  "level_in m u \<equiv> UserLevel (ac_powerLevels (ma_ctx m)) u"

text \<open>A member of the room with the power to invite vouches for the join.\<close>

definition vouched_for :: "membershipAllower \<Rightarrow> bool" where
  "vouched_for m \<longleftrightarrow>
     (let via = mc_AuthorisedVia (ma_newMember m) in via \<noteq> [] \<and>
      (ver (ma_roomVersionImpl m) = RoomVersionPseudoIDs \<or> (\<exists>p. SplitID CHR ''@'' via = Ok p)) \<and>
      (\<exists>e. prov_Member (ac_provider (ma_ctx m)) via = Ok (Some e) \<and> Membership e = Ok Join) \<and>
      pl_Invite (ac_powerLevels (ma_ctx m)) \<le> level_in m via)"

definition join_ok :: "membershipAllower \<Rightarrow> bool" where
  "join_ok m \<longleftrightarrow>
     (if ma_joinRule m \<in> {Restricted, KnockRestricted}
      then checkRestrictedJoinAllowedFunc (ma_roomVersionImpl m) = Some F_allowRestrictedJoins \<and>
        (old_membership m \<in> {Join, Invite} \<or> vouched_for m)
      else old_membership m \<in> {Join, Invite} \<or> (old_membership m = Leave \<and> ma_joinRule m = Public))"

definition knock_ok :: "membershipAllower \<Rightarrow> bool" where
  "knock_ok m \<longleftrightarrow> checkKnockingAllowedFunc (ma_roomVersionImpl m) = F_checkKnocking \<and>
     ma_joinRule m \<in> {Knock, KnockRestricted} \<and> old_membership m \<notin> {Join, Invite, Ban}"

definition self_ok :: "membershipAllower \<Rightarrow> bool" where
  "self_ok m \<longleftrightarrow> (old_membership m = Leave \<and> new_membership m = Leave) \<or>
     (old_membership m \<noteq> Ban \<and>
      ((new_membership m = Knock \<and> knock_ok m) \<or> (new_membership m = Join \<and> join_ok m) \<or>
       (new_membership m = Leave \<and> old_membership m \<in> {Join, Invite, Knock})))"

definition other_ok :: "membershipAllower \<Rightarrow> bool" where
  "other_ok m \<longleftrightarrow>
     (let pls = ac_powerLevels (ma_ctx m); s = level_in m (ma_senderID m); t = level_in m (ma_targetID m) in
      mc_Membership (ma_senderMember m) = Join \<and>
      ((new_membership m = Ban \<and> pl_Ban pls \<le> s \<and> t < s) \<or>
       (new_membership m = Leave \<and> old_membership m = Ban \<and> pl_Ban pls \<le> s) \<or>
       (new_membership m = Leave \<and> old_membership m \<noteq> Ban \<and> pl_Kick pls \<le> s \<and> t < s) \<or>
       (new_membership m = Invite \<and> pl_Invite pls \<le> s \<and> old_membership m \<notin> {Join, Ban})))"

section \<open>The code implements them\<close>

lemma membershipAllowedOther_Ok: "membershipAllowedOther m = Ok () \<longleftrightarrow> other_ok m"
  by (simp add: membershipAllowedOther_def other_ok_def Let_def)

lemma CheckKnockingAllowed_Ok: "CheckKnockingAllowed (ma_roomVersionImpl m) m = Ok () \<longleftrightarrow> knock_ok m"
  by (cases "checkKnockingAllowedFunc (ma_roomVersionImpl m)")
    (simp_all add: CheckKnockingAllowed_def disallowKnocking_def checkKnocking_def knock_ok_def)

lemma CheckRestrictedJoinsAllowed_Ok:
  "CheckRestrictedJoinsAllowed v = Ok () \<longleftrightarrow> checkRestrictedJoinAllowedFunc v = Some F_allowRestrictedJoins"
  by (auto simp: CheckRestrictedJoinsAllowed_def allowRestrictedJoins_def disallowRestrictedJoins_def
      split: option.splits CheckRestrictedJoinAllowedFunc.splits)

text \<open>A restricted join turns the join rule to invite or to public, or is refused.\<close>

lemma restricted_Ok_iff:
  "membershipAllowedSelfForRestrictedJoin m = Ok m' \<longleftrightarrow>
     checkRestrictedJoinAllowedFunc (ma_roomVersionImpl m) = Some F_allowRestrictedJoins \<and>
     (if old_membership m \<in> {Join, Invite} \<or> mc_AuthorisedVia (ma_newMember m) = [] then m' = set_joinRule Invite m
      else vouched_for m \<and> m' = set_joinRule Public m)"
proof (cases "checkRestrictedJoinAllowedFunc (ma_roomVersionImpl m) = Some F_allowRestrictedJoins")
  case True
  then have "CheckRestrictedJoinsAllowed (ma_roomVersionImpl m) = Ok ()" by (simp add: CheckRestrictedJoinsAllowed_Ok)
  then show ?thesis using True
    by (auto simp: membershipAllowedSelfForRestrictedJoin_def Let_def go_simps vouched_for_def
        split: outcome.splits option.splits if_splits)
next
  case False
  then have "CheckRestrictedJoinsAllowed (ma_roomVersionImpl m) \<noteq> Ok ()" by (simp add: CheckRestrictedJoinsAllowed_Ok)
  with False show ?thesis
    by (cases "CheckRestrictedJoinsAllowed (ma_roomVersionImpl m)") (simp_all add: membershipAllowedSelfForRestrictedJoin_def)
qed

lemma self_join_restricted:
  assumes "ma_joinRule m \<in> {Restricted, KnockRestricted}" "new_membership m = Join" "old_membership m \<noteq> Ban"
  shows "snd (membershipAllowedSelf m) = Ok () \<longleftrightarrow> join_ok m"
proof (cases "membershipAllowedSelfForRestrictedJoin m")
  case (Ok m')
  then have r: "checkRestrictedJoinAllowedFunc (ma_roomVersionImpl m) = Some F_allowRestrictedJoins"
    "if old_membership m \<in> {Join, Invite} \<or> mc_AuthorisedVia (ma_newMember m) = [] then m' = set_joinRule Invite m
      else vouched_for m \<and> m' = set_joinRule Public m"
    unfolding restricted_Ok_iff by auto
  have self: "snd (membershipAllowedSelf m) = Ok () \<longleftrightarrow> ma_joinRule m' = Public \<or> old_membership m \<in> {Join, Invite}"
    using assms Ok by (auto simp: membershipAllowedSelf_def Let_def)
  have "vouched_for m \<Longrightarrow> mc_AuthorisedVia (ma_newMember m) \<noteq> []" by (simp add: vouched_for_def Let_def)
  with r assms(1) show ?thesis unfolding self join_ok_def by (auto split: if_splits)
next
  case (Err e)
  then have "snd (membershipAllowedSelf m) \<noteq> Ok ()" using assms by (auto simp: membershipAllowedSelf_def Let_def)
  moreover have "\<not> join_ok m"
    using assms(1) restricted_Ok_iff [of m "set_joinRule Invite m"] restricted_Ok_iff [of m "set_joinRule Public m"] Err
    by (auto simp: join_ok_def split: if_splits)
  ultimately show ?thesis by blast
next
  case Panic
  then have "snd (membershipAllowedSelf m) \<noteq> Ok ()" using assms by (auto simp: membershipAllowedSelf_def Let_def)
  moreover have "\<not> join_ok m"
    using assms(1) restricted_Ok_iff [of m "set_joinRule Invite m"] restricted_Ok_iff [of m "set_joinRule Public m"] Panic
    by (auto simp: join_ok_def split: if_splits)
  ultimately show ?thesis by blast
qed

lemma self_join_plain:
  assumes "ma_joinRule m \<notin> {Restricted, KnockRestricted}" "new_membership m = Join" "old_membership m \<noteq> Ban"
  shows "snd (membershipAllowedSelf m) = Ok () \<longleftrightarrow> join_ok m"
  using assms by (auto simp: membershipAllowedSelf_def Let_def join_ok_def)

lemma membershipAllowedSelf_Ok: "snd (membershipAllowedSelf m) = Ok () \<longleftrightarrow> self_ok m"
proof (cases "new_membership m = Join \<and> old_membership m \<noteq> Ban")
  case True
  then have "snd (membershipAllowedSelf m) = Ok () \<longleftrightarrow> join_ok m"
    using self_join_restricted [of m] self_join_plain [of m] by blast
  with True show ?thesis by (simp add: self_ok_def)
next
  case False
  consider "new_membership m = Join" | "new_membership m = Knock" | "new_membership m = Leave"
    | "new_membership m \<notin> {Join, Knock, Leave}" by blast
  then show ?thesis
    by cases (use False in \<open>simp_all add: membershipAllowedSelf_def self_ok_def Let_def CheckKnockingAllowed_Ok\<close>)
qed

definition member_rules :: "ed25519_verifier \<Rightarrow> membershipAllower \<Rightarrow> bool" where
  "member_rules edv m \<longleftrightarrow>
     (if new_membership m = Invite \<and> mc_ThirdPartyInvite (ma_newMember m) \<noteq> None
      then membershipAllowedFromThirdPartyInvite edv m = Ok ()
      else if ma_targetID m = ma_senderID m then self_ok m else other_ok m)"

text \<open>
  C21. A membership event whose content and state could be loaded is accepted exactly when it is
  for the room of the create event, its sender is a user the room's creator admits, and it is the
  creator's first join, or a third-party invite with a good signature, or a change that the rules
  for one's own membership, or for that of others, permit.
\<close>

theorem member_event_allowed_iff:
  assumes "EventType event = MRoomMember" "newMembershipAllower a (ac_provider a) event = Ok m"
  shows "snd (allowed edv q a event) = Ok () \<longleftrightarrow>
    cc_roomID (ac_create a) = room_raw (EventRoomID event) \<and>
    (\<exists>sender. membershipSender q m event = Ok sender \<and> UserIDAllowed (ac_create a) sender = Ok ()) \<and>
    (\<exists>first. creatorJoin m event = Ok first \<and> (first \<or> member_rules edv m))"
proof -
  have ctx: "ma_ctx m = a"
    using assms(2) by (auto simp: newMembershipAllower_def go_simps split: option.splits)
  let ?pre = "and_then (membershipSender q m event) (\<lambda>sender.
    and_then (UserIDAllowed (ac_create a) sender) (\<lambda>_. creatorJoin m event))"
  have pre: "?pre = Ok b \<longleftrightarrow> (\<exists>sender. membershipSender q m event = Ok sender \<and> UserIDAllowed (ac_create a) sender = Ok ()) \<and>
      creatorJoin m event = Ok b" for b
    by (auto simp: go_simps)
  have "snd (allowed edv q a event) = snd (membershipAllowed edv q m event)"
    using assms by (simp add: allowed_def memberEventAllowed_def split: prod.splits)
  also have "\<dots> = Ok () \<longleftrightarrow> cc_roomID (ac_create a) = room_raw (EventRoomID event) \<and>
      (\<exists>b. ?pre = Ok b \<and> (b \<or> member_rules edv m))"
  proof (cases "?pre")
    case (Ok b)
    then show ?thesis
      by (cases b) (auto simp: membershipAllowed_def ctx member_rules_def membershipAllowedSelf_Ok membershipAllowedOther_Ok ex_bool_eq)
  qed (simp_all add: membershipAllowed_def ctx)
  finally show ?thesis unfolding pre by blast
qed

definition sample_join :: PDU where
  "sample_join = sample_member ''@n:a'' ''@n:a'' [(''membership'', JStr Join)]"

lemma sample_join_loaded:
  "newMembershipAllower (context_of sample_state) (ac_provider (context_of sample_state)) sample_join = Ok (sample_allower sample_join)"
  by (rule the_ok) code_simp

lemma sample_join_accepted: "snd (allowed no_signature sample_users (context_of sample_state) sample_join) = Ok ()"
  by code_simp

theorem member_event_allowed_iff_witness:
  "cc_roomID (ac_create (context_of sample_state)) = ''!r:a'' \<and> creatorJoin (sample_allower sample_join) sample_join \<noteq> Panic"
  using member_event_allowed_iff [OF _ sample_join_loaded, of no_signature sample_users] sample_join_accepted
  by (auto simp: sample_join_def sample_member_def sample_room_def)

section \<open>What they guarantee\<close>

lemma member_event_allowed:
  assumes "EventType event = MRoomMember" "newMembershipAllower a (ac_provider a) event = Ok m"
    and "snd (allowed edv q a event) = Ok ()"
  shows "creatorJoin m event = Ok True \<or> member_rules edv m"
proof -
  from assms(3) obtain first where "creatorJoin m event = Ok first" "first \<or> member_rules edv m"
    unfolding member_event_allowed_iff [OF assms(1,2)] by blast
  then show ?thesis by (cases first) auto
qed

lemma creatorJoin_join: "creatorJoin m event = Ok True \<Longrightarrow> new_membership m = Join \<and> ma_targetID m = ma_senderID m"
  by (auto simp: creatorJoin_def go_simps)

text \<open>
  A user only becomes a member through an event of their own: a join is accepted for its
  sender only, and then it is the creator's first join or one that the join rules allow.
\<close>

lemma join_only_self:
  assumes "EventType event = MRoomMember" "newMembershipAllower a (ac_provider a) event = Ok m"
    and "snd (allowed edv q a event) = Ok ()" "mc_Membership (ma_newMember m) = Join"
  shows "ma_targetID m = ma_senderID m \<and>
    (creatorJoin m event = Ok True \<or> (mc_Membership (ma_oldMember m) \<noteq> Ban \<and> join_ok m))"
  using member_event_allowed [OF assms(1-3)] creatorJoin_join [of m event] assms(4)
  by (auto simp: member_rules_def self_ok_def other_ok_def Let_def split: if_splits)


definition sample_unban :: PDU where
  "sample_unban = sample_member ''@m:a'' ''@b:a'' [(''membership'', JStr Leave)]"

lemma sample_unban_loaded:
  "newMembershipAllower (context_of sample_state) (ac_provider (context_of sample_state)) sample_unban = Ok (sample_allower sample_unban)"
  by (rule the_ok) code_simp


text \<open>
  Kicks and bans go down the ranks only: when a change that removes another user, or bans
  one, is accepted, the sender is joined and has a higher level than the target and at least the
  level that the room asks for.
\<close>

lemma removal_needs_power:
  assumes "EventType event = MRoomMember" "newMembershipAllower a (ac_provider a) event = Ok m"
    and "snd (allowed edv q a event) = Ok ()" "ma_targetID m \<noteq> ma_senderID m"
    and "mc_Membership (ma_newMember m) = Ban \<or>
      (mc_Membership (ma_newMember m) = Leave \<and> mc_Membership (ma_oldMember m) \<noteq> Ban)"
  shows "mc_Membership (ma_senderMember m) = Join \<and>
    UserLevel (ac_powerLevels (ma_ctx m)) (ma_targetID m) < UserLevel (ac_powerLevels (ma_ctx m)) (ma_senderID m) \<and>
    (if mc_Membership (ma_newMember m) = Ban then pl_Ban (ac_powerLevels (ma_ctx m)) else pl_Kick (ac_powerLevels (ma_ctx m)))
      \<le> UserLevel (ac_powerLevels (ma_ctx m)) (ma_senderID m)"
  using member_event_allowed [OF assms(1-3)] creatorJoin_join [of m event] assms(4,5)
  by (auto simp: member_rules_def other_ok_def Let_def split: if_splits)

definition sample_ban :: PDU where
  "sample_ban = sample_member ''@u:a'' ''@m:a'' [(''membership'', JStr Ban)]"

lemma sample_ban_loaded:
  "newMembershipAllower (context_of sample_state) (ac_provider (context_of sample_state)) sample_ban = Ok (sample_allower sample_ban)"
  by (rule the_ok) code_simp

text \<open>
  The check of third-party invites looks at neither the target's membership nor the sender's: with
  a signature that verifies, a user who is not in the room can put a banned user back to invited.
\<close>

definition sample_token_state :: "PDU list" where
  "sample_token_state = sample_state @
     [mk_event ''$3'' MRoomThirdPartyInvite (Some ''tok'') ''@u:a''
        [(''public_keys'', JArr [JObj [(''public_key'', JStr ''AAAA''), (''key_validity_url'', JStr [])]])] [''$c''] 7]"

definition sample_third_party :: PDU where
  "sample_third_party = sample_member ''@z:a'' ''@b:a''
     [(''membership'', JStr Invite),
      (''third_party_invite'', JObj [(''signed'', JObj [(''mxid'', JStr ''@b:a''), (''token'', JStr ''tok''),
         (''signatures'', JObj [(''a'', JObj [(''ed25519:1'', JStr (replicate 86 CHR ''A''))])])])])]"

theorem third_party_invite_ignores_ban:
  "snd (allowed (\<lambda>key message signature. Ok True) sample_users (context_of sample_token_state) sample_third_party) = Ok () \<and>
   mc_Membership (the_ok (NewMemberContentFromAuthEvents (ac_provider (context_of sample_token_state)) ''@b:a'')) = Ban \<and>
   mc_Membership (the_ok (NewMemberContentFromAuthEvents (ac_provider (context_of sample_token_state)) ''@z:a'')) = Leave"
  by code_simp

end
