(* ===== verification/Statistics.thy ===== *)
theory Statistics
  imports Prelude "HOL-Library.Word"
begin

text \<open>
  Backing off from and blacklisting remote servers (\<^verbatim>\<open>federationapi/statistics/statistics.go\<close>)
  and the guard that the federation client puts around every request
  (\<^verbatim>\<open>federationapi/internal/api.go\<close>).

  A method of \<^verbatim>\<open>*ServerStatistics\<close> is a function on the pair of the shared \<^verbatim>\<open>Statistics\<close> and
  the server's own entry. The database is its three tables; which of its calls fail during a
  method is the argument \<open>faults\<close>. The time is given in nanoseconds, and \<^verbatim>\<open>rand.Float64()\<close> as
  the number of \<open>2 ^ -53\<close>th parts it returns. Counters are 32-bit words and durations wrap as
  \<^verbatim>\<open>int64\<close> does; the products of floating-point numbers are taken exactly.
\<close>

section \<open>The database\<close>

record statsDB =
  db_blacklist :: "string list"
  db_assumedOffline :: "string list"
  db_relayServers :: "(string, string list) gomap"

datatype db_call = AddServerToBlacklist | RemoveServerFromBlacklist | IsServerBlacklisted
  | SetServerAssumedOffline | RemoveServerAssumedOffline | IsServerAssumedOffline
  | P2PAddRelayServersForServer | P2PGetRelayServersForServer

type_synonym db_faults = "db_call \<Rightarrow> bool"

definition db_AddServerToBlacklist :: "db_faults \<Rightarrow> string \<Rightarrow> statsDB \<Rightarrow> statsDB" where
  "db_AddServerToBlacklist faults name db =
     (if faults AddServerToBlacklist then db else db\<lparr>db_blacklist := List.insert name (db_blacklist db)\<rparr>)"

definition db_RemoveServerFromBlacklist :: "db_faults \<Rightarrow> string \<Rightarrow> statsDB \<Rightarrow> statsDB" where
  "db_RemoveServerFromBlacklist faults name db =
     (if faults RemoveServerFromBlacklist then db else db\<lparr>db_blacklist := removeAll name (db_blacklist db)\<rparr>)"

definition db_SetServerAssumedOffline :: "db_faults \<Rightarrow> string \<Rightarrow> statsDB \<Rightarrow> statsDB" where
  "db_SetServerAssumedOffline faults name db =
     (if faults SetServerAssumedOffline then db else db\<lparr>db_assumedOffline := List.insert name (db_assumedOffline db)\<rparr>)"

definition db_RemoveServerAssumedOffline :: "db_faults \<Rightarrow> string \<Rightarrow> statsDB \<Rightarrow> statsDB" where
  "db_RemoveServerAssumedOffline faults name db =
     (if faults RemoveServerAssumedOffline then db else db\<lparr>db_assumedOffline := removeAll name (db_assumedOffline db)\<rparr>)"

definition relays_of :: "statsDB \<Rightarrow> string \<Rightarrow> string list" where
  "relays_of db name = (case map_of (db_relayServers db) name of None \<Rightarrow> [] | Some l \<Rightarrow> l)"

definition db_P2PAddRelayServersForServer :: "string \<Rightarrow> string list \<Rightarrow> statsDB \<Rightarrow> statsDB" where
  "db_P2PAddRelayServersForServer name relays db =
     db\<lparr>db_relayServers := AList.update name (fold List.insert relays (relays_of db name)) (db_relayServers db)\<rparr>"

section \<open>The statistics\<close>

datatype SendMethod = SendDirect | SendViaRelay

text \<open>A timer made by \<^verbatim>\<open>time.AfterFunc\<close>: when it is due, and whether it has fired.\<close>

record timer =
  tm_due :: int
  tm_fired :: bool

text \<open>
  \<^verbatim>\<open>backoffUntil\<close> is an \<^verbatim>\<open>atomic.Value\<close>: nil until the first store. Of the notifier the model
  keeps whether one is assigned.
\<close>

record ServerStatistics =
  ss_serverName :: string
  ss_blacklisted :: bool
  ss_assumedOffline :: bool
  ss_backoffStarted :: bool
  ss_backoffUntil :: "int option"
  ss_backoffCount :: "32 word"
  ss_successCounter :: "32 word"
  ss_backoffNotifier :: bool
  ss_knownRelayServers :: "string list"

record Statistics =
  st_DB :: "statsDB option"
  st_servers :: "(string, ServerStatistics) gomap"
  st_backoffTimers :: "(string, timer) gomap"
  st_FailuresUntilBlacklist :: "32 word"
  st_FailuresUntilAssumedOffline :: "32 word"
  st_enableRelays :: bool

definition NewStatistics :: "statsDB option \<Rightarrow> 32 word \<Rightarrow> 32 word \<Rightarrow> bool \<Rightarrow> Statistics" where
  "NewStatistics db failuresUntilBlacklist failuresUntilAssumedOffline enableRelays =
     \<lparr>st_DB = db, st_servers = [], st_backoffTimers = [],
      st_FailuresUntilBlacklist = failuresUntilBlacklist,
      st_FailuresUntilAssumedOffline = failuresUntilAssumedOffline, st_enableRelays = enableRelays\<rparr>"

definition new_server :: "string \<Rightarrow> ServerStatistics" where
  "new_server name =
     \<lparr>ss_serverName = name, ss_blacklisted = False, ss_assumedOffline = False, ss_backoffStarted = False,
      ss_backoffUntil = None, ss_backoffCount = 0, ss_successCounter = 0, ss_backoffNotifier = False,
      ss_knownRelayServers = []\<rparr>"

definition put_server :: "ServerStatistics \<Rightarrow> Statistics \<Rightarrow> Statistics" where
  "put_server srv st = st\<lparr>st_servers := AList.update (ss_serverName srv) srv (st_servers st)\<rparr>"

text \<open>What \<^verbatim>\<open>ForServer\<close> loads for a server it has not seen; a failed call leaves the field as it is.\<close>

definition load_server :: "db_faults \<Rightarrow> bool \<Rightarrow> statsDB \<Rightarrow> string \<Rightarrow> ServerStatistics" where
  "load_server faults relays db name =
     (let s0 = new_server name;
          s1 = (if faults IsServerBlacklisted then s0 else s0\<lparr>ss_blacklisted := name \<in> set (db_blacklist db)\<rparr>) in
      if \<not> relays then s1
      else
        let s2 = (if faults IsServerAssumedOffline then s1
                  else s1\<lparr>ss_assumedOffline := name \<in> set (db_assumedOffline db)\<rparr>) in
        if faults P2PGetRelayServersForServer then s2 else s2\<lparr>ss_knownRelayServers := relays_of db name\<rparr>)"

definition ForServer :: "db_faults \<Rightarrow> string \<Rightarrow> Statistics \<Rightarrow> (Statistics \<times> ServerStatistics) outcome" where
  "ForServer faults name st =
     (case map_of (st_servers st) name of
        Some server \<Rightarrow> Ok (st, server)
      | None \<Rightarrow> and_then (deref (st_DB st)) (\<lambda>db.
          let server = load_server faults (st_enableRelays st) db name in
          Ok (put_server server st, server)))"

section \<open>Backing off\<close>

definition int64 :: "int \<Rightarrow> int" where
  "int64 v = sint (word_of_int v :: 64 word)"

definition time_Millisecond :: int where
  "time_Millisecond = 1000000"

text \<open>
  \<^verbatim>\<open>math.Exp2(float64(count)) * jitter * 1000\<close> with \<^verbatim>\<open>jitter = rand.Float64() * (1.4 - 0.8) + 0.8\<close>,
  truncated to milliseconds. A float that does not fit an \<^verbatim>\<open>int64\<close> converts to its least value.
\<close>

definition backoff_ms :: "nat \<Rightarrow> nat \<Rightarrow> int" where
  "backoff_ms r n = 2 ^ n * (int r * 600 + 800 * 2 ^ 53) div 2 ^ 53"

definition duration :: "nat \<Rightarrow> 32 word \<Rightarrow> int" where
  "duration r backoffCount =
     (let ms = backoff_ms r (unat backoffCount) in
      int64 (time_Millisecond * (if ms < 2 ^ 63 then ms else - (2 ^ 63))))"

text \<open>The zero \<^verbatim>\<open>time.Time{}\<close>, midnight of the first of January of the year 1.\<close>

definition time_zero :: int where
  "time_zero = - 62135596800 * 1000000000"

type_synonym stats_state = "Statistics \<times> ServerStatistics"

definition ClearBackoff :: "stats_state \<Rightarrow> stats_state" where
  "ClearBackoff = (\<lambda>(st, s).
     (st\<lparr>st_backoffTimers := AList.delete (ss_serverName s) (st_backoffTimers st)\<rparr>, s\<lparr>ss_backoffStarted := False\<rparr>))"

definition cancel :: "stats_state \<Rightarrow> stats_state" where
  "cancel = (\<lambda>(st, s). ClearBackoff (st, s\<lparr>ss_blacklisted := False, ss_backoffUntil := Some time_zero\<rparr>))"

definition AssignBackoffNotifier :: "bool \<Rightarrow> stats_state \<Rightarrow> stats_state" where
  "AssignBackoffNotifier notifier = (\<lambda>(st, s). (st, s\<lparr>ss_backoffNotifier := notifier\<rparr>))"

definition with_DB :: "(statsDB \<Rightarrow> statsDB) \<Rightarrow> Statistics \<Rightarrow> Statistics" where
  "with_DB f st = st\<lparr>st_DB := map_option f (st_DB st)\<rparr>"

definition removeAssumedOffline :: "db_faults \<Rightarrow> stats_state \<Rightarrow> stats_state outcome" where
  "removeAssumedOffline faults = (\<lambda>(st, s).
     and_then
       (if ss_assumedOffline s
        then and_then (deref (st_DB st)) (\<lambda>_. Ok (with_DB (db_RemoveServerAssumedOffline faults (ss_serverName s)) st))
        else Ok st)
       (\<lambda>st'. Ok (st', s\<lparr>ss_assumedOffline := False\<rparr>)))"

definition removeBlacklist :: "db_faults \<Rightarrow> stats_state \<Rightarrow> (stats_state \<times> bool) outcome" where
  "removeBlacklist faults = (\<lambda>(st, s).
     and_then
       (if ss_blacklisted s
        then and_then (deref (st_DB st)) (\<lambda>_. Ok (with_DB (db_RemoveServerFromBlacklist faults (ss_serverName s)) st))
        else Ok st)
       (\<lambda>st'. case cancel (st', s) of (st'', s'') \<Rightarrow> Ok ((st'', s''\<lparr>ss_backoffCount := 0\<rparr>), ss_blacklisted s)))"

definition Success :: "db_faults \<Rightarrow> SendMethod \<Rightarrow> stats_state \<Rightarrow> stats_state outcome" where
  "Success faults method state =
     (case cancel state of (st, s0) \<Rightarrow>
        let s = s0\<lparr>ss_backoffCount := 0\<rparr> in
        if method = SendDirect
        then
          let s' = s\<lparr>ss_successCounter := ss_successCounter s + 1\<rparr>;
              st' = (if ss_blacklisted s' then with_DB (db_RemoveServerFromBlacklist faults (ss_serverName s')) st else st)
          in removeAssumedOffline faults (st', s')
        else Ok (st, s))"

text \<open>
  \<^verbatim>\<open>Failure\<close>: the early return for a blacklisted server; the compare-and-swap that decides
  whether this call starts a backoff; what the winner of it does; and the result of the others,
  whose type assertion fails when no time was ever stored.
\<close>

definition Failure_start :: "ServerStatistics \<Rightarrow> ServerStatistics option" where
  "Failure_start s = (if ss_backoffStarted s then None else Some (s\<lparr>ss_backoffStarted := True\<rparr>))"

definition Failure_backoff :: "db_faults \<Rightarrow> int \<Rightarrow> nat \<Rightarrow> stats_state \<Rightarrow> stats_state \<times> int \<times> bool" where
  "Failure_backoff faults now r = (\<lambda>(st0, s0).
     let backoffCount = ss_backoffCount s0 + 1;
         s1 = s0\<lparr>ss_backoffCount := backoffCount\<rparr>;
         offline = (st_FailuresUntilAssumedOffline st0 \<le> backoffCount);
         s2 = (if offline then s1\<lparr>ss_assumedOffline := True\<rparr> else s1);
         st2 = (if offline then with_DB (db_SetServerAssumedOffline faults (ss_serverName s1)) st0 else st0) in
     if st_FailuresUntilBlacklist st0 \<le> backoffCount
     then (ClearBackoff (with_DB (db_AddServerToBlacklist faults (ss_serverName s2)) st2, s2\<lparr>ss_blacklisted := True\<rparr>),
           time_zero, True)
     else
       let till = now + duration r (ss_backoffCount s2) in
       ((st2\<lparr>st_backoffTimers := AList.update (ss_serverName s2) \<lparr>tm_due = till, tm_fired = False\<rparr> (st_backoffTimers st2)\<rparr>,
         s2\<lparr>ss_backoffUntil := Some till\<rparr>), till, False))"

definition Failure :: "db_faults \<Rightarrow> int \<Rightarrow> nat \<Rightarrow> stats_state \<Rightarrow> (stats_state \<times> int \<times> bool) outcome" where
  "Failure faults now r = (\<lambda>(st, s).
     if ss_blacklisted s then Ok ((st, s), time_zero, True)
     else (case Failure_start s of
         Some s' \<Rightarrow> Ok (Failure_backoff faults now r (st, s'))
       | None \<Rightarrow> and_then (deref (ss_backoffUntil s)) (\<lambda>till. Ok ((st, s), till, False))))"

definition MarkServerAlive :: "db_faults \<Rightarrow> stats_state \<Rightarrow> (stats_state \<times> bool) outcome" where
  "MarkServerAlive faults state = and_then (removeAssumedOffline faults state) (removeBlacklist faults)"

text \<open>The callback of the timer; the flag tells whether a notifier is called.\<close>

definition backoffFinished :: "stats_state \<Rightarrow> stats_state \<times> bool" where
  "backoffFinished state = (ClearBackoff state, ss_backoffNotifier (snd (ClearBackoff state)))"

definition BackoffInfo :: "ServerStatistics \<Rightarrow> int option" where
  "BackoffInfo s = ss_backoffUntil s"

section \<open>Relay servers\<close>

fun unique_relays :: "string list \<Rightarrow> string list \<Rightarrow> string list" where
  "unique_relays [] seen = []"
| "unique_relays (srv # srvs) seen =
     (if srv \<in> set seen then unique_relays srvs seen else srv # unique_relays srvs (srv # seen))"

definition add_relay :: "string \<Rightarrow> string list \<Rightarrow> string list" where
  "add_relay srv known = (if srv \<in> set known then known else known @ [srv])"

definition AddRelayServers :: "db_faults \<Rightarrow> string list \<Rightarrow> stats_state \<Rightarrow> stats_state outcome" where
  "AddRelayServers faults relayServers = (\<lambda>(st, s).
     let uniqueList = unique_relays relayServers [] in
     and_then (deref (st_DB st)) (\<lambda>_.
       if faults P2PAddRelayServersForServer then Ok (st, s)
       else Ok (with_DB (db_P2PAddRelayServersForServer (ss_serverName s) uniqueList) st,
                s\<lparr>ss_knownRelayServers := fold add_relay uniqueList (ss_knownRelayServers s)\<rparr>)))"

section \<open>Requests of the federation client\<close>

datatype client_error = FederationClientError (fce_Blacklisted: bool) (fce_RetryAfter: int)

definition IsBlacklistedOrBackingOff :: "int \<Rightarrow> ServerStatistics \<Rightarrow> client_error option" where
  "IsBlacklistedOrBackingOff now s =
     (if ss_blacklisted s then Some (FederationClientError True 0)
      else (case BackoffInfo s of
          None \<Rightarrow> None
        | Some till \<Rightarrow> if now < till then Some (FederationClientError False (till - now)) else None))"

text \<open>How a request fails: with an HTTP status of the remote server, or without any.\<close>

datatype request_error = HTTPError int | OtherError

definition blacklistable :: "request_error \<Rightarrow> bool" where
  "blacklistable err =
     (case err of OtherError \<Rightarrow> True | HTTPError code \<Rightarrow> code = 401 \<or> (500 \<le> code \<and> code < 600))"

definition failBlacklistableError :: "db_faults \<Rightarrow> int \<Rightarrow> nat \<Rightarrow> request_error option \<Rightarrow> stats_state
    \<Rightarrow> (stats_state \<times> int \<times> bool) outcome" where
  "failBlacklistableError faults now r err state =
     (case err of
        None \<Rightarrow> Ok (state, time_zero, False)
      | Some e \<Rightarrow> if blacklistable e then Failure faults now r state else Ok (state, time_zero, False))"

text \<open>
  \<^verbatim>\<open>doRequestIfNotBackingOffOrBlacklisted\<close>. The request is made at time \<open>now\<close> and gives \<open>res\<close>,
  a result or an error, at time \<open>now'\<close>; the flag tells whether it was made at all.
\<close>

definition doRequestIfNotBackingOffOrBlacklisted :: "db_faults \<Rightarrow> int \<Rightarrow> int \<Rightarrow> nat \<Rightarrow> string \<Rightarrow> request_error + 'a \<Rightarrow> Statistics
    \<Rightarrow> (Statistics \<times> bool \<times> (client_error + 'a)) outcome" where
  "doRequestIfNotBackingOffOrBlacklisted faults now now' r name res st0 =
     and_then (ForServer faults name st0) (\<lambda>(st, s).
       case IsBlacklistedOrBackingOff now s of
         Some e \<Rightarrow> Ok (st, False, Inl e)
       | None \<Rightarrow>
           (case res of
              Inl err \<Rightarrow> and_then (failBlacklistableError faults now' r (Some err) (st, s)) (\<lambda>((st', s'), till, blacklisted).
                Ok (put_server s' st', True,
                    Inl (FederationClientError blacklisted (if now' < till then till - now' else 0))))
            | Inr x \<Rightarrow> and_then (Success faults SendDirect (st, s)) (\<lambda>(st', s').
                Ok (put_server s' st', True, Inr x))))"

end
