(* ===== verification/Statistics_Correct.thy ===== *)
theory Statistics_Correct
  imports Statistics StepSystem
begin

text \<open>
  What backing off and blacklisting guarantee: an invariant of every reachable state, that no
  call panics, that a backoff ends, after how many failures a server is blacklisted, how long a
  backoff lasts, and what this means for the requests of the federation client.
\<close>

section \<open>The state of one server\<close>

definition server_ok :: "Statistics \<Rightarrow> ServerStatistics \<Rightarrow> bool" where
  "server_ok st s \<longleftrightarrow>
     (ss_backoffStarted s \<longleftrightarrow> map_of (st_backoffTimers st) (ss_serverName s) \<noteq> None) \<and>
     (ss_backoffStarted s \<longrightarrow> ss_backoffUntil s \<noteq> None \<and> \<not> ss_blacklisted s) \<and>
     (if ss_blacklisted s then ss_backoffCount s \<le> max 1 (st_FailuresUntilBlacklist st)
      else ss_backoffCount s = 0 \<or> ss_backoffCount s < st_FailuresUntilBlacklist st)"

text \<open>What a method on one server leaves alone.\<close>

definition same_elsewhere :: "string \<Rightarrow> Statistics \<Rightarrow> Statistics \<Rightarrow> bool" where
  "same_elsewhere name st st' \<longleftrightarrow>
     st_servers st' = st_servers st \<and>
     st_FailuresUntilBlacklist st' = st_FailuresUntilBlacklist st \<and>
     st_FailuresUntilAssumedOffline st' = st_FailuresUntilAssumedOffline st \<and>
     (st_DB st' = None \<longleftrightarrow> st_DB st = None) \<and>
     (\<forall>n. n \<noteq> name \<longrightarrow> map_of (st_backoffTimers st') n = map_of (st_backoffTimers st) n) \<and>
     (\<forall>t. map_of (st_backoffTimers st') name = Some t \<and> tm_fired t \<longrightarrow> map_of (st_backoffTimers st) name = Some t)"

definition kept :: "stats_state \<Rightarrow> stats_state \<Rightarrow> bool" where
  "kept state state' \<longleftrightarrow>
     (case (state, state') of ((st, s), (st', s')) \<Rightarrow>
        ss_serverName s' = ss_serverName s \<and> same_elsewhere (ss_serverName s) st st' \<and>
        (server_ok st s \<longrightarrow> server_ok st' s'))"

named_theorems stats_defs "the operations and the invariant of one server"

declare server_ok_def [stats_defs] same_elsewhere_def [stats_defs] kept_def [stats_defs]
  ClearBackoff_def [stats_defs] cancel_def [stats_defs] with_DB_def [stats_defs]

lemma ClearBackoff_kept: "kept state (ClearBackoff state)"
  by (cases state) (auto simp: stats_defs map_simps)

lemma kept_trans [trans]: "kept a b \<Longrightarrow> kept b c \<Longrightarrow> kept a c"
  by (cases a; cases b; cases c) (simp add: kept_def same_elsewhere_def)

text \<open>Every caller of \<^verbatim>\<open>cancel\<close> resets the counter next.\<close>

lemma reset_kept: "cancel state = (st, s) \<Longrightarrow> kept state (st, s\<lparr>ss_backoffCount := 0\<rparr>)"
  by (cases state) (auto simp: stats_defs map_simps)

text \<open>A smaller counter and the other fields do not matter to the invariant.\<close>

lemma kept_fields:
  assumes "ss_serverName s' = ss_serverName s" "ss_backoffStarted s' = ss_backoffStarted s"
    "ss_backoffUntil s' = ss_backoffUntil s" "ss_blacklisted s' = ss_blacklisted s"
    "ss_backoffCount s' \<in> {0, ss_backoffCount s}"
  shows "kept (st, s) (with_DB f st, s')" and "kept (st, s) (st, s')"
  using assms by (auto simp: stats_defs)

lemma removeAssumedOffline_kept: "removeAssumedOffline faults state = Ok state' \<Longrightarrow> kept state state'"
  by (cases state) (auto simp: removeAssumedOffline_def go_simps split: if_splits intro!: kept_fields)

lemma removeBlacklist_kept:
  assumes "removeBlacklist faults state = Ok (state', b)" shows "kept state state'"
proof -
  obtain st s where state: "state = (st, s)" by fastforce
  let ?remove = "with_DB (db_RemoveServerFromBlacklist faults (ss_serverName s))"
  let ?st1 = "if ss_blacklisted s then ?remove st else st"
  obtain st2 s2 where c: "cancel (?st1, s) = (st2, s2)" by fastforce
  with assms have "state' = (st2, s2\<lparr>ss_backoffCount := 0\<rparr>)"
    by (auto simp: removeBlacklist_def state go_simps split: if_splits)
  moreover have "kept state (?st1, s)" by (auto simp: state intro: kept_fields)
  ultimately show ?thesis using reset_kept [OF c] by (metis kept_trans)
qed

lemma Success_kept:
  assumes "Success faults method state = Ok state'" shows "kept state state'"
proof -
  obtain st s where c: "cancel state = (st, s)" by fastforce
  let ?s = "s\<lparr>ss_backoffCount := 0\<rparr>"
  have "kept state (st, ?s)" by (rule reset_kept [OF c])
  moreover have "kept (st, ?s) state'"
  proof (cases "method = SendDirect")
    case True
    let ?s' = "?s\<lparr>ss_successCounter := ss_successCounter ?s + 1\<rparr>"
    let ?st' = "if ss_blacklisted ?s' then with_DB (db_RemoveServerFromBlacklist faults (ss_serverName ?s')) st else st"
    have "kept (st, ?s) (?st', ?s')" by (auto intro: kept_fields)
    also have "kept \<dots> state'"
      using assms c True by (intro removeAssumedOffline_kept [of faults]) (simp add: Success_def Let_def)
    finally show ?thesis .
  next
    case False
    then show ?thesis using assms c by (auto simp: Success_def Let_def intro: kept_fields)
  qed
  ultimately show ?thesis by (rule kept_trans)
qed

lemma MarkServerAlive_kept: "MarkServerAlive faults state = Ok (state', b) \<Longrightarrow> kept state state'"
  by (auto simp: MarkServerAlive_def go_simps dest!: removeAssumedOffline_kept removeBlacklist_kept intro: kept_trans)

lemma AssignBackoffNotifier_kept: "kept state (AssignBackoffNotifier n state)"
  by (auto simp: AssignBackoffNotifier_def intro: kept_fields split: prod.splits)

lemma AddRelayServers_kept: "AddRelayServers faults l state = Ok state' \<Longrightarrow> kept state state'"
  by (cases state) (auto simp: AddRelayServers_def Let_def go_simps split: if_splits intro!: kept_fields)

text \<open>
  The counter is below the limit, or zero, before it is increased, so it does not wrap round
  (the limit is at most the greatest 32-bit word), and it reaches the limit before it passes it.
\<close>

lemma count_up:
  fixes c limit :: "32 word"
  assumes "c = 0 \<or> c < limit"
  shows "unat (c + 1) = unat c + 1" and "limit \<le> c + 1 \<Longrightarrow> c + 1 \<le> max 1 limit"
proof -
  have "c + 1 \<noteq> 0"
  proof
    assume "c + 1 = 0"
    then have "c = - 1" by (simp add: eq_neg_iff_add_eq_0)
    with assms show False using word_order.extremum [of limit] by auto
  qed
  then show up: "unat (c + 1) = unat c + 1" using unatSuc [of c] by (simp add: add.commute)
  show "limit \<le> c + 1 \<Longrightarrow> c + 1 \<le> max 1 limit"
    using assms up by (auto simp: word_le_nat_alt word_less_nat_alt max_def)
qed

lemma Failure_backoff_kept:
  assumes start: "Failure_start s = Some s'" and not_listed: "\<not> ss_blacklisted s"
    and run: "Failure_backoff faults now r (st, s') = (state', till, b)"
  shows "kept (st, s) state'"
proof -
  let ?c = "ss_backoffCount s + 1"
  have s': "s' = s\<lparr>ss_backoffStarted := True\<rparr>" using start by (auto simp: Failure_start_def split: if_splits)
  show ?thesis
  proof (cases "st_FailuresUntilBlacklist st \<le> ?c")
    case True
    have "server_ok st s \<Longrightarrow> ?c \<le> max 1 (st_FailuresUntilBlacklist st)"
      using count_up(2) [OF _ True] not_listed by (simp add: server_ok_def)
    with True run not_listed show ?thesis
      by (cases "st_FailuresUntilAssumedOffline st \<le> ?c")
        (auto simp: s' Failure_backoff_def stats_defs Let_def map_simps)
  next
    case False
    with run not_listed show ?thesis
      by (cases "st_FailuresUntilAssumedOffline st \<le> ?c")
        (auto simp: s' Failure_backoff_def stats_defs Let_def map_simps not_le)
  qed
qed

lemma Failure_kept: "Failure faults now r state = Ok (state', till, b) \<Longrightarrow> kept state state'"
  by (cases state) (auto simp: Failure_def go_simps dest: Failure_backoff_kept split: if_splits option.splits
      intro: kept_fields(2))

section \<open>All servers\<close>

datatype server_op = DoSuccess SendMethod | DoFailure nat | DoMarkServerAlive
  | DoAssignBackoffNotifier bool | DoAddRelayServers "string list"

definition run_op :: "db_faults \<Rightarrow> int \<Rightarrow> server_op \<Rightarrow> stats_state \<Rightarrow> stats_state outcome" where
  "run_op faults now op state =
     (case op of
        DoSuccess method \<Rightarrow> Success faults method state
      | DoFailure r \<Rightarrow> and_then (Failure faults now r state) (\<lambda>(state', _, _). Ok state')
      | DoMarkServerAlive \<Rightarrow> and_then (MarkServerAlive faults state) (\<lambda>(state', _). Ok state')
      | DoAssignBackoffNotifier n \<Rightarrow> Ok (AssignBackoffNotifier n state)
      | DoAddRelayServers l \<Rightarrow> AddRelayServers faults l state)"

lemma run_op_kept: "run_op faults now op state = Ok state' \<Longrightarrow> kept state state'"
  by (auto simp: run_op_def go_simps AssignBackoffNotifier_kept split: server_op.splits
      dest: Success_kept Failure_kept MarkServerAlive_kept AddRelayServers_kept)

text \<open>A call as its clients make it: \<^verbatim>\<open>statistics.ForServer(name)\<close> and a method on the result.\<close>

definition call_server :: "db_faults \<Rightarrow> string \<Rightarrow> (stats_state \<Rightarrow> stats_state outcome) \<Rightarrow> Statistics \<Rightarrow> Statistics outcome" where
  "call_server faults name f st =
     and_then (ForServer faults name st) (\<lambda>state. and_then (f state) (\<lambda>(st', s'). Ok (put_server s' st')))"

text \<open>
  The statistics with the clock and the callbacks of timers that have fired but not run yet:
  stopping a timer does not stop a callback that was started.
\<close>

record stats_world =
  w_stats :: Statistics
  w_inflight :: "string list"
  w_now :: int

definition mark_fired :: "string \<Rightarrow> Statistics \<Rightarrow> Statistics" where
  "mark_fired name st =
     st\<lparr>st_backoffTimers := map (\<lambda>(n, t). (n, if n = name then t\<lparr>tm_fired := True\<rparr> else t)) (st_backoffTimers st)\<rparr>"

inductive timer_step :: "stats_world \<Rightarrow> stats_world \<Rightarrow> bool" where
  tick: "w_now w \<le> now \<Longrightarrow> timer_step w (w\<lparr>w_now := now\<rparr>)"
| fire: "map_of (st_backoffTimers (w_stats w)) name = Some t \<Longrightarrow> \<not> tm_fired t \<Longrightarrow> tm_due t \<le> w_now w
    \<Longrightarrow> timer_step w (w\<lparr>w_stats := mark_fired name (w_stats w), w_inflight := name # w_inflight w\<rparr>)"
| callback: "name \<in> set (w_inflight w) \<Longrightarrow> map_of (st_servers (w_stats w)) name = Some s
    \<Longrightarrow> backoffFinished (w_stats w, s) = ((st', s'), notified)
    \<Longrightarrow> timer_step w (w\<lparr>w_stats := put_server s' st', w_inflight := remove1 name (w_inflight w)\<rparr>)"

inductive stats_step :: "stats_world \<Rightarrow> stats_world \<Rightarrow> bool" where
  call: "call_server faults name (run_op faults (w_now w) op) (w_stats w) = Ok st
    \<Longrightarrow> stats_step w (w\<lparr>w_stats := st\<rparr>)"
| timer: "timer_step w w' \<Longrightarrow> stats_step w w'"

definition stats_init :: "stats_world \<Rightarrow> bool" where
  "stats_init w \<longleftrightarrow> w_inflight w = [] \<and>
     (\<exists>db failuresUntilBlacklist failuresUntilAssumedOffline enableRelays.
        w_stats w = NewStatistics (Some db) failuresUntilBlacklist failuresUntilAssumedOffline enableRelays)"

definition stats_inv :: "stats_world \<Rightarrow> bool" where
  "stats_inv w \<longleftrightarrow>
     (let st = w_stats w in
      st_DB st \<noteq> None \<and>
      (\<forall>n. map_of (st_backoffTimers st) n \<noteq> None \<longrightarrow> map_of (st_servers st) n \<noteq> None) \<and>
      (\<forall>n s. map_of (st_servers st) n = Some s \<longrightarrow> ss_serverName s = n \<and> server_ok st s) \<and>
      (\<forall>n t. map_of (st_backoffTimers st) n = Some t \<longrightarrow> tm_fired t \<longrightarrow> n \<in> set (w_inflight w)) \<and>
      (\<forall>n \<in> set (w_inflight w). map_of (st_servers st) n \<noteq> None))"

lemma put_server_simps [simp]:
  "map_of (st_servers (put_server s st)) = (map_of (st_servers st))(ss_serverName s \<mapsto> s)"
  "st_backoffTimers (put_server s st) = st_backoffTimers st"
  "st_DB (put_server s st) = st_DB st"
  "server_ok (put_server s st) x = server_ok st x"
  by (simp_all add: put_server_def server_ok_def map_simps)

lemma server_ok_elsewhere:
  "same_elsewhere name st st' \<Longrightarrow> ss_serverName s \<noteq> name \<Longrightarrow> server_ok st' s = server_ok st s"
  by (simp add: same_elsewhere_def server_ok_def)

text \<open>A method on one server, put back, keeps the invariant of all.\<close>

lemma put_server_inv:
  assumes inv: "stats_inv w" and found: "map_of (st_servers (w_stats w)) name = Some s"
    and kept: "kept (w_stats w, s) (st', s')"
    and flight: "set (w_inflight w) - {name} \<subseteq> set fl" "set fl \<subseteq> set (w_inflight w)"
      "\<And>t. map_of (st_backoffTimers st') name = Some t \<Longrightarrow> tm_fired t \<Longrightarrow> name \<in> set fl"
  shows "stats_inv (w\<lparr>w_stats := put_server s' st', w_inflight := fl\<rparr>)"
proof -
  let ?st = "w_stats w"
  have name: "ss_serverName s = name" and ok: "server_ok ?st s" using inv found by (auto simp: stats_inv_def Let_def)
  have el: "same_elsewhere name ?st st'" and ok': "server_ok st' s'" and name': "ss_serverName s' = name"
    using kept name ok by (auto simp: kept_def)
  have timers: "map_of (st_backoffTimers st') n = map_of (st_backoffTimers ?st) n" if "n \<noteq> name" for n
    using el that by (simp add: same_elsewhere_def)
  have servers: "st_servers st' = st_servers ?st" "st_DB st' \<noteq> None"
    using el inv by (simp_all add: same_elsewhere_def stats_inv_def Let_def)
  have others: "ss_serverName x = n \<and> server_ok st' x" if "map_of (st_servers ?st) n = Some x" "n \<noteq> name" for n x
    using that inv server_ok_elsewhere [OF el] by (auto simp: stats_inv_def Let_def)
  have flown: "n \<in> set fl" if "map_of (st_backoffTimers st') n = Some t" "tm_fired t" for n t
    using that flight inv timers [of n] unfolding stats_inv_def Let_def by (cases "n = name") auto
  have known: "map_of (st_servers ?st) n \<noteq> None" if "n \<noteq> name" "map_of (st_backoffTimers st') n \<noteq> None" for n
    using inv that timers [of n] unfolding stats_inv_def Let_def by auto
  have "map_of (st_servers ?st) n \<noteq> None" if "n \<in> set fl" for n
    using inv that flight(2) unfolding stats_inv_def Let_def by blast
  then show ?thesis
    unfolding stats_inv_def Let_def using servers ok' name' others flown known by simp
qed

lemma ForServer_inv:
  assumes "stats_inv w" "ForServer faults name (w_stats w) = Ok (st, s)"
  shows "stats_inv (w\<lparr>w_stats := st\<rparr>)" "map_of (st_servers st) name = Some s"
proof -
  have "stats_inv (w\<lparr>w_stats := st\<rparr>) \<and> map_of (st_servers st) name = Some s"
  proof (cases "map_of (st_servers (w_stats w)) name")
    case None
    then obtain db where db: "st_DB (w_stats w) = Some db" and s: "s = load_server faults (st_enableRelays (w_stats w)) db name"
      and st: "st = put_server s (w_stats w)"
      using assms(2) by (auto simp: ForServer_def Let_def go_simps deref_def split: option.splits)
    have fields: "ss_serverName s = name" "\<not> ss_backoffStarted s" "ss_backoffCount s = 0"
      by (auto simp: s load_server_def new_server_def Let_def)
    have "map_of (st_backoffTimers (w_stats w)) name = None"
      using assms(1) None by (auto simp: stats_inv_def Let_def)
    with fields have "server_ok (w_stats w) s" by (simp add: server_ok_def)
    with assms(1) fields None show ?thesis unfolding st stats_inv_def Let_def by auto
  qed (use assms in \<open>auto simp: ForServer_def\<close>)
  then show "stats_inv (w\<lparr>w_stats := st\<rparr>)" "map_of (st_servers st) name = Some s" by auto
qed

lemma call_server_inv:
  assumes inv: "stats_inv w" and op: "\<And>state state'. f state = Ok state' \<Longrightarrow> kept state state'"
    and run: "call_server faults name f (w_stats w) = Ok st"
  shows "stats_inv (w\<lparr>w_stats := st\<rparr>)"
proof -
  obtain st1 s1 st2 s2 where fs: "ForServer faults name (w_stats w) = Ok (st1, s1)"
    and f: "f (st1, s1) = Ok (st2, s2)" and st: "st = put_server s2 st2"
    using run by (auto simp: call_server_def go_simps)
  let ?w = "w\<lparr>w_stats := st1\<rparr>"
  note w = ForServer_inv [OF inv fs] and k = op [OF f]
  have "ss_serverName s1 = name" using w by (auto simp: stats_inv_def Let_def)
  then have "same_elsewhere name st1 st2" using k by (simp add: kept_def)
  then have "name \<in> set (w_inflight w)" if "map_of (st_backoffTimers st2) name = Some t" "tm_fired t" for t
    using that w(1) by (simp add: same_elsewhere_def stats_inv_def Let_def)
  then have "stats_inv (?w\<lparr>w_stats := put_server s2 st2, w_inflight := w_inflight w\<rparr>)"
    using w k by (intro put_server_inv [of ?w name s1]) auto
  then show ?thesis by (simp add: st)
qed

lemma map_of_mark_fired:
  "map_of (st_backoffTimers (mark_fired name st)) n =
     (if n = name then map_option (tm_fired_update (\<lambda>_. True)) (map_of (st_backoffTimers st) n)
      else map_of (st_backoffTimers st) n)"
proof -
  have "map_of (map (\<lambda>(k, t). (k, if k = name then t\<lparr>tm_fired := True\<rparr> else t)) ts) n =
      (if n = name then map_option (tm_fired_update (\<lambda>_. True)) (map_of ts n) else map_of ts n)" for ts :: "(string, timer) gomap"
    by (induction ts) auto
  then show ?thesis by (simp add: mark_fired_def)
qed

lemma mark_fired_inv:
  assumes inv: "stats_inv w" and "map_of (st_backoffTimers (w_stats w)) name = Some t"
  shows "stats_inv (w\<lparr>w_stats := mark_fired name (w_stats w), w_inflight := name # w_inflight w\<rparr>)"
proof -
  let ?st = "mark_fired name (w_stats w)"
  have fields: "st_DB ?st = st_DB (w_stats w)" "st_servers ?st = st_servers (w_stats w)" by (simp_all add: mark_fired_def)
  have look: "map_of (st_backoffTimers ?st) n = None \<longleftrightarrow> map_of (st_backoffTimers (w_stats w)) n = None" for n
    by (simp add: map_of_mark_fired)
  have same: "server_ok ?st s = server_ok (w_stats w) s" for s
    unfolding server_ok_def look by (simp add: mark_fired_def)
  have fired: "n \<in> set (name # w_inflight w)" if "map_of (st_backoffTimers ?st) n = Some u" "tm_fired u" for n u
    using that inv by (auto simp: map_of_mark_fired stats_inv_def Let_def split: if_splits)
  have "map_of (st_servers (w_stats w)) name \<noteq> None" using assms unfolding stats_inv_def Let_def by fastforce
  with inv fired show ?thesis
    unfolding stats_inv_def Let_def by (simp add: fields same look del: not_None_eq)
qed

lemma timer_step_inv: "timer_step w w' \<Longrightarrow> stats_inv w \<Longrightarrow> stats_inv w'"
proof (induction rule: timer_step.induct)
  case (callback name w s st' s' notified)
  then have k: "kept (w_stats w, s) (st', s')" and cl: "ClearBackoff (w_stats w, s) = (st', s')"
    using ClearBackoff_kept [of "(w_stats w, s)"] by (auto simp: backoffFinished_def)
  have "ss_serverName s = name" using callback by (auto simp: stats_inv_def Let_def)
  then have "map_of (st_backoffTimers st') name = None" using cl by (auto simp: ClearBackoff_def map_simps)
  then show ?case using callback k
    by (intro put_server_inv) (auto dest: in_set_remove1 [THEN iffD2, rotated] set_remove1_subset [THEN subsetD])
next
  case (fire w name t)
  then show ?case by (intro mark_fired_inv)
qed (simp add: stats_inv_def)

interpretation backoff: step_invariant stats_init stats_step stats_inv
proof
  show "stats_inv w" if "stats_init w" for w
    using that by (auto simp: stats_init_def stats_inv_def NewStatistics_def)
  show "stats_inv w'" if "stats_inv w" "stats_step w w'" for w w'
    using that(2,1) by cases (auto intro: call_server_inv run_op_kept timer_step_inv)
qed

lemma inv_server: "stats_inv w \<Longrightarrow> map_of (st_servers (w_stats w)) name = Some s \<Longrightarrow>
    ss_serverName s = name \<and> server_ok (w_stats w) s"
  by (simp add: stats_inv_def Let_def)


section \<open>No call panics\<close>

lemma removeAssumedOffline_total: "st_DB st \<noteq> None \<Longrightarrow> removeAssumedOffline faults (st, s) \<noteq> Panic"
  by (auto simp: removeAssumedOffline_def go_simps)

lemma removeBlacklist_total: "st_DB st \<noteq> None \<Longrightarrow> removeBlacklist faults (st, s) \<noteq> Panic"
  by (auto simp: removeBlacklist_def go_simps split: prod.splits)

lemma cancel_DB: "cancel (st, s) = (st', s') \<Longrightarrow> st_DB st' = st_DB st"
  by (auto simp: cancel_def ClearBackoff_def)

lemma Success_total: "st_DB st \<noteq> None \<Longrightarrow> Success faults method (st, s) \<noteq> Panic"
  by (auto simp: Success_def Let_def with_DB_def cancel_DB removeAssumedOffline_total split: prod.splits)

lemma MarkServerAlive_total:
  assumes "st_DB st \<noteq> None" shows "MarkServerAlive faults (st, s) \<noteq> Panic"
proof -
  have "st_DB st' \<noteq> None" if "removeAssumedOffline faults (st, s) = Ok (st', s')" for st' s'
    using removeAssumedOffline_kept [OF that] assms by (simp add: kept_def same_elsewhere_def)
  then show ?thesis
    using assms removeAssumedOffline_total removeBlacklist_total by (fastforce simp: MarkServerAlive_def go_simps)
qed

lemma Failure_total: "server_ok st s \<Longrightarrow> Failure faults now r (st, s) \<noteq> Panic"
  by (auto simp: Failure_def server_ok_def Failure_start_def go_simps)


section \<open>A backoff ends\<close>

lemma callback_ends:
  assumes "stats_inv w" "map_of (st_servers (w_stats w)) name = Some s" "name \<in> set (w_inflight w)"
  shows "\<exists>w' s'. timer_step w w' \<and> map_of (st_servers (w_stats w')) name = Some s' \<and> \<not> ss_backoffStarted s'"
proof -
  have name: "ss_serverName s = name" using inv_server [OF assms(1,2)] by simp
  obtain st' s' n where b: "backoffFinished (w_stats w, s) = ((st', s'), n)" by (metis surj_pair)
  then have "ss_serverName s' = name" "\<not> ss_backoffStarted s'"
    using name by (auto simp: backoffFinished_def ClearBackoff_def)
  then show ?thesis using timer_step.callback [OF assms(3,2) b] by fastforce
qed

text \<open>
  C28. A server that is backing off does not stay so for want of a timer: in every reachable
  state the clock and the timers alone can lead to a state in which it is not.
\<close>

theorem backoff_ends:
  assumes "reachable stats_init stats_step w" "map_of (st_servers (w_stats w)) name = Some s" "ss_backoffStarted s"
  shows "\<exists>w' s'. timer_step\<^sup>*\<^sup>* w w' \<and> map_of (st_servers (w_stats w')) name = Some s' \<and> \<not> ss_backoffStarted s'"
proof -
  have inv: "stats_inv w" by (rule backoff.reachable_inv [OF assms(1)])
  with assms(2,3) obtain t where t: "map_of (st_backoffTimers (w_stats w)) name = Some t"
    using inv_server [OF inv assms(2)] by (auto simp: server_ok_def)
  show ?thesis
  proof (cases "tm_fired t")
    case True
    then have "name \<in> set (w_inflight w)" using inv t by (auto simp: stats_inv_def Let_def)
    then show ?thesis using callback_ends [OF inv assms(2)] by blast
  next
    case False
    let ?w1 = "w\<lparr>w_now := max (w_now w) (tm_due t)\<rparr>"
    let ?w2 = "?w1\<lparr>w_stats := mark_fired name (w_stats w), w_inflight := name # w_inflight w\<rparr>"
    have s1: "timer_step w ?w1" by (rule timer_step.tick) simp
    have s2: "timer_step ?w1 ?w2" using timer_step.fire [of ?w1 name t] t False by simp
    have "stats_inv ?w2" using inv s1 s2 by (blast intro: timer_step_inv)
    moreover have "map_of (st_servers (w_stats ?w2)) name = Some s" using assms(2) by (simp add: mark_fired_def)
    ultimately obtain w3 s3 where "timer_step ?w2 w3" "map_of (st_servers (w_stats w3)) name = Some s3" "\<not> ss_backoffStarted s3"
      using callback_ends [of ?w2 name s] by auto
    moreover have "timer_step\<^sup>*\<^sup>* w ?w2" using s1 s2 by (meson converse_rtranclp_into_rtranclp rtranclp.rtrancl_refl)
    ultimately show ?thesis by (meson rtranclp.rtrancl_into_rtrancl)
  qed
qed

section \<open>How many failures\<close>

text \<open>A failure, and the end of the backoff it starts.\<close>

definition failure_round :: "db_faults \<Rightarrow> int \<times> nat \<Rightarrow> stats_state \<Rightarrow> stats_state outcome" where
  "failure_round faults = (\<lambda>(now, r) state.
     and_then (Failure faults now r state) (\<lambda>(state', _, blacklisted).
       Ok (if blacklisted then state' else fst (backoffFinished state'))))"

fun failure_rounds :: "db_faults \<Rightarrow> (int \<times> nat) list \<Rightarrow> stats_state \<Rightarrow> stats_state outcome" where
  "failure_rounds faults [] state = Ok state"
| "failure_rounds faults (x # xs) state = and_then (failure_round faults x state) (failure_rounds faults xs)"

lemma failure_rounds_blacklisted: "ss_blacklisted s \<Longrightarrow> failure_rounds faults xs (st, s) = Ok (st, s)"
  by (induction xs) (auto simp: failure_round_def Failure_def)

lemma failure_round_counts:
  assumes "\<not> ss_blacklisted s" "\<not> ss_backoffStarted s"
  obtains st' s' where "failure_round faults x (st, s) = Ok (st', s')" "\<not> ss_backoffStarted s'"
    "ss_blacklisted s' \<longleftrightarrow> st_FailuresUntilBlacklist st \<le> ss_backoffCount s + 1"
    "ss_backoffCount s' = ss_backoffCount s + 1" "st_FailuresUntilBlacklist st' = st_FailuresUntilBlacklist st"
proof (cases x)
  case (Pair now r)
  let ?s = "s\<lparr>ss_backoffStarted := True\<rparr>"
  obtain st1 s1 till b where run: "Failure_backoff faults now r (st, ?s) = ((st1, s1), till, b)" by (metis surj_pair)
  have round: "failure_round faults x (st, s) = Ok (if b then (st1, s1) else fst (backoffFinished (st1, s1)))"
    using assms run by (simp add: Pair failure_round_def Failure_def Failure_start_def)
  have limit: "b \<longleftrightarrow> st_FailuresUntilBlacklist st \<le> ss_backoffCount s + 1" "ss_blacklisted s1 \<longleftrightarrow> b \<or> ss_blacklisted s"
    "b \<longrightarrow> \<not> ss_backoffStarted s1" "ss_backoffCount s1 = ss_backoffCount s + 1"
    "st_FailuresUntilBlacklist st1 = st_FailuresUntilBlacklist st"
    using run by (auto simp: Failure_backoff_def Let_def ClearBackoff_def with_DB_def split: if_splits)
  obtain st' s' where fin: "(if b then (st1, s1) else fst (backoffFinished (st1, s1))) = (st', s')" by (metis surj_pair)
  with limit assms show ?thesis
    by (intro that [OF round [unfolded fin]]) (auto simp: backoffFinished_def ClearBackoff_def split: if_splits)
qed

lemma failure_rounds_count:
  assumes "\<not> ss_blacklisted s" "\<not> ss_backoffStarted s" "ss_backoffCount s = 0 \<or> ss_backoffCount s < st_FailuresUntilBlacklist st"
  shows "\<exists>st' s'. failure_rounds faults xs (st, s) = Ok (st', s') \<and>
    (ss_blacklisted s' \<longleftrightarrow> xs \<noteq> [] \<and> unat (st_FailuresUntilBlacklist st) \<le> unat (ss_backoffCount s) + length xs)"
  using assms
proof (induction xs arbitrary: st s)
  case (Cons x xs)
  obtain st1 s1 where r: "failure_round faults x (st, s) = Ok (st1, s1)" "\<not> ss_backoffStarted s1"
    "ss_blacklisted s1 \<longleftrightarrow> st_FailuresUntilBlacklist st \<le> ss_backoffCount s + 1"
    "ss_backoffCount s1 = ss_backoffCount s + 1" "st_FailuresUntilBlacklist st1 = st_FailuresUntilBlacklist st"
    using failure_round_counts [OF Cons.prems(1,2)] by blast
  note up = count_up(1) [OF Cons.prems(3)]
  show ?case
  proof (cases "ss_blacklisted s1")
    case True
    then show ?thesis using r up by (auto simp: failure_rounds_blacklisted word_le_nat_alt)
  next
    case False
    then have "ss_backoffCount s1 < st_FailuresUntilBlacklist st1" using r by (simp add: not_le)
    with Cons.IH [of s1 st1] False r(2) obtain st2 s2 where
      rest: "failure_rounds faults xs (st1, s1) = Ok (st2, s2)"
      "ss_blacklisted s2 \<longleftrightarrow> xs \<noteq> [] \<and> unat (st_FailuresUntilBlacklist st) \<le> Suc (unat (ss_backoffCount s)) + length xs"
      using r(4,5) up by auto
    moreover have "unat (ss_backoffCount s) + 1 < unat (st_FailuresUntilBlacklist st)"
      using False r(3) up by (simp add: word_le_nat_alt not_le)
    ultimately show ?thesis using r(1) by auto
  qed
qed simp

text \<open>
  A server that fails again and again, each time after its backoff has ended, is blacklisted
  by the failure that makes their number reach \<^verbatim>\<open>FailuresUntilBlacklist\<close>, and not before.
\<close>

lemma blacklisted_after_failures:
  "\<exists>st' s'. failure_rounds faults xs (st, new_server name) = Ok (st', s') \<and>
     (ss_blacklisted s' \<longleftrightarrow> xs \<noteq> [] \<and> unat (st_FailuresUntilBlacklist st) \<le> length xs)"
  using failure_rounds_count [of "new_server name" st faults xs] by (simp add: new_server_def)

section \<open>How long a backoff lasts\<close>

lemma int64_id: "- (2 ^ 63) \<le> v \<Longrightarrow> v < 2 ^ 63 \<Longrightarrow> int64 v = v"
  by (simp add: int64_def sint_sbintrunc' signed_take_bit_int_eq_self)

lemma backoff_ms_bounds:
  assumes "r < 2 ^ 53"
  shows "800 * 2 ^ n \<le> backoff_ms r n" and "backoff_ms r n < 1400 * 2 ^ n"
proof -
  let ?v = "2 ^ n * (int r * 600 + 800 * 2 ^ 53) :: int"
  have "(800 * 2 ^ n) * 2 ^ 53 \<le> ?v" by simp
  from zdiv_mono1 [OF this, of "2 ^ 53"] show "800 * 2 ^ n \<le> backoff_ms r n" by (simp add: backoff_ms_def)
  have "int r * 600 + 800 * 2 ^ 53 < 1400 * 2 ^ 53" using assms by simp
  then have "?v < 2 ^ n * (1400 * 2 ^ 53)" by (intro mult_strict_left_mono) auto
  then have "?v < (1400 * 2 ^ n) * 2 ^ 53" by (simp add: mult_ac)
  moreover have "?v div 2 ^ 53 * 2 ^ 53 \<le> ?v" by (metis div_mult_mod_eq le_add_same_cancel1 pos_mod_sign zero_less_numeral zero_less_power)
  ultimately have "?v div 2 ^ 53 * 2 ^ 53 < (1400 * 2 ^ n) * 2 ^ 53" by (rule order.strict_trans1 [rotated])
  then show "backoff_ms r n < 1400 * 2 ^ n" unfolding backoff_ms_def by (rule mult_right_less_imp_less) simp
qed

lemma duration_in_range:
  assumes "r < 2 ^ 53" "unat c \<le> 32"
  shows "800 * 2 ^ unat c * time_Millisecond \<le> duration r c" and "duration r c < 1400 * 2 ^ unat c * time_Millisecond"
proof -
  let ?ms = "backoff_ms r (unat c)"
  have "(2 :: int) ^ unat c \<le> 2 ^ 32" using assms(2) by (rule power_increasing) simp
  then have "?ms < 1400 * 2 ^ 32" using backoff_ms_bounds(2) [OF assms(1), of "unat c"] by simp
  moreover have "0 \<le> ?ms" using backoff_ms_bounds(1) [OF assms(1), of "unat c"] by (meson order_trans zero_le_mult_iff zero_le_numeral zero_le_power)
  ultimately have "duration r c = time_Millisecond * ?ms"
    by (simp add: duration_def Let_def time_Millisecond_def int64_id)
  then show "800 * 2 ^ unat c * time_Millisecond \<le> duration r c" "duration r c < 1400 * 2 ^ unat c * time_Millisecond"
    using backoff_ms_bounds [OF assms(1), of "unat c"] by (simp_all add: time_Millisecond_def)
qed



text \<open>
  The 33rd can overflow: the backoff then ends before it starts, and the server is not backed
  off from at all. The configured number of retries is not bounded.
\<close>

theorem duration_overflows: "duration (2 ^ 53 - 1) 33 < 0"
  by (simp add: duration_def backoff_ms_def int64_def time_Millisecond_def)

section \<open>Requests\<close>

lemma failed_request:
  assumes inv: "stats_inv w" and s: "map_of (st_servers (w_stats w)) name = Some s"
    and idle: "\<not> ss_backoffStarted s" "IsBlacklistedOrBackingOff now s = None" and err: "blacklistable err"
    and few: "ss_backoffCount s + 1 < st_FailuresUntilBlacklist (w_stats w)"
  obtains st' s' where
    "doRequestIfNotBackingOffOrBlacklisted faults now now' r name (Inl err) (w_stats w) =
       Ok (st', True, Inl (FederationClientError False (max 0 (duration r (ss_backoffCount s + 1)))))"
    "map_of (st_servers st') name = Some s'" "ss_blacklisted s' = False"
    "ss_backoffUntil s' = Some (now' + duration r (ss_backoffCount s + 1))"
proof -
  let ?st = "w_stats w" and ?s = "s\<lparr>ss_backoffStarted := True\<rparr>"
  have name: "ss_serverName s = name" using inv_server [OF inv s] by simp
  have alive: "\<not> ss_blacklisted s" using idle(2) by (auto simp: IsBlacklistedOrBackingOff_def)
  obtain st1 s1 till b where run: "Failure_backoff faults now' r (?st, ?s) = ((st1, s1), till, b)" by (metis surj_pair)
  then have res: "ss_serverName s1 = name" "ss_backoffUntil s1 = Some till" "\<not> ss_blacklisted s1" "\<not> b"
      "till = now' + duration r (ss_backoffCount s + 1)"
    using few alive name by (auto simp: Failure_backoff_def Let_def not_le split: if_splits)
  have "doRequestIfNotBackingOffOrBlacklisted faults now now' r name (Inl err) ?st =
      Ok (put_server s1 st1, True, Inl (FederationClientError False (if now' < till then till - now' else 0)))"
    using idle err alive run res(4)
    by (simp add: doRequestIfNotBackingOffOrBlacklisted_def ForServer_def s failBlacklistableError_def Failure_def Failure_start_def)
  also have "(if now' < till then till - now' else 0) = max 0 (duration r (ss_backoffCount s + 1))"
    unfolding res(5) by auto
  finally show ?thesis using res by (intro that) auto
qed


section \<open>A server that fails\<close>

definition sample_world :: stats_world where
  "sample_world =
     \<lparr>w_stats = NewStatistics (Some \<lparr>db_blacklist = [], db_assumedOffline = [], db_relayServers = []\<rparr>) 3 2 False,
      w_inflight = [], w_now = 1000\<rparr>"

definition sample_failed :: stats_world where
  "sample_failed =
     sample_world\<lparr>w_stats := (case call_server (\<lambda>_. False) ''b'' (run_op (\<lambda>_. False) 1000 (DoFailure 0)) (w_stats sample_world) of
        Ok st \<Rightarrow> st | _ \<Rightarrow> w_stats sample_world)\<rparr>"

definition sample_server :: ServerStatistics where
  "sample_server = (new_server ''b'')\<lparr>ss_backoffStarted := True, ss_backoffUntil := Some 1600001000, ss_backoffCount := 1\<rparr>"

lemmas sample_stats_defs = sample_world_def sample_server_def NewStatistics_def new_server_def load_server_def call_server_def
  run_op_def Failure_def Failure_start_def Failure_backoff_def ForServer_def put_server_def duration_def backoff_ms_def
  int64_def time_Millisecond_def with_DB_def

lemma sample_failed_stats:
  "call_server (\<lambda>_. False) ''b'' (run_op (\<lambda>_. False) (w_now sample_world) (DoFailure 0)) (w_stats sample_world) = Ok (w_stats sample_failed)"
  "map_of (st_servers (w_stats sample_failed)) ''b'' = Some sample_server"
  by code_simp+

lemma sample_world_reachable: "reachable stats_init stats_step sample_world"
  by (rule reachable.start) (auto simp: stats_init_def sample_world_def)

lemma sample_failed_reachable: "reachable stats_init stats_step sample_failed"
proof (rule reachable.more [OF sample_world_reachable])
  show "stats_step sample_world sample_failed"
    using stats_step.call [OF sample_failed_stats(1)] by (simp add: sample_failed_def)
qed



theorem backoff_ends_witness:
  "\<exists>w' s'. timer_step\<^sup>*\<^sup>* sample_failed w' \<and> map_of (st_servers (w_stats w')) ''b'' = Some s' \<and> \<not> ss_backoffStarted s'"
  by (rule backoff_ends [OF sample_failed_reachable sample_failed_stats(2)]) (simp add: sample_server_def)

text \<open>A server that was looked up once and has not failed.\<close>

definition sample_known :: stats_world where
  "sample_known = sample_world\<lparr>w_stats := put_server (new_server ''b'') (w_stats sample_world)\<rparr>"

lemma sample_known_reachable: "reachable stats_init stats_step sample_known"
proof (rule reachable.more [OF sample_world_reachable])
  have "call_server (\<lambda>_. False) ''b'' (run_op (\<lambda>_. False) (w_now sample_world) (DoAssignBackoffNotifier False)) (w_stats sample_world) =
      Ok (put_server (new_server ''b'') (w_stats sample_world))"
    by (simp add: sample_stats_defs Let_def AssignBackoffNotifier_def)
  from stats_step.call [OF this] show "stats_step sample_world sample_known" by (simp add: sample_known_def)
qed


section \<open>What the code does not do\<close>

text \<open>
  \<^verbatim>\<open>Success\<close> is documented to unblacklist the server. It resets the flag before it asks for it,
  so it never removes the server from the database: after a restart it is blacklisted again.
\<close>

theorem success_leaves_blacklist:
  assumes "Success faults method (st, s) = Ok (st', s')" "st_DB st = Some db"
  shows "\<not> ss_blacklisted s' \<and> (\<exists>db'. st_DB st' = Some db' \<and> db_blacklist db' = db_blacklist db)"
  using assms
  by (auto simp: Success_def Let_def cancel_def ClearBackoff_def removeAssumedOffline_def with_DB_def
      db_RemoveServerAssumedOffline_def go_simps split: if_splits)

text \<open>
  The compare-and-swap and the store of \<^verbatim>\<open>backoffUntil\<close> are two steps: a second \<^verbatim>\<open>Failure\<close> on a
  server that never failed before, between the two, panics.
\<close>

theorem concurrent_first_failures_panic:
  "\<exists>s. Failure_start (new_server name) = Some s \<and> Failure faults now r (st, s) = Panic"
  by (simp add: Failure_start_def Failure_def new_server_def)

section \<open>Relay servers\<close>

lemma unique_relays_set: "set (unique_relays l seen) = set l - set seen"
  by (induction l arbitrary: seen) auto

lemma fold_add_relay: "set (fold add_relay l known) = set known \<union> set l \<and> (distinct known \<longrightarrow> distinct (fold add_relay l known))"
  by (induction l arbitrary: known) (auto simp: add_relay_def)

lemma fold_insert_set: "set (fold List.insert l known) = set known \<union> set l"
  by (induction l arbitrary: known) auto

text \<open>
  When the database takes them, the new relay servers of a server join the known ones, in
  memory and in the database alike, each once; when it does not, nothing changes.
\<close>

lemma AddRelayServers_adds:
  assumes "st_DB st = Some db" "distinct (ss_knownRelayServers s)"
  shows "\<exists>st' s' db'. AddRelayServers faults l (st, s) = Ok (st', s') \<and> st_DB st' = Some db' \<and>
    distinct (ss_knownRelayServers s') \<and>
    (if faults P2PAddRelayServersForServer then (st', s') = (st, s)
     else set (ss_knownRelayServers s') = set (ss_knownRelayServers s) \<union> set l \<and>
       set (relays_of db' (ss_serverName s)) = set (relays_of db (ss_serverName s)) \<union> set l \<and>
       (\<forall>n. n \<noteq> ss_serverName s \<longrightarrow> relays_of db' n = relays_of db n))"
  using assms fold_add_relay [of "unique_relays l []" "ss_knownRelayServers s"]
  by (auto simp: AddRelayServers_def Let_def with_DB_def db_P2PAddRelayServersForServer_def relays_of_def map_simps
      unique_relays_set fold_insert_set)

end
