(* ===== verification/StateEntries.thy ===== *)
theory StateEntries
  imports Unique
begin

text \<open>
  Room state as sorted lists of numeric entries: the types and orders of
  \<^verbatim>\<open>roomserver/types/types.go\<close>, and the searches, the comparison of two states and the search for
  conflicts of \<^verbatim>\<open>roomserver/state/state.go\<close> that work on such lists. Numeric IDs are 64-bit
  integers that are only compared, so they are integers here.
\<close>

section \<open>Entries and their order\<close>

datatype NIDTuple = NIDTuple (EventTypeNID: int) (EventStateKeyNID: int)

definition NIDTuple_LessThan :: "NIDTuple \<Rightarrow> NIDTuple \<Rightarrow> bool" where
  "NIDTuple_LessThan a b =
     (if EventTypeNID a \<noteq> EventTypeNID b then EventTypeNID a < EventTypeNID b
      else EventStateKeyNID a < EventStateKeyNID b)"

instantiation NIDTuple :: linorder
begin

definition less_NIDTuple :: "NIDTuple \<Rightarrow> NIDTuple \<Rightarrow> bool" where
  "less_NIDTuple = NIDTuple_LessThan"

definition less_eq_NIDTuple :: "NIDTuple \<Rightarrow> NIDTuple \<Rightarrow> bool" where
  "less_eq_NIDTuple a b \<longleftrightarrow> NIDTuple_LessThan a b \<or> a = b"

instance
  by standard (auto simp: less_NIDTuple_def less_eq_NIDTuple_def NIDTuple_LessThan_def split: if_splits,
      metis NIDTuple.expand linorder_less_linear)

end

datatype StateEntry = StateEntry (entry_tuple: NIDTuple) (EventNID: int)

definition StateEntry_LessThan :: "StateEntry \<Rightarrow> StateEntry \<Rightarrow> bool" where
  "StateEntry_LessThan a b =
     (if entry_tuple a \<noteq> entry_tuple b then NIDTuple_LessThan (entry_tuple a) (entry_tuple b)
      else EventNID a < EventNID b)"

instantiation StateEntry :: linorder
begin

definition less_StateEntry :: "StateEntry \<Rightarrow> StateEntry \<Rightarrow> bool" where
  "less_StateEntry = StateEntry_LessThan"

definition less_eq_StateEntry :: "StateEntry \<Rightarrow> StateEntry \<Rightarrow> bool" where
  "less_eq_StateEntry a b \<longleftrightarrow> StateEntry_LessThan a b \<or> a = b"

instance
  by standard (auto simp: less_StateEntry_def less_eq_StateEntry_def StateEntry_LessThan_def
      less_NIDTuple_def [symmetric] split: if_splits, metis StateEntry.expand linorder_less_linear)

end

lemma entry_less: "a < b \<longleftrightarrow> entry_tuple a < entry_tuple b \<or> (entry_tuple a = entry_tuple b \<and> EventNID a < EventNID b)"
  by (auto simp: less_StateEntry_def StateEntry_LessThan_def less_NIDTuple_def [symmetric])

text \<open>The \<^verbatim>\<open>sort.Interface\<close>s: by tuple, by event and by both (\<open><\<close> on entries).\<close>

definition by_tuple :: "StateEntry \<Rightarrow> StateEntry \<Rightarrow> bool" where
  "by_tuple a b \<longleftrightarrow> NIDTuple_LessThan (entry_tuple a) (entry_tuple b)"

definition by_event :: "StateEntry \<Rightarrow> StateEntry \<Rightarrow> bool" where
  "by_event a b \<longleftrightarrow> EventNID a < EventNID b"

lemma by_tuple_less: "by_tuple a b \<longleftrightarrow> entry_tuple a < entry_tuple b"
  by (simp add: by_tuple_def less_NIDTuple_def)

lemma by_tuple_eq: "by_tuple = (\<lambda>a b. entry_tuple a < entry_tuple b)"
  by (simp add: fun_eq_iff by_tuple_less)

interpretation tuple_order: weak_order by_tuple
  by unfold_locales (auto simp: by_tuple_less)

interpretation event_order: weak_order by_event
  by unfold_locales (auto simp: by_event_def)

interpretation entry_order: weak_order "(<) :: StateEntry \<Rightarrow> StateEntry \<Rightarrow> bool"
  by (rule weak_order_less)

text \<open>
  \<^verbatim>\<open>DeduplicateStateEntries\<close>: after sorting, an entry whose successor has the same tuple is cut
  out and the comparison is repeated at the same index.
\<close>

fun dedup_loop :: "StateEntry list \<Rightarrow> StateEntry list" where
  "dedup_loop (x # y # zs) = (if entry_tuple x = entry_tuple y then dedup_loop (y # zs) else x # dedup_loop (y # zs))"
| "dedup_loop xs = xs"

definition DeduplicateStateEntries :: "StateEntry list \<Rightarrow> StateEntry list" where
  "DeduplicateStateEntries a = (if length a < 2 then a else dedup_loop (sort_Stable StateEntry_LessThan a))"

datatype StateAtEvent = StateAtEvent (BeforeStateSnapshotNID: int) (IsRejected: bool) (sae_entry: StateEntry)

definition IsStateEvent :: "StateAtEvent \<Rightarrow> bool" where
  "IsStateEvent s \<longleftrightarrow> EventStateKeyNID (entry_tuple (sae_entry s)) \<noteq> 0"

section \<open>Binary search\<close>

text \<open>\<^verbatim>\<open>sort.Search\<close>.\<close>

function search_loop :: "(nat \<Rightarrow> bool) \<Rightarrow> nat \<Rightarrow> nat \<Rightarrow> nat" where
  "search_loop f i j =
     (if i < j then (let h = (i + j) div 2 in if \<not> f h then search_loop f (h + 1) j else search_loop f i h)
      else i)"
  by pat_completeness auto
termination
  by (relation "measure (\<lambda>(f, i, j). j - i)") auto

declare search_loop.simps [simp del]

definition sort_Search :: "nat \<Rightarrow> (nat \<Rightarrow> bool) \<Rightarrow> nat" where
  "sort_Search n f = search_loop f 0 n"

text \<open>
  The searches in \<^verbatim>\<open>stateEntryMap\<close>, \<^verbatim>\<open>eventMap\<close>, \<^verbatim>\<open>stateBlockNIDListMap\<close> and
  \<^verbatim>\<open>stateEntryListMap\<close> differ in the key they compare only.
\<close>

definition search_by :: "('a \<Rightarrow> 'k::linorder) \<Rightarrow> 'k \<Rightarrow> 'a list \<Rightarrow> 'a option" where
  "search_by key k list =
     (let i = sort_Search (length list) (\<lambda>i. \<not> key (list ! i) < k) in
      if i < length list \<and> key (list ! i) = k then Some (list ! i) else None)"

definition stateEntryMap_lookup :: "StateEntry list \<Rightarrow> NIDTuple \<Rightarrow> int option" where
  "stateEntryMap_lookup m stateKey = map_option EventNID (search_by entry_tuple stateKey m)"

definition stateBlockNIDListMap_lookup :: "(int \<times> int list) list \<Rightarrow> int \<Rightarrow> int list option" where
  "stateBlockNIDListMap_lookup m stateNID = map_option snd (search_by fst stateNID m)"

definition stateEntryListMap_lookup :: "(int \<times> StateEntry list) list \<Rightarrow> int \<Rightarrow> StateEntry list option" where
  "stateEntryListMap_lookup m stateBlockNID = map_option snd (search_by fst stateBlockNID m)"

definition tuples_contains :: "NIDTuple list \<Rightarrow> NIDTuple \<Rightarrow> bool" where
  "tuples_contains s value \<longleftrightarrow>
     (let i = sort_Search (length s) (\<lambda>i. \<not> NIDTuple_LessThan (s ! i) value) in i < length s \<and> s ! i = value)"

section \<open>Conflicts and differences\<close>

text \<open>
  \<^verbatim>\<open>findDuplicateStateKeys\<close>: \<open>j\<close> is where the current block of entries with one tuple starts, \<open>n\<close>
  how many entries are left from index \<open>i\<close> on.
\<close>

fun duplicates_loop :: "nat \<Rightarrow> nat \<Rightarrow> nat \<Rightarrow> StateEntry list \<Rightarrow> StateEntry list \<Rightarrow> nat \<times> StateEntry list" where
  "duplicates_loop 0 i j a result = (j, result)"
| "duplicates_loop (Suc n) i j a result =
     (if entry_tuple (a ! j) \<noteq> entry_tuple (a ! i)
      then duplicates_loop n (Suc i) i a (if j + 1 \<noteq> i then result @ drop j (take i a) else result)
      else duplicates_loop n (Suc i) j a result)"

definition findDuplicateStateKeys :: "StateEntry list \<Rightarrow> StateEntry list" where
  "findDuplicateStateKeys a =
     (case duplicates_loop (length a - 1) 1 0 a [] of (j, result) \<Rightarrow>
        if j + 1 \<noteq> length a then result @ drop j a else result)"

text \<open>The loop of \<^verbatim>\<open>DifferenceBetweeenStateSnapshots\<close>, on what is left of the two lists.\<close>

function difference_loop :: "StateEntry list \<Rightarrow> StateEntry list \<Rightarrow> StateEntry list \<Rightarrow> StateEntry list
    \<Rightarrow> StateEntry list \<times> StateEntry list" where
  "difference_loop [] new removed added = (removed, added @ new)"
| "difference_loop (x # old) [] removed added = (removed @ x # old, added)"
| "difference_loop (x # old) (y # new) removed added =
     (if x = y then difference_loop old new removed added
      else if StateEntry_LessThan x y then difference_loop old (y # new) (removed @ [x]) added
      else difference_loop (x # old) new removed (added @ [y]))"
  by pat_completeness auto
termination
  by (relation "measure (\<lambda>(old, new, _). length old + length new)") auto

section \<open>What the searches find\<close>

lemma search_loop_bounds: "i \<le> j \<Longrightarrow> i \<le> search_loop f i j \<and> search_loop f i j \<le> j"
proof (induction f i j rule: search_loop.induct)
  case (1 f i j)
  let ?h = "(i + j) div 2"
  have h: "i < j \<Longrightarrow> i \<le> ?h \<and> ?h < j" by auto
  show ?case
  proof (cases "i < j \<and> f ?h")
    case True
    then have "search_loop f i j = search_loop f i ?h" by (subst search_loop.simps) (simp add: Let_def)
    with True 1(2) [OF _ refl] h show ?thesis by auto
  next
    case False
    then have "search_loop f i j = (if i < j then search_loop f (?h + 1) j else i)"
      by (subst search_loop.simps) (simp add: Let_def)
    with False 1(1) [OF _ refl] 1(3) h show ?thesis by fastforce
  qed
qed

lemma search_loop_least:
  assumes "\<And>a b. a \<le> b \<Longrightarrow> b < j \<Longrightarrow> f a \<Longrightarrow> f b" "i \<le> j"
  shows "(\<forall>k. i \<le> k \<and> k < search_loop f i j \<longrightarrow> \<not> f k) \<and> (search_loop f i j < j \<longrightarrow> f (search_loop f i j))"
  using assms
proof (induction f i j rule: search_loop.induct)
  case (1 f i j)
  let ?h = "(i + j) div 2"
  show ?case
  proof (cases "i < j")
    case lt: True
    then have h: "i \<le> ?h" "?h < j" by auto
    show ?thesis
    proof (cases "f ?h")
      case True
      have rec: "search_loop f i j = search_loop f i ?h" using lt True by (subst search_loop.simps) (simp add: Let_def)
      have "(\<forall>k. i \<le> k \<and> k < search_loop f i ?h \<longrightarrow> \<not> f k) \<and> (search_loop f i ?h < ?h \<longrightarrow> f (search_loop f i ?h))"
        using 1(2) [OF lt refl] True h "1.prems" by simp
      moreover have "search_loop f i ?h \<le> ?h" using search_loop_bounds [of i ?h f] h by simp
      ultimately show ?thesis using rec True by (metis le_neq_implies_less)
    next
      case False
      have rec: "search_loop f i j = search_loop f (?h + 1) j" using lt False by (subst search_loop.simps) (simp add: Let_def)
      have "\<not> f k" if "k \<le> ?h" for k using "1.prems"(1) [of k ?h] that h False by blast
      moreover have "(\<forall>k. ?h + 1 \<le> k \<and> k < search_loop f (?h + 1) j \<longrightarrow> \<not> f k) \<and>
          (search_loop f (?h + 1) j < j \<longrightarrow> f (search_loop f (?h + 1) j))"
        using 1(1) [OF lt refl False] h "1.prems" by simp
      ultimately show ?thesis unfolding rec by (metis Suc_eq_plus1 not_less_eq_eq)
    qed
  next
    case False
    then show ?thesis using "1.prems" by (auto simp: search_loop.simps)
  qed
qed

lemma sort_Search_least:
  assumes "\<And>a b. a \<le> b \<Longrightarrow> b < n \<Longrightarrow> f a \<Longrightarrow> f b"
  shows "\<forall>k < sort_Search n f. \<not> f k" and "sort_Search n f < n \<Longrightarrow> f (sort_Search n f)"
  using search_loop_least [of n f 0] assms by (auto simp: sort_Search_def)

text \<open>On a list that is sorted by the key, binary search is linear search.\<close>

lemma search_by_eq:
  assumes "sorted (map key xs)" shows "search_by key k xs = List.find (\<lambda>x. key x = k) xs"
proof -
  let ?f = "\<lambda>i. \<not> key (xs ! i) < k" and ?n = "length xs"
  let ?r = "sort_Search ?n ?f"
  have mono: "?f b" if "a \<le> b" "b < ?n" "?f a" for a b
    using sorted_nth_mono [OF assms, of a b] that by auto
  have below: "key (xs ! i) \<noteq> k" if "i < ?r" for i using sort_Search_least(1) [of ?n ?f] mono that by auto
  have least: "\<not> key (xs ! ?r) < k" if "?r < ?n" using sort_Search_least(2) [of ?n ?f] mono that by blast
  show ?thesis
  proof (cases "?r < ?n \<and> key (xs ! ?r) = k")
    case True
    then have "List.find (\<lambda>x. key x = k) xs = Some (xs ! ?r)" using below by (auto simp: find_Some_iff)
    with True show ?thesis by (simp add: search_by_def Let_def)
  next
    case False
    have "key (xs ! i) \<noteq> k" if "i < ?n" for i
    proof (cases "i < ?r")
      case le: False
      then have "?r < ?n" using that by simp
      moreover have "key (xs ! ?r) \<le> key (xs ! i)" using sorted_nth_mono [OF assms, of ?r i] le that by simp
      ultimately show ?thesis using least False by auto
    qed (rule below)
    then have "List.find (\<lambda>x. key x = k) xs = None" by (auto simp: find_None_iff in_set_conv_nth)
    with False show ?thesis by (auto simp: search_by_def Let_def)
  qed
qed

lemma find_map_of: "distinct (map key xs) \<Longrightarrow> List.find (\<lambda>x. key x = k) xs = Some x \<longleftrightarrow> x \<in> set xs \<and> key x = k"
  by (induction xs) (auto simp: image_iff)

lemma find_fst: "map_option snd (List.find (\<lambda>x. fst x = k) xs) = map_of xs k"
  by (induction xs) auto


section \<open>What the conflicts and the differences are\<close>

text \<open>The entries that share their tuple with another, as a filter.\<close>

definition same_tuple :: "StateEntry list \<Rightarrow> NIDTuple \<Rightarrow> StateEntry list" where
  "same_tuple a t = filter (\<lambda>e. entry_tuple e = t) a"

lemma take_split: "j \<le> i \<Longrightarrow> take i a = take j a @ drop j (take i a)"
  using append_take_drop_id [of j "take i a"] by (simp add: min_def)

lemma block_of_sorted:
  assumes sorted: "sorted (map entry_tuple a)" and ji: "j < i" "i \<le> length a"
    and blk: "\<forall>k. j \<le> k \<and> k < i \<longrightarrow> t = entry_tuple (a ! k)"
    and left: "\<forall>k < j. entry_tuple (a ! k) \<noteq> t" and stop: "i < length a \<longrightarrow> entry_tuple (a ! i) \<noteq> t"
  shows "same_tuple a t = drop j (take i a)"
proof -
  have split: "a = take j a @ drop j (take i a) @ drop i a"
    using take_split [of j i a] ji(1) by (metis append.assoc append_take_drop_id order.strict_implies_order)
  have "entry_tuple e \<noteq> t" if e: "e \<in> set (take j a)" for e
  proof -
    obtain k where "k < j" "e = a ! k" using e by (auto simp: in_set_conv_nth)
    with left show ?thesis by blast
  qed
  moreover have "entry_tuple e = t" if e: "e \<in> set (drop j (take i a))" for e
  proof -
    obtain k where "k < i - j" "e = a ! (j + k)" using e ji by (auto simp: in_set_conv_nth)
    moreover from this have "j \<le> j + k \<and> j + k < i" by simp
    ultimately show ?thesis using blk by metis
  qed
  moreover have "entry_tuple e \<noteq> t" if e: "e \<in> set (drop i a)" for e
  proof -
    obtain k where k: "k < length a - i" "e = a ! (i + k)" using e by (auto simp: in_set_conv_nth)
    then have i: "i < length a" by simp
    have "entry_tuple (a ! (i - 1)) \<le> entry_tuple (a ! i)" "entry_tuple (a ! i) \<le> entry_tuple (a ! (i + k))"
      using sorted_nth_mono [OF sorted, of "i - 1" i] sorted_nth_mono [OF sorted, of i "i + k"] i k by simp_all
    moreover have "j \<le> i - 1 \<and> i - 1 < i" using ji by simp
    then have "t = entry_tuple (a ! (i - 1))" using blk by blast
    ultimately show ?thesis using stop i k(2) by (metis order_antisym)
  qed
  ultimately have "filter (\<lambda>e. entry_tuple e = t) (take j a @ drop j (take i a) @ drop i a) = drop j (take i a)"
    unfolding filter_append filter_id_conv [THEN iffD2] by (simp add: filter_id_conv filter_empty_conv)
  then show ?thesis unfolding same_tuple_def by (metis split)
qed

definition conflicts_of :: "StateEntry list \<Rightarrow> StateEntry list" where
  "conflicts_of a = filter (\<lambda>e. 1 < length (same_tuple a (entry_tuple e))) a"

text \<open>The loop invariant: the block from \<open>j\<close> to \<open>i\<close> has one tuple, and it started at \<open>j\<close>.\<close>

definition duplicates_inv :: "StateEntry list \<Rightarrow> nat \<Rightarrow> nat \<Rightarrow> StateEntry list \<Rightarrow> bool" where
  "duplicates_inv a i j result \<longleftrightarrow>
     j < i \<and> i \<le> length a \<and>
     (\<forall>k. j \<le> k \<and> k < i \<longrightarrow> entry_tuple (a ! j) = entry_tuple (a ! k)) \<and>
     (\<forall>k < j. entry_tuple (a ! k) < entry_tuple (a ! j)) \<and>
     result = filter (\<lambda>e. 1 < length (same_tuple a (entry_tuple e))) (take j a)"

lemma duplicates_block:
  assumes sorted: "sorted (map entry_tuple a)" and inv: "duplicates_inv a i j result"
    and stop: "i < length a \<longrightarrow> entry_tuple (a ! i) \<noteq> entry_tuple (a ! j)"
  shows "filter (\<lambda>e. 1 < length (same_tuple a (entry_tuple e))) (take i a) =
    (if j + 1 \<noteq> i then result @ drop j (take i a) else result)"
proof -
  let ?P = "\<lambda>e. 1 < length (same_tuple a (entry_tuple e))" and ?t = "entry_tuple (a ! j)"
  have ji: "j < i" "i \<le> length a" and blk: "\<forall>k. j \<le> k \<and> k < i \<longrightarrow> ?t = entry_tuple (a ! k)"
    and below: "\<forall>k < j. entry_tuple (a ! k) < ?t" and res: "result = filter ?P (take j a)"
    using inv by (simp_all add: duplicates_inv_def)
  have left: "\<forall>k < j. entry_tuple (a ! k) \<noteq> ?t" using below by (metis less_irrefl)
  have same: "same_tuple a ?t = drop j (take i a)"
    by (rule block_of_sorted [OF sorted ji blk left stop])
  have len: "length (drop j (take i a)) = i - j" using ji by simp
  have P: "?P e \<longleftrightarrow> j + 1 \<noteq> i" if e: "e \<in> set (drop j (take i a))" for e
  proof -
    have "e \<in> set (same_tuple a ?t)" using e by (simp only: same)
    then have "entry_tuple e = ?t" by (simp add: same_tuple_def)
    then have "length (same_tuple a (entry_tuple e)) = i - j" using same len by simp
    then show ?thesis using ji by linarith
  qed
  have kept: "filter ?P (drop j (take i a)) = (if j + 1 \<noteq> i then drop j (take i a) else [])"
  proof (cases "j + 1 \<noteq> i")
    case True
    with P have "\<forall>e \<in> set (drop j (take i a)). ?P e" by blast
    then have "filter ?P (drop j (take i a)) = drop j (take i a)" by (simp only: filter_id_conv)
    with True show ?thesis by (simp only: if_True not_False_eq_True)
  next
    case False
    with P have "\<forall>e \<in> set (drop j (take i a)). \<not> ?P e" by blast
    then have "filter ?P (drop j (take i a)) = []" by (simp only: filter_empty_conv)
    with False show ?thesis by (simp only: if_False)
  qed
  have "take i a = take j a @ drop j (take i a)"
    using ji by (intro take_split) simp
  then have "filter ?P (take i a) = filter ?P (take j a) @ filter ?P (drop j (take i a))"
    by (metis filter_append)
  also have "\<dots> = (if j + 1 \<noteq> i then result @ drop j (take i a) else result)"
    unfolding kept res by (cases "j + 1 \<noteq> i") simp_all
  finally show ?thesis .
qed

lemma duplicates_loop_inv:
  assumes "sorted (map entry_tuple a)" "duplicates_inv a i j result" "i + n = length a"
    and "duplicates_loop n i j a result = (j', result')"
  shows "duplicates_inv a (length a) j' result'"
  using assms
proof (induction n arbitrary: i j result)
  case (Suc n)
  have i: "i < length a" using Suc.prems(3) by simp
  show ?case
  proof (cases "entry_tuple (a ! j) = entry_tuple (a ! i)")
    case True
    then have "duplicates_inv a (Suc i) j result"
      using Suc.prems(2) i unfolding duplicates_inv_def by (metis Suc_leI less_SucI less_antisym)
    then show ?thesis using Suc.IH [of "Suc i" j result] Suc.prems True by simp
  next
    case False
    let ?r = "if j + 1 \<noteq> i then result @ drop j (take i a) else result"
    have "entry_tuple (a ! k) < entry_tuple (a ! i)" if "k < i" for k
    proof -
      have "entry_tuple (a ! k) \<le> entry_tuple (a ! j)"
        using Suc.prems(2) that unfolding duplicates_inv_def by (metis not_le order.order_iff_strict)
      moreover have "entry_tuple (a ! j) \<le> entry_tuple (a ! i)"
        using sorted_nth_mono [OF Suc.prems(1), of j i] Suc.prems(2) i by (simp add: duplicates_inv_def)
      ultimately show ?thesis using False by auto
    qed
    moreover have "?r = filter (\<lambda>e. 1 < length (same_tuple a (entry_tuple e))) (take i a)"
      by (rule duplicates_block [OF Suc.prems(1,2), symmetric]) (use False in simp)
    moreover have "entry_tuple (a ! i) = entry_tuple (a ! k)" if "i \<le> k" "k < Suc i" for k
      using that by (simp add: le_less_Suc_eq)
    ultimately have "duplicates_inv a (Suc i) i ?r" using i unfolding duplicates_inv_def by simp
    then show ?thesis using Suc.IH [of "Suc i" i ?r] Suc.prems False by simp
  qed
qed simp

lemma findDuplicateStateKeys_eq:
  assumes "sorted (map entry_tuple a)" shows "findDuplicateStateKeys a = conflicts_of a"
proof (cases "a = []")
  case False
  obtain j result where loop: "duplicates_loop (length a - 1) 1 0 a [] = (j, result)" by fastforce
  have "duplicates_inv a 1 0 []" using False by (cases a) (auto simp: duplicates_inv_def)
  then have inv: "duplicates_inv a (length a) j result"
    using duplicates_loop_inv [OF assms _ _ loop] False by simp
  with duplicates_block [OF assms inv] loop show ?thesis
    by (simp add: findDuplicateStateKeys_def conflicts_of_def)
qed (simp add: findDuplicateStateKeys_def conflicts_of_def)

text \<open>
  On entries that are sorted by their tuple, the one pass of \<^verbatim>\<open>findDuplicateStateKeys\<close> finds all
  entries whose tuple occurs more than once, in their order, and no others.
\<close>

lemma findDuplicateStateKeys_exact:
  assumes "sorted (map entry_tuple a)"
  shows "findDuplicateStateKeys a = filter (\<lambda>e. 1 < length (filter (\<lambda>x. entry_tuple x = entry_tuple e) a)) a"
  using findDuplicateStateKeys_eq [OF assms] by (simp add: conflicts_of_def same_tuple_def)

lemma difference_loop_eq:
  assumes "sorted_wrt (<) old" "sorted_wrt (<) new"
  shows "difference_loop old new removed added =
    (removed @ filter (\<lambda>e. e \<notin> set new) old, added @ filter (\<lambda>e. e \<notin> set old) new)"
  using assms
proof (induction old new removed added rule: difference_loop.induct)
  case (3 x old y new removed added)
  consider "x = y" | "x < y" | "y < x" by fastforce
  then show ?case
  proof cases
    case 1
    then have "x \<notin> set old" "x \<notin> set new" using "3.prems" by auto
    then have "filter (\<lambda>e. e \<notin> insert x (set new)) old = filter (\<lambda>e. e \<notin> set new) old"
      "filter (\<lambda>e. e \<notin> insert x (set old)) new = filter (\<lambda>e. e \<notin> set old) new" by (auto intro!: filter_cong)
    with 1 3 show ?thesis by simp
  next
    case 2
    then have "x \<notin> set (y # new)" using "3.prems" by auto
    moreover from this have "filter (\<lambda>e. e \<notin> set (x # old)) (y # new) = filter (\<lambda>e. e \<notin> set old) (y # new)"
      by (intro filter_cong) auto
    ultimately show ?thesis using 2 3 by (simp add: less_StateEntry_def [symmetric])
  next
    case gt: 3
    then have "y \<notin> set (x # old)" using "3.prems" by auto
    moreover from this have "filter (\<lambda>e. e \<notin> set (y # new)) (x # old) = filter (\<lambda>e. e \<notin> set new) (x # old)"
      by (intro filter_cong) auto
    moreover have "x \<noteq> y" "\<not> x < y" using gt by auto
    ultimately show ?thesis using 3 by (simp add: less_StateEntry_def [symmetric])
  qed
qed auto


section \<open>The state that a list of entries describes\<close>

text \<open>Later entries replace earlier ones with the same tuple.\<close>

definition state_of :: "StateEntry list \<Rightarrow> (NIDTuple, int) map" where
  "state_of es = map_of (rev (map (\<lambda>e. (entry_tuple e, EventNID e)) es))"

lemma state_of_simps [simp]:
  "state_of [] = Map.empty"
  "state_of (e # es) = [entry_tuple e \<mapsto> EventNID e] ++ state_of es"
  "state_of (es @ fs) = state_of es ++ state_of fs"
  by (simp_all add: state_of_def map_add_def fun_eq_iff split: option.splits)

lemma state_of_dom: "dom (state_of es) = entry_tuple ` set es"
  by (induction es) auto

lemma state_of_SomeD: "state_of es t = Some n \<Longrightarrow> StateEntry t n \<in> set es"
  by (induction es) (auto simp: map_add_Some_iff split: if_splits)

lemma state_of_insort: "state_of (insort_func (cmp_of by_tuple) e es) = [entry_tuple e \<mapsto> EventNID e] ++ state_of es"
proof (induction es)
  case (Cons f fs)
  show ?case
  proof (cases "cmp_of by_tuple e f \<le> 0")
    case False
    then have "entry_tuple e \<noteq> entry_tuple f" by (auto simp: cmp_of_def by_tuple_less split: if_splits)
    then have "[entry_tuple f \<mapsto> EventNID f] ++ [entry_tuple e \<mapsto> EventNID e] =
        [entry_tuple e \<mapsto> EventNID e] ++ [entry_tuple f \<mapsto> EventNID f]" by (simp add: fun_upd_twist)
    then have "[entry_tuple f \<mapsto> EventNID f] ++ ([entry_tuple e \<mapsto> EventNID e] ++ state_of fs) =
        [entry_tuple e \<mapsto> EventNID e] ++ ([entry_tuple f \<mapsto> EventNID f] ++ state_of fs)"
      by (metis map_add_assoc)
    moreover have "state_of (insort_func (cmp_of by_tuple) e (f # fs)) =
        [entry_tuple f \<mapsto> EventNID f] ++ ([entry_tuple e \<mapsto> EventNID e] ++ state_of fs)"
      using False Cons.IH by (simp only: insort_func.simps if_False state_of_simps)
    ultimately show ?thesis by (simp only: state_of_simps)
  qed (simp only: insort_func.simps if_True state_of_simps)
qed (simp only: insort_func.simps state_of_simps)

lemma state_of_sort: "state_of (sort_Stable by_tuple es) = state_of es"
  unfolding sort_Stable_def by (induction es) (simp_all add: state_of_insort)

lemma state_of_last_of_runs:
  "sorted_wrt (\<lambda>a b. \<not> by_tuple b a) es \<Longrightarrow> state_of (last_of_runs by_tuple es) = state_of es"
proof (induction es rule: induct_list012)
  case (3 x y zs)
  show ?case
  proof (cases "by_tuple x y")
    case False
    then have "entry_tuple x = entry_tuple y" using 3 by (auto simp: by_tuple_less)
    then have "[entry_tuple x \<mapsto> EventNID x] ++ ([entry_tuple y \<mapsto> EventNID y] ++ state_of zs) =
        [entry_tuple y \<mapsto> EventNID y] ++ state_of zs" by (metis fun_upd_upd map_add_assoc map_add_empty map_add_upd)
    with 3 False show ?thesis by simp
  qed (use 3 in simp)
qed simp_all

text \<open>\<^verbatim>\<open>sort.Stable\<close> by tuple and \<^verbatim>\<open>Unique\<close>: the same state, each tuple once, in order.\<close>

definition combine :: "StateEntry list \<Rightarrow> StateEntry list outcome" where
  "combine fullState = cut (Unique by_tuple (sort_Stable by_tuple fullState))"

lemma combine_Ok:
  obtains es where "combine fullState = Ok es" "sorted_wrt (<) (map entry_tuple es)" "state_of es = state_of fullState"
    "set es \<subseteq> set fullState"
proof
  let ?s = "sort_Stable by_tuple fullState"
  have sorted: "sorted_wrt (\<lambda>a b. \<not> by_tuple b a) ?s"
    using tuple_order.IsSorted_sort tuple_order.IsSorted_iff by blast
  show "combine fullState = Ok (last_of_runs by_tuple ?s)"
    unfolding combine_def by (rule cut_Unique [OF tuple_order.IsSorted_sort])
  show "sorted_wrt (<) (map entry_tuple (last_of_runs by_tuple ?s))"
    using tuple_order.last_of_runs_strict [OF sorted] unfolding sorted_wrt_map by (simp only: by_tuple_eq)
  show "state_of (last_of_runs by_tuple ?s) = state_of fullState"
    by (simp add: state_of_last_of_runs [OF sorted] state_of_sort)
  show "set (last_of_runs by_tuple ?s) \<subseteq> set fullState"
    using tuple_order.set_last_of_runs [of ?s] by (simp add: sort_Stable_def)
qed

lemma state_of_distinct:
  assumes "distinct (map entry_tuple es)" shows "state_of es t = Some n \<longleftrightarrow> StateEntry t n \<in> set es"
proof -
  have "StateEntry t n \<in> set es \<Longrightarrow> state_of es t = Some n"
    using assms
  proof (induction es)
    case (Cons e es)
    have "state_of es (entry_tuple e) = None"
      using Cons.prems(2) state_of_dom [of es] by (metis distinct.simps(2) domIff list.simps(9) list.set_map)
    with Cons show ?case by (auto simp: map_add_Some_iff)
  qed simp
  then show ?thesis using state_of_SomeD by blast
qed

lemma state_of_same_set:
  assumes "distinct (map entry_tuple es)" "distinct (map entry_tuple fs)" "set es = set fs"
  shows "state_of es = state_of fs"
proof
  show "state_of es t = state_of fs t" for t
    using state_of_distinct [OF assms(1), of t] state_of_distinct [OF assms(2), of t] assms(3)
    by (metis not_None_eq)
qed

lemma strict_by_tuple:
  assumes "sorted_wrt (<) (map entry_tuple es)"
  shows "sorted_wrt (<) es" "distinct (map entry_tuple es)" "sorted (map entry_tuple es)"
    and "state_of es t = Some n \<longleftrightarrow> StateEntry t n \<in> set es"
proof -
  show "sorted_wrt (<) es" using assms by (auto simp: sorted_wrt_map entry_less elim: sorted_wrt_mono_rel [rotated])
  show d: "distinct (map entry_tuple es)" "sorted (map entry_tuple es)" using assms strict_sorted_iff by blast+
  show "state_of es t = Some n \<longleftrightarrow> StateEntry t n \<in> set es" by (rule state_of_distinct [OF d(1)])
qed

text \<open>A list with each tuple once, in order, is determined by the state it describes.\<close>

lemma state_of_inj:
  assumes "sorted_wrt (<) (map entry_tuple es)" "sorted_wrt (<) (map entry_tuple fs)" "state_of es = state_of fs"
  shows "es = fs"
proof -
  have "set es = set fs"
    using strict_by_tuple(4) [OF assms(1)] strict_by_tuple(4) [OF assms(2)] assms(3)
    by (intro set_eqI) (metis StateEntry.exhaust)
  then show ?thesis
    using strict_by_tuple(1) [OF assms(1)] strict_by_tuple(1) [OF assms(2)]
    by (metis sorted_list_of_set.idem_if_sorted_distinct strict_sorted_iff)
qed

end
