(* ===== verification/StateStore.thy ===== *)
theory StateStore
  imports StateEntries Events
begin

text \<open>
  How the room server stores room state: the tables for events, state blocks and state snapshots
  (\<^verbatim>\<open>roomserver/storage/postgres\<close>) and the operations of \<^verbatim>\<open>roomserver/storage/shared/storage.go\<close>
  on them. A block is a sorted list of event NIDs, a snapshot a sorted list of block NIDs; both
  are found again by the hash of their list, so that equal ones are stored once. The hash of a
  list of NIDs (\<^verbatim>\<open>blake2b\<close> of its JSON) is the argument \<open>h\<close>. A query whose rows are all there
  does not fail; a failing database connection is not modelled.
\<close>

section \<open>Tables\<close>

record event_row =
  er_event_id :: string
  er_room_nid :: int
  er_type_nid :: int
  er_state_key_nid :: int
  er_snapshot_nid :: int
  er_is_rejected :: bool
  er_pdu :: PDU

record block_row =
  br_hash :: string
  br_event_nids :: "int list"

record snapshot_row =
  sr_hash :: string
  sr_room_nid :: int
  sr_block_nids :: "int list"

record stateStore =
  db_events :: "(int, event_row) gomap"
  db_blocks :: "(int, block_row) gomap"
  db_snapshots :: "(int, snapshot_row) gomap"
  db_event_types :: "(string, int) gomap"
  db_state_keys :: "(string, int) gomap"
  db_next_state_key :: int
  db_next_block :: int
  db_next_snapshot :: int

type_synonym nid_hash = "int list \<Rightarrow> string"

definition entry_of_row :: "int \<Rightarrow> event_row \<Rightarrow> StateEntry" where
  "entry_of_row nid row = StateEntry (NIDTuple (er_type_nid row) (er_state_key_nid row)) nid"

text \<open>The rows whose key is wanted, in the order of the key.\<close>

definition select_in :: "int list \<Rightarrow> (int, 'row) gomap \<Rightarrow> (int \<times> 'row) list" where
  "select_in nids rows =
     List.map_filter (\<lambda>nid. map_option (Pair nid) (map_of rows nid)) (sorted_list_of_set (set nids))"

text \<open>The key of a row with the given hash.\<close>

definition find_hash :: "('row \<Rightarrow> string) \<Rightarrow> string \<Rightarrow> (int, 'row) gomap \<Rightarrow> int option" where
  "find_hash hash k rows = map_option fst (List.find (\<lambda>(nid, row). hash row = k) rows)"

section \<open>Blocks and snapshots\<close>

definition BulkInsertStateData :: "nid_hash \<Rightarrow> StateEntry list \<Rightarrow> stateStore \<Rightarrow> (int \<times> stateStore) outcome" where
  "BulkInsertStateData h entries0 db =
     and_then (cut (SortAndUnique by_event entries0)) (\<lambda>entries.
       let nids = map EventNID entries; row = \<lparr>br_hash = h nids, br_event_nids = nids\<rparr> in
       case find_hash br_hash (h nids) (db_blocks db) of
         Some nid \<Rightarrow> Ok (nid, db\<lparr>db_blocks := AList.update nid row (db_blocks db)\<rparr>)
       | None \<Rightarrow> Ok (db_next_block db,
           db\<lparr>db_blocks := AList.update (db_next_block db) row (db_blocks db), db_next_block := db_next_block db + 1\<rparr>))"

definition BulkSelectStateBlockEntries :: "int list \<Rightarrow> stateStore \<Rightarrow> int list list outcome" where
  "BulkSelectStateBlockEntries stateBlockNIDs db =
     (let rows = select_in stateBlockNIDs (db_blocks db) in
      if length rows \<noteq> length stateBlockNIDs
      then Err (GoError ''storage: state data NIDs missing from the database (%d != %d)'')
      else Ok (map (\<lambda>(nid, row). br_event_nids row) rows))"

definition InsertState :: "nid_hash \<Rightarrow> int \<Rightarrow> int list \<Rightarrow> stateStore \<Rightarrow> (int \<times> stateStore) outcome" where
  "InsertState h roomNID nids0 db =
     and_then (cut (SortAndUnique (<) nids0)) (\<lambda>nids.
       case find_hash sr_hash (h nids) (db_snapshots db) of
         Some nid \<Rightarrow> Ok (nid, db\<lparr>db_snapshots :=
           AList.map_entry nid (\<lambda>row. row\<lparr>sr_room_nid := roomNID\<rparr>) (db_snapshots db)\<rparr>)
       | None \<Rightarrow> Ok (db_next_snapshot db,
           db\<lparr>db_snapshots := AList.update (db_next_snapshot db)
                \<lparr>sr_hash = h nids, sr_room_nid = roomNID, sr_block_nids = nids\<rparr> (db_snapshots db),
              db_next_snapshot := db_next_snapshot db + 1\<rparr>))"

definition BulkSelectStateBlockNIDs :: "int list \<Rightarrow> stateStore \<Rightarrow> (int \<times> int list) list outcome" where
  "BulkSelectStateBlockNIDs stateNIDs db =
     (let rows = select_in stateNIDs (db_snapshots db) in
      if length rows \<noteq> length stateNIDs
      then Err (GoError ''storage: state NIDs missing from the database (%d != %d)'')
      else Ok (map (\<lambda>(nid, row). (nid, sr_block_nids row)) rows))"

text \<open>
  \<^verbatim>\<open>TypesAndStateKeysAsArrays\<close> passes the types and the state keys of the tuples as two lists, so
  the query keeps the events whose type is in the one and whose key is in the other. They come
  ordered by type and key; the order of events with the same type and key, which the query leaves
  open, is that of their NIDs here.
\<close>

definition row_selected :: "NIDTuple list \<Rightarrow> event_row \<Rightarrow> bool" where
  "row_selected stateKeyTuples row \<longleftrightarrow>
     stateKeyTuples = [] \<or>
     (er_type_nid row \<in> set (map EventTypeNID stateKeyTuples) \<and>
      er_state_key_nid row \<in> set (map EventStateKeyNID stateKeyTuples))"

definition BulkSelectStateEventByNID :: "int list \<Rightarrow> NIDTuple list \<Rightarrow> stateStore \<Rightarrow> StateEntry list" where
  "BulkSelectStateEventByNID eventNIDs stateKeyTuples db =
     sort_Stable by_tuple
       (map (\<lambda>(nid, row). entry_of_row nid row)
         (filter (\<lambda>(nid, row). row_selected stateKeyTuples row) (select_in eventNIDs (db_events db))))"

section \<open>State entries\<close>

text \<open>The lists are paired with the given block NIDs by position.\<close>

definition stateEntriesForTuples :: "int list \<Rightarrow> NIDTuple list \<Rightarrow> stateStore \<Rightarrow> (int \<times> StateEntry list) list outcome" where
  "stateEntriesForTuples stateBlockNIDs stateKeyTuples db =
     and_then (BulkSelectStateBlockEntries stateBlockNIDs db) (\<lambda>entries.
       Ok (map (\<lambda>(blockNID, eventNIDs). (blockNID, BulkSelectStateEventByNID eventNIDs stateKeyTuples db))
         (zip stateBlockNIDs entries)))"

definition stateEntries :: "int list \<Rightarrow> stateStore \<Rightarrow> (int \<times> StateEntry list) list outcome" where
  "stateEntries stateBlockNIDs db = stateEntriesForTuples stateBlockNIDs [] db"

definition stored_already :: "int list list \<Rightarrow> StateEntry \<Rightarrow> bool" where
  "stored_already blocks e \<longleftrightarrow> (\<exists>events \<in> set blocks. EventNID e \<in> set events)"

text \<open>
  \<^verbatim>\<open>addState\<close>: entries whose event is already in one of the blocks are left out; what remains
  becomes one more block.
\<close>

definition addState :: "nid_hash \<Rightarrow> int \<Rightarrow> int list \<Rightarrow> StateEntry list \<Rightarrow> stateStore \<Rightarrow> (int \<times> stateStore) outcome" where
  "addState h roomNID stateBlockNIDs state0 db0 =
     and_then
       (if stateBlockNIDs \<noteq> [] \<and> state0 \<noteq> []
        then and_then (BulkSelectStateBlockEntries stateBlockNIDs db0) (\<lambda>blocks.
          Ok (filter (\<lambda>e. \<not> stored_already blocks e) state0))
        else Ok state0)
       (\<lambda>state.
          if state \<noteq> []
          then and_then (BulkInsertStateData h state db0) (\<lambda>(stateBlockNID, db).
            InsertState h roomNID (stateBlockNIDs @ [stateBlockNID]) db)
          else InsertState h roomNID stateBlockNIDs db0)"

section \<open>Events\<close>

text \<open>
  \<^verbatim>\<open>Events\<close> and \<^verbatim>\<open>EventsFromIDs\<close> return the events in the order of their NIDs (a cache in front of
  the table is not modelled).
\<close>

fun load_events :: "int list \<Rightarrow> stateStore \<Rightarrow> (int \<times> PDU) list outcome" where
  "load_events [] db = Ok []"
| "load_events (nid # nids) db =
     (case map_of (db_events db) nid of
        None \<Rightarrow> Err (GoError ''event %d missing'')
      | Some row \<Rightarrow> and_then (load_events nids db) (\<lambda>rest. Ok ((nid, er_pdu row) # rest)))"

definition Events :: "int list \<Rightarrow> stateStore \<Rightarrow> (int \<times> PDU) list outcome" where
  "Events eventNIDs db = load_events (sort eventNIDs) db"

definition EventsFromIDs :: "string list \<Rightarrow> stateStore \<Rightarrow> (int \<times> PDU) list outcome" where
  "EventsFromIDs eventIDs db = Events (map fst (filter (\<lambda>(nid, row). er_event_id row \<in> set eventIDs) (db_events db))) db"

definition IsEventRejected :: "int \<Rightarrow> string \<Rightarrow> stateStore \<Rightarrow> bool outcome" where
  "IsEventRejected roomNID eventID db =
     (case List.find (\<lambda>(nid, row). er_room_nid row = roomNID \<and> er_event_id row = eventID) (db_events db) of
        None \<Rightarrow> Err (GoError ''sql: no rows in result set'')
      | Some (nid, row) \<Rightarrow> Ok (er_is_rejected row))"

definition SnapshotNIDFromEventID :: "string \<Rightarrow> stateStore \<Rightarrow> int outcome" where
  "SnapshotNIDFromEventID eventID db =
     (case List.find (\<lambda>(nid, row). er_event_id row = eventID) (db_events db) of
        None \<Rightarrow> Err (GoError ''sql: no rows in result set'')
      | Some (nid, row) \<Rightarrow> if er_snapshot_nid row = 0 then Err (GoError ''sql: no rows in result set'')
          else Ok (er_snapshot_nid row))"

definition MRoomCreateNID :: int where "MRoomCreateNID = 1"
definition MRoomPowerLevelsNID :: int where "MRoomPowerLevelsNID = 2"
definition MRoomJoinRulesNID :: int where "MRoomJoinRulesNID = 3"
definition MRoomThirdPartyInviteNID :: int where "MRoomThirdPartyInviteNID = 4"
definition MRoomMemberNID :: int where "MRoomMemberNID = 5"
definition EmptyStateKeyNID :: int where "EmptyStateKeyNID = 1"

definition state_at_row :: "int \<times> event_row \<Rightarrow> StateAtEvent outcome" where
  "state_at_row = (\<lambda>(nid, row).
     if er_snapshot_nid row = 0 \<and> \<not> (er_type_nid row = MRoomCreateNID \<and> er_state_key_nid row = 1)
     then Err (GoError ''storage: missing state for event NID %d'')
     else Ok (StateAtEvent (er_snapshot_nid row) (er_is_rejected row) (entry_of_row nid row)))"

fun states_at_rows :: "(int \<times> event_row) list \<Rightarrow> StateAtEvent list outcome" where
  "states_at_rows [] = Ok []"
| "states_at_rows (r # rs) = and_then (state_at_row r) (\<lambda>s. and_then (states_at_rows rs) (\<lambda>ss. Ok (s # ss)))"

definition StateAtEventIDs :: "string list \<Rightarrow> stateStore \<Rightarrow> StateAtEvent list outcome" where
  "StateAtEventIDs eventIDs db =
     (let rows = filter (\<lambda>(nid, row). er_event_id row \<in> set eventIDs) (db_events db) in
      and_then (states_at_rows rows) (\<lambda>results.
        if length results \<noteq> length eventIDs
        then Err (GoError ''storage: event IDs missing from the database (%d != %d)'')
        else Ok results))"


text \<open>The events of each snapshot, by the snapshot's NID.\<close>

fun group_snapshots :: "(int \<times> event_row) list \<Rightarrow> (int, string list) gomap \<Rightarrow> (int, string list) gomap" where
  "group_snapshots [] result = result"
| "group_snapshots ((nid, row) # rows) result =
     group_snapshots rows (AList.update (er_snapshot_nid row)
       ((case map_of result (er_snapshot_nid row) of None \<Rightarrow> [] | Some l \<Rightarrow> l) @ [er_event_id row]) result)"

definition BulkSelectSnapshotsFromEventIDs :: "string list \<Rightarrow> stateStore \<Rightarrow> (int, string list) gomap" where
  "BulkSelectSnapshotsFromEventIDs eventIDs db =
     group_snapshots (filter (\<lambda>(nid, row). er_event_id row \<in> set eventIDs) (db_events db)) []"

section \<open>Numeric IDs for strings\<close>

text \<open>A cache in front of each table is not modelled. An unknown state key is given the next NID.\<close>

definition eventTypeNIDs :: "string list \<Rightarrow> stateStore \<Rightarrow> (string, int) gomap" where
  "eventTypeNIDs eventTypes db =
     List.map_filter (\<lambda>t. map_option (Pair t) (map_of (db_event_types db) t)) (remdups eventTypes)"

fun assign_state_keys :: "string list \<Rightarrow> stateStore \<Rightarrow> stateStore" where
  "assign_state_keys [] db = db"
| "assign_state_keys (k # ks) db =
     assign_state_keys ks
       (if map_of (db_state_keys db) k = None
        then db\<lparr>db_state_keys := AList.update k (db_next_state_key db) (db_state_keys db),
                db_next_state_key := db_next_state_key db + 1\<rparr>
        else db)"

definition eventStateKeyNIDs :: "string list \<Rightarrow> stateStore \<Rightarrow> (string, int) gomap \<times> stateStore" where
  "eventStateKeyNIDs eventStateKeys db =
     (let ks = UniqueStrings eventStateKeys; db' = assign_state_keys ks db in
      (List.map_filter (\<lambda>k. map_option (Pair k) (map_of (db_state_keys db') k)) ks, db'))"

end
