(* ===== verification/RoomTables.thy ===== *)
theory RoomTables
  imports StateStore
begin

text \<open>
  The remaining tables of the room server that change when an event is stored
  (\<^verbatim>\<open>roomserver/storage/postgres\<close>: rooms, previous events, membership, invites) and their
  statements. All changes of one event are made in a transaction that is rolled back when one of
  them fails, so an outcome carries the new tables only if it is \<open>Ok\<close>.
\<close>

section \<open>Tables\<close>

record room_row =
  rr_latest_event_nids :: "int list"
  rr_last_event_sent_nid :: int
  rr_state_snapshot_nid :: int

datatype MembershipState = MembershipStateLeaveOrBan | MembershipStateInvite | MembershipStateJoin | MembershipStateKnock

record membership_row =
  mr_sender_nid :: int
  mr_membership :: MembershipState
  mr_event_nid :: int
  mr_target_local :: bool
  mr_forgotten :: bool

record invite_row =
  iv_room_nid :: int
  iv_target_nid :: int
  iv_sender_nid :: int
  iv_retired :: bool
  iv_event :: PDU

record roomDB =
  rd_store :: stateStore
  rd_next_event :: int
  rd_sent :: "int list"
  rd_previous_events :: "(string, int list) gomap"
  rd_rooms :: "(int, room_row) gomap"
  rd_memberships :: "(int \<times> int, membership_row) gomap"
  rd_invites :: "(string, invite_row) gomap"

section \<open>Memberships and invites\<close>

definition InsertMembership :: "int \<Rightarrow> int \<Rightarrow> bool \<Rightarrow> roomDB \<Rightarrow> roomDB" where
  "InsertMembership roomNID targetUserNID localTarget db =
     (case map_of (rd_memberships db) (roomNID, targetUserNID) of
        Some _ \<Rightarrow> db
      | None \<Rightarrow> db\<lparr>rd_memberships := AList.update (roomNID, targetUserNID)
          \<lparr>mr_sender_nid = 0, mr_membership = MembershipStateLeaveOrBan, mr_event_nid = 0,
           mr_target_local = localTarget, mr_forgotten = False\<rparr> (rd_memberships db)\<rparr>)"

definition SelectMembershipForUpdate :: "int \<Rightarrow> int \<Rightarrow> roomDB \<Rightarrow> MembershipState outcome" where
  "SelectMembershipForUpdate roomNID targetUserNID db =
     (case map_of (rd_memberships db) (roomNID, targetUserNID) of
        None \<Rightarrow> Err (GoError ''sql: no rows in result set'')
      | Some row \<Rightarrow> Ok (mr_membership row))"

definition UpdateMembership :: "int \<Rightarrow> int \<Rightarrow> int \<Rightarrow> MembershipState \<Rightarrow> int \<Rightarrow> bool \<Rightarrow> roomDB \<Rightarrow> bool \<times> roomDB" where
  "UpdateMembership roomNID targetUserNID senderUserNID membership eventNID forgotten db =
     (map_of (rd_memberships db) (roomNID, targetUserNID) \<noteq> None,
      db\<lparr>rd_memberships := AList.map_entry (roomNID, targetUserNID)
           (\<lambda>row. row\<lparr>mr_sender_nid := senderUserNID, mr_membership := membership, mr_event_nid := eventNID,
                    mr_forgotten := forgotten\<rparr>) (rd_memberships db)\<rparr>)"

definition DeleteMembership :: "int \<Rightarrow> int \<Rightarrow> roomDB \<Rightarrow> roomDB" where
  "DeleteMembership roomNID targetUserNID db =
     db\<lparr>rd_memberships := AList.delete (roomNID, targetUserNID) (rd_memberships db)\<rparr>"

definition InsertInviteEvent :: "string \<Rightarrow> int \<Rightarrow> int \<Rightarrow> int \<Rightarrow> PDU \<Rightarrow> roomDB \<Rightarrow> bool \<times> roomDB" where
  "InsertInviteEvent inviteEventID roomNID targetUserNID senderUserNID event db =
     (case map_of (rd_invites db) inviteEventID of
        Some _ \<Rightarrow> (False, db)
      | None \<Rightarrow> (True, db\<lparr>rd_invites := AList.update inviteEventID
          \<lparr>iv_room_nid = roomNID, iv_target_nid = targetUserNID, iv_sender_nid = senderUserNID, iv_retired = False,
           iv_event = event\<rparr> (rd_invites db)\<rparr>))"

definition invite_active :: "int \<Rightarrow> int \<Rightarrow> invite_row \<Rightarrow> bool" where
  "invite_active roomNID targetUserNID row \<longleftrightarrow>
     iv_room_nid row = roomNID \<and> iv_target_nid row = targetUserNID \<and> \<not> iv_retired row"

definition UpdateInviteRetired :: "int \<Rightarrow> int \<Rightarrow> roomDB \<Rightarrow> string list \<times> roomDB" where
  "UpdateInviteRetired roomNID targetUserNID db =
     (map fst (filter (\<lambda>(_, row). invite_active roomNID targetUserNID row) (rd_invites db)),
      db\<lparr>rd_invites := map (\<lambda>(eid, row).
           (eid, if invite_active roomNID targetUserNID row then row\<lparr>iv_retired := True\<rparr> else row)) (rd_invites db)\<rparr>)"

section \<open>Events and rooms\<close>

definition assignStateKeyNID :: "string \<Rightarrow> stateStore \<Rightarrow> int \<times> stateStore" where
  "assignStateKeyNID eventStateKey db =
     (case map_of (db_state_keys db) eventStateKey of
        Some nid \<Rightarrow> (nid, db)
      | None \<Rightarrow> (db_next_state_key db,
          db\<lparr>db_state_keys := AList.update eventStateKey (db_next_state_key db) (db_state_keys db),
             db_next_state_key := db_next_state_key db + 1\<rparr>))"

text \<open>Which events are referenced, and by which: an entry is made for every ID in \<^verbatim>\<open>prev_events\<close>.\<close>

definition InsertPreviousEvent :: "string \<Rightarrow> int \<Rightarrow> roomDB \<Rightarrow> roomDB" where
  "InsertPreviousEvent previousEventID eventNID db =
     (let nids = (case map_of (rd_previous_events db) previousEventID of None \<Rightarrow> [] | Some l \<Rightarrow> l) in
      if eventNID \<in> set nids then db
      else db\<lparr>rd_previous_events := AList.update previousEventID (nids @ [eventNID]) (rd_previous_events db)\<rparr>)"

definition IsReferenced :: "string \<Rightarrow> roomDB \<Rightarrow> bool" where
  "IsReferenced eventID db \<longleftrightarrow> map_of (rd_previous_events db) eventID \<noteq> None"

text \<open>
  An event that is stored already keeps its NID; it is no longer rejected if it was and is not
  any more.
\<close>

definition InsertEvent :: "int \<Rightarrow> int \<Rightarrow> int \<Rightarrow> PDU \<Rightarrow> bool \<Rightarrow> roomDB \<Rightarrow> int \<times> int \<times> roomDB" where
  "InsertEvent roomNID eventTypeNID eventStateKeyNID event isRejected db =
     (case List.find (\<lambda>(_, row). er_event_id row = EventID event) (db_events (rd_store db)) of
        Some (nid, row) \<Rightarrow> (nid, er_snapshot_nid row,
          if er_is_rejected row
          then db\<lparr>rd_store := (rd_store db)\<lparr>db_events :=
            AList.map_entry nid (\<lambda>r. r\<lparr>er_is_rejected := isRejected\<rparr>) (db_events (rd_store db))\<rparr>\<rparr>
          else db)
      | None \<Rightarrow> (rd_next_event db, 0,
          db\<lparr>rd_next_event := rd_next_event db + 1,
             rd_store := (rd_store db)\<lparr>db_events := db_events (rd_store db) @
               [(rd_next_event db, \<lparr>er_event_id = EventID event, er_room_nid = roomNID, er_type_nid = eventTypeNID,
                  er_state_key_nid = eventStateKeyNID, er_snapshot_nid = 0, er_is_rejected = isRejected, er_pdu = event\<rparr>)]\<rparr>\<rparr>))"

definition StoreEvent :: "PDU \<Rightarrow> int \<Rightarrow> int \<Rightarrow> int \<Rightarrow> bool \<Rightarrow> roomDB \<Rightarrow> int \<times> StateAtEvent \<times> roomDB" where
  "StoreEvent event roomNID eventTypeNID eventStateKeyNID isRejected db =
     (case InsertEvent roomNID eventTypeNID eventStateKeyNID event isRejected db of
        (eventNID, stateNID, db') \<Rightarrow>
          (eventNID, StateAtEvent stateNID False (StateEntry (NIDTuple eventTypeNID eventStateKeyNID) eventNID),
           fold (\<lambda>eventID. InsertPreviousEvent eventID eventNID) (PrevEventIDs event) db'))"

definition SetState :: "int \<Rightarrow> int \<Rightarrow> roomDB \<Rightarrow> roomDB" where
  "SetState eventNID stateNID db =
     db\<lparr>rd_store := (rd_store db)\<lparr>db_events :=
       AList.map_entry eventNID (\<lambda>r. r\<lparr>er_snapshot_nid := stateNID\<rparr>) (db_events (rd_store db))\<rparr>\<rparr>"

definition HasEventBeenSent :: "int \<Rightarrow> roomDB \<Rightarrow> bool outcome" where
  "HasEventBeenSent eventNID db =
     (if map_of (db_events (rd_store db)) eventNID = None then Err (GoError ''sql: no rows in result set'')
      else Ok (eventNID \<in> set (rd_sent db)))"

definition MarkEventAsSent :: "int \<Rightarrow> roomDB \<Rightarrow> roomDB" where
  "MarkEventAsSent eventNID db = db\<lparr>rd_sent := List.insert eventNID (rd_sent db)\<rparr>"

definition UpdateLatestEventNIDs :: "int \<Rightarrow> int list \<Rightarrow> int \<Rightarrow> int \<Rightarrow> roomDB \<Rightarrow> roomDB" where
  "UpdateLatestEventNIDs roomNID eventNIDs lastEventSentNID stateSnapshotNID db =
     db\<lparr>rd_rooms := AList.map_entry roomNID
       (\<lambda>_. \<lparr>rr_latest_event_nids = eventNIDs, rr_last_event_sent_nid = lastEventSentNID,
             rr_state_snapshot_nid = stateSnapshotNID\<rparr>) (rd_rooms db)\<rparr>"

definition BulkSelectEventID :: "int list \<Rightarrow> stateStore \<Rightarrow> (int, string) gomap outcome" where
  "BulkSelectEventID eventNIDs db =
     (let rows = select_in eventNIDs (db_events db) in
      if length rows \<noteq> length eventNIDs
      then Err (GoError ''storage: event NIDs missing from the database (%d != %d)'')
      else Ok (map (\<lambda>(nid, row). (nid, er_event_id row)) rows))"

end
