(* ===== verification/RoomState.thy ===== *)
theory RoomState
  imports StateStore
begin

text \<open>
  The state of a room before and after events (\<^verbatim>\<open>roomserver/state/state.go\<close>): loading and
  combining stored state, comparing two states and
  loading parts of it. Calculating the state after events is in \<open>RoomStateCalc\<close>. Errors of the
  database are the ones of its tables; tracing is left out.
\<close>

section \<open>Loading state\<close>

text \<open>The entries of a snapshot's blocks, in order; a block that is not there is a corrupt database.\<close>

fun collect_blocks :: "(int \<times> StateEntry list) list \<Rightarrow> int list \<Rightarrow> StateEntry list outcome" where
  "collect_blocks entriesMap [] = Ok []"
| "collect_blocks entriesMap (b # bs) =
     (case stateEntryListMap_lookup entriesMap b of
        None \<Rightarrow> Panic
      | Some entries \<Rightarrow> and_then (collect_blocks entriesMap bs) (\<lambda>rest. Ok (entries @ rest)))"

definition LoadStateAtSnapshot :: "int \<Rightarrow> stateStore \<Rightarrow> StateEntry list outcome" where
  "LoadStateAtSnapshot stateNID db =
     and_then (BulkSelectStateBlockNIDs [stateNID] db) (\<lambda>rows.
       case rows of [] \<Rightarrow> Panic
       | (_, blockNIDs) # _ \<Rightarrow>
           and_then (stateEntries blockNIDs db) (\<lambda>entriesMap.
           and_then (collect_blocks entriesMap blockNIDs) combine))"

definition LoadStateAtEvent :: "string \<Rightarrow> stateStore \<Rightarrow> StateEntry list outcome" where
  "LoadStateAtEvent eventID db =
     (case SnapshotNIDFromEventID eventID db of
        Panic \<Rightarrow> Panic
      | Err _ \<Rightarrow> Err (GoError ''LoadStateAtEvent.SnapshotNIDFromEventID failed for event %s : %w'')
      | Ok snapshotNID \<Rightarrow>
          if snapshotNID = 0
          then Err (GoError ''LoadStateAtEvent.SnapshotNIDFromEventID(%s) returned 0 NID, was this event stored?'')
          else LoadStateAtSnapshot snapshotNID db)"

definition LoadStateAtEventForHistoryVisibility :: "string \<Rightarrow> stateStore \<Rightarrow> StateEntry list outcome" where
  "LoadStateAtEventForHistoryVisibility eventID db = LoadStateAtEvent eventID db"

definition append_entries :: "StateEntry list \<Rightarrow> string \<Rightarrow> (string, StateEntry list) gomap \<Rightarrow> (string, StateEntry list) gomap" where
  "append_entries entries evID result =
     AList.update evID ((case map_of result evID of None \<Rightarrow> [] | Some l \<Rightarrow> l) @ entries) result"

fun membership_blocks :: "(int \<times> StateEntry list) list \<Rightarrow> string list \<Rightarrow> int list \<Rightarrow> (string, StateEntry list) gomap
    \<Rightarrow> (string, StateEntry list) gomap outcome" where
  "membership_blocks entriesMap evIDs [] result = Ok result"
| "membership_blocks entriesMap evIDs (b # bs) result =
     (case stateEntryListMap_lookup entriesMap b of
        None \<Rightarrow> Err (GoError ''corrupt DB: Missing state block numeric ID %d'')
      | Some entries \<Rightarrow> membership_blocks entriesMap evIDs bs (fold (append_entries entries) evIDs result))"

fun membership_snapshots :: "(int, string list) gomap \<Rightarrow> (int \<times> int list) list \<Rightarrow> (int \<times> StateEntry list) list
    \<Rightarrow> (int \<times> int list) list \<Rightarrow> (string, StateEntry list) gomap \<Rightarrow> (string, StateEntry list) gomap outcome" where
  "membership_snapshots snapshotNIDMap blockNIDsMap entriesMap [] result = Ok result"
| "membership_snapshots snapshotNIDMap blockNIDsMap entriesMap ((nid, _) # rows) result =
     (case stateBlockNIDListMap_lookup blockNIDsMap nid of
        None \<Rightarrow> Err (GoError ''corrupt DB: Missing state snapshot numeric ID %d'')
      | Some blockNIDs \<Rightarrow>
          and_then (membership_blocks entriesMap (case map_of snapshotNIDMap nid of None \<Rightarrow> [] | Some l \<Rightarrow> l) blockNIDs result)
            (membership_snapshots snapshotNIDMap blockNIDsMap entriesMap rows))"

definition LoadMembershipAtEvent :: "string list \<Rightarrow> int \<Rightarrow> stateStore \<Rightarrow> (string, StateEntry list) gomap outcome" where
  "LoadMembershipAtEvent eventIDs stateKeyNID db =
     (let snapshotNIDMap = BulkSelectSnapshotsFromEventIDs eventIDs db in
      and_then (BulkSelectStateBlockNIDs (keys snapshotNIDMap) db) (\<lambda>rows.
      and_then (cut (SortAndUnique (<) (concat (map snd rows)))) (\<lambda>wanted.
      and_then (stateEntriesForTuples wanted [NIDTuple MRoomMemberNID stateKeyNID] db) (\<lambda>entriesMap.
        membership_snapshots snapshotNIDMap rows entriesMap rows []))))"

text \<open>The state after one event: the state before it, and the event itself if it is a state event that was not rejected.\<close>

definition state_after :: "(int \<times> int list) list \<Rightarrow> (int \<times> StateEntry list) list \<Rightarrow> StateAtEvent \<Rightarrow> StateEntry list outcome" where
  "state_after blockNIDsMap entriesMap prevState =
     (case stateBlockNIDListMap_lookup blockNIDsMap (BeforeStateSnapshotNID prevState) of
        None \<Rightarrow> Panic
      | Some blockNIDs \<Rightarrow>
          and_then (collect_blocks entriesMap blockNIDs) (\<lambda>fullState.
            combine (if IsStateEvent prevState \<and> \<not> IsRejected prevState then fullState @ [sae_entry prevState] else fullState)))"

fun states_after :: "(int \<times> int list) list \<Rightarrow> (int \<times> StateEntry list) list \<Rightarrow> StateAtEvent list \<Rightarrow> StateEntry list outcome" where
  "states_after blockNIDsMap entriesMap [] = Ok []"
| "states_after blockNIDsMap entriesMap (p # ps) =
     and_then (state_after blockNIDsMap entriesMap p) (\<lambda>fullState.
       and_then (states_after blockNIDsMap entriesMap ps) (\<lambda>rest. Ok (fullState @ rest)))"

definition LoadCombinedStateAfterEvents :: "StateAtEvent list \<Rightarrow> stateStore \<Rightarrow> StateEntry list outcome" where
  "LoadCombinedStateAfterEvents prevStates db =
     and_then (cut (SortAndUnique (<) (map BeforeStateSnapshotNID prevStates))) (\<lambda>stateNIDs.
     and_then (BulkSelectStateBlockNIDs stateNIDs db) (\<lambda>rows.
     and_then (cut (SortAndUnique (<) (concat (map snd rows)))) (\<lambda>blockNIDs.
     and_then (stateEntries blockNIDs db) (\<lambda>entriesMap.
       states_after rows entriesMap prevStates))))"

section \<open>Comparing states\<close>

definition load_unless_zero :: "int \<Rightarrow> stateStore \<Rightarrow> StateEntry list outcome" where
  "load_unless_zero stateNID db = (if stateNID \<noteq> 0 then LoadStateAtSnapshot stateNID db else Ok [])"

definition DifferenceBetweeenStateSnapshots :: "int \<Rightarrow> int \<Rightarrow> stateStore \<Rightarrow> (StateEntry list \<times> StateEntry list) outcome" where
  "DifferenceBetweeenStateSnapshots oldStateNID newStateNID db =
     (if oldStateNID = newStateNID then Ok ([], [])
      else and_then (load_unless_zero oldStateNID db) (\<lambda>oldEntries.
           and_then (load_unless_zero newStateNID db) (\<lambda>newEntries.
             Ok (difference_loop oldEntries newEntries [] []))))"

section \<open>Loading some tuples only\<close>

fun numeric_tuples :: "(string, int) gomap \<Rightarrow> (string, int) gomap \<Rightarrow> StateKeyTuple list \<Rightarrow> NIDTuple list" where
  "numeric_tuples eventTypeMap stateKeyMap [] = []"
| "numeric_tuples eventTypeMap stateKeyMap ((t, k) # tuples) =
     (case (map_of eventTypeMap t, map_of stateKeyMap k) of
        (Some tn, Some kn) \<Rightarrow> NIDTuple tn kn # numeric_tuples eventTypeMap stateKeyMap tuples
      | _ \<Rightarrow> numeric_tuples eventTypeMap stateKeyMap tuples)"

definition stringTuplesToNumericTuples :: "StateKeyTuple list \<Rightarrow> stateStore \<Rightarrow> NIDTuple list \<times> stateStore" where
  "stringTuplesToNumericTuples stringTuples db =
     (case eventStateKeyNIDs (UniqueStrings (map snd stringTuples)) db of
        (stateKeyMap, db') \<Rightarrow>
          (numeric_tuples (eventTypeNIDs (UniqueStrings (map fst stringTuples)) db) stateKeyMap stringTuples, db'))"

text \<open>Here a block that is not there is skipped.\<close>

definition collect_some :: "(int \<times> StateEntry list) list \<Rightarrow> int list \<Rightarrow> StateEntry list" where
  "collect_some entriesMap blockNIDs = concat (List.map_filter (stateEntryListMap_lookup entriesMap) blockNIDs)"

definition loadStateAtSnapshotForNumericTuples :: "int \<Rightarrow> NIDTuple list \<Rightarrow> stateStore \<Rightarrow> StateEntry list outcome" where
  "loadStateAtSnapshotForNumericTuples stateNID stateKeyTuples db =
     and_then (BulkSelectStateBlockNIDs [stateNID] db) (\<lambda>rows.
       case rows of [] \<Rightarrow> Panic
       | (_, blockNIDs) # _ \<Rightarrow>
           and_then (stateEntriesForTuples blockNIDs stateKeyTuples db) (\<lambda>entriesMap.
             combine (collect_some entriesMap blockNIDs)))"

definition LoadStateAtSnapshotForStringTuples :: "int \<Rightarrow> StateKeyTuple list \<Rightarrow> stateStore
    \<Rightarrow> (StateEntry list \<times> stateStore) outcome" where
  "LoadStateAtSnapshotForStringTuples stateNID stateKeyTuples db =
     (case stringTuplesToNumericTuples stateKeyTuples db of (numericTuples, db') \<Rightarrow>
        and_then (loadStateAtSnapshotForNumericTuples stateNID numericTuples db') (\<lambda>es. Ok (es, db')))"

end
