(* ===== verification/RoomStateCalc.thy ===== *)
theory RoomStateCalc
  imports RoomState StateResV1
begin

text \<open>
  Calculating the state of a room after events (\<^verbatim>\<open>roomserver/state/state.go\<close>): the cheap cases,
  in which a snapshot is reused or extended by one block, and the general one, in which the
  states after several events are merged and conflicts between them are resolved.

  What the model of state resolution takes as arguments (map orders, fuel, SHA-1, the signature
  check, the user lookup) is collected in a record. Metrics and tracing are left out.
\<close>

record resolution_env =
  env_rng :: "string range_order"
  env_rng3 :: "StateKeyTuple range_order"
  env_fuel :: nat
  env_sha1 :: "string \<Rightarrow> string"
  env_edv :: ed25519_verifier
  env_q :: UserIDForSender

record RoomInfo =
  ri_RoomNID :: int
  ri_RoomVersion :: RoomVersion

record StateResolution =
  v_db :: stateStore
  v_roomInfo :: "RoomInfo option"
  v_events :: "(int, PDU) gomap"

definition NewStateResolution :: "stateStore \<Rightarrow> RoomInfo option \<Rightarrow> StateResolution" where
  "NewStateResolution db roomInfo = \<lparr>v_db = db, v_roomInfo = roomInfo, v_events = []\<rparr>"

section \<open>Loading the events of entries\<close>

definition eventMap_lookup :: "(int \<times> PDU) list \<Rightarrow> int \<Rightarrow> PDU option" where
  "eventMap_lookup m eventNID = map_option snd (search_by fst eventNID m)"

fun load_entries :: "(int \<times> PDU) list \<Rightarrow> StateEntry list \<Rightarrow> PDU list \<Rightarrow> (string, StateEntry) gomap \<Rightarrow> (int, PDU) gomap
    \<Rightarrow> (PDU list \<times> (string, StateEntry) gomap \<times> (int, PDU) gomap) outcome" where
  "load_entries events [] result eventIDMap cache = Ok (result, eventIDMap, cache)"
| "load_entries events (entry # entries) result eventIDMap cache =
     (case eventMap_lookup events (EventNID entry) of
        None \<Rightarrow> Panic
      | Some pdu \<Rightarrow> load_entries events entries (result @ [pdu]) (AList.update (EventID pdu) entry eventIDMap)
          (AList.update (EventNID entry) pdu cache))"

text \<open>Events that are in \<^verbatim>\<open>v.events\<close> already come first, and are not entered in the returned map.\<close>

definition loadStateEvents :: "StateEntry list \<Rightarrow> StateResolution
    \<Rightarrow> (PDU list \<times> (string, StateEntry) gomap \<times> StateResolution) outcome" where
  "loadStateEvents entries v =
     (let cached = List.map_filter (\<lambda>e. map_of (v_events v) (EventNID e)) entries;
          eventEntries = filter (\<lambda>e. map_of (v_events v) (EventNID e) = None) entries in
      case v_roomInfo v of
        None \<Rightarrow> Err (GoError ''room info is invalid'')
      | Some _ \<Rightarrow>
          and_then (Events (map EventNID eventEntries) (v_db v)) (\<lambda>events.
          and_then (load_entries events eventEntries cached [] (v_events v)) (\<lambda>(result, eventIDMap, cache).
            Ok (result, eventIDMap, v\<lparr>v_events := cache\<rparr>))))"

section \<open>The auth events of an event\<close>

record auth_loader =
  al_authEvents :: "(int \<times> PDU) list"
  al_included :: "string list"
  al_eventMap :: "(string, int \<times> PDU) gomap"
  al_add :: "string list"

text \<open>What is done with one event that was looked up.\<close>

definition include_event :: "int \<times> PDU \<Rightarrow> auth_loader \<Rightarrow> auth_loader" where
  "include_event ev l =
     (let included = List.insert (EventID (snd ev)) (al_included l);
          more = filter (\<lambda>k. k \<notin> set included) (AuthEventIDs (snd ev)) in
      l\<lparr>al_authEvents := al_authEvents l @ [ev], al_included := included, al_add := fold List.insert more (al_add l)\<rparr>)"

fun auth_loop :: "string range_order \<Rightarrow> nat \<Rightarrow> stateStore \<Rightarrow> nat \<Rightarrow> string list \<Rightarrow> auth_loader
    \<Rightarrow> auth_loader outcome option" where
  "auth_loop rng 0 db i queue l = None"
| "auth_loop rng (Suc n) db i queue l =
     (if i < length queue
      then
        let todo = filter (\<lambda>k. k \<notin> set (al_included l)) queue;
            fromMem = filter (\<lambda>k. map_of (al_eventMap l) k \<noteq> None) todo;
            fromDB = filter (\<lambda>k. map_of (al_eventMap l) k = None) todo in
        if todo = [] then Some (Ok l)
        else run_then (Some (if fromDB \<noteq> [] then EventsFromIDs fromDB db else Ok [])) (\<lambda>eventsFromDB.
          let eventMap = fold (\<lambda>ev m. AList.update (EventID (snd ev)) ev m) eventsFromDB (al_eventMap l);
              lookedUp = eventsFromDB @ List.map_filter (map_of eventMap) fromMem;
              l' = fold include_event lookedUp (l\<lparr>al_eventMap := eventMap, al_add := []\<rparr>) in
          auth_loop rng n db (Suc i) (queue @ rng (40 + i) (al_add l')) l')
      else Some (Ok l))"

fun state_keys_of :: "(int \<times> PDU) list \<Rightarrow> string list outcome" where
  "state_keys_of [] = Ok []"
| "state_keys_of ((nid, pdu) # evs) = and_then (deref (StateKey pdu)) (\<lambda>k. and_then (state_keys_of evs) (\<lambda>ks. Ok (k # ks)))"

definition zero_nid :: "(string, int) gomap \<Rightarrow> string \<Rightarrow> int" where
  "zero_nid m k = (case map_of m k of None \<Rightarrow> 0 | Some n \<Rightarrow> n)"

text \<open>The entries of the auth events, by event ID.\<close>

definition auth_entries :: "(string, int) gomap \<Rightarrow> (string, int) gomap \<Rightarrow> (int \<times> PDU) list \<Rightarrow> string list
    \<Rightarrow> (string, StateEntry) gomap" where
  "auth_entries eventTypes eventStateKeys authEvents stateKeys =
     fold (\<lambda>((nid, pdu), k) m. AList.update (EventID pdu)
        (StateEntry (NIDTuple (zero_nid eventTypes (EventType pdu)) (zero_nid eventStateKeys k)) nid) m)
       (zip authEvents stateKeys) []"

definition loadAuthEvents :: "resolution_env \<Rightarrow> PDU \<Rightarrow> (string, int \<times> PDU) gomap \<Rightarrow> StateResolution
    \<Rightarrow> (PDU list \<times> (string, StateEntry) gomap \<times> (string, int \<times> PDU) gomap \<times> StateResolution) outcome option" where
  "loadAuthEvents env event eventMap v =
     run_then (auth_loop (env_rng env) (env_fuel env) (v_db v) 0 (AuthEventIDs event)
         \<lparr>al_authEvents = [], al_included = [], al_eventMap = eventMap, al_add = []\<rparr>) (\<lambda>l.
     run_then (Some (state_keys_of (al_authEvents l))) (\<lambda>stateKeys.
       case eventStateKeyNIDs stateKeys (v_db v) of (eventStateKeys, db') \<Rightarrow>
         let eventTypes = eventTypeNIDs (map (EventType \<circ> snd) (al_authEvents l)) (v_db v) in
         Some (Ok (map snd (al_authEvents l), auth_entries eventTypes eventStateKeys (al_authEvents l) stateKeys,
                   al_eventMap l, v\<lparr>v_db := db'\<rparr>))))"

text \<open>The auth events of all conflicted events, each once, and the entries of them all.\<close>

definition add_missing :: "PDU list \<Rightarrow> PDU list \<Rightarrow> PDU list" where
  "add_missing authSet authEvents =
     fold (\<lambda>e acc. if EventID e \<in> EventID ` set acc then acc else acc @ [e]) authSet authEvents"

fun load_auth_sets :: "resolution_env \<Rightarrow> PDU list \<Rightarrow> (string, int \<times> PDU) gomap \<Rightarrow> PDU list \<Rightarrow> (string, StateEntry) gomap
    \<Rightarrow> StateResolution \<Rightarrow> (PDU list \<times> (string, StateEntry) gomap \<times> StateResolution) outcome option" where
  "load_auth_sets env [] known authEvents eventIDMap v = Some (Ok (authEvents, eventIDMap, v))"
| "load_auth_sets env (e # es) known authEvents eventIDMap v =
     run_then (loadAuthEvents env e known v) (\<lambda>(authSet, authEventMap, known', v').
       load_auth_sets env es known' (add_missing authSet authEvents) (AList.updates (map fst authEventMap) (map snd authEventMap) eventIDMap) v')"

section \<open>Conflicts\<close>

definition stateKeyTuplesNeeded :: "(string, int) gomap \<Rightarrow> StateNeeded \<Rightarrow> NIDTuple list" where
  "stateKeyTuplesNeeded stateKeyNIDMap needed =
     (if sn_Create needed then [NIDTuple MRoomCreateNID EmptyStateKeyNID] else []) @
     (if sn_PowerLevels needed then [NIDTuple MRoomPowerLevelsNID EmptyStateKeyNID] else []) @
     (if sn_JoinRules needed then [NIDTuple MRoomJoinRulesNID EmptyStateKeyNID] else []) @
     map (NIDTuple MRoomMemberNID) (List.map_filter (map_of stateKeyNIDMap) (sn_Member needed)) @
     map (NIDTuple MRoomThirdPartyInviteNID) (List.map_filter (map_of stateKeyNIDMap) (sn_ThirdPartyInvite needed))"

text \<open>From the resolved events back to entries; an event without one is \<open>missing\<close>.\<close>

fun entries_of_events :: "StateEntry list outcome \<Rightarrow> (string, StateEntry) gomap \<Rightarrow> PDU list \<Rightarrow> StateEntry list outcome" where
  "entries_of_events missing eventIDMap [] = Ok []"
| "entries_of_events missing eventIDMap (e # es) =
     (case map_of eventIDMap (EventID e) of
        None \<Rightarrow> missing
      | Some entry \<Rightarrow> and_then (entries_of_events missing eventIDMap es) (\<lambda>rest. Ok (entry # rest)))"

definition lookup_entries :: "StateEntry list \<Rightarrow> NIDTuple list \<Rightarrow> StateEntry list" where
  "lookup_entries m tuples =
     List.map_filter (\<lambda>t. map_option (StateEntry t) (stateEntryMap_lookup m t)) tuples"

definition resolveConflictsV1 :: "resolution_env \<Rightarrow> StateEntry list \<Rightarrow> StateEntry list \<Rightarrow> StateResolution
    \<Rightarrow> (StateEntry list \<times> StateResolution) outcome" where
  "resolveConflictsV1 env notConflicted conflicted v0 =
     and_then (loadStateEvents conflicted v0) (\<lambda>(conflictedEvents, eventIDMap, v1).
     let needed = StateNeededForAuth conflictedEvents in
     case eventStateKeyNIDs (sn_Member needed @ sn_ThirdPartyInvite needed) (v_db v1) of (stateKeyNIDMap, db2) \<Rightarrow>
     let v2 = v1\<lparr>v_db := db2\<rparr>;
         authEntries = lookup_entries notConflicted (stateKeyTuplesNeeded stateKeyNIDMap needed) in
     and_then (loadStateEvents authEntries v2) (\<lambda>(authEvents, _, v3).
     and_then (ResolveStateConflicts (env_sha1 env) (env_edv env) conflictedEvents authEvents (env_q env)) (\<lambda>resolvedEvents.
     and_then (entries_of_events Panic eventIDMap resolvedEvents) (\<lambda>entries.
       Ok (sort_Stable StateEntry_LessThan (notConflicted @ entries), v3)))))"

definition rejected_fn :: "StateResolution \<Rightarrow> string \<Rightarrow> bool" where
  "rejected_fn v eventID =
     (case v_roomInfo v of None \<Rightarrow> True
      | Some info \<Rightarrow> (case IsEventRejected (ri_RoomNID info) eventID (v_db v) of Ok b \<Rightarrow> b | _ \<Rightarrow> True))"

definition resolveConflictsV2 :: "resolution_env \<Rightarrow> StateEntry list \<Rightarrow> StateEntry list \<Rightarrow> StateResolution
    \<Rightarrow> (StateEntry list \<times> StateResolution) outcome option" where
  "resolveConflictsV2 env notConflicted conflicted v0 =
     run_then (Some (loadStateEvents conflicted v0)) (\<lambda>(conflictedEvents, map1, v1).
     run_then (Some (loadStateEvents notConflicted v1)) (\<lambda>(nonConflictedEvents, map2, v2).
     let eventIDMap = AList.updates (map fst map2) (map snd map2) map1 in
     run_then (load_auth_sets env conflictedEvents [] [] eventIDMap v2) (\<lambda>(authEvents, eventIDMap', v3).
     run_then (ResolveStateConflictsV2 (env_rng env) (env_rng3 env) (env_fuel env) (env_edv env)
                 conflictedEvents nonConflictedEvents authEvents (env_q env) (rejected_fn v3)) (\<lambda>resolvedEvents.
     run_then (Some (entries_of_events (Err (GoError ''missing state entry for event ID %q'')) eventIDMap' resolvedEvents))
       (\<lambda>entries. Some (Ok (sort_Stable StateEntry_LessThan (notConflicted @ entries), v3)))))))"

definition resolveConflicts :: "resolution_env \<Rightarrow> RoomVersion \<Rightarrow> StateEntry list \<Rightarrow> StateEntry list \<Rightarrow> StateResolution
    \<Rightarrow> (StateEntry list \<times> StateResolution) outcome option" where
  "resolveConflicts env version notConflicted conflicted v =
     run_then (Some (GetRoomVersion version)) (\<lambda>verImpl.
       case stateResAlgorithm verImpl of
         StateResV1 \<Rightarrow> Some (resolveConflictsV1 env notConflicted conflicted v)
       | StateResV2 \<Rightarrow> resolveConflictsV2 env notConflicted conflicted v)"

section \<open>The state after events\<close>

definition calculateStateAfterManyEvents :: "resolution_env \<Rightarrow> RoomVersion \<Rightarrow> StateAtEvent list \<Rightarrow> StateResolution
    \<Rightarrow> (StateEntry list \<times> StateResolution) outcome option" where
  "calculateStateAfterManyEvents env roomVersion prevStates v =
     run_then (Some (LoadCombinedStateAfterEvents prevStates (v_db v))) (\<lambda>loaded.
     run_then (Some (cut (SortAndUnique StateEntry_LessThan loaded))) (\<lambda>combined.
     let conflicts = findDuplicateStateKeys combined in
     if conflicts \<noteq> []
     then resolveConflicts env roomVersion
       (filter (\<lambda>e. stateEntryMap_lookup conflicts (entry_tuple e) = None) combined) conflicts v
     else Some (Ok (combined, v))))"

definition calculateAndStoreStateAfterManyEvents :: "resolution_env \<Rightarrow> nid_hash \<Rightarrow> RoomInfo \<Rightarrow> StateAtEvent list \<Rightarrow> StateResolution
    \<Rightarrow> (int \<times> StateResolution) outcome option" where
  "calculateAndStoreStateAfterManyEvents env h info prevStates v =
     run_then (calculateStateAfterManyEvents env (ri_RoomVersion info) prevStates v) (\<lambda>(state, v').
     run_then (Some (addState h (ri_RoomNID info) [] state (v_db v'))) (\<lambda>(nid, db). Some (Ok (nid, v'\<lparr>v_db := db\<rparr>))))"

definition maxStateBlockNIDs :: nat where
  "maxStateBlockNIDs = 64"

definition store_state :: "nid_hash \<Rightarrow> RoomInfo \<Rightarrow> int list \<Rightarrow> StateEntry list \<Rightarrow> StateResolution
    \<Rightarrow> (int \<times> StateResolution) outcome option" where
  "store_state h info blockNIDs state v =
     run_then (Some (addState h (ri_RoomNID info) blockNIDs state (v_db v))) (\<lambda>(nid, db). Some (Ok (nid, v\<lparr>v_db := db\<rparr>)))"

text \<open>\<^verbatim>\<open>v.roomInfo\<close> is dereferenced when state has to be stored.\<close>

definition CalculateAndStoreStateAfterEvents :: "resolution_env \<Rightarrow> nid_hash \<Rightarrow> StateAtEvent list \<Rightarrow> StateResolution
    \<Rightarrow> (int \<times> StateResolution) outcome option" where
  "CalculateAndStoreStateAfterEvents env h prevStates v =
     (let many = run_then (Some (deref (v_roomInfo v))) (\<lambda>info. calculateAndStoreStateAfterManyEvents env h info prevStates v) in
      case prevStates of
        [] \<Rightarrow> run_then (Some (deref (v_roomInfo v))) (\<lambda>info. store_state h info [] [] v)
      | [prevState] \<Rightarrow>
          if EventStateKeyNID (entry_tuple (sae_entry prevState)) = 0 \<or> IsRejected prevState
          then Some (Ok (BeforeStateSnapshotNID prevState, v))
          else run_then (Some (BulkSelectStateBlockNIDs [BeforeStateSnapshotNID prevState] (v_db v))) (\<lambda>rows.
            case rows of [] \<Rightarrow> Some Panic
            | (_, blockNIDs) # _ \<Rightarrow>
                if length blockNIDs < maxStateBlockNIDs
                then run_then (Some (deref (v_roomInfo v))) (\<lambda>info. store_state h info blockNIDs [sae_entry prevState] v)
                else many)
      | _ \<Rightarrow> many)"

definition CalculateAndStoreStateBeforeEvent :: "resolution_env \<Rightarrow> nid_hash \<Rightarrow> PDU \<Rightarrow> StateResolution
    \<Rightarrow> (int \<times> StateResolution) outcome option" where
  "CalculateAndStoreStateBeforeEvent env h event v =
     run_then (Some (StateAtEventIDs (PrevEventIDs event) (v_db v))) (\<lambda>prevStates.
       CalculateAndStoreStateAfterEvents env h prevStates v)"

section \<open>Some tuples after events\<close>

text \<open>The fast path for one event replaces, or appends, the event's own entry.\<close>

definition set_entry :: "StateEntry \<Rightarrow> StateEntry list \<Rightarrow> StateEntry list" where
  "set_entry e result =
     (let result' = map (\<lambda>x. if entry_tuple x = entry_tuple e then e else x) result in
      if entry_tuple e \<in> entry_tuple ` set result then result' else result' @ [e])"

definition loadStateAfterEventsForNumericTuples :: "resolution_env \<Rightarrow> StateAtEvent list \<Rightarrow> NIDTuple list \<Rightarrow> StateResolution
    \<Rightarrow> (StateEntry list \<times> StateResolution) outcome option" where
  "loadStateAfterEventsForNumericTuples env prevStates stateKeyTuples v =
     (case prevStates of
        [prevState] \<Rightarrow>
          run_then (Some (loadStateAtSnapshotForNumericTuples (BeforeStateSnapshotNID prevState) stateKeyTuples (v_db v)))
            (\<lambda>result. Some (Ok (if IsStateEvent prevState then set_entry (sae_entry prevState) result else result, v)))
      | _ \<Rightarrow>
          run_then (Some (deref (v_roomInfo v))) (\<lambda>info.
          run_then (calculateStateAfterManyEvents env (ri_RoomVersion info) prevStates v) (\<lambda>(fullState, v').
            Some (Ok (sort_Stable StateEntry_LessThan
              (lookup_entries (sort_Stable StateEntry_LessThan fullState) stateKeyTuples), v')))))"

definition LoadStateAfterEventsForStringTuples :: "resolution_env \<Rightarrow> StateAtEvent list \<Rightarrow> StateKeyTuple list \<Rightarrow> StateResolution
    \<Rightarrow> (StateEntry list \<times> StateResolution) outcome option" where
  "LoadStateAfterEventsForStringTuples env prevStates stateKeyTuples v =
     (case stringTuplesToNumericTuples stateKeyTuples (v_db v) of (numericTuples, db') \<Rightarrow>
        loadStateAfterEventsForNumericTuples env prevStates numericTuples (v\<lparr>v_db := db'\<rparr>))"

section \<open>Power levels at an event\<close>

definition PowerLevels_of :: "PDU \<Rightarrow> PowerLevelContent outcome" where
  "PowerLevels_of e =
     (if \<not> StateKeyEquals e [] then Err (GoError ''gomatrixserverlib: PowerLevels() event is not a m.room.power_levels event, bad state key'')
      else NewPowerLevelContentFromEvent e)"

definition Resolve :: "string \<Rightarrow> StateResolution \<Rightarrow> PowerLevelContent outcome" where
  "Resolve eventID v =
     and_then (LoadStateAtEvent eventID (v_db v)) (\<lambda>entries.
       case List.find (\<lambda>e. entry_tuple e = NIDTuple MRoomPowerLevelsNID EmptyStateKeyNID) entries of
         None \<Rightarrow> Err (GoError ''unable to find power level event'')
       | Some entry \<Rightarrow>
           if EventNID entry = 0 then Err (GoError ''unable to find power level event'')
           else (case v_roomInfo v of
               None \<Rightarrow> Err (GoError ''room info is invalid'')
             | Some _ \<Rightarrow> and_then (Events [EventNID entry] (v_db v)) (\<lambda>events.
                 case events of [] \<Rightarrow> Err (GoError ''unable to find power level event'')
                 | (_, pdu) # _ \<Rightarrow> PowerLevels_of pdu)))"

end
