(* ===== verification/Memberships.thy ===== *)
theory Memberships
  imports RoomTables RoomStateCalc
begin

text \<open>
  Keeping the membership and invite tables in step with the current state of a room:
  \<^verbatim>\<open>roomserver/storage/shared/membership_updater.go\<close>, \<^verbatim>\<open>roomserver/internal/input/input_membership.go\<close>
  and \<^verbatim>\<open>UpdateToInviteMembership\<close> of \<^verbatim>\<open>roomserver/internal/helpers/helpers.go\<close>.
\<close>

section \<open>What is sent to other components\<close>

record OutputRetireInviteEvent =
  ori_EventID :: string
  ori_RoomID :: RoomID
  ori_Membership :: string
  ori_RetiredByEventID :: string
  ori_TargetSenderID :: string

record OutputNewRoomEvent =
  ore_Event :: PDU
  ore_RewritesState :: bool
  ore_LastSentEventID :: string
  ore_LatestEventIDs :: "string list"
  ore_AddsStateEventIDs :: "string list"
  ore_RemovesStateEventIDs :: "string list"
  ore_StateBeforeRemovesEventIDs :: "string list"
  ore_StateBeforeAddsEventIDs :: "string list"

datatype OutputEvent =
    NewInviteEvent PDU RoomVersion
  | RetireInviteEvent OutputRetireInviteEvent
  | NewRoomEvent OutputNewRoomEvent

section \<open>The membership updater\<close>

record MembershipUpdater =
  mu_roomNID :: int
  mu_targetUserNID :: int
  mu_oldMembership :: MembershipState

definition membershipUpdaterTxn :: "int \<Rightarrow> int \<Rightarrow> bool \<Rightarrow> roomDB \<Rightarrow> (MembershipUpdater \<times> roomDB) outcome" where
  "membershipUpdaterTxn roomNID targetUserNID targetLocal db =
     (let db' = InsertMembership roomNID targetUserNID targetLocal db in
      and_then (SelectMembershipForUpdate roomNID targetUserNID db') (\<lambda>membership.
        Ok (\<lparr>mu_roomNID = roomNID, mu_targetUserNID = targetUserNID, mu_oldMembership = membership\<rparr>, db')))"

definition Delete :: "MembershipUpdater \<Rightarrow> roomDB \<Rightarrow> roomDB" where
  "Delete u db =
     DeleteMembership (mu_roomNID u) (mu_targetUserNID u) (snd (UpdateInviteRetired (mu_roomNID u) (mu_targetUserNID u) db))"

text \<open>
  The results are what the closure passed to \<^verbatim>\<open>Writer.Do\<close> has assigned to them. A nil event panics.
\<close>

definition Update :: "MembershipUpdater \<Rightarrow> MembershipState \<Rightarrow> (int \<times> PDU) option \<Rightarrow> roomDB
    \<Rightarrow> (bool \<times> string list \<times> roomDB) outcome" where
  "Update u newMembership event db =
     and_then (deref event) (\<lambda>(eventNID, pdu).
       case assignStateKeyNID (SenderID pdu) (rd_store db) of (senderUserNID, store) \<Rightarrow>
       case UpdateMembership (mu_roomNID u) (mu_targetUserNID u) senderUserNID newMembership eventNID False
           (db\<lparr>rd_store := store\<rparr>) of (inserted, db1) \<Rightarrow>
         if \<not> inserted then Ok (False, [], db1)
         else if mu_oldMembership u \<noteq> MembershipStateInvite \<and> newMembership = MembershipStateInvite
         then (case InsertInviteEvent (EventID pdu) (mu_roomNID u) (mu_targetUserNID u) senderUserNID pdu db1 of
                 (inserted', db2) \<Rightarrow> Ok (inserted', [], db2))
         else if mu_oldMembership u = MembershipStateInvite \<and> newMembership \<noteq> MembershipStateInvite
         then (case UpdateInviteRetired (mu_roomNID u) (mu_targetUserNID u) db1 of
                 (retired, db2) \<Rightarrow> Ok (True, retired, db2))
         else Ok (True, [], db1))"

section \<open>Membership changes\<close>

fun retire_events :: "string list \<Rightarrow> string \<Rightarrow> PDU \<Rightarrow> OutputEvent list outcome" where
  "retire_events [] membership add = Ok []"
| "retire_events (eventID # retired) membership add =
     and_then (deref (StateKey add)) (\<lambda>target.
     and_then (retire_events retired membership add) (\<lambda>rest.
       Ok (RetireInviteEvent \<lparr>ori_EventID = eventID, ori_RoomID = EventRoomID add, ori_Membership = membership,
             ori_RetiredByEventID = EventID add, ori_TargetSenderID = target\<rparr> # rest)))"

definition UpdateToInviteMembership :: "MembershipUpdater \<Rightarrow> (int \<times> PDU) option \<Rightarrow> OutputEvent list \<Rightarrow> RoomVersion \<Rightarrow> roomDB
    \<Rightarrow> (OutputEvent list \<times> roomDB) outcome" where
  "UpdateToInviteMembership mu add updates roomVersion db =
     and_then (Update mu MembershipStateInvite add db) (\<lambda>(needsSending, retired, db').
     and_then (deref add) (\<lambda>(_, pdu).
     and_then (retire_events retired Join pdu) (\<lambda>retires.
       Ok (updates @ (if needsSending then [NewInviteEvent pdu roomVersion] else []) @ retires, db'))))"

definition updateToJoinMembership :: "MembershipUpdater \<Rightarrow> (int \<times> PDU) option \<Rightarrow> OutputEvent list \<Rightarrow> roomDB
    \<Rightarrow> (OutputEvent list \<times> roomDB) outcome" where
  "updateToJoinMembership mu add updates db =
     and_then (Update mu MembershipStateJoin add db) (\<lambda>(_, retired, db').
     and_then (deref add) (\<lambda>(_, pdu).
     and_then (retire_events retired Join pdu) (\<lambda>retires. Ok (updates @ retires, db'))))"

definition updateToLeaveMembership :: "MembershipUpdater \<Rightarrow> (int \<times> PDU) option \<Rightarrow> string \<Rightarrow> OutputEvent list \<Rightarrow> roomDB
    \<Rightarrow> (OutputEvent list \<times> roomDB) outcome" where
  "updateToLeaveMembership mu add newMembership updates db =
     and_then (Update mu MembershipStateLeaveOrBan add db) (\<lambda>(_, retired, db').
     and_then (deref add) (\<lambda>(_, pdu).
     and_then (retire_events retired newMembership pdu) (\<lambda>retires. Ok (updates @ retires, db'))))"

definition updateToKnockMembership :: "MembershipUpdater \<Rightarrow> (int \<times> PDU) option \<Rightarrow> OutputEvent list \<Rightarrow> roomDB
    \<Rightarrow> (OutputEvent list \<times> roomDB) outcome" where
  "updateToKnockMembership mu add updates db =
     and_then (Update mu MembershipStateKnock add db) (\<lambda>(_, _, db'). Ok (updates, db'))"

definition isLocalTarget :: "UserIDForSender \<Rightarrow> string \<Rightarrow> PDU \<Rightarrow> bool outcome" where
  "isLocalTarget q serverName event =
     (case StateKey event of None \<Rightarrow> Ok False
      | Some statekey \<Rightarrow>
          (case q (EventRoomID event) statekey of
             Panic \<Rightarrow> Panic | Err _ \<Rightarrow> Ok False | Ok None \<Rightarrow> Ok False
           | Ok (Some u) \<Rightarrow> Ok (user_domain u = serverName)))"

text \<open>
  If an entry is removed and none added, the row is deleted, and the result is \<^verbatim>\<open>nil\<close> in place of
  the updates so far.
\<close>

definition updateMembership :: "UserIDForSender \<Rightarrow> string \<Rightarrow> RoomInfo \<Rightarrow> int \<Rightarrow> (int \<times> PDU) option \<Rightarrow> (int \<times> PDU) option
    \<Rightarrow> OutputEvent list \<Rightarrow> roomDB \<Rightarrow> (OutputEvent list \<times> roomDB) outcome" where
  "updateMembership q serverName info targetUserNID remove add updates db =
     and_then (case add of None \<Rightarrow> Ok Leave | Some (_, pdu) \<Rightarrow> Membership pdu) (\<lambda>newMembership.
     and_then (case add of None \<Rightarrow> Ok False | Some (_, pdu) \<Rightarrow> isLocalTarget q serverName pdu) (\<lambda>targetLocal.
     and_then (membershipUpdaterTxn (ri_RoomNID info) targetUserNID targetLocal db) (\<lambda>(mu, db').
       if add = None \<and> remove \<noteq> None then Ok ([], Delete mu db')
       else if newMembership = Invite then UpdateToInviteMembership mu add updates (ri_RoomVersion info) db'
       else if newMembership = Join then updateToJoinMembership mu add updates db'
       else if newMembership = Leave \<or> newMembership = Ban then updateToLeaveMembership mu add newMembership updates db'
       else if newMembership = Knock then updateToKnockMembership mu add updates db'
       else Panic)))"

section \<open>Changes of the current state\<close>

record stateChange =
  sc_tuple :: NIDTuple
  sc_removedEventNID :: int
  sc_addedEventNID :: int

definition pair_added :: "StateEntry \<Rightarrow> (NIDTuple, stateChange) gomap \<Rightarrow> (NIDTuple, stateChange) gomap" where
  "pair_added add tuples =
     AList.update (entry_tuple add)
       (case map_of tuples (entry_tuple add) of
          Some change \<Rightarrow> change\<lparr>sc_addedEventNID := EventNID add\<rparr>
        | None \<Rightarrow> \<lparr>sc_tuple = entry_tuple add, sc_removedEventNID = 0, sc_addedEventNID = EventNID add\<rparr>) tuples"

definition pair_removed :: "StateEntry \<Rightarrow> (NIDTuple, stateChange) gomap \<Rightarrow> (NIDTuple, stateChange) gomap" where
  "pair_removed remove tuples =
     AList.update (entry_tuple remove)
       (case map_of tuples (entry_tuple remove) of
          Some change \<Rightarrow> change\<lparr>sc_removedEventNID := EventNID remove\<rparr>
        | None \<Rightarrow> \<lparr>sc_tuple = entry_tuple remove, sc_removedEventNID = EventNID remove, sc_addedEventNID = 0\<rparr>) tuples"

definition pairUpChanges :: "NIDTuple range_order \<Rightarrow> StateEntry list \<Rightarrow> StateEntry list \<Rightarrow> stateChange list" where
  "pairUpChanges rng removed added =
     (let tuples = fold pair_removed removed (fold pair_added added []) in
      List.map_filter (map_of tuples) (rng 60 (keys tuples)))"

definition membershipChanges :: "NIDTuple range_order \<Rightarrow> StateEntry list \<Rightarrow> StateEntry list \<Rightarrow> stateChange list" where
  "membershipChanges rng removed added =
     filter (\<lambda>c. EventTypeNID (sc_tuple c) = MRoomMemberNID) (pairUpChanges rng removed added)"

definition change_event :: "(int \<times> PDU) list \<Rightarrow> int \<Rightarrow> (int \<times> PDU) option" where
  "change_event events nid = (if nid = 0 then None else map_option (Pair nid) (eventMap_lookup events nid))"

fun update_memberships_loop :: "UserIDForSender \<Rightarrow> string \<Rightarrow> RoomInfo \<Rightarrow> (int \<times> PDU) list \<Rightarrow> stateChange list \<Rightarrow> OutputEvent list
    \<Rightarrow> roomDB \<Rightarrow> (OutputEvent list \<times> roomDB) outcome" where
  "update_memberships_loop q serverName info events [] updates db = Ok (updates, db)"
| "update_memberships_loop q serverName info events (change # changes) updates db =
     and_then (updateMembership q serverName info (EventStateKeyNID (sc_tuple change))
         (change_event events (sc_removedEventNID change)) (change_event events (sc_addedEventNID change)) updates db)
       (\<lambda>(updates', db'). update_memberships_loop q serverName info events changes updates' db')"

definition changed_nids :: "stateChange list \<Rightarrow> int list" where
  "changed_nids changes =
     concat (map (\<lambda>c. (if sc_addedEventNID c \<noteq> 0 then [sc_addedEventNID c] else []) @
                      (if sc_removedEventNID c \<noteq> 0 then [sc_removedEventNID c] else [])) changes)"

definition updateMemberships :: "NIDTuple range_order \<Rightarrow> UserIDForSender \<Rightarrow> string \<Rightarrow> RoomInfo \<Rightarrow> StateEntry list \<Rightarrow> StateEntry list
    \<Rightarrow> roomDB \<Rightarrow> (OutputEvent list \<times> roomDB) outcome" where
  "updateMemberships rng q serverName info removed added db =
     (let changes = membershipChanges rng removed added in
      and_then (Events (changed_nids changes) (rd_store db)) (\<lambda>events.
        update_memberships_loop q serverName info events changes [] db))"

end
