(* ===== verification/LatestEvents.thy ===== *)
theory LatestEvents
  imports Memberships
begin

text \<open>
  The forward extremities of a room (\<^verbatim>\<open>roomserver/internal/input/input_latest_events.go\<close>) and
  the updater they are read from (\<^verbatim>\<open>roomserver/storage/shared/room_updater.go\<close>). For a new event
  the latest events are calculated, from them the current state of the room, its difference to the
  state before, the changed memberships, and what is sent to other components; then the event is
  marked as sent. All this is one transaction: an error leaves the tables as they were. Sending
  (\<^verbatim>\<open>ProduceRoomEvents\<close>) is the list of output events in the result. Warnings are left out.
\<close>

section \<open>The updater\<close>

record StateAtEventAndReference =
  sar_state :: StateAtEvent
  sar_EventID :: string

record RoomUpdater =
  ru_roomInfo :: RoomInfo
  ru_latestEvents :: "StateAtEventAndReference list"
  ru_lastEventIDSent :: string
  ru_currentStateSnapshotNID :: int

text \<open>The rows of the given NIDs; the order the query leaves open is that of the NIDs here.\<close>

definition BulkSelectStateAtEventAndReference :: "int list \<Rightarrow> stateStore \<Rightarrow> StateAtEventAndReference list outcome" where
  "BulkSelectStateAtEventAndReference eventNIDs db =
     (let rows = select_in eventNIDs (db_events db) in
      if length rows \<noteq> length eventNIDs
      then Err (GoError ''storage: event NIDs missing from the database (%d != %d)'')
      else Ok (map (\<lambda>(nid, row). \<lparr>sar_state = StateAtEvent (er_snapshot_nid row) False (entry_of_row nid row),
                                  sar_EventID = er_event_id row\<rparr>) rows))"

definition NewRoomUpdater :: "RoomInfo \<Rightarrow> roomDB \<Rightarrow> RoomUpdater outcome" where
  "NewRoomUpdater info db =
     (case map_of (rd_rooms db) (ri_RoomNID info) of
        None \<Rightarrow> Err (GoError ''sql: no rows in result set'')
      | Some room \<Rightarrow>
          and_then (BulkSelectStateAtEventAndReference (rr_latest_event_nids room) (rd_store db)) (\<lambda>stateAndRefs.
          and_then (if rr_last_event_sent_nid room = 0 then Ok []
                    else (case map_of (db_events (rd_store db)) (rr_last_event_sent_nid room) of
                            None \<Rightarrow> Err (GoError ''sql: no rows in result set'')
                          | Some row \<Rightarrow> Ok (er_event_id row))) (\<lambda>lastEventIDSent.
            Ok \<lparr>ru_roomInfo = info, ru_latestEvents = stateAndRefs, ru_lastEventIDSent = lastEventIDSent,
                ru_currentStateSnapshotNID = rr_state_snapshot_nid room\<rparr>)))"

definition SetLatestEvents :: "int \<Rightarrow> StateAtEventAndReference list \<Rightarrow> int \<Rightarrow> int \<Rightarrow> roomDB \<Rightarrow> roomDB outcome" where
  "SetLatestEvents roomNID latest lastEventNIDSent currentStateSnapshotNID db =
     (if latest = [] then Err (GoError ''cannot set latest events with no latest event references'')
      else if currentStateSnapshotNID = 0 then Err (GoError ''cannot set latest events with invalid state snapshot NID'')
      else if lastEventNIDSent = 0 then Err (GoError ''cannot set latest events with invalid latest event NID'')
      else Ok (UpdateLatestEventNIDs roomNID (map (EventNID \<circ> sae_entry \<circ> sar_state) latest) lastEventNIDSent
             currentStateSnapshotNID db))"

section \<open>The latest events\<close>

text \<open>What the model takes as arguments: map orders, the environment of state resolution, the hash, the server name.\<close>

record input_env =
  ie_refs :: "string range_order"
  ie_tuples :: "NIDTuple range_order"
  ie_resolution :: resolution_env
  ie_hash :: nid_hash
  ie_serverName :: string

record latestEventsUpdater =
  u_updater :: RoomUpdater
  u_roomInfo :: RoomInfo
  u_stateAtEvent :: StateAtEvent
  u_event :: PDU
  u_rewritesState :: bool
  u_oldLatest :: "StateAtEventAndReference list"
  u_latest :: "StateAtEventAndReference list"
  u_removed :: "StateEntry list"
  u_added :: "StateEntry list"
  u_stateBeforeEventRemoves :: "StateEntry list"
  u_stateBeforeEventAdds :: "StateEntry list"
  u_oldStateNID :: int
  u_newStateNID :: int

text \<open>The existing references, by event ID; a later one replaces an earlier one with the same ID.\<close>

definition existing_refs :: "StateAtEventAndReference list \<Rightarrow> (string, StateAtEventAndReference) gomap" where
  "existing_refs oldLatest = fold (\<lambda>old m. AList.update (sar_EventID old) old m) oldLatest []"

definition calculateLatest :: "string range_order \<Rightarrow> StateAtEventAndReference list \<Rightarrow> PDU \<Rightarrow> StateAtEventAndReference \<Rightarrow> roomDB
    \<Rightarrow> StateAtEventAndReference list \<times> bool" where
  "calculateLatest rng oldLatest newEvent newStateAndRef db =
     (let existingRefs = existing_refs oldLatest in
      if map_of existingRefs (EventID newEvent) \<noteq> None then (oldLatest, False)
      else if IsReferenced (EventID newEvent) db then (oldLatest, False)
      else
        let unreferenced = filter (\<lambda>(k, l). \<not> IsReferenced (sar_EventID l) db) existingRefs;
            remaining = fold AList.delete (PrevEventIDs newEvent) unreferenced in
        (newStateAndRef # List.map_filter (map_of remaining) (rng 70 (keys remaining)), True))"

section \<open>The current state\<close>

definition state_nids :: "StateAtEventAndReference list \<Rightarrow> int list outcome" where
  "state_nids latest = cut (SortAndUnique (<) (map (BeforeStateSnapshotNID \<circ> sar_state) latest))"

definition state_changed :: "latestEventsUpdater \<Rightarrow> bool outcome" where
  "state_changed u =
     (if IsStateEvent (u_stateAtEvent u) then Ok True
      else and_then (state_nids (u_oldLatest u)) (\<lambda>oldStateNIDs.
           and_then (state_nids (u_latest u)) (\<lambda>newStateNIDs. Ok (oldStateNIDs \<noteq> newStateNIDs))))"

definition latestState :: "input_env \<Rightarrow> latestEventsUpdater \<Rightarrow> roomDB \<Rightarrow> (latestEventsUpdater \<times> roomDB) outcome option" where
  "latestState env u db =
     run_then (Some (state_changed u)) (\<lambda>changed.
     if \<not> changed then Some (Ok (u\<lparr>u_newStateNID := u_oldStateNID u\<rparr>, db))
     else
       run_then (CalculateAndStoreStateAfterEvents (ie_resolution env) (ie_hash env) (map sar_state (u_latest u))
           (NewStateResolution (rd_store db) (Some (u_roomInfo u)))) (\<lambda>(newStateNID, v).
       run_then (Some (if u_rewritesState u
                 then and_then (LoadStateAtSnapshot newStateNID (v_db v)) (\<lambda>es. Ok ([], es))
                 else DifferenceBetweeenStateSnapshots (u_oldStateNID u) newStateNID (v_db v))) (\<lambda>(removed, added).
       run_then (Some (DifferenceBetweeenStateSnapshots newStateNID (BeforeStateSnapshotNID (u_stateAtEvent u)) (v_db v)))
         (\<lambda>(beforeRemoves, beforeAdds).
         Some (Ok (u\<lparr>u_newStateNID := newStateNID, u_removed := removed, u_added := added,
                    u_stateBeforeEventRemoves := beforeRemoves, u_stateBeforeEventAdds := beforeAdds\<rparr>,
                  db\<lparr>rd_store := v_db v\<rparr>))))))"

section \<open>The output\<close>

definition stateEventMap :: "latestEventsUpdater \<Rightarrow> roomDB \<Rightarrow> (int, string) gomap outcome" where
  "stateEventMap u db =
     and_then (cut (SortAndUnique (<) (map EventNID
         (u_added u @ u_removed u @ u_stateBeforeEventRemoves u @ u_stateBeforeEventAdds u)))) (\<lambda>nids.
       BulkSelectEventID nids (rd_store db))"

definition ids_of :: "(int, string) gomap \<Rightarrow> StateEntry list \<Rightarrow> string list" where
  "ids_of eventIDMap entries = map (\<lambda>e. case map_of eventIDMap (EventNID e) of None \<Rightarrow> [] | Some eid \<Rightarrow> eid) entries"

definition makeOutputNewRoomEvent :: "latestEventsUpdater \<Rightarrow> roomDB \<Rightarrow> OutputEvent outcome" where
  "makeOutputNewRoomEvent u db =
     and_then (stateEventMap u db) (\<lambda>eventIDMap.
       Ok (NewRoomEvent
         \<lparr>ore_Event = u_event u, ore_RewritesState = u_rewritesState u,
          ore_LastSentEventID = ru_lastEventIDSent (u_updater u),
          ore_LatestEventIDs = map sar_EventID (u_latest u),
          ore_AddsStateEventIDs = ids_of eventIDMap (u_added u),
          ore_RemovesStateEventIDs = ids_of eventIDMap (u_removed u),
          ore_StateBeforeRemovesEventIDs = ids_of eventIDMap (u_stateBeforeEventRemoves u),
          ore_StateBeforeAddsEventIDs = ids_of eventIDMap (u_stateBeforeEventAdds u)\<rparr>))"

section \<open>Updating\<close>

definition doUpdateLatestEvents :: "input_env \<Rightarrow> latestEventsUpdater \<Rightarrow> roomDB \<Rightarrow> (OutputEvent list \<times> roomDB) outcome option" where
  "doUpdateLatestEvents env u0 db =
     (let u1 = (if u_rewritesState u0 then u0\<lparr>u_oldLatest := []\<rparr>
                else u0\<lparr>u_oldStateNID := ru_currentStateSnapshotNID (u_updater u0), u_oldLatest := ru_latestEvents (u_updater u0)\<rparr>);
          eventNID = EventNID (sae_entry (u_stateAtEvent u1)) in
      run_then (Some (HasEventBeenSent eventNID db)) (\<lambda>hasBeenSent.
      if hasBeenSent then Some (Ok ([], db))
      else (case calculateLatest (ie_refs env) (u_oldLatest u1) (u_event u1)
               \<lparr>sar_state = u_stateAtEvent u1, sar_EventID = EventID (u_event u1)\<rparr> db of (latest, extremitiesChanged) \<Rightarrow>
        let u2 = u1\<lparr>u_latest := latest\<rparr> in
        run_then (if extremitiesChanged \<or> u_rewritesState u2
                  then run_then (latestState env u2 db) (\<lambda>(u, db').
                       run_then (Some (updateMemberships (ie_tuples env) (env_q (ie_resolution env)) (ie_serverName env)
                           (u_roomInfo u) (u_removed u) (u_added u) db')) (\<lambda>(updates, db''). Some (Ok (u, updates, db''))))
                  else Some (Ok (u2\<lparr>u_newStateNID := u_oldStateNID u2\<rparr>, [], db))) (\<lambda>(u3, updates, db1).
        run_then (Some (SetLatestEvents (ri_RoomNID (u_roomInfo u3)) (u_latest u3) eventNID (u_newStateNID u3) db1)) (\<lambda>db2.
        run_then (Some (makeOutputNewRoomEvent u3 db2)) (\<lambda>update.
          Some (Ok (updates @ [update], MarkEventAsSent eventNID db2))))))))"

definition updateLatestEvents :: "input_env \<Rightarrow> RoomInfo \<Rightarrow> StateAtEvent \<Rightarrow> PDU \<Rightarrow> bool \<Rightarrow> roomDB
    \<Rightarrow> (OutputEvent list \<times> roomDB) outcome option" where
  "updateLatestEvents env roomInfo stateAtEvent event rewritesState db =
     run_then (Some (NewRoomUpdater roomInfo db)) (\<lambda>updater.
       doUpdateLatestEvents env
         \<lparr>u_updater = updater, u_roomInfo = roomInfo, u_stateAtEvent = stateAtEvent, u_event = event,
          u_rewritesState = rewritesState, u_oldLatest = [], u_latest = [], u_removed = [], u_added = [],
          u_stateBeforeEventRemoves = [], u_stateBeforeEventAdds = [], u_oldStateNID = 0, u_newStateNID = 0\<rparr> db)"

end
