(* ===== verification/RoomState_Correct.thy ===== *)
theory RoomState_Correct
  imports RoomState Samples
begin

text \<open>
  Stored room state refines a partial map from state key tuples to events: loading a snapshot
  gives the map of its blocks, later blocks replacing earlier ones; storing more state on top of
  a snapshot updates the map; comparing two snapshots gives the difference of their maps.
\<close>

declare map_of_eq_Some_iff [simp del] Some_eq_map_of_iff [simp del]

section \<open>The state of blocks and snapshots\<close>

definition block_state :: "stateStore \<Rightarrow> int \<Rightarrow> (NIDTuple, int) map" where
  "block_state db b =
     (case map_of (db_blocks db) b of
        None \<Rightarrow> Map.empty
      | Some row \<Rightarrow> state_of (BulkSelectStateEventByNID (br_event_nids row) [] db))"

fun blocks_state :: "stateStore \<Rightarrow> int list \<Rightarrow> (NIDTuple, int) map" where
  "blocks_state db [] = Map.empty"
| "blocks_state db (b # bs) = block_state db b ++ blocks_state db bs"

definition snapshot_state :: "stateStore \<Rightarrow> int \<Rightarrow> (NIDTuple, int) map" where
  "snapshot_state db nid =
     (case map_of (db_snapshots db) nid of None \<Rightarrow> Map.empty | Some row \<Rightarrow> blocks_state db (sr_block_nids row))"

lemma blocks_state_append [simp]: "blocks_state db (bs @ cs) = blocks_state db bs ++ blocks_state db cs"
  by (induction bs) auto

text \<open>What the tables keep to: sorted lists of rows that exist, found under their hash.\<close>

definition block_ok :: "nid_hash \<Rightarrow> stateStore \<Rightarrow> block_row \<Rightarrow> bool" where
  "block_ok h db row \<longleftrightarrow>
     br_hash row = h (br_event_nids row) \<and> sorted_wrt (<) (br_event_nids row) \<and>
     (\<forall>n \<in> set (br_event_nids row). map_of (db_events db) n \<noteq> None)"

definition snapshot_ok :: "nid_hash \<Rightarrow> stateStore \<Rightarrow> snapshot_row \<Rightarrow> bool" where
  "snapshot_ok h db row \<longleftrightarrow>
     sr_hash row = h (sr_block_nids row) \<and> sorted_wrt (<) (sr_block_nids row) \<and>
     (\<forall>b \<in> set (sr_block_nids row). map_of (db_blocks db) b \<noteq> None)"

definition store_ok :: "nid_hash \<Rightarrow> stateStore \<Rightarrow> bool" where
  "store_ok h db \<longleftrightarrow>
     distinct (keys (db_blocks db)) \<and> distinct (keys (db_snapshots db)) \<and>
     (\<forall>nid row. map_of (db_blocks db) nid = Some row \<longrightarrow> 0 < nid \<and> nid < db_next_block db \<and> block_ok h db row) \<and>
     (\<forall>nid row. map_of (db_snapshots db) nid = Some row \<longrightarrow> 0 < nid \<and> nid < db_next_snapshot db \<and> snapshot_ok h db row) \<and>
     0 < db_next_block db \<and> 0 < db_next_snapshot db"

lemma store_ok_block: "store_ok h db \<Longrightarrow> map_of (db_blocks db) nid = Some row \<Longrightarrow> 0 < nid \<and> nid < db_next_block db \<and> block_ok h db row"
  by (simp add: store_ok_def)

lemma store_ok_snapshot:
  "store_ok h db \<Longrightarrow> map_of (db_snapshots db) nid = Some row \<Longrightarrow> 0 < nid \<and> nid < db_next_snapshot db \<and> snapshot_ok h db row"
  by (simp add: store_ok_def)

section \<open>Loading\<close>

lemma strict_sorted_set: "sorted_wrt (<) (xs :: 'a::linorder list) \<Longrightarrow> sorted_list_of_set (set xs) = xs"
  by (metis sorted_list_of_set.idem_if_sorted_distinct strict_sorted_iff)

lemma select_in_all:
  assumes "sorted_wrt (<) nids" "\<forall>n \<in> set nids. map_of rows n \<noteq> None"
  shows "select_in nids rows = map (\<lambda>n. (n, the (map_of rows n))) nids"
proof -
  have "List.map_filter (\<lambda>n. map_option (Pair n) (map_of rows n)) ns = map (\<lambda>n. (n, the (map_of rows n))) ns"
    if "\<forall>n \<in> set ns. map_of rows n \<noteq> None" for ns
    using that by (induction ns) (auto simp: List.map_filter_simps)
  then show ?thesis using assms by (simp add: select_in_def strict_sorted_set)
qed

lemma select_blocks:
  assumes "sorted_wrt (<) bs" "\<forall>b \<in> set bs. map_of (db_blocks db) b \<noteq> None"
  shows "BulkSelectStateBlockEntries bs db = Ok (map (\<lambda>b. br_event_nids (the (map_of (db_blocks db) b))) bs)"
  by (simp add: BulkSelectStateBlockEntries_def Let_def select_in_all [OF assms] comp_def)

lemma entries_of_blocks:
  assumes "sorted_wrt (<) bs" "\<forall>b \<in> set bs. map_of (db_blocks db) b \<noteq> None"
  shows "stateEntriesForTuples bs ts db =
    Ok (map (\<lambda>b. (b, BulkSelectStateEventByNID (br_event_nids (the (map_of (db_blocks db) b))) ts db)) bs)"
proof -
  have "map (\<lambda>(b, nids). (b, BulkSelectStateEventByNID nids ts db)) (zip bs (map f bs)) =
      map (\<lambda>b. (b, BulkSelectStateEventByNID (f b) ts db)) bs" for f by (induction bs) auto
  then show ?thesis by (simp add: stateEntriesForTuples_def select_blocks [OF assms])
qed

lemma lookup_in_map:
  assumes "sorted_wrt (<) bs" "b \<in> set bs"
  shows "stateEntryListMap_lookup (map (\<lambda>b. (b, f b)) bs) b = Some (f b)"
proof -
  have "sorted (map fst (map (\<lambda>b. (b, f b)) bs))" "distinct bs" using assms(1) strict_sorted_iff by (auto simp: comp_def)
  moreover have "map_of (map (\<lambda>b. (b, f b)) bs) b = Some (f b)" using assms(2) by (simp add: map_of_map_restrict)
  ultimately show ?thesis
    by (simp only: stateEntryListMap_lookup_def search_by_eq find_fst)
qed

lemma collect_blocks_eq:
  assumes "sorted_wrt (<) bs" "set cs \<subseteq> set bs"
  shows "collect_blocks (map (\<lambda>b. (b, f b)) bs) cs = Ok (concat (map f cs))"
  using assms(2) by (induction cs) (simp_all add: lookup_in_map [OF assms(1)])

lemma state_of_blocks:
  assumes "\<forall>b \<in> set bs. map_of (db_blocks db) b \<noteq> None"
  shows "state_of (concat (map (\<lambda>b. BulkSelectStateEventByNID (br_event_nids (the (map_of (db_blocks db) b))) [] db) bs)) =
    blocks_state db bs"
  using assms by (induction bs) (auto simp: block_state_def)

lemma load_snapshot:
  assumes "store_ok h db" "map_of (db_snapshots db) nid = Some row"
  obtains es where "LoadStateAtSnapshot nid db = Ok es" "sorted_wrt (<) (map entry_tuple es)"
    "state_of es = snapshot_state db nid"
proof -
  have ok: "snapshot_ok h db row" using store_ok_snapshot [OF assms] by simp
  let ?f = "\<lambda>b. BulkSelectStateEventByNID (br_event_nids (the (map_of (db_blocks db) b))) [] db"
  let ?bs = "sr_block_nids row"
  have bs: "sorted_wrt (<) ?bs" "\<forall>b \<in> set ?bs. map_of (db_blocks db) b \<noteq> None" using ok by (simp_all add: snapshot_ok_def)
  have one: "BulkSelectStateBlockNIDs [nid] db = Ok [(nid, ?bs)]"
    using assms(2) by (simp add: BulkSelectStateBlockNIDs_def select_in_def List.map_filter_simps)
  obtain es where es: "combine (concat (map ?f ?bs)) = Ok es" "sorted_wrt (<) (map entry_tuple es)"
      "state_of es = state_of (concat (map ?f ?bs))"
    using combine_Ok [of "concat (map ?f ?bs)"] by metis
  have "LoadStateAtSnapshot nid db = Ok es"
    by (simp add: LoadStateAtSnapshot_def one stateEntries_def entries_of_blocks [OF bs] collect_blocks_eq [OF bs(1)] es(1))
  moreover have "state_of es = snapshot_state db nid"
    by (simp add: es(3) state_of_blocks [OF bs(2)] snapshot_state_def assms(2))
  ultimately show ?thesis using that es(2) by blast
qed

text \<open>
  C12. Loading a stored snapshot succeeds and returns its state, in order and each tuple once: the
  entries are those of the map in which each block of the snapshot overrides the ones before it.
\<close>

theorem LoadStateAtSnapshot_refines:
  assumes "store_ok h db" "map_of (db_snapshots db) nid = Some row"
  shows "\<exists>es. LoadStateAtSnapshot nid db = Ok es \<and> sorted_wrt (<) (map entry_tuple es) \<and>
    (\<forall>t n. StateEntry t n \<in> set es \<longleftrightarrow> blocks_state db (sr_block_nids row) t = Some n)"
  using load_snapshot [OF assms] strict_by_tuple(4) assms(2) by (metis (no_types, lifting) option.simps(5) snapshot_state_def)

lemma load_snapshot_missing: "map_of (db_snapshots db) nid = None \<Longrightarrow> \<exists>e. LoadStateAtSnapshot nid db = Err e"
  by (simp add: LoadStateAtSnapshot_def BulkSelectStateBlockNIDs_def select_in_def List.map_filter_simps)

section \<open>Comparing\<close>

definition known_snapshot :: "stateStore \<Rightarrow> int \<Rightarrow> bool" where
  "known_snapshot db nid \<longleftrightarrow> nid = 0 \<or> map_of (db_snapshots db) nid \<noteq> None"

lemma load_known:
  assumes "store_ok h db" "known_snapshot db nid"
  obtains es where "load_unless_zero nid db = Ok es" "sorted_wrt (<) (map entry_tuple es)" "state_of es = snapshot_state db nid"
proof (cases "nid = 0")
  case True
  have "map_of (db_snapshots db) 0 = None"
    using store_ok_snapshot [OF assms(1), of 0] by (cases "map_of (db_snapshots db) 0") auto
  then have "snapshot_state db nid = Map.empty" using True by (simp add: snapshot_state_def)
  then show ?thesis using that [of "[]"] True by (simp add: load_unless_zero_def)
next
  case False
  then obtain row where "map_of (db_snapshots db) nid = Some row" using assms(2) by (auto simp: known_snapshot_def)
  then show ?thesis using load_snapshot [OF assms(1)] that False unfolding load_unless_zero_def by metis
qed

lemma snapshot_difference:
  assumes "store_ok h db" "known_snapshot db old" "known_snapshot db new"
  shows "\<exists>removed added. DifferenceBetweeenStateSnapshots old new db = Ok (removed, added) \<and>
    sorted_wrt (<) removed \<and> sorted_wrt (<) added \<and>
    (\<forall>t n. StateEntry t n \<in> set removed \<longleftrightarrow> snapshot_state db old t = Some n \<and> snapshot_state db new t \<noteq> Some n) \<and>
    (\<forall>t n. StateEntry t n \<in> set added \<longleftrightarrow> snapshot_state db new t = Some n \<and> snapshot_state db old t \<noteq> Some n)"
proof (cases "old = new")
  case False
  obtain es where es: "load_unless_zero old db = Ok es" "sorted_wrt (<) (map entry_tuple es)" "state_of es = snapshot_state db old"
    using load_known [OF assms(1,2)] .
  obtain fs where fs: "load_unless_zero new db = Ok fs" "sorted_wrt (<) (map entry_tuple fs)" "state_of fs = snapshot_state db new"
    using load_known [OF assms(1,3)] .
  note s = strict_by_tuple(1) [OF es(2)] strict_by_tuple(1) [OF fs(2)]
  let ?r = "filter (\<lambda>e. e \<notin> set fs) es" and ?a = "filter (\<lambda>e. e \<notin> set es) fs"
  have "DifferenceBetweeenStateSnapshots old new db = Ok (?r, ?a)"
    using False by (simp add: DifferenceBetweeenStateSnapshots_def es(1) fs(1) difference_loop_eq [OF s])
  moreover have "sorted_wrt (<) ?r" "sorted_wrt (<) ?a" using s by (auto intro: sorted_wrt_filter)
  moreover have "(StateEntry t n \<in> set ?r \<longleftrightarrow> snapshot_state db old t = Some n \<and> snapshot_state db new t \<noteq> Some n) \<and>
      (StateEntry t n \<in> set ?a \<longleftrightarrow> snapshot_state db new t = Some n \<and> snapshot_state db old t \<noteq> Some n)" for t n
    using strict_by_tuple(4) [OF es(2), of t n] strict_by_tuple(4) [OF fs(2), of t n] es(3) fs(3) by auto
  ultimately show ?thesis by blast
qed (simp add: DifferenceBetweeenStateSnapshots_def)

text \<open>
  C13. The difference of two snapshots is exactly that: \<^verbatim>\<open>removed\<close> has the entries of the old state
  that the new one does not have, \<^verbatim>\<open>added\<close> those of the new state that the old one did not have,
  both in order. Taking the one from the old state and adding the other gives the new state.
\<close>

theorem DifferenceBetweeenStateSnapshots_exact:
  assumes "store_ok h db" "known_snapshot db old" "known_snapshot db new"
  shows "\<exists>removed added. DifferenceBetweeenStateSnapshots old new db = Ok (removed, added) \<and>
    sorted_wrt (<) removed \<and> sorted_wrt (<) added \<and>
    (\<forall>t n. StateEntry t n \<in> set removed \<longleftrightarrow> snapshot_state db old t = Some n \<and> snapshot_state db new t \<noteq> Some n) \<and>
    (\<forall>t n. StateEntry t n \<in> set added \<longleftrightarrow> snapshot_state db new t = Some n \<and> snapshot_state db old t \<noteq> Some n)"
  by (rule snapshot_difference [OF assms])

section \<open>Storing\<close>

text \<open>Entries that are what the event table says.\<close>

definition entry_ok :: "stateStore \<Rightarrow> StateEntry \<Rightarrow> bool" where
  "entry_ok db e \<longleftrightarrow> (\<exists>row. map_of (db_events db) (EventNID e) = Some row \<and> entry_of_row (EventNID e) row = e)"

lemma entry_ok_inj: "entry_ok db e \<Longrightarrow> entry_ok db f \<Longrightarrow> EventNID e = EventNID f \<Longrightarrow> e = f"
  by (auto simp: entry_ok_def)

lemma find_hash_Some: "find_hash hash k rows = Some nid \<Longrightarrow> distinct (keys rows) \<Longrightarrow> \<exists>row. map_of rows nid = Some row \<and> hash row = k"
  by (auto simp: find_hash_def dest!: find_SomeD)

text \<open>The sorted event NIDs of a block, and the entries that loading it gives.\<close>

lemma block_nids:
  obtains entries where "cut (SortAndUnique by_event state) = Ok entries" "sorted_wrt (<) (map EventNID entries)"
    "set (map EventNID entries) = EventNID ` set state"
proof
  let ?s = "sort_Stable by_event state"
  have sorted: "sorted_wrt (\<lambda>a b. \<not> by_event b a) ?s"
    using event_order.IsSorted_sort event_order.IsSorted_iff by blast
  show "cut (SortAndUnique by_event state) = Ok (last_of_runs by_event ?s)" by (rule event_order.cut_SortAndUnique)
  show "sorted_wrt (<) (map EventNID (last_of_runs by_event ?s))"
    using event_order.last_of_runs_strict [OF sorted] unfolding sorted_wrt_map by_event_def [abs_def] .
  have "EventNID ` set ?s \<subseteq> EventNID ` set (last_of_runs by_event ?s)"
  proof clarify
    fix e assume "e \<in> set ?s"
    then obtain us f vs where split: "?s = us @ f # vs" "EventNID f = EventNID e" "\<forall>v \<in> set vs. EventNID v \<noteq> EventNID e"
      using split_list_last_prop [of ?s "\<lambda>f. EventNID f = EventNID e"] by metis
    have "\<forall>v \<in> set vs. by_event f v"
      using sorted split by (auto simp: sorted_wrt_append by_event_def not_less order_less_le)
    then have "f \<in> set (last_of_runs by_event ?s)" using event_order.in_last_of_runs [OF sorted] split(1) by blast
    then show "EventNID e \<in> EventNID ` set (last_of_runs by_event ?s)" using split(2) by (metis image_eqI)
  qed
  then show "set (map EventNID (last_of_runs by_event ?s)) = EventNID ` set state"
    using event_order.set_last_of_runs [of ?s] by (auto simp: sort_Stable_def)
qed

lemma loaded_block:
  assumes nids: "sorted_wrt (<) nids" "set nids = EventNID ` set state"
    and ok: "\<forall>e \<in> set state. entry_ok db e" and tuples: "inj_on entry_tuple (set state)"
  shows "state_of (BulkSelectStateEventByNID nids [] db) = state_of (remdups state)"
proof -
  define l where "l = map (\<lambda>(n, row). entry_of_row n row) (select_in nids (db_events db))"
  have ex: "\<forall>n \<in> set nids. map_of (db_events db) n \<noteq> None" using nids(2) ok by (auto simp: entry_ok_def)
  have l: "l = map (\<lambda>n. entry_of_row n (the (map_of (db_events db) n))) nids"
    by (simp add: l_def select_in_all [OF nids(1) ex] comp_def)
  have "entry_of_row (EventNID e) (the (map_of (db_events db) (EventNID e))) = e" if "e \<in> set state" for e
    using ok that by (auto simp: entry_ok_def)
  then have set: "set l = set state" unfolding l using nids(2) by (auto simp: image_iff)
  have "distinct l"
    unfolding l using nids(1) strict_sorted_iff by (auto simp: distinct_map entry_of_row_def intro!: inj_onI)
  with set have "state_of l = state_of (remdups state)"
    using tuples by (intro state_of_same_set) (simp_all add: distinct_map)
  then show ?thesis by (simp add: BulkSelectStateEventByNID_def row_selected_def state_of_sort l_def)
qed

lemma state_of_remdups: "inj_on entry_tuple (set es) \<Longrightarrow> state_of (remdups es) = state_of es"
proof (induction es)
  case (Cons e es)
  then have IH: "state_of (remdups es) = state_of es" by (auto intro: inj_on_subset)
  show ?case
  proof (cases "e \<in> set es")
    case True
    obtain n where n: "state_of es (entry_tuple e) = Some n"
      using True state_of_dom [of es] by (metis domD image_eqI)
    have "StateEntry (entry_tuple e) n = e"
      using Cons.prems state_of_SomeD [OF n] True by (auto simp: inj_on_def)
    then have "n = EventNID e" by (metis StateEntry.sel(2))
    then show ?thesis using True IH n by (auto simp: fun_eq_iff map_add_def split: option.splits)
  qed (use IH in simp)
qed simp

lemma BulkInsertStateData_spec:
  assumes ok: "store_ok h db" and inj: "inj h" and entries: "\<forall>e \<in> set state. entry_ok db e"
  obtains b db' row where "BulkInsertStateData h state db = Ok (b, db')" "store_ok h db'"
    "db_events db' = db_events db" "db_snapshots db' = db_snapshots db"
    "map_of (db_blocks db') = (map_of (db_blocks db))(b \<mapsto> row)"
    "map_of (db_blocks db) b = Some row \<or> (map_of (db_blocks db) b = None \<and> b = db_next_block db)"
    "sorted_wrt (<) (br_event_nids row)" "set (br_event_nids row) = EventNID ` set state"
proof -
  obtain es where es: "cut (SortAndUnique by_event state) = Ok es" and nids: "sorted_wrt (<) (map EventNID es)"
    "set (map EventNID es) = EventNID ` set state" using block_nids .
  let ?nids = "map EventNID es"
  let ?row = "\<lparr>br_hash = h ?nids, br_event_nids = ?nids\<rparr>"
  have row_ok: "block_ok h db ?row"
    using nids entries by (force simp: block_ok_def entry_ok_def)
  show ?thesis
  proof (cases "find_hash br_hash (h ?nids) (db_blocks db)")
    case None
    let ?b = "db_next_block db" and ?db = "db\<lparr>db_blocks := AList.update (db_next_block db) ?row (db_blocks db), db_next_block := db_next_block db + 1\<rparr>"
    have fresh: "map_of (db_blocks db) ?b = None"
      using store_ok_block [OF ok, of ?b] by (cases "map_of (db_blocks db) ?b") auto
    have map: "map_of (db_blocks ?db) = (map_of (db_blocks db))(?b \<mapsto> ?row)" by (simp add: map_simps)
    have kept: "block_ok h ?db row \<longleftrightarrow> block_ok h db row" for row by (simp add: block_ok_def)
    have snaps: "snapshot_ok h db row \<Longrightarrow> snapshot_ok h ?db row" for row by (auto simp: snapshot_ok_def map_simps)
    have "store_ok h ?db"
      using ok row_ok snaps unfolding store_ok_def kept by (force simp: map_simps)
    moreover have "BulkInsertStateData h state db = Ok (?b, ?db)" by (simp add: BulkInsertStateData_def es Let_def None)
    ultimately show ?thesis using that [of ?b ?db ?row] map fresh nids by simp
  next
    case (Some b)
    let ?db = "db\<lparr>db_blocks := AList.update b ?row (db_blocks db)\<rparr>"
    obtain row where row: "map_of (db_blocks db) b = Some row" "br_hash row = h ?nids"
      using find_hash_Some [OF Some] ok by (auto simp: store_ok_def)
    have "br_event_nids row = ?nids"
      using store_ok_block [OF ok row(1)] row(2) inj by (auto simp: block_ok_def inj_def)
    then have same: "row = ?row" using row(2) by simp
    then have map: "map_of (db_blocks ?db) = map_of (db_blocks db)" using row(1) by (simp add: map_simps fun_upd_idem)
    have "distinct (keys (db_blocks ?db))" using ok by (simp add: store_ok_def)
    then have "store_ok h ?db"
      using ok unfolding store_ok_def block_ok_def snapshot_ok_def map by simp
    moreover have "BulkInsertStateData h state db = Ok (b, ?db)" by (simp add: BulkInsertStateData_def es Let_def Some)
    ultimately show ?thesis using that [of b ?db ?row] map row same nids by (simp add: fun_upd_idem)
  qed
qed


text \<open>Storing a snapshot keeps every snapshot that is there.\<close>

definition snapshots_kept :: "stateStore \<Rightarrow> stateStore \<Rightarrow> bool" where
  "snapshots_kept db db' \<longleftrightarrow>
     (\<forall>n row. map_of (db_snapshots db) n = Some row \<longrightarrow>
        map_of (db_snapshots db') n \<noteq> None \<and> snapshot_state db' n = snapshot_state db n)"

lemma select_events_cong:
  "db_events db' = db_events db \<Longrightarrow> BulkSelectStateEventByNID nids ts db' = BulkSelectStateEventByNID nids ts db"
  by (simp add: BulkSelectStateEventByNID_def)

lemma InsertState_spec:
  assumes ok: "store_ok h db" and inj: "inj h" and blocks: "\<forall>b \<in> set bs. map_of (db_blocks db) b \<noteq> None"
  obtains nid db' where "InsertState h roomNID bs db = Ok (nid, db')" "store_ok h db'" "snapshots_kept db db'"
    "map_of (db_snapshots db') nid \<noteq> None" "snapshot_state db' nid = blocks_state db (sorted_list_of_set (set bs))"
    "db_blocks db' = db_blocks db" "db_events db' = db_events db"
proof -
  let ?bs = "sorted_list_of_set (set bs)"
  have same: "blocks_state db' l = blocks_state db l"
    if "db_blocks db' = db_blocks db" "db_events db' = db_events db" for db' l
  proof -
    have "block_state db' b = block_state db b" for b
      unfolding block_state_def that(1) select_events_cong [OF that(2)] ..
    then show ?thesis by (induction l) simp_all
  qed
  show ?thesis
  proof (cases "find_hash sr_hash (h ?bs) (db_snapshots db)")
    case None
    let ?nid = "db_next_snapshot db" and ?row = "\<lparr>sr_hash = h ?bs, sr_room_nid = roomNID, sr_block_nids = ?bs\<rparr>"
    let ?db = "db\<lparr>db_snapshots := AList.update ?nid ?row (db_snapshots db), db_next_snapshot := ?nid + 1\<rparr>"
    have fresh: "map_of (db_snapshots db) ?nid = None"
      using store_ok_snapshot [OF ok, of ?nid] by (cases "map_of (db_snapshots db) ?nid") auto
    have "snapshot_ok h ?db ?row" using blocks by (simp add: snapshot_ok_def)
    moreover have "snapshot_ok h ?db row = snapshot_ok h db row" "block_ok h ?db brow = block_ok h db brow" for row brow
      by (simp_all add: snapshot_ok_def block_ok_def)
    ultimately have "store_ok h ?db" using ok unfolding store_ok_def by (force simp: map_simps)
    moreover have "snapshots_kept db ?db"
      using fresh same [of ?db] by (auto simp: snapshots_kept_def snapshot_state_def map_simps)
    moreover have "InsertState h roomNID bs db = Ok (?nid, ?db)" by (simp add: InsertState_def sort_unique_linorder None)
    ultimately show ?thesis using that [of ?nid ?db] same [of ?db] by (simp add: snapshot_state_def map_simps)
  next
    case (Some nid)
    let ?db = "db\<lparr>db_snapshots := AList.map_entry nid (\<lambda>row. row\<lparr>sr_room_nid := roomNID\<rparr>) (db_snapshots db)\<rparr>"
    obtain row where row: "map_of (db_snapshots db) nid = Some row" "sr_hash row = h ?bs"
      using find_hash_Some [OF Some] ok by (auto simp: store_ok_def)
    have bs: "sr_block_nids row = ?bs"
      using store_ok_snapshot [OF ok row(1)] row(2) inj by (auto simp: snapshot_ok_def inj_def)
    have map: "map_of (db_snapshots ?db) = (map_of (db_snapshots db))(nid \<mapsto> row\<lparr>sr_room_nid := roomNID\<rparr>)"
      using row(1) by (simp add: AList.map_of_map_entry)
    have "snapshot_ok h ?db (row'\<lparr>sr_room_nid := r\<rparr>) = snapshot_ok h db row'" "snapshot_ok h ?db row' = snapshot_ok h db row'"
      "block_ok h ?db brow = block_ok h db brow" for row' brow r
      by (simp_all add: snapshot_ok_def block_ok_def)
    moreover have "distinct (keys (db_snapshots ?db))" using ok by (simp add: store_ok_def distinct_map_entry)
    ultimately have "store_ok h ?db" using ok row(1) unfolding store_ok_def map by auto
    moreover have "snapshots_kept db ?db"
      using same [of ?db] row(1) unfolding snapshots_kept_def snapshot_state_def map by auto
    moreover have "InsertState h roomNID bs db = Ok (nid, ?db)" by (simp add: InsertState_def sort_unique_linorder Some)
    ultimately show ?thesis using that [of nid ?db] same [of ?db] map bs by (simp add: snapshot_state_def)
  qed
qed

definition stored_in :: "stateStore \<Rightarrow> int list \<Rightarrow> StateEntry \<Rightarrow> bool" where
  "stored_in db bs e \<longleftrightarrow> stored_already (map (\<lambda>b. br_event_nids (the (map_of (db_blocks db) b))) bs) e"

lemma state_of_filter:
  assumes "inj_on entry_tuple (set es)" "\<forall>e \<in> set es. \<not> P e \<longrightarrow> m (entry_tuple e) = Some (EventNID e)"
  shows "m ++ state_of (filter P es) = m ++ state_of es"
proof
  fix t
  have inj: "inj_on entry_tuple (set (filter P es))" using assms(1) by (rule inj_on_subset) auto
  have look: "state_of l t = Some n \<longleftrightarrow> StateEntry t n \<in> set l" if "inj_on entry_tuple (set l)" for l n
    using state_of_distinct [of "remdups l" t n] that by (simp add: state_of_remdups distinct_map)
  show "(m ++ state_of (filter P es)) t = (m ++ state_of es) t"
  proof (cases "state_of es t")
    case (Some n)
    then have e: "StateEntry t n \<in> set es" using look [OF assms(1)] by simp
    show ?thesis
    proof (cases "P (StateEntry t n)")
      case True
      then have "state_of (filter P es) t = Some n" using look [OF inj] e by simp
      with Some show ?thesis by (simp add: map_add_def)
    next
      case False
      have "state_of (filter P es) t = None"
      proof (rule ccontr)
        assume "state_of (filter P es) t \<noteq> None"
        then obtain n' where f: "StateEntry t n' \<in> set (filter P es)" using look [OF inj] by auto
        have "StateEntry t n' = StateEntry t n" by (rule inj_onD [OF assms(1)]) (use e f in simp_all)
        with f False show False by simp
      qed
      moreover have "m t = Some n" using assms(2) e False by fastforce
      ultimately show ?thesis using Some by (simp add: map_add_def)
    qed
  next
    case None
    then have "t \<notin> entry_tuple ` set es" using state_of_dom [of es] by (metis domIff)
    then have "t \<notin> dom (state_of (filter P es))" unfolding state_of_dom by auto
    then have "state_of (filter P es) t = None" by (simp add: domIff)
    with None show ?thesis by (simp add: map_add_def)
  qed
qed

lemma sorted_list_snoc:
  assumes "sorted_wrt (<) (bs :: int list)" "\<forall>c \<in> set bs. c < b" shows "sorted_list_of_set (set (bs @ [b])) = bs @ [b]"
  by (rule strict_sorted_set) (use assms in \<open>simp add: sorted_wrt_append\<close>)

lemma addState_spec:
  assumes ok: "store_ok h db" and inj: "inj h"
    and bs: "sorted_wrt (<) bs" "\<forall>b \<in> set bs. map_of (db_blocks db) b \<noteq> None"
    and state: "\<forall>e \<in> set state. entry_ok db e" "inj_on entry_tuple (set state)"
    and current: "\<forall>e \<in> set state. stored_in db bs e \<longrightarrow> blocks_state db bs (entry_tuple e) = Some (EventNID e)"
    and newer: "\<forall>b row. map_of (db_blocks db) b = Some row \<and> br_event_nids row \<noteq> [] \<and>
      set (br_event_nids row) = EventNID ` {e \<in> set state. \<not> stored_in db bs e} \<longrightarrow> (\<forall>c \<in> set bs. c < b)"
  obtains nid db' where "addState h roomNID bs state db = Ok (nid, db')" "store_ok h db'" "snapshots_kept db db'"
    "map_of (db_snapshots db') nid \<noteq> None" "snapshot_state db' nid = blocks_state db bs ++ state_of state"
    "db_events db' = db_events db"
proof -
  let ?st = "filter (\<lambda>e. \<not> stored_in db bs e) state"
  have start: "(if bs \<noteq> [] \<and> state \<noteq> [] then and_then (BulkSelectStateBlockEntries bs db) (\<lambda>blocks.
      Ok (filter (\<lambda>e. \<not> stored_already blocks e) state)) else Ok state) = Ok ?st"
    by (auto simp: select_blocks [OF bs] stored_in_def stored_already_def)
  have filtered: "blocks_state db bs ++ state_of ?st = blocks_state db bs ++ state_of state"
    using state(2) current by (intro state_of_filter) auto
  show ?thesis
  proof (cases "?st = []")
    case True
    obtain nid db' where fin: "InsertState h roomNID bs db = Ok (nid, db')" "store_ok h db'" "snapshots_kept db db'"
      "map_of (db_snapshots db') nid \<noteq> None" "snapshot_state db' nid = blocks_state db (sorted_list_of_set (set bs))"
      "db_blocks db' = db_blocks db" "db_events db' = db_events db"
      using InsertState_spec [OF ok inj bs(2)] .
    have "snapshot_state db' nid = blocks_state db bs ++ state_of state"
      using fin(5) filtered unfolding True strict_sorted_set [OF bs(1)] by simp
    moreover have "addState h roomNID bs state db = Ok (nid, db')"
      unfolding addState_def start using True fin(1) by simp
    ultimately show ?thesis using that fin by blast
  next
    case False
    have st_ok: "\<forall>e \<in> set ?st. entry_ok db e" using state(1) by simp
    obtain b db1 row where ins: "BulkInsertStateData h ?st db = Ok (b, db1)" "store_ok h db1"
      "db_events db1 = db_events db" "db_snapshots db1 = db_snapshots db"
      and blk: "map_of (db_blocks db1) = (map_of (db_blocks db))(b \<mapsto> row)"
        "map_of (db_blocks db) b = Some row \<or> (map_of (db_blocks db) b = None \<and> b = db_next_block db)"
      and nids: "sorted_wrt (<) (br_event_nids row)" "set (br_event_nids row) = EventNID ` set ?st"
      using BulkInsertStateData_spec [OF ok inj st_ok] .
    have above: "\<forall>c \<in> set bs. c < b"
      using blk(2)
    proof
      assume "map_of (db_blocks db) b = Some row"
      moreover have "br_event_nids row \<noteq> []" using nids(2) False by (metis image_is_empty set_empty)
      ultimately show ?thesis using newer nids(2) by (simp only: set_filter) blast
    next
      assume b: "map_of (db_blocks db) b = None \<and> b = db_next_block db"
      show ?thesis
      proof
        fix c assume "c \<in> set bs"
        then obtain r where "map_of (db_blocks db) c = Some r" using bs(2) by blast
        then show "c < b" using store_ok_block [OF ok] b by simp
      qed
    qed
    have same: "block_state db1 c = block_state db c" if "map_of (db_blocks db) c \<noteq> None" for c
      using blk that by (auto simp: block_state_def select_events_cong [OF ins(3)])
    have same_blocks: "blocks_state db1 l = blocks_state db l" if "\<forall>c \<in> set l. map_of (db_blocks db) c \<noteq> None" for l
      using that by (induction l) (simp_all add: same)
    have inj_st: "inj_on entry_tuple (set ?st)" using state(2) by (rule inj_on_subset) auto
    have "\<forall>e \<in> set ?st. entry_ok db1 e" using state(1) ins(3) by (auto simp: entry_ok_def)
    then have new: "block_state db1 b = state_of ?st"
      using loaded_block [OF nids _ inj_st, of db1] blk(1) state_of_remdups [OF inj_st] by (simp add: block_state_def)
    have "\<forall>c \<in> set (bs @ [b]). map_of (db_blocks db1) c \<noteq> None" using bs(2) blk(1) by auto
    from InsertState_spec [OF ins(2) inj this] obtain nid db' where
      fin: "InsertState h roomNID (bs @ [b]) db1 = Ok (nid, db')" "store_ok h db'" "snapshots_kept db1 db'"
        "map_of (db_snapshots db') nid \<noteq> None" "snapshot_state db' nid = blocks_state db1 (sorted_list_of_set (set (bs @ [b])))"
        "db_blocks db' = db_blocks db1" "db_events db' = db_events db1" .
    have "snapshots_kept db db1"
      unfolding snapshots_kept_def snapshot_state_def ins(4)
      using same_blocks store_ok_snapshot [OF ok] by (auto simp: snapshot_ok_def)
    then have "snapshots_kept db db'" using fin(3) ins(4) by (auto simp: snapshots_kept_def)
    moreover have "snapshot_state db' nid = blocks_state db bs ++ state_of state"
      using fin(5) same_blocks [OF bs(2)] new filtered unfolding sorted_list_snoc [OF bs(1) above] by simp
    moreover have "addState h roomNID bs state db = Ok (nid, db')"
      unfolding addState_def start using False ins(1) fin(1) by simp
    moreover have "db_events db' = db_events db" using fin(7) ins(3) by simp
    ultimately show ?thesis using that fin(2,4) by blast
  qed
qed


section \<open>A sample store\<close>

text \<open>
  Three events: the creation of the room, its first topic and its second topic. The first
  snapshot has the room with its first topic, the second one is extended by the second topic. The
  hash spells the list out, so that different lists have different hashes.
\<close>

definition spell :: nid_hash where
  "spell nids = concat (map (\<lambda>n. (if n < 0 then CHR ''-'' else CHR ''+'') # replicate (nat \<bar>n\<bar>) CHR ''1'' @ '','') nids)"

lemma replicate_stop: "replicate a x @ y # r = replicate b x @ y # r' \<Longrightarrow> x \<noteq> y \<Longrightarrow> a = b \<and> r = r'"
proof (induction a arbitrary: b)
  case 0
  then show ?case by (cases b) auto
next
  case (Suc a)
  then show ?case by (cases b) auto
qed

lemma inj_spell: "inj spell"
proof (rule injI)
  show "spell xs = spell ys \<Longrightarrow> xs = ys" for xs ys
  proof (induction xs arbitrary: ys)
    case Nil
    then show ?case by (cases ys) (auto simp: spell_def)
  next
    case (Cons x xs)
    then obtain y ys' where ys: "ys = y # ys'" by (cases ys) (auto simp: spell_def)
    with Cons.prems have sign: "(x < 0) = (y < 0)"
      and rest: "replicate (nat \<bar>x\<bar>) CHR ''1'' @ CHR '','' # spell xs = replicate (nat \<bar>y\<bar>) CHR ''1'' @ CHR '','' # spell ys'"
      by (auto simp: spell_def split: if_splits)
    have "nat \<bar>x\<bar> = nat \<bar>y\<bar> \<and> spell xs = spell ys'" by (rule replicate_stop [OF rest]) simp
    with Cons.IH sign show ?case by (auto simp: ys)
  qed
qed

definition sample_row :: "string \<Rightarrow> int \<Rightarrow> int \<Rightarrow> string \<Rightarrow> string option \<Rightarrow> event_row" where
  "sample_row eventID typeNID snapshotNID eventType key =
     \<lparr>er_event_id = eventID, er_room_nid = 1, er_type_nid = typeNID, er_state_key_nid = 1, er_snapshot_nid = snapshotNID,
      er_is_rejected = False, er_pdu = mk_event eventID eventType key ''@u:a'' [] [] 1\<rparr>"

definition sample_store :: stateStore where
  "sample_store =
     \<lparr>db_events = [(1, sample_row ''$c'' MRoomCreateNID 0 MRoomCreate (Some [])),
                   (2, sample_row ''$t'' 9 1 ''m.room.topic'' (Some [])),
                   (3, sample_row ''$s'' 9 1 ''m.room.topic'' (Some []))],
      db_blocks = [(1, \<lparr>br_hash = spell [1, 2], br_event_nids = [1, 2]\<rparr>), (2, \<lparr>br_hash = spell [3], br_event_nids = [3]\<rparr>)],
      db_snapshots = [(1, \<lparr>sr_hash = spell [1], sr_room_nid = 1, sr_block_nids = [1]\<rparr>),
                      (2, \<lparr>sr_hash = spell [1, 2], sr_room_nid = 1, sr_block_nids = [1, 2]\<rparr>)],
      db_event_types = [(MRoomCreate, MRoomCreateNID), (''m.room.topic'', 9)],
      db_state_keys = [([], 1)], db_next_state_key = 65536, db_next_block = 3, db_next_snapshot = 3\<rparr>"

lemma store_okI:
  assumes "distinct (keys (db_blocks db))" "distinct (keys (db_snapshots db))"
    "\<forall>(nid, row) \<in> set (db_blocks db). 0 < nid \<and> nid < db_next_block db \<and> block_ok h db row"
    "\<forall>(nid, row) \<in> set (db_snapshots db). 0 < nid \<and> nid < db_next_snapshot db \<and> snapshot_ok h db row"
    "0 < db_next_block db" "0 < db_next_snapshot db"
  shows "store_ok h db"
  using assms unfolding store_ok_def by (blast dest: map_of_SomeD)

lemma sample_store_ok: "store_ok spell sample_store"
  by (rule store_okI) (simp_all add: sample_store_def block_ok_def snapshot_ok_def)

lemma sample_selected:
  "BulkSelectStateEventByNID [1, 2] [] sample_store = [StateEntry (NIDTuple 1 1) 1, StateEntry (NIDTuple 9 1) 2]"
  "BulkSelectStateEventByNID [3] [] sample_store = [StateEntry (NIDTuple 9 1) 3]"
  by code_simp+

lemma sample_rows:
  "map_of (db_snapshots sample_store) 1 = Some \<lparr>sr_hash = spell [1], sr_room_nid = 1, sr_block_nids = [1]\<rparr>"
  "map_of (db_snapshots sample_store) 2 = Some \<lparr>sr_hash = spell [1, 2], sr_room_nid = 1, sr_block_nids = [1, 2]\<rparr>"
  "map_of (db_blocks sample_store) 1 = Some \<lparr>br_hash = spell [1, 2], br_event_nids = [1, 2]\<rparr>"
  "map_of (db_blocks sample_store) 2 = Some \<lparr>br_hash = spell [3], br_event_nids = [3]\<rparr>"
  by (simp_all add: sample_store_def)

lemma sample_states:
  "snapshot_state sample_store 1 = [NIDTuple 1 1 \<mapsto> 1, NIDTuple 9 1 \<mapsto> 2]"
  "snapshot_state sample_store 2 = [NIDTuple 1 1 \<mapsto> 1, NIDTuple 9 1 \<mapsto> 3]"
  by (simp_all add: snapshot_state_def block_state_def sample_rows sample_selected map_add_def fun_eq_iff)

theorem LoadStateAtSnapshot_refines_witness:
  "\<exists>es. LoadStateAtSnapshot 2 sample_store = Ok es \<and> StateEntry (NIDTuple 9 1) 3 \<in> set es \<and> StateEntry (NIDTuple 9 1) 2 \<notin> set es"
proof -
  have "blocks_state sample_store [1, 2] = [NIDTuple 1 1 \<mapsto> 1, NIDTuple 9 1 \<mapsto> 3]"
    using sample_states(2) by (simp add: snapshot_state_def sample_rows)
  then show ?thesis
    using LoadStateAtSnapshot_refines [OF sample_store_ok sample_rows(2)] by (auto simp del: blocks_state.simps)
qed

theorem DifferenceBetweeenStateSnapshots_exact_witness:
  "\<exists>removed added. DifferenceBetweeenStateSnapshots 1 2 sample_store = Ok (removed, added) \<and>
    StateEntry (NIDTuple 9 1) 2 \<in> set removed \<and> StateEntry (NIDTuple 9 1) 3 \<in> set added"
proof -
  have "known_snapshot sample_store 1" "known_snapshot sample_store 2" by (simp_all add: known_snapshot_def sample_rows)
  from DifferenceBetweeenStateSnapshots_exact [OF sample_store_ok this] show ?thesis by (auto simp: sample_states)
qed

text \<open>
  The order of the blocks of a snapshot is lost when it is stored: a snapshot that goes back from
  the second topic to the first, whose block is older, is the snapshot of the second topic again.
\<close>

definition topic_store :: stateStore where
  "topic_store = sample_store\<lparr>db_blocks := [(1, \<lparr>br_hash = spell [2], br_event_nids = [2]\<rparr>), (2, \<lparr>br_hash = spell [3], br_event_nids = [3]\<rparr>)],
     db_snapshots := [(1, \<lparr>sr_hash = spell [1], sr_room_nid = 1, sr_block_nids = [1]\<rparr>),
                      (2, \<lparr>sr_hash = spell [2], sr_room_nid = 1, sr_block_nids = [2]\<rparr>)]\<rparr>"

theorem addState_loses_order:
  "\<exists>nid db. addState spell 1 [2] [StateEntry (NIDTuple 9 1) 2] topic_store = Ok (nid, db) \<and>
    LoadStateAtSnapshot nid db = Ok [StateEntry (NIDTuple 9 1) 3]"
proof -
  have "addState spell 1 [2] [StateEntry (NIDTuple 9 1) 2] topic_store =
      Ok (3, topic_store\<lparr>db_snapshots := db_snapshots topic_store @ [(3, \<lparr>sr_hash = spell [1, 2], sr_room_nid = 1, sr_block_nids = [1, 2]\<rparr>)],
                db_next_snapshot := 4\<rparr>)" by code_simp
  moreover have "LoadStateAtSnapshot 3 (topic_store\<lparr>db_snapshots := db_snapshots topic_store @ [(3, \<lparr>sr_hash = spell [1, 2], sr_room_nid = 1, sr_block_nids = [1, 2]\<rparr>)],
                db_next_snapshot := 4\<rparr>) = Ok [StateEntry (NIDTuple 9 1) 3]" by code_simp
  ultimately show ?thesis by blast
qed

end
