(* ===== verification/RoomStateCalc_Correct.thy ===== *)
theory RoomStateCalc_Correct
  imports RoomStateCalc RoomState_Correct
begin

text \<open>
  The state that is calculated after events is the state that should be: after one event it is
  the state before it, updated with the event if that is a state event that was not rejected,
  whichever of the three ways of storing it is taken; after several events that agree it is their
  union, and what they agree on is kept when they do not.
\<close>

declare map_of_eq_Some_iff [simp del] Some_eq_map_of_iff [simp del]

section \<open>The state after one event\<close>

definition after_event :: "stateStore \<Rightarrow> StateAtEvent \<Rightarrow> (NIDTuple, int) map" where
  "after_event db p =
     (if IsStateEvent p \<and> \<not> IsRejected p
      then (snapshot_state db (BeforeStateSnapshotNID p))(entry_tuple (sae_entry p) \<mapsto> EventNID (sae_entry p))
      else snapshot_state db (BeforeStateSnapshotNID p))"

definition known_state :: "stateStore \<Rightarrow> StateAtEvent \<Rightarrow> bool" where
  "known_state db p \<longleftrightarrow> map_of (db_snapshots db) (BeforeStateSnapshotNID p) \<noteq> None \<and> entry_ok db (sae_entry p)"

lemma blockMap_lookup:
  assumes "sorted_wrt (<) ns" "n \<in> set ns"
  shows "stateBlockNIDListMap_lookup (map (\<lambda>n. (n, f n)) ns) n = Some (f n)"
proof -
  have "sorted (map fst (map (\<lambda>n. (n, f n)) ns))" using assms(1) strict_sorted_iff by (auto simp: comp_def)
  moreover have "map_of (map (\<lambda>n. (n, f n)) ns) n = Some (f n)" using assms(2) by (simp add: map_of_map_restrict)
  ultimately show ?thesis by (simp only: stateBlockNIDListMap_lookup_def search_by_eq find_fst)
qed

lemma state_after_spec:
  fixes db
  defines "f \<equiv> \<lambda>b. BulkSelectStateEventByNID (br_event_nids (the (map_of (db_blocks db) b))) [] db"
    and "g \<equiv> \<lambda>n. sr_block_nids (the (map_of (db_snapshots db) n))"
  assumes ok: "store_ok h db" and known: "map_of (db_snapshots db) (BeforeStateSnapshotNID p) = Some row"
    and ns: "sorted_wrt (<) ns" "BeforeStateSnapshotNID p \<in> set ns"
    and bs: "sorted_wrt (<) bs" "set (sr_block_nids row) \<subseteq> set bs"
  shows "\<exists>es. state_after (map (\<lambda>n. (n, g n)) ns) (map (\<lambda>b. (b, f b)) bs) p = Ok es \<and>
    sorted_wrt (<) (map entry_tuple es) \<and> state_of es = after_event db p"
proof -
  let ?full = "concat (map f (sr_block_nids row))"
  let ?all = "if IsStateEvent p \<and> \<not> IsRejected p then ?full @ [sae_entry p] else ?full"
  obtain es where es: "combine ?all = Ok es" "sorted_wrt (<) (map entry_tuple es)" "state_of es = state_of ?all"
    using combine_Ok [of ?all] by metis
  have blocks: "\<forall>b \<in> set (sr_block_nids row). map_of (db_blocks db) b \<noteq> None"
    using store_ok_snapshot [OF ok known] by (simp add: snapshot_ok_def)
  have "state_of ?full = snapshot_state db (BeforeStateSnapshotNID p)"
    unfolding f_def state_of_blocks [OF blocks] by (simp add: snapshot_state_def known)
  then have "state_of es = after_event db p"
    by (simp add: es(3) after_event_def)
  moreover have "state_after (map (\<lambda>n. (n, g n)) ns) (map (\<lambda>b. (b, f b)) bs) p = Ok es"
    unfolding state_after_def blockMap_lookup [OF ns] using es(1) known
    by (simp add: g_def collect_blocks_eq [OF bs(1)] bs(2))
  ultimately show ?thesis using es(2) by blast
qed

lemma snapshots_rows:
  assumes "sorted_wrt (<) ns" "\<forall>n \<in> set ns. map_of (db_snapshots db) n \<noteq> None"
  shows "BulkSelectStateBlockNIDs ns db = Ok (map (\<lambda>n. (n, sr_block_nids (the (map_of (db_snapshots db) n)))) ns)"
  by (simp add: BulkSelectStateBlockNIDs_def Let_def select_in_all [OF assms] comp_def)

text \<open>Lists of entries, one for each event, each sorted and describing the state after its event.\<close>

definition states_ok :: "stateStore \<Rightarrow> StateAtEvent list \<Rightarrow> StateEntry list list \<Rightarrow> bool" where
  "states_ok db ps ls \<longleftrightarrow>
     list_all2 (\<lambda>p es. sorted_wrt (<) (map entry_tuple es) \<and> state_of es = after_event db p) ps ls"

lemma states_after_all:
  assumes "\<forall>p \<in> set ps. \<exists>es. state_after m1 m2 p = Ok es \<and> R p es"
  shows "\<exists>ls. states_after m1 m2 ps = Ok (concat ls) \<and> list_all2 R ps ls"
  using assms
proof (induction ps)
  case (Cons p ps)
  then obtain ls es where "states_after m1 m2 ps = Ok (concat ls)" "list_all2 R ps ls" "state_after m1 m2 p = Ok es" "R p es"
    by auto
  then show ?case by (intro exI [of _ "es # ls"]) simp
qed simp

lemma combined_state:
  assumes ok: "store_ok h db" and known: "\<forall>p \<in> set ps. map_of (db_snapshots db) (BeforeStateSnapshotNID p) \<noteq> None"
  obtains ls where "LoadCombinedStateAfterEvents ps db = Ok (concat ls)" "states_ok db ps ls"
proof -
  define ns where "ns = sorted_list_of_set (set (map BeforeStateSnapshotNID ps))"
  define g where "g = (\<lambda>n. sr_block_nids (the (map_of (db_snapshots db) n)))"
  define bs where "bs = sorted_list_of_set (set (concat (map g ns)))"
  define f where "f = (\<lambda>b. BulkSelectStateEventByNID (br_event_nids (the (map_of (db_blocks db) b))) [] db)"
  have ns_set: "set ns = BeforeStateSnapshotNID ` set ps" by (simp add: ns_def)
  have ns: "sorted_wrt (<) ns" "\<forall>n \<in> set ns. map_of (db_snapshots db) n \<noteq> None"
    using known unfolding ns_set by (auto simp: ns_def)
  have bs_set: "set bs = (\<Union>n \<in> set ns. set (g n))" by (simp add: bs_def)
  have "map_of (db_blocks db) b \<noteq> None" if nb: "n \<in> set ns" "b \<in> set (g n)" for n b
  proof -
    obtain row where row: "map_of (db_snapshots db) n = Some row" using bspec [OF ns(2) nb(1)] by auto
    then show ?thesis using store_ok_snapshot [OF ok row] nb(2) by (simp add: snapshot_ok_def g_def)
  qed
  then have bs: "sorted_wrt (<) bs" "\<forall>b \<in> set bs. map_of (db_blocks db) b \<noteq> None"
    unfolding bs_set by (auto simp: bs_def)
  have "\<exists>es. state_after (map (\<lambda>n. (n, g n)) ns) (map (\<lambda>b. (b, f b)) bs) p = Ok es \<and>
      sorted_wrt (<) (map entry_tuple es) \<and> state_of es = after_event db p" if p: "p \<in> set ps" for p
  proof -
    obtain row where row: "map_of (db_snapshots db) (BeforeStateSnapshotNID p) = Some row" using bspec [OF known p] by auto
    have n: "BeforeStateSnapshotNID p \<in> set ns" using p by (simp add: ns_set)
    have "sr_block_nids row = g (BeforeStateSnapshotNID p)" by (simp add: g_def row)
    then have sub: "set (sr_block_nids row) \<subseteq> set bs" using n by (auto simp: bs_set)
    show ?thesis
      unfolding g_def f_def by (rule state_after_spec [OF ok row ns(1) n bs(1) sub])
  qed
  then have "\<forall>p \<in> set ps. \<exists>es. state_after (map (\<lambda>n. (n, g n)) ns) (map (\<lambda>b. (b, f b)) bs) p = Ok es \<and>
      (\<lambda>p es. sorted_wrt (<) (map entry_tuple es) \<and> state_of es = after_event db p) p es" by simp
  from states_after_all [OF this]
  obtain ls where ls: "states_after (map (\<lambda>n. (n, g n)) ns) (map (\<lambda>b. (b, f b)) bs) ps = Ok (concat ls)" "states_ok db ps ls"
    unfolding states_ok_def by (elim exE conjE)
  have "stateEntries bs db = Ok (map (\<lambda>b. (b, f b)) bs)"
    unfolding stateEntries_def f_def by (rule entries_of_blocks [OF bs])
  moreover have "concat (map snd (map (\<lambda>n. (n, g n)) ns)) = concat (map g ns)" by (simp add: comp_def)
  moreover have "BulkSelectStateBlockNIDs ns db = Ok (map (\<lambda>n. (n, g n)) ns)"
    unfolding g_def by (rule snapshots_rows [OF ns])
  ultimately have "LoadCombinedStateAfterEvents ps db = Ok (concat ls)"
    unfolding LoadCombinedStateAfterEvents_def sort_unique_linorder and_then_simps
    using ls(1) by (simp only: ns_def [symmetric] and_then_simps bs_def [symmetric])
  with ls(2) show ?thesis using that by blast
qed

lemma in_combined:
  assumes "states_ok db ps ls"
  shows "StateEntry t n \<in> set (concat ls) \<longleftrightarrow> (\<exists>p \<in> set ps. after_event db p t = Some n)"
  using assms unfolding states_ok_def
proof (induction ps ls rule: list_all2_induct)
  case (Cons p ps es ls)
  then have "StateEntry t n \<in> set es \<longleftrightarrow> after_event db p t = Some n" using strict_by_tuple(4) [of es t n] by simp
  with Cons show ?case by auto
qed simp


section \<open>The state after several events\<close>

text \<open>The states after the events do not contradict one another.\<close>

definition states_agree :: "stateStore \<Rightarrow> StateAtEvent list \<Rightarrow> bool" where
  "states_agree db ps \<longleftrightarrow>
     (\<forall>p \<in> set ps. \<forall>q \<in> set ps. \<forall>t n m. after_event db p t = Some n \<longrightarrow> after_event db q t = Some m \<longrightarrow> n = m)"

lemma SortAndUnique_entries: "cut (SortAndUnique StateEntry_LessThan xs) = Ok (sorted_list_of_set (set xs))"
  using sort_unique_linorder [of xs] by (simp add: less_StateEntry_def [symmetric])

lemma sorted_entries: "sorted_wrt (<) (es :: StateEntry list) \<Longrightarrow> sorted (map entry_tuple es)"
  unfolding sorted_wrt_map [of "(\<le>)"] by (rule sorted_wrt_mono_rel [of _ "(<)"]) (auto simp: entry_less)

lemma conflicts_of_Nil: "conflicts_of es = [] \<longleftrightarrow> distinct (map entry_tuple es)"
proof -
  have "distinct (map entry_tuple es) \<longleftrightarrow> (\<forall>e \<in> set es. length (same_tuple es (entry_tuple e)) \<le> 1)"
  proof (induction es)
    case (Cons e es)
    have "entry_tuple e \<in> entry_tuple ` set es \<longleftrightarrow> same_tuple es (entry_tuple e) \<noteq> []"
      by (auto simp: same_tuple_def filter_empty_conv intro: rev_image_eqI)
    with Cons show ?case by (auto simp: same_tuple_def Suc_le_eq)
  qed simp
  then show ?thesis by (auto simp: conflicts_of_def filter_empty_conv not_less)
qed

lemma inj_on_combined:
  assumes "states_ok db ps ls"
  shows "inj_on entry_tuple (set (concat ls)) \<longleftrightarrow> states_agree db ps"
proof -
  note m = in_combined [OF assms]
  have inj: "inj_on entry_tuple A \<longleftrightarrow> (\<forall>t n m. StateEntry t n \<in> A \<longrightarrow> StateEntry t m \<in> A \<longrightarrow> n = m)" for A
  proof
    assume "inj_on entry_tuple A"
    then show "\<forall>t n m. StateEntry t n \<in> A \<longrightarrow> StateEntry t m \<in> A \<longrightarrow> n = m"
      unfolding inj_on_def by (metis StateEntry.inject StateEntry.sel(1))
  next
    assume *: "\<forall>t n m. StateEntry t n \<in> A \<longrightarrow> StateEntry t m \<in> A \<longrightarrow> n = m"
    show "inj_on entry_tuple A"
    proof (rule inj_onI)
      fix x y
      assume "x \<in> A" "y \<in> A" "entry_tuple x = entry_tuple y"
      with * show "x = y" by (cases x; cases y) auto
    qed
  qed
  show ?thesis unfolding inj states_agree_def m by blast
qed

lemma no_conflict:
  assumes "distinct (map entry_tuple (sorted_list_of_set (set xs)))"
  shows "findDuplicateStateKeys (sorted_list_of_set (set xs)) = []"
proof -
  have "sorted (map entry_tuple (sorted_list_of_set (set xs)))" by (rule sorted_entries) simp
  then show ?thesis using findDuplicateStateKeys_eq conflicts_of_Nil assms by metis
qed

lemma merged_state:
  assumes ok: "store_ok h (v_db v)" and known: "\<forall>p \<in> set ps. map_of (db_snapshots (v_db v)) (BeforeStateSnapshotNID p) \<noteq> None"
    and agree: "states_agree (v_db v) ps"
  obtains es where "calculateStateAfterManyEvents env roomVersion ps v = Some (Ok (es, v))" "sorted_wrt (<) (map entry_tuple es)"
    "\<forall>t n. state_of es t = Some n \<longleftrightarrow> (\<exists>p \<in> set ps. after_event (v_db v) p t = Some n)"
proof -
  obtain ls where ls: "LoadCombinedStateAfterEvents ps (v_db v) = Ok (concat ls)" "states_ok (v_db v) ps ls"
    using combined_state [OF ok known] .
  let ?es = "sorted_list_of_set (set (concat ls))"
  have "inj_on entry_tuple (set (concat ls))" using inj_on_combined [OF ls(2)] agree by blast
  then have d: "distinct (map entry_tuple ?es)" by (simp add: distinct_map)
  have sorted: "sorted (map entry_tuple ?es)" by (rule sorted_entries) simp
  have "calculateStateAfterManyEvents env roomVersion ps v = Some (Ok (?es, v))"
    unfolding calculateStateAfterManyEvents_def ls(1) run_then_simps SortAndUnique_entries Let_def
    using no_conflict [OF d] by simp
  moreover have "sorted_wrt (<) (map entry_tuple ?es)" using d sorted strict_sorted_iff by blast
  moreover have "\<forall>t n. state_of ?es t = Some n \<longleftrightarrow> (\<exists>p \<in> set ps. after_event (v_db v) p t = Some n)"
    using state_of_distinct [OF d] in_combined [OF ls(2)] by simp
  ultimately show ?thesis using that by blast
qed


section \<open>Storing the state after events\<close>

lemma in_blocks_state: "blocks_state db bs t = Some n \<Longrightarrow> entry_ok db (StateEntry t n)"
proof (induction bs)
  case (Cons b bs)
  have "entry_ok db (StateEntry t n)" if b: "block_state db b t = Some n"
  proof -
    obtain row :: block_row where "state_of (BulkSelectStateEventByNID (br_event_nids row) [] db) t = Some n"
      using b by (auto simp: block_state_def split: option.splits)
    then have "StateEntry t n \<in> set (BulkSelectStateEventByNID (br_event_nids row) [] db)"
      by (auto simp: state_of_def dest!: map_of_SomeD)
    then show ?thesis
      by (auto simp: BulkSelectStateEventByNID_def sort_Stable_def select_in_def entry_ok_def entry_of_row_def List.map_filter_def)
  qed
  with Cons show ?case by (auto simp: map_add_Some_iff)
qed simp

lemma in_after_event:
  assumes "entry_ok db (sae_entry p)" "after_event db p t = Some n"
  shows "entry_ok db (StateEntry t n)"
  using assms in_blocks_state [of db _ t n]
  by (auto simp: after_event_def snapshot_state_def split: if_splits option.splits)

lemma sorted_inj: "sorted_wrt (<) (map entry_tuple es) \<Longrightarrow> inj_on entry_tuple (set es)"
  using strict_by_tuple(2) by (auto simp: distinct_map)

text \<open>The general way: the merged state is stored as one new block.\<close>

lemma store_merged:
  assumes ok: "store_ok h (v_db v)" and inj: "inj h" and known: "\<forall>p \<in> set ps. known_state (v_db v) p"
    and agree: "states_agree (v_db v) ps"
  obtains nid db' where
    "calculateAndStoreStateAfterManyEvents env h info ps v = Some (Ok (nid, v\<lparr>v_db := db'\<rparr>))"
    "store_ok h db'" "snapshots_kept (v_db v) db'" "map_of (db_snapshots db') nid \<noteq> None" "db_events db' = db_events (v_db v)"
    "\<forall>t n. snapshot_state db' nid t = Some n \<longleftrightarrow> (\<exists>p \<in> set ps. after_event (v_db v) p t = Some n)"
proof -
  have snaps: "\<forall>p \<in> set ps. map_of (db_snapshots (v_db v)) (BeforeStateSnapshotNID p) \<noteq> None"
    using known by (simp add: known_state_def)
  obtain es where es: "calculateStateAfterManyEvents env (ri_RoomVersion info) ps v = Some (Ok (es, v))"
      "sorted_wrt (<) (map entry_tuple es)"
      "\<forall>t n. state_of es t = Some n \<longleftrightarrow> (\<exists>p \<in> set ps. after_event (v_db v) p t = Some n)"
    using merged_state [OF ok snaps agree] .
  have entries: "\<forall>e \<in> set es. entry_ok (v_db v) e"
  proof
    fix e assume "e \<in> set es"
    then obtain p where "p \<in> set ps" "after_event (v_db v) p (entry_tuple e) = Some (EventNID e)"
      using es(3) strict_by_tuple(4) [OF es(2), of "entry_tuple e" "EventNID e"] by auto
    then show "entry_ok (v_db v) e" using in_after_event [of "v_db v" p "entry_tuple e"] known by (auto simp: known_state_def)
  qed
  obtain nid db' where st: "addState h (ri_RoomNID info) [] es (v_db v) = Ok (nid, db')" "store_ok h db'"
      "snapshots_kept (v_db v) db'" "map_of (db_snapshots db') nid \<noteq> None"
      "snapshot_state db' nid = blocks_state (v_db v) [] ++ state_of es" "db_events db' = db_events (v_db v)"
    by (rule addState_spec [OF ok inj, of "[]" es]) (use entries sorted_inj [OF es(2)] in \<open>auto simp: stored_in_def stored_already_def\<close>)
  have "calculateAndStoreStateAfterManyEvents env h info ps v = Some (Ok (nid, v\<lparr>v_db := db'\<rparr>))"
    by (simp add: calculateAndStoreStateAfterManyEvents_def es(1) st(1))
  then show ?thesis using that st(2,3,4,6) es(3) st(5) by simp
qed

lemma states_agree_single: "states_agree db [p]"
  by (simp add: states_agree_def)

text \<open>
  An event is stored in order if its snapshot does not contain the event unless as the current
  one of its tuple, and if a block with just the event is newer than the blocks of the snapshot.
\<close>

definition stored_in_order :: "stateStore \<Rightarrow> StateAtEvent \<Rightarrow> bool" where
  "stored_in_order db p \<longleftrightarrow>
     (\<forall>row. map_of (db_snapshots db) (BeforeStateSnapshotNID p) = Some row \<longrightarrow>
        (stored_in db (sr_block_nids row) (sae_entry p) \<longrightarrow>
           snapshot_state db (BeforeStateSnapshotNID p) (entry_tuple (sae_entry p)) = Some (EventNID (sae_entry p))) \<and>
        (\<forall>b block. map_of (db_blocks db) b = Some block \<and> set (br_event_nids block) = {EventNID (sae_entry p)} \<longrightarrow>
           (\<forall>c \<in> set (sr_block_nids row). c < b)))"

text \<open>The short way: the snapshot is extended by a block with the event.\<close>

lemma store_delta:
  assumes ok: "store_ok h db" and inj: "inj h" and known: "map_of (db_snapshots db) (BeforeStateSnapshotNID p) = Some row"
    and entry: "entry_ok db (sae_entry p)" and order: "stored_in_order db p"
    and state: "IsStateEvent p" "\<not> IsRejected p"
  obtains nid db' where "addState h roomNID (sr_block_nids row) [sae_entry p] db = Ok (nid, db')" "store_ok h db'"
    "snapshots_kept db db'" "map_of (db_snapshots db') nid \<noteq> None" "db_events db' = db_events db" "snapshot_state db' nid = after_event db p"
proof -
  have snap: "snapshot_ok h db row" using store_ok_snapshot [OF ok known] by simp
  have here: "snapshot_state db (BeforeStateSnapshotNID p) = blocks_state db (sr_block_nids row)"
    by (simp add: snapshot_state_def known)
  obtain nid db' where st: "addState h roomNID (sr_block_nids row) [sae_entry p] db = Ok (nid, db')" "store_ok h db'"
      "snapshots_kept db db'" "map_of (db_snapshots db') nid \<noteq> None"
      "snapshot_state db' nid = blocks_state db (sr_block_nids row) ++ state_of [sae_entry p]" "db_events db' = db_events db"
  proof (rule addState_spec [OF ok inj, of "sr_block_nids row" "[sae_entry p]"])
    show "\<forall>e \<in> set [sae_entry p]. stored_in db (sr_block_nids row) e \<longrightarrow>
        blocks_state db (sr_block_nids row) (entry_tuple e) = Some (EventNID e)"
      using order known here by (simp add: stored_in_order_def)
    show "\<forall>b block. map_of (db_blocks db) b = Some block \<and> br_event_nids block \<noteq> [] \<and>
        set (br_event_nids block) = EventNID ` {e \<in> set [sae_entry p]. \<not> stored_in db (sr_block_nids row) e} \<longrightarrow>
        (\<forall>c \<in> set (sr_block_nids row). c < b)"
    proof -
      have "{e \<in> set [sae_entry p]. \<not> stored_in db (sr_block_nids row) e} =
          (if stored_in db (sr_block_nids row) (sae_entry p) then {} else {sae_entry p})" by auto
      then show ?thesis using order known by (simp add: stored_in_order_def del: list.set) blast
    qed
  qed (use snap entry in \<open>auto simp: snapshot_ok_def\<close>)
  moreover have "snapshot_state db' nid = after_event db p"
    using st(5) state by (simp add: after_event_def here)
  ultimately show ?thesis using that by blast
qed

lemma store_after_one:
  assumes "store_ok h (v_db v)" "inj h" "known_state (v_db v) p" "stored_in_order (v_db v) p" "v_roomInfo v = Some info"
  shows "\<exists>nid db'. CalculateAndStoreStateAfterEvents env h [p] v = Some (Ok (nid, v\<lparr>v_db := db'\<rparr>)) \<and>
    store_ok h db' \<and> snapshots_kept (v_db v) db' \<and> db_events db' = db_events (v_db v) \<and>
    map_of (db_snapshots db') nid \<noteq> None \<and> snapshot_state db' nid = after_event (v_db v) p"
proof -
  obtain row where row: "map_of (db_snapshots (v_db v)) (BeforeStateSnapshotNID p) = Some row"
    and entry: "entry_ok (v_db v) (sae_entry p)"
    using assms(3) by (auto simp: known_state_def)
  have rows: "BulkSelectStateBlockNIDs [BeforeStateSnapshotNID p] (v_db v) = Ok [(BeforeStateSnapshotNID p, sr_block_nids row)]"
    using snapshots_rows [of "[BeforeStateSnapshotNID p]" "v_db v"] row by simp
  show ?thesis
  proof (cases "IsStateEvent p \<and> \<not> IsRejected p")
    case False
    then have "CalculateAndStoreStateAfterEvents env h [p] v = Some (Ok (BeforeStateSnapshotNID p, v\<lparr>v_db := v_db v\<rparr>))"
      by (auto simp: CalculateAndStoreStateAfterEvents_def IsStateEvent_def)
    then show ?thesis using assms(1) False row by (fastforce simp: snapshots_kept_def after_event_def)
  next
    case True
    then have state: "IsStateEvent p" "\<not> IsRejected p" by simp_all
    show ?thesis
    proof (cases "length (sr_block_nids row) < maxStateBlockNIDs")
      case True
      obtain nid db' where st: "addState h (ri_RoomNID info) (sr_block_nids row) [sae_entry p] (v_db v) = Ok (nid, db')"
          "store_ok h db'" "snapshots_kept (v_db v) db'" "map_of (db_snapshots db') nid \<noteq> None" "db_events db' = db_events (v_db v)"
          "snapshot_state db' nid = after_event (v_db v) p"
        using store_delta [OF assms(1,2) row entry assms(4) state] .
      have "CalculateAndStoreStateAfterEvents env h [p] v = Some (Ok (nid, v\<lparr>v_db := db'\<rparr>))"
        using state True rows st(1) assms(5)
        by (simp add: CalculateAndStoreStateAfterEvents_def IsStateEvent_def store_state_def deref_def)
      with st show ?thesis by blast
    next
      case False
      have k: "\<forall>q \<in> set [p]. known_state (v_db v) q" using assms(3) by simp
      obtain nid db' where st: "calculateAndStoreStateAfterManyEvents env h info [p] v = Some (Ok (nid, v\<lparr>v_db := db'\<rparr>))"
          "store_ok h db'" "snapshots_kept (v_db v) db'" "map_of (db_snapshots db') nid \<noteq> None" "db_events db' = db_events (v_db v)"
          "\<forall>t n. snapshot_state db' nid t = Some n \<longleftrightarrow> (\<exists>q \<in> set [p]. after_event (v_db v) q t = Some n)"
        using store_merged [OF assms(1,2) k states_agree_single] .
      have "CalculateAndStoreStateAfterEvents env h [p] v = Some (Ok (nid, v\<lparr>v_db := db'\<rparr>))"
        using state False rows st(1) assms(5)
        by (simp add: CalculateAndStoreStateAfterEvents_def IsStateEvent_def store_state_def deref_def)
      moreover have "snapshot_state db' nid = after_event (v_db v) p" 
      proof
        fix t
        have "\<forall>n. snapshot_state db' nid t = Some n \<longleftrightarrow> after_event (v_db v) p t = Some n" using st(6) by simp
        then show "snapshot_state db' nid t = after_event (v_db v) p t" by (metis not_None_eq)
      qed
      ultimately show ?thesis using st(2-5) by blast
    qed
  qed
qed


text \<open>
  C11. Where the states after two or more events do not contradict one another, the state that is
  stored for them is their union, and no snapshot stored before changes.
\<close>

theorem CalculateAndStoreStateAfterEvents_union:
  assumes "store_ok h (v_db v)" "inj h" "\<forall>p \<in> set ps. known_state (v_db v) p" "states_agree (v_db v) ps"
    "v_roomInfo v = Some info" "2 \<le> length ps"
  shows "\<exists>nid db'. CalculateAndStoreStateAfterEvents env h ps v = Some (Ok (nid, v\<lparr>v_db := db'\<rparr>)) \<and>
    store_ok h db' \<and> snapshots_kept (v_db v) db' \<and>
    (\<forall>t n. snapshot_state db' nid t = Some n \<longleftrightarrow> (\<exists>p \<in> set ps. after_event (v_db v) p t = Some n))"
proof -
  obtain nid db' where st: "calculateAndStoreStateAfterManyEvents env h info ps v = Some (Ok (nid, v\<lparr>v_db := db'\<rparr>))"
      "store_ok h db'" "snapshots_kept (v_db v) db'"
      "\<forall>t n. snapshot_state db' nid t = Some n \<longleftrightarrow> (\<exists>q \<in> set ps. after_event (v_db v) q t = Some n)"
    using store_merged [OF assms(1-4)] by metis
  obtain p q qs where "ps = p # q # qs" using assms(6) by (metis Suc_le_length_iff numeral_2_eq_2)
  then have "CalculateAndStoreStateAfterEvents env h ps v = Some (Ok (nid, v\<lparr>v_db := db'\<rparr>))"
    using st(1) assms(5) by (simp add: CalculateAndStoreStateAfterEvents_def deref_def)
  with st show ?thesis by blast
qed

section \<open>The sample room\<close>

definition sample_env :: resolution_env where
  "sample_env = \<lparr>env_rng = range_id, env_rng3 = range_id, env_fuel = 100, env_sha1 = id, env_edv = no_signature, env_q = sample_users\<rparr>"

definition sample_resolution :: StateResolution where
  "sample_resolution = NewStateResolution sample_store (Some \<lparr>ri_RoomNID = 1, ri_RoomVersion = ''10''\<rparr>)"

definition sample_after :: "int \<Rightarrow> StateAtEvent" where
  "sample_after nid = StateAtEvent 1 False (StateEntry (NIDTuple 9 1) nid)"

lemma sample_resolution_simps [simp]:
  "v_db sample_resolution = sample_store" "v_roomInfo sample_resolution = Some \<lparr>ri_RoomNID = 1, ri_RoomVersion = ''10''\<rparr>"
  by (simp_all add: sample_resolution_def NewStateResolution_def)

lemma sample_known: "known_state sample_store (sample_after 2)" "known_state sample_store (sample_after 3)"
  by (simp_all add: known_state_def sample_after_def sample_store_def entry_ok_def entry_of_row_def sample_row_def)

lemma sample_in_order: "stored_in_order sample_store (sample_after 3)"
  by (simp add: stored_in_order_def sample_after_def sample_rows stored_in_def stored_already_def)
    (simp add: sample_store_def split: if_splits)

lemma sample_after_states:
  "after_event sample_store (sample_after 2) = [NIDTuple 1 1 \<mapsto> 1, NIDTuple 9 1 \<mapsto> 2]"
  "after_event sample_store (sample_after 3) = [NIDTuple 1 1 \<mapsto> 1, NIDTuple 9 1 \<mapsto> 3]"
  by (simp_all add: after_event_def sample_after_def IsStateEvent_def sample_states)


theorem CalculateAndStoreStateAfterEvents_union_witness:
  "\<exists>nid db'. CalculateAndStoreStateAfterEvents sample_env spell [sample_after 2, sample_after 2] sample_resolution =
      Some (Ok (nid, sample_resolution\<lparr>v_db := db'\<rparr>)) \<and> snapshot_state db' nid (NIDTuple 9 1) = Some 2"
  using CalculateAndStoreStateAfterEvents_union [of spell sample_resolution "[sample_after 2, sample_after 2]"]
    sample_store_ok inj_spell sample_known by (fastforce simp: sample_after_states states_agree_def)

text \<open>
  The quick way of loading some tuples after one event takes the event's own entry even if the
  event was rejected, and also if its tuple was not asked for.
\<close>

theorem rejected_event_taken:
  "loadStateAfterEventsForNumericTuples sample_env [StateAtEvent 1 True (StateEntry (NIDTuple 9 1) 3)] [NIDTuple 1 1] sample_resolution =
     Some (Ok ([StateEntry (NIDTuple 1 1) 1, StateEntry (NIDTuple 9 1) 3], sample_resolution))"
  by code_simp

text \<open>
  An event that was loaded before is not in the map from event IDs to entries that
  \<^verbatim>\<open>loadStateEvents\<close> returns, so a second resolution that meets it does not find its entry.
\<close>

theorem loadStateEvents_forgets:
  "case loadStateEvents [StateEntry (NIDTuple 1 1) 1] sample_resolution of
     Ok (es, m, v) \<Rightarrow> map_of m ''$c'' = Some (StateEntry (NIDTuple 1 1) 1) \<and>
       (case loadStateEvents [StateEntry (NIDTuple 1 1) 1] v of Ok (es', m', _) \<Rightarrow> es' = es \<and> m' = [] | _ \<Rightarrow> False)
   | _ \<Rightarrow> False"
  by code_simp

end
