(* ===== verification/Memberships_Correct.thy ===== *)
theory Memberships_Correct
  imports Memberships RoomStateCalc_Correct
begin

text \<open>
  The membership table follows the current state of the room: every change of a member event in
  the state is made in the table, and nothing else.
\<close>

section \<open>One change\<close>

definition membership_state :: "string \<Rightarrow> MembershipState option" where
  "membership_state m =
     (if m = Invite then Some MembershipStateInvite else if m = Join then Some MembershipStateJoin
      else if m = Leave \<or> m = Ban then Some MembershipStateLeaveOrBan else if m = Knock then Some MembershipStateKnock
      else None)"

text \<open>What a step may change: the table of memberships at one key, invites and state keys.\<close>

definition events_same :: "roomDB \<Rightarrow> roomDB \<Rightarrow> bool" where
  "events_same db db' \<longleftrightarrow>
     rd_next_event db' = rd_next_event db \<and> rd_sent db' = rd_sent db \<and> rd_previous_events db' = rd_previous_events db \<and>
     rd_rooms db' = rd_rooms db \<and> db_events (rd_store db') = db_events (rd_store db) \<and>
     db_blocks (rd_store db') = db_blocks (rd_store db) \<and> db_snapshots (rd_store db') = db_snapshots (rd_store db) \<and>
     db_next_block (rd_store db') = db_next_block (rd_store db) \<and> db_next_snapshot (rd_store db') = db_next_snapshot (rd_store db)"

lemma events_same_refl [simp]: "events_same db db"
  by (simp add: events_same_def)

lemma events_same_trans: "events_same db db' \<Longrightarrow> events_same db' db'' \<Longrightarrow> events_same db db''"
  by (simp add: events_same_def)

abbreviation membership_map :: "roomDB \<Rightarrow> int \<times> int \<Rightarrow> membership_row option" where
  "membership_map db \<equiv> map_of (rd_memberships db)"

lemma map_entry_map_of: "map_of (AList.map_entry k f xs) = (map_of xs)(k := map_option f (map_of xs k))"
  by (induction xs) (auto simp: fun_eq_iff)

lemma retire_events_Ok: "StateKey pdu = Some k \<Longrightarrow> \<exists>es. retire_events ids m pdu = Ok es"
  by (induction ids) auto

lemma UpdateInviteRetired_keeps:
  assumes "UpdateInviteRetired r u db = (ids, db')"
  shows "membership_map db' = membership_map db" "events_same db db'"
  using assms by (auto simp: UpdateInviteRetired_def events_same_def)

lemma InsertInviteEvent_keeps:
  assumes "InsertInviteEvent eid r u s pdu db = (ins, db')"
  shows "membership_map db' = membership_map db" "events_same db db'"
  using assms by (auto simp: InsertInviteEvent_def events_same_def split: option.splits)

lemma assignStateKeyNID_keeps:
  assumes "assignStateKeyNID k st = (n, st')"
  shows "\<exists>ks m. st' = st\<lparr>db_state_keys := ks, db_next_state_key := m\<rparr>"
  using assms by (auto simp: assignStateKeyNID_def split: option.splits)
    (metis stateStore.surjective stateStore.update_convs(5,6))

text \<open>A row for the user is made and then updated.\<close>

definition row_for :: "MembershipState \<Rightarrow> int \<Rightarrow> membership_row \<Rightarrow> bool" where
  "row_for m nid row \<longleftrightarrow> mr_membership row = m \<and> mr_event_nid row = nid \<and> \<not> mr_forgotten row"

lemma Update_spec:
  assumes row: "membership_map db (mu_roomNID mu, mu_targetUserNID mu) = Some r"
  shows "\<exists>ins ids db' r'. Update mu m (Some (nid, pdu)) db = Ok (ins, ids, db') \<and>
    membership_map db' = (membership_map db)((mu_roomNID mu, mu_targetUserNID mu) \<mapsto> r') \<and> row_for m nid r' \<and> events_same db db'"
proof -
  obtain s st where st: "assignStateKeyNID (SenderID pdu) (rd_store db) = (s, st)" by fastforce
  obtain ks k where st': "st = (rd_store db)\<lparr>db_state_keys := ks, db_next_state_key := k\<rparr>"
    using assignStateKeyNID_keeps [OF st] by blast
  let ?f = "\<lambda>row. row\<lparr>mr_sender_nid := s, mr_membership := m, mr_event_nid := nid, mr_forgotten := False\<rparr>"
  let ?db1 = "db\<lparr>rd_store := st, rd_memberships := AList.map_entry (mu_roomNID mu, mu_targetUserNID mu) ?f (rd_memberships db)\<rparr>"
  have upd: "UpdateMembership (mu_roomNID mu) (mu_targetUserNID mu) s m nid False (db\<lparr>rd_store := st\<rparr>) = (True, ?db1)"
    by (simp add: UpdateMembership_def row)
  have m1: "membership_map ?db1 = (membership_map db)((mu_roomNID mu, mu_targetUserNID mu) \<mapsto> ?f r)"
    by (simp add: map_entry_map_of row)
  have e1: "events_same db ?db1" by (simp add: events_same_def st')
  obtain ins db2 where inv: "InsertInviteEvent (EventID pdu) (mu_roomNID mu) (mu_targetUserNID mu) s pdu ?db1 = (ins, db2)" by fastforce
  obtain ids db3 where ret: "UpdateInviteRetired (mu_roomNID mu) (mu_targetUserNID mu) ?db1 = (ids, db3)" by fastforce
  note steps = deref_simps and_then_simps prod.case st upd if_False not_True_eq_False
  note keeps = InsertInviteEvent_keeps [OF inv] UpdateInviteRetired_keeps [OF ret]
  have good: "row_for m nid (?f r)" by (simp add: row_for_def)
  consider (invited) "mu_oldMembership mu \<noteq> MembershipStateInvite \<and> m = MembershipStateInvite"
    | (retired) "mu_oldMembership mu = MembershipStateInvite \<and> m \<noteq> MembershipStateInvite"
    | (other) "\<not> (mu_oldMembership mu \<noteq> MembershipStateInvite \<and> m = MembershipStateInvite)"
        "\<not> (mu_oldMembership mu = MembershipStateInvite \<and> m \<noteq> MembershipStateInvite)" by blast
  then have "\<exists>ins ids db'. Update mu m (Some (nid, pdu)) db = Ok (ins, ids, db') \<and>
      membership_map db' = membership_map ?db1 \<and> events_same ?db1 db'"
  proof cases
    case invited
    have "Update mu m (Some (nid, pdu)) db = Ok (ins, [], db2)"
      unfolding Update_def if_P [OF invited] by (simp only: steps inv)
    then show ?thesis using keeps(1,2) by blast
  next
    case retired
    then have n: "\<not> (mu_oldMembership mu \<noteq> MembershipStateInvite \<and> m = MembershipStateInvite)" by blast
    have "Update mu m (Some (nid, pdu)) db = Ok (True, ids, db3)"
      unfolding Update_def if_not_P [OF n] if_P [OF retired] by (simp only: steps ret)
    then show ?thesis using keeps(3,4) by blast
  next
    case other
    have "Update mu m (Some (nid, pdu)) db = Ok (True, [], ?db1)" 
      unfolding Update_def if_not_P [OF other(1)] if_not_P [OF other(2)] by (simp only: steps)
    then show ?thesis using events_same_refl by blast
  qed
  then obtain ins' ids' db' where "Update mu m (Some (nid, pdu)) db = Ok (ins', ids', db')"
    "membership_map db' = membership_map ?db1" "events_same ?db1 db'" by blast
  then show ?thesis using m1 good events_same_trans [OF e1] by auto
qed

text \<open>The five memberships share what they do with the table.\<close>

definition member_event :: "PDU \<Rightarrow> MembershipState \<Rightarrow> bool" where
  "member_event pdu m \<longleftrightarrow> (\<exists>s. Membership pdu = Ok s \<and> membership_state s = Some m)"

lemma member_event_key: "member_event pdu m \<Longrightarrow> \<exists>k. StateKey pdu = Some k"
  by (auto simp: member_event_def Membership_def split: prod.splits if_splits)

definition user_lookup_safe :: "UserIDForSender \<Rightarrow> bool" where
  "user_lookup_safe q \<longleftrightarrow> (\<forall>room sender. q room sender \<noteq> Panic)"

lemma isLocalTarget_Ok: "user_lookup_safe q \<Longrightarrow> \<exists>b. isLocalTarget q serverName pdu = Ok b"
  by (auto simp: isLocalTarget_def user_lookup_safe_def split: option.splits outcome.splits)

lemma membershipUpdaterTxn_Ok:
  "\<exists>mu db' r. membershipUpdaterTxn room u loc db = Ok (mu, db') \<and> mu_roomNID mu = room \<and> mu_targetUserNID mu = u \<and>
     membership_map db' = (membership_map db)((room, u) \<mapsto> r) \<and> events_same db db'"
proof (cases "membership_map db (room, u)")
  case None
  then show ?thesis
    by (auto simp: membershipUpdaterTxn_def InsertMembership_def SelectMembershipForUpdate_def events_same_def AList.update_conv')
next
  case (Some r)
  then have "membership_map db = (membership_map db)((room, u) \<mapsto> r)" by (simp add: fun_upd_idem)
  then show ?thesis
    using Some by (auto simp: membershipUpdaterTxn_def InsertMembership_def SelectMembershipForUpdate_def)
qed

lemma update_and_retire:
  assumes row: "membership_map db (mu_roomNID mu, mu_targetUserNID mu) = Some r" and key: "StateKey pdu = Some k"
  shows "\<exists>ups db' r'. and_then (Update mu m (Some (nid, pdu)) db) (\<lambda>(b, retired, db').
      and_then (deref (Some (nid, pdu))) (\<lambda>(_, pdu). and_then (retire_events retired s pdu) (\<lambda>retires. Ok (f b retires, db')))) = Ok (ups, db') \<and>
    membership_map db' = (membership_map db)((mu_roomNID mu, mu_targetUserNID mu) \<mapsto> r') \<and> row_for m nid r' \<and> events_same db db'"
proof -
  obtain ins ids db' r' where "Update mu m (Some (nid, pdu)) db = Ok (ins, ids, db')"
    "membership_map db' = (membership_map db)((mu_roomNID mu, mu_targetUserNID mu) \<mapsto> r') \<and> row_for m nid r' \<and> events_same db db'"
    using Update_spec [OF row] by blast
  moreover obtain es where "retire_events ids s pdu = Ok es" using retire_events_Ok [OF key] by blast
  ultimately show ?thesis by auto
qed

lemma updateMembership_added:
  assumes member: "member_event pdu m" and safe: "user_lookup_safe q"
  shows "\<exists>ups db' r. updateMembership q serverName info u remove (Some (nid, pdu)) updates db = Ok (ups, db') \<and>
    membership_map db' = (membership_map db)((ri_RoomNID info, u) \<mapsto> r) \<and> row_for m nid r \<and> events_same db db'"
proof -
  obtain s where s: "Membership pdu = Ok s" "membership_state s = Some m" using member by (auto simp: member_event_def)
  obtain k where key: "StateKey pdu = Some k" using member_event_key [OF member] by blast
  obtain b where b: "isLocalTarget q serverName pdu = Ok b" using isLocalTarget_Ok [OF safe] by blast
  obtain mu db1 r1 where mu: "membershipUpdaterTxn (ri_RoomNID info) u b db = Ok (mu, db1)"
    "mu_roomNID mu = ri_RoomNID info" "mu_targetUserNID mu = u"
    and db1: "membership_map db1 = (membership_map db)((ri_RoomNID info, u) \<mapsto> r1)" "events_same db db1"
    using membershipUpdaterTxn_Ok [of "ri_RoomNID info" u b db] by blast
  have row: "membership_map db1 (mu_roomNID mu, mu_targetUserNID mu) = Some r1" by (simp add: db1 mu)
  note fin = update_and_retire [OF row key, of m nid] Update_spec [OF row, of m nid pdu]
  have "\<exists>ups db' r. updateMembership q serverName info u remove (Some (nid, pdu)) updates db = Ok (ups, db') \<and>
      membership_map db' = (membership_map db1)((mu_roomNID mu, mu_targetUserNID mu) \<mapsto> r) \<and> row_for m nid r \<and> events_same db1 db'"
  proof -
    have eq: "updateMembership q serverName info u remove (Some (nid, pdu)) updates db =
        (if s = Invite then UpdateToInviteMembership mu (Some (nid, pdu)) updates (ri_RoomVersion info) db1
         else if s = Join then updateToJoinMembership mu (Some (nid, pdu)) updates db1
         else if s = Leave \<or> s = Ban then updateToLeaveMembership mu (Some (nid, pdu)) s updates db1
         else updateToKnockMembership mu (Some (nid, pdu)) updates db1)"
      using s by (auto simp: updateMembership_def b mu(1) membership_state_def split: if_splits)
    consider "s = Invite" "m = MembershipStateInvite" | "s = Join" "m = MembershipStateJoin"
      | "s = Leave \<or> s = Ban" "m = MembershipStateLeaveOrBan" | "s = Knock" "m = MembershipStateKnock"
      using s(2) by (auto simp: membership_state_def split: if_splits)
    then show ?thesis
    proof cases
      case 1
      then show ?thesis unfolding eq using fin(1) [of Join "\<lambda>b retires. updates @ (if b then [NewInviteEvent pdu (ri_RoomVersion info)] else []) @ retires"]
        by (simp add: UpdateToInviteMembership_def)
    next
      case 2
      then show ?thesis unfolding eq using fin(1) [of Join "\<lambda>b retires. updates @ retires"]
        by (simp add: updateToJoinMembership_def)
    next
      case 3
      then have "s \<noteq> Invite" "s \<noteq> Join" by auto
      with 3 show ?thesis unfolding eq using fin(1) [of s "\<lambda>b retires. updates @ retires"]
        by (simp add: updateToLeaveMembership_def)
    next
      case 4
      then show ?thesis unfolding eq using fin(2) by (auto simp: updateToKnockMembership_def)
    qed
  qed
  then show ?thesis using db1 mu(2,3) events_same_trans [OF db1(2)] by auto
qed

lemma updateMembership_removed:
  "\<exists>db'. updateMembership q serverName info u (Some re) None updates db = Ok ([], db') \<and>
    membership_map db' = (membership_map db)((ri_RoomNID info, u) := None) \<and> events_same db db'"
proof -
  obtain mu db1 r1 where mu: "membershipUpdaterTxn (ri_RoomNID info) u False db = Ok (mu, db1)"
    "mu_roomNID mu = ri_RoomNID info" "mu_targetUserNID mu = u"
    and db1: "membership_map db1 = (membership_map db)((ri_RoomNID info, u) \<mapsto> r1)" "events_same db db1"
    using membershipUpdaterTxn_Ok [of "ri_RoomNID info" u False db] by blast
  obtain ids db2 where ret: "UpdateInviteRetired (ri_RoomNID info) u db1 = (ids, db2)" by fastforce
  have "updateMembership q serverName info u (Some re) None updates db = Ok ([], Delete mu db1)"
    by (simp add: updateMembership_def mu(1))
  moreover have "membership_map (Delete mu db1) = (membership_map db)((ri_RoomNID info, u) := None)"
    using UpdateInviteRetired_keeps(1) [OF ret] db1(1) by (simp add: Delete_def mu ret DeleteMembership_def AList.delete_conv')
  moreover have "events_same db2 (Delete mu db1)"
    by (simp add: Delete_def mu ret DeleteMembership_def events_same_def)
  then have "events_same db (Delete mu db1)"
    using events_same_trans [OF db1(2) events_same_trans [OF UpdateInviteRetired_keeps(2) [OF ret]]] by simp
  ultimately show ?thesis by blast
qed

section \<open>Pairing up\<close>

definition nid_or_zero :: "int option \<Rightarrow> int" where
  "nid_or_zero x = (case x of None \<Rightarrow> 0 | Some n \<Rightarrow> n)"

lemma nid_or_zero_simps [simp]: "nid_or_zero None = 0" "nid_or_zero (Some n) = n"
  by (simp_all add: nid_or_zero_def)

definition change_at :: "StateEntry list \<Rightarrow> StateEntry list \<Rightarrow> NIDTuple \<Rightarrow> stateChange" where
  "change_at removed added t =
     \<lparr>sc_tuple = t, sc_removedEventNID = nid_or_zero (state_of removed t), sc_addedEventNID = nid_or_zero (state_of added t)\<rparr>"

definition changed :: "StateEntry list \<Rightarrow> StateEntry list \<Rightarrow> NIDTuple set" where
  "changed removed added = entry_tuple ` (set removed \<union> set added)"

lemma pair_added_fold: "map_of (fold pair_added added []) t = (if t \<in> entry_tuple ` set added then Some (change_at [] added t) else None)"
  by (induction added rule: rev_induct) (auto simp: pair_added_def AList.update_conv' change_at_def)

lemma pair_removed_fold:
  "map_of (fold pair_removed removed (fold pair_added added [])) t =
     (if t \<in> changed removed added then Some (change_at removed added t) else None)"
proof (induction removed rule: rev_induct)
  case Nil
  then show ?case by (simp add: pair_added_fold changed_def)
next
  case (snoc e es)
  have "state_of added t = None" if "t \<notin> changed es added"
    using that state_of_dom [of added] by (auto simp: changed_def)
  with snoc show ?case by (auto simp: pair_removed_def AList.update_conv' change_at_def changed_def)
qed

lemma distinct_pairs: "distinct (keys (fold pair_removed removed (fold pair_added added [])))"
proof -
  have "distinct (keys (fold pair_added added m))" if "distinct (keys m)" for m
    using that by (induction added arbitrary: m) (auto simp: pair_added_def distinct_update)
  moreover have "distinct (keys (fold pair_removed removed m))" if "distinct (keys m)" for m
    using that by (induction removed arbitrary: m) (auto simp: pair_removed_def distinct_update)
  ultimately show ?thesis by simp
qed

lemma pairUpChanges_eq:
  assumes "is_range_order rng"
  obtains ts where "pairUpChanges rng removed added = map (change_at removed added) ts" "distinct ts" "set ts = changed removed added"
proof -
  let ?m = "fold pair_removed removed (fold pair_added added [])"
  have dom: "set (keys ?m) = changed removed added"
    using pair_removed_fold [of removed added] by (auto simp: map_of_eq_None_iff [symmetric] dom_map_of_conv_image_fst [symmetric] dom_def split: if_splits)
  have "List.map_filter (map_of ?m) ts = map (change_at removed added) ts" if "set ts \<subseteq> changed removed added" for ts
    using that by (induction ts) (auto simp: List.map_filter_simps pair_removed_fold)
  then show ?thesis
    using that [of "rng 60 (keys ?m)"] dom distinct_pairs range_order_set [OF assms] range_order_distinct [OF assms]
    unfolding pairUpChanges_def Let_def by simp
qed

section \<open>All changes\<close>

lemma update_loop:
  assumes each: "\<And>t updates db. t \<in> set ts \<Longrightarrow> \<exists>ups db' x.
      updateMembership q serverName info (EventStateKeyNID t) (change_event events (sc_removedEventNID (ch t)))
        (change_event events (sc_addedEventNID (ch t))) updates db = Ok (ups, db') \<and>
      membership_map db' = (membership_map db)((ri_RoomNID info, EventStateKeyNID t) := x) \<and> good t x \<and> events_same db db'"
    and tuple: "\<And>t. sc_tuple (ch t) = t" and "distinct (map EventStateKeyNID ts)"
  shows "\<exists>ups db'. update_memberships_loop q serverName info events (map ch ts) updates db = Ok (ups, db') \<and> events_same db db' \<and>
    (\<forall>t \<in> set ts. good t (membership_map db' (ri_RoomNID info, EventStateKeyNID t))) \<and>
    (\<forall>k. (\<forall>t \<in> set ts. k \<noteq> (ri_RoomNID info, EventStateKeyNID t)) \<longrightarrow> membership_map db' k = membership_map db k)"
  using assms
proof (induction ts arbitrary: updates db)
  case (Cons t ts)
  obtain ups db1 x where one: "updateMembership q serverName info (EventStateKeyNID t) (change_event events (sc_removedEventNID (ch t)))
        (change_event events (sc_addedEventNID (ch t))) updates db = Ok (ups, db1)"
      "membership_map db1 = (membership_map db)((ri_RoomNID info, EventStateKeyNID t) := x)" "good t x" "events_same db db1"
    using Cons.prems(1) [of t] by (meson list.set_intros(1))
  obtain ups' db' where rest: "update_memberships_loop q serverName info events (map ch ts) ups db1 = Ok (ups', db')" "events_same db1 db'"
      "\<forall>t \<in> set ts. good t (membership_map db' (ri_RoomNID info, EventStateKeyNID t))"
      "\<forall>k. (\<forall>t \<in> set ts. k \<noteq> (ri_RoomNID info, EventStateKeyNID t)) \<longrightarrow> membership_map db' k = membership_map db1 k"
    using Cons.IH [of ups db1] Cons.prems by auto
  have "\<forall>t' \<in> set ts. (ri_RoomNID info, EventStateKeyNID t) \<noteq> (ri_RoomNID info, EventStateKeyNID t')"
    using Cons.prems(3) by (auto simp: image_iff)
  then have "membership_map db' (ri_RoomNID info, EventStateKeyNID t) = membership_map db1 (ri_RoomNID info, EventStateKeyNID t)"
    using rest(4) by blast
  then have "membership_map db' (ri_RoomNID info, EventStateKeyNID t) = x" by (simp add: one(2))
  then show ?case using one rest events_same_trans [OF one(4) rest(2)] by (auto simp: Cons.prems(2))
qed simp

lemma load_events_Ok:
  "\<forall>n \<in> set ns. map_of (db_events db) n \<noteq> None \<Longrightarrow>
    load_events ns db = Ok (map (\<lambda>n. (n, er_pdu (the (map_of (db_events db) n)))) ns)"
  by (induction ns) auto

lemma change_event_loaded:
  assumes "\<forall>n \<in> set ns. map_of (db_events db) n \<noteq> None"
  shows "\<exists>evs. Events ns db = Ok evs \<and> (\<forall>n \<in> set ns. n \<noteq> 0 \<longrightarrow> change_event evs n = Some (n, er_pdu (the (map_of (db_events db) n))))"
proof -
  let ?f = "\<lambda>n. er_pdu (the (map_of (db_events db) n))"
  let ?evs = "map (\<lambda>n. (n, ?f n)) (sort ns)"
  have "Events ns db = Ok ?evs" using assms load_events_Ok [of "sort ns" db] by (simp add: Events_def)
  moreover have "sorted (map fst ?evs)" by (simp add: comp_def)
  then have "eventMap_lookup ?evs n = map_of ?evs n" for n
    unfolding eventMap_lookup_def by (simp only: search_by_eq find_fst)
  then have "\<forall>n \<in> set ns. n \<noteq> 0 \<longrightarrow> change_event ?evs n = Some (n, ?f n)"
    by (simp add: change_event_def map_of_map_restrict)
  ultimately show ?thesis by blast
qed

text \<open>The events that are added to the state, as far as they are member events, are valid ones.\<close>

definition entries_loadable :: "stateStore \<Rightarrow> StateEntry list \<Rightarrow> bool" where
  "entries_loadable db es \<longleftrightarrow> (\<forall>e \<in> set es. EventNID e \<noteq> 0 \<and> map_of (db_events db) (EventNID e) \<noteq> None)"

definition event_pdu :: "stateStore \<Rightarrow> int \<Rightarrow> PDU" where
  "event_pdu db n = er_pdu (the (map_of (db_events db) n))"

definition members_valid :: "stateStore \<Rightarrow> StateEntry list \<Rightarrow> bool" where
  "members_valid db es \<longleftrightarrow>
     (\<forall>e \<in> set es. EventTypeNID (entry_tuple e) = MRoomMemberNID \<longrightarrow> (\<exists>m. member_event (event_pdu db (EventNID e)) m))"

text \<open>What the row of a user should be when the state changes.\<close>

definition row_follows :: "stateStore \<Rightarrow> StateEntry list \<Rightarrow> StateEntry list \<Rightarrow> NIDTuple \<Rightarrow> membership_row option
    \<Rightarrow> membership_row option \<Rightarrow> bool" where
  "row_follows db removed added t old new =
     (case state_of added t of
        Some n \<Rightarrow> (\<exists>m r. member_event (event_pdu db n) m \<and> new = Some r \<and> row_for m n r)
      | None \<Rightarrow> new = (if state_of removed t = None then old else None))"

lemma state_of_in: "state_of es t = Some n \<Longrightarrow> StateEntry t n \<in> set es"
  by (auto simp: state_of_def dest!: map_of_SomeD)

lemma state_of_None: "state_of es t = None \<longleftrightarrow> t \<notin> entry_tuple ` set es"
  using state_of_dom [of es] by auto

lemma membership_change:
  assumes loaded: "\<forall>n \<in> set (changed_nids cs). n \<noteq> 0 \<longrightarrow> change_event evs n = Some (n, event_pdu db n)"
    and c: "change_at removed added t \<in> set cs" "t \<in> changed removed added" "EventTypeNID t = MRoomMemberNID"
    and ok: "entries_loadable db removed" "entries_loadable db added" "members_valid db added" and safe: "user_lookup_safe q"
  shows "\<exists>ups db' x. updateMembership q serverName info (EventStateKeyNID t)
      (change_event evs (sc_removedEventNID (change_at removed added t)))
      (change_event evs (sc_addedEventNID (change_at removed added t))) updates rdb = Ok (ups, db') \<and>
    membership_map db' = (membership_map rdb)((ri_RoomNID info, EventStateKeyNID t) := x) \<and>
    row_follows db removed added t None x \<and> events_same rdb db'"
proof (cases "state_of added t")
  case (Some n)
  then have e: "StateEntry t n \<in> set added" by (rule state_of_in)
  then have "n \<noteq> 0" using ok(2) by (auto simp: entries_loadable_def)
  then have "n \<in> set (changed_nids cs)" using c(1) Some by (force simp: changed_nids_def change_at_def)
  then have "change_event evs n = Some (n, event_pdu db n)" using loaded \<open>n \<noteq> 0\<close> by blast
  moreover obtain m where m: "member_event (event_pdu db n) m" using ok(3) e c(3) by (auto simp: members_valid_def)
  moreover obtain ups db' r where "updateMembership q serverName info (EventStateKeyNID t)
      (change_event evs (sc_removedEventNID (change_at removed added t))) (Some (n, event_pdu db n)) updates rdb = Ok (ups, db')"
      "membership_map db' = (membership_map rdb)((ri_RoomNID info, EventStateKeyNID t) := Some r)" "row_for m n r" "events_same rdb db'"
    using updateMembership_added [OF m safe] by blast
  moreover have "sc_addedEventNID (change_at removed added t) = n" by (simp add: change_at_def Some)
  moreover have "row_follows db removed added t None (Some r)" using m Some \<open>row_for m n r\<close> by (auto simp: row_follows_def)
  ultimately show ?thesis by (metis (no_types, lifting))
next
  case None
  then obtain n where n: "state_of removed t = Some n"
    using c(2) state_of_None [of added t] state_of_None [of removed t] by (cases "state_of removed t") (auto simp: changed_def)
  then have e: "StateEntry t n \<in> set removed" by (rule state_of_in)
  then have "n \<noteq> 0" using ok(1) by (auto simp: entries_loadable_def)
  then have "n \<in> set (changed_nids cs)" using c(1) n by (force simp: changed_nids_def change_at_def)
  then have "change_event evs n = Some (n, event_pdu db n)" using loaded \<open>n \<noteq> 0\<close> by blast
  then show ?thesis
    using updateMembership_removed [of q serverName info "EventStateKeyNID t" "(n, event_pdu db n)" updates rdb] None n
    by (auto simp: row_follows_def change_at_def change_event_def)
qed

lemma memberships_follow:
  assumes rng: "is_range_order rng" and safe: "user_lookup_safe q"
    and ok: "entries_loadable (rd_store db) removed" "entries_loadable (rd_store db) added" "members_valid (rd_store db) added"
  obtains ups db' where "updateMemberships rng q serverName info removed added db = Ok (ups, db')" "events_same db db'"
    "\<forall>u. row_follows (rd_store db) removed added (NIDTuple MRoomMemberNID u)
       (membership_map db (ri_RoomNID info, u)) (membership_map db' (ri_RoomNID info, u))"
    "\<forall>r u. r \<noteq> ri_RoomNID info \<longrightarrow> membership_map db' (r, u) = membership_map db (r, u)"
proof -
  let ?ch = "change_at removed added"
  obtain ts0 where ts0: "pairUpChanges rng removed added = map ?ch ts0" "distinct ts0" "set ts0 = changed removed added"
    using pairUpChanges_eq [OF rng] .
  define ts where "ts = filter (\<lambda>t. EventTypeNID t = MRoomMemberNID) ts0"
  have cs: "membershipChanges rng removed added = map ?ch ts"
    by (simp add: membershipChanges_def ts0(1) ts_def filter_map comp_def change_at_def)
  have ts: "set ts = {t \<in> changed removed added. EventTypeNID t = MRoomMemberNID}" "distinct ts" by (simp_all add: ts_def ts0)
  have "inj_on EventStateKeyNID (set ts)"
    by (rule inj_onI) (metis (mono_tags, lifting) NIDTuple.expand mem_Collect_eq ts(1))
  then have keys: "distinct (map EventStateKeyNID ts)" by (simp add: distinct_map ts(2))
  have in_entries: "state_of es t = Some n \<Longrightarrow> entries_loadable (rd_store db) es \<Longrightarrow> \<exists>y. map_of (db_events (rd_store db)) n = Some y" for es t n
    using state_of_in [of es t n] by (auto simp: entries_loadable_def)
  have "\<forall>n \<in> set (changed_nids (map ?ch ts)). map_of (db_events (rd_store db)) n \<noteq> None"
    using in_entries [OF _ ok(1)] in_entries [OF _ ok(2)]
    by (auto simp: changed_nids_def change_at_def nid_or_zero_def split: option.splits if_splits)
  from change_event_loaded [OF this] obtain evs where evs: "Events (changed_nids (map ?ch ts)) (rd_store db) = Ok evs"
      "\<forall>n \<in> set (changed_nids (map ?ch ts)). n \<noteq> 0 \<longrightarrow> change_event evs n = Some (n, event_pdu (rd_store db) n)"
    unfolding event_pdu_def by blast
  have "\<exists>ups db'. update_memberships_loop q serverName info evs (map ?ch ts) [] db = Ok (ups, db') \<and> events_same db db' \<and>
    (\<forall>t \<in> set ts. row_follows (rd_store db) removed added t None (membership_map db' (ri_RoomNID info, EventStateKeyNID t))) \<and>
    (\<forall>k. (\<forall>t \<in> set ts. k \<noteq> (ri_RoomNID info, EventStateKeyNID t)) \<longrightarrow> membership_map db' k = membership_map db k)"
    by (rule update_loop [OF membership_change [OF evs(2) _ _ _ ok safe]]) (use ts(1) keys in \<open>auto simp: change_at_def\<close>)
  then obtain ups db' where fin: "update_memberships_loop q serverName info evs (map ?ch ts) [] db = Ok (ups, db')" "events_same db db'"
      "\<forall>t \<in> set ts. row_follows (rd_store db) removed added t None (membership_map db' (ri_RoomNID info, EventStateKeyNID t))"
      "\<forall>k. (\<forall>t \<in> set ts. k \<noteq> (ri_RoomNID info, EventStateKeyNID t)) \<longrightarrow> membership_map db' k = membership_map db k" by blast
  have "row_follows (rd_store db) removed added (NIDTuple MRoomMemberNID u)
       (membership_map db (ri_RoomNID info, u)) (membership_map db' (ri_RoomNID info, u))" for u
  proof (cases "NIDTuple MRoomMemberNID u \<in> set ts")
    case True
    then have "row_follows (rd_store db) removed added (NIDTuple MRoomMemberNID u) None (membership_map db' (ri_RoomNID info, u))"
      using fin(3) by fastforce
    moreover have "NIDTuple MRoomMemberNID u \<in> changed removed added" using True ts(1) by simp
    then have "state_of added (NIDTuple MRoomMemberNID u) \<noteq> None \<or> state_of removed (NIDTuple MRoomMemberNID u) \<noteq> None"
      unfolding state_of_None changed_def by blast
    ultimately show ?thesis by (cases "state_of added (NIDTuple MRoomMemberNID u)") (auto simp: row_follows_def)
  next
    case False
    then have "NIDTuple MRoomMemberNID u \<notin> changed removed added" using ts(1) by simp
    then have none: "state_of added (NIDTuple MRoomMemberNID u) = None" "state_of removed (NIDTuple MRoomMemberNID u) = None"
      by (auto simp: state_of_None changed_def)
    have "\<forall>t \<in> set ts. (ri_RoomNID info, u) \<noteq> (ri_RoomNID info, EventStateKeyNID t)"
      using False ts(1) by (auto simp del: prod.inject) (metis NIDTuple.collapse prod.inject)
    then show ?thesis using fin(4) none by (simp add: row_follows_def)
  qed
  then show ?thesis using that [of ups db'] fin(1,2,4) by (simp add: updateMemberships_def Let_def cs evs(1))
qed

text \<open>
  C17. The membership table follows the state of the room: if the changed events are there and
  the added member events have one of the five memberships, the update succeeds; afterwards every
  user whose member event was added has a row with that event and its membership, a user whose
  member event was removed without another in its place has no row, and all other rows are as they
  were.
\<close>

theorem updateMemberships_follows:
  assumes "is_range_order rng" "user_lookup_safe q" "entries_loadable (rd_store db) removed"
    "entries_loadable (rd_store db) added" "members_valid (rd_store db) added"
  shows "\<exists>ups db'. updateMemberships rng q serverName info removed added db = Ok (ups, db') \<and>
    (\<forall>u. row_follows (rd_store db) removed added (NIDTuple MRoomMemberNID u)
       (membership_map db (ri_RoomNID info, u)) (membership_map db' (ri_RoomNID info, u))) \<and>
    (\<forall>r u. r \<noteq> ri_RoomNID info \<longrightarrow> membership_map db' (r, u) = membership_map db (r, u))"
  using memberships_follow [OF assms] by metis

section \<open>A sample\<close>

text \<open>Two users join, the member event of a third is removed.\<close>

definition member_row :: "string \<Rightarrow> int \<Rightarrow> string \<Rightarrow> event_row" where
  "member_row eventID keyNID user =
     \<lparr>er_event_id = eventID, er_room_nid = 1, er_type_nid = MRoomMemberNID, er_state_key_nid = keyNID, er_snapshot_nid = 1,
      er_is_rejected = False, er_pdu = mk_event eventID MRoomMember (Some user) user [(''membership'', JStr Join)] [] 1\<rparr>"

definition sample_rooms :: roomDB where
  "sample_rooms =
     \<lparr>rd_store = sample_store\<lparr>db_events := db_events sample_store @
        [(4, member_row ''$4'' 70 ''@x:a''), (5, member_row ''$5'' 71 ''@y:a''), (6, member_row ''$6'' 72 ''@z:a'')]\<rparr>,
      rd_next_event = 7, rd_sent = [], rd_previous_events = [], rd_rooms = [(1, \<lparr>rr_latest_event_nids = [], rr_last_event_sent_nid = 0, rr_state_snapshot_nid = 0\<rparr>)],
      rd_memberships = [((1, 70), \<lparr>mr_sender_nid = 70, mr_membership = MembershipStateInvite, mr_event_nid = 0, mr_target_local = True, mr_forgotten = False\<rparr>),
                        ((1, 72), \<lparr>mr_sender_nid = 72, mr_membership = MembershipStateJoin, mr_event_nid = 6, mr_target_local = True, mr_forgotten = False\<rparr>)],
      rd_invites = [(''$i'', \<lparr>iv_room_nid = 1, iv_target_nid = 70, iv_sender_nid = 71, iv_retired = False, iv_event = er_pdu (member_row ''$i'' 70 ''@x:a'')\<rparr>)]\<rparr>"

abbreviation sample_info :: RoomInfo where
  "sample_info \<equiv> \<lparr>ri_RoomNID = 1, ri_RoomVersion = ''10''\<rparr>"

lemma sample_users_safe: "user_lookup_safe sample_users"
  by (auto simp: user_lookup_safe_def sample_users_def parseAndValidateUserID_def and_then_def Let_def
    split: if_splits option.splits prod.splits outcome.splits)

lemma member_row_event: "member_event (er_pdu (member_row eid k u)) MembershipStateJoin"
proof -
  have "Unmarshal (dec_struct [(''membership'', fld (\<lambda>s. s) (\<lambda>x _. x) dec_string)]) (Some (JObj [(''membership'', JStr Join)])) [] = (Join, False)"
    by code_simp
  then show ?thesis by (simp add: member_event_def Membership_def member_row_def membership_state_def)
qed

theorem updateMemberships_follows_witness:
  "\<exists>ups db'. updateMemberships range_id sample_users ''a'' sample_info [StateEntry (NIDTuple MRoomMemberNID 72) 6]
      [StateEntry (NIDTuple MRoomMemberNID 70) 4, StateEntry (NIDTuple MRoomMemberNID 71) 5] sample_rooms = Ok (ups, db') \<and>
    membership_map db' (1, 72) = None \<and> (\<exists>r. membership_map db' (1, 70) = Some r \<and> mr_membership r = MembershipStateJoin)"
proof -
  let ?a = "[StateEntry (NIDTuple MRoomMemberNID 70) 4, StateEntry (NIDTuple MRoomMemberNID 71) 5]"
  let ?r = "[StateEntry (NIDTuple MRoomMemberNID 72) 6]"
  have pdu: "event_pdu (rd_store sample_rooms) 4 = er_pdu (member_row ''$4'' 70 ''@x:a'')"
    "event_pdu (rd_store sample_rooms) 5 = er_pdu (member_row ''$5'' 71 ''@y:a'')"
    by (simp_all add: event_pdu_def sample_rooms_def sample_store_def)
  have "entries_loadable (rd_store sample_rooms) ?r" "entries_loadable (rd_store sample_rooms) ?a"
    by (simp_all add: entries_loadable_def sample_rooms_def sample_store_def)
  moreover have "members_valid (rd_store sample_rooms) ?a"
    using member_row_event by (auto simp: members_valid_def pdu)
  ultimately obtain ups db' where fin: "updateMemberships range_id sample_users ''a'' sample_info ?r ?a sample_rooms = Ok (ups, db')"
    "\<forall>u. row_follows (rd_store sample_rooms) ?r ?a (NIDTuple MRoomMemberNID u)
       (membership_map sample_rooms (1, u)) (membership_map db' (1, u))"
    using updateMemberships_follows [OF range_id_ok sample_users_safe, of sample_rooms ?r ?a "''a''" sample_info] by auto
  have m: "m = MembershipStateJoin" if m: "member_event (er_pdu (member_row eid k u)) m" for eid k u m
    using m member_row_event [of eid k u] by (auto simp: member_event_def)
  have "membership_map db' (1, 72) = None" using fin(2) [rule_format, of 72] by (simp add: row_follows_def)
  moreover have "\<exists>r. membership_map db' (1, 70) = Some r \<and> mr_membership r = MembershipStateJoin"
    using fin(2) [rule_format, of 70] m by (auto simp: row_follows_def pdu row_for_def)
  ultimately show ?thesis using fin(1) by blast
qed

text \<open>
  Removing a member event without another in its place loses the updates collected before it: the
  invite of the first user is retired, and nobody is told.
\<close>

theorem removal_drops_updates:
  "case updateMemberships range_id sample_users ''a'' sample_info [StateEntry (NIDTuple MRoomMemberNID 72) 6]
      [StateEntry (NIDTuple MRoomMemberNID 70) 4] sample_rooms of
     Ok (updates, db) \<Rightarrow> updates = [] \<and> map_option iv_retired (map_of (rd_invites db) ''$i'') = Some True
   | _ \<Rightarrow> False"
  by code_simp

end
