(* ===== verification/LatestEvents_Correct.thy ===== *)
theory LatestEvents_Correct
  imports LatestEvents Memberships_Correct StepSystem
begin

text \<open>
  The latest events of a room are its forward extremities as long as events arrive after those
  they refer to, and the current state, the memberships and the output follow from them.
\<close>

section \<open>The references\<close>

abbreviation by_id :: "StateAtEventAndReference list \<Rightarrow> (string, StateAtEventAndReference) gomap" where
  "by_id rs \<equiv> map (\<lambda>r. (sar_EventID r, r)) rs"

lemma update_new: "k \<notin> set (keys m) \<Longrightarrow> AList.update k v m = m @ [(k, v)]"
  by (induction m) auto

lemma existing_refs_eq:
  assumes "distinct (map sar_EventID old)" shows "existing_refs old = by_id old"
proof -
  have "fold (\<lambda>r m. AList.update (sar_EventID r) r m) old m = m @ by_id old"
    if "set (keys m) \<inter> sar_EventID ` set old = {}" for m
    using assms that by (induction old arbitrary: m) (auto simp: update_new)
  from this [of "[]"] show ?thesis by (simp add: existing_refs_def)
qed

lemma fold_delete: "fold AList.delete ks m = filter (\<lambda>(k, _). k \<notin> set ks) m"
proof (induction ks arbitrary: m)
  case (Cons k ks)
  then show ?case by (auto simp: AList.delete_eq intro!: filter_cong)
qed (simp add: case_prod_beta)

lemma values_by_id:
  assumes "distinct (map sar_EventID rs)" "mset ks = mset (map sar_EventID rs)"
  shows "set (List.map_filter (map_of (by_id rs)) ks) = set rs" "map sar_EventID (List.map_filter (map_of (by_id rs)) ks) = ks"
proof -
  have val: "r \<in> set rs \<Longrightarrow> map_of (by_id rs) (sar_EventID r) = Some r" for r
    using assms(1) by (intro map_of_is_SomeI) (auto simp: comp_def)
  have ks: "set ks = sar_EventID ` set rs" using assms(2) by (metis list.set_map set_mset_mset)
  show "set (List.map_filter (map_of (by_id rs)) ks) = set rs"
  proof
    show "set (List.map_filter (map_of (by_id rs)) ks) \<subseteq> set rs" using val ks by (auto simp: List.map_filter_def)
    show "set rs \<subseteq> set (List.map_filter (map_of (by_id rs)) ks)"
    proof
      fix r assume r: "r \<in> set rs"
      then have "sar_EventID r \<in> {k \<in> set ks. map_of (by_id rs) k \<noteq> None}" using val [OF r] ks by simp
      moreover have "r = the (map_of (by_id rs) (sar_EventID r))" using val [OF r] by simp
      ultimately show "r \<in> set (List.map_filter (map_of (by_id rs)) ks)" unfolding List.map_filter_def by (auto simp: image_iff)
    qed
  qed
  have "\<forall>k \<in> set l. \<exists>r \<in> set rs. k = sar_EventID r \<Longrightarrow> map sar_EventID (List.map_filter (map_of (by_id rs)) l) = l" for l
    using val by (induction l) (auto simp: List.map_filter_simps)
  moreover have "\<forall>k \<in> set ks. \<exists>r \<in> set rs. k = sar_EventID r" using ks by auto
  ultimately show "map sar_EventID (List.map_filter (map_of (by_id rs)) ks) = ks" by blast
qed

text \<open>The references that stay: not referenced by any event, and not by the new one.\<close>

definition still_latest :: "roomDB \<Rightarrow> PDU \<Rightarrow> StateAtEventAndReference \<Rightarrow> bool" where
  "still_latest db newEvent old \<longleftrightarrow> \<not> IsReferenced (sar_EventID old) db \<and> sar_EventID old \<notin> set (PrevEventIDs newEvent)"

lemma calculateLatest_spec:
  assumes rng: "is_range_order rng" and old: "distinct (map sar_EventID oldLatest)"
    and new: "sar_EventID newRef = EventID newEvent"
  shows "if EventID newEvent \<in> sar_EventID ` set oldLatest \<or> IsReferenced (EventID newEvent) db
    then calculateLatest rng oldLatest newEvent newRef db = (oldLatest, False)
    else \<exists>latest. calculateLatest rng oldLatest newEvent newRef db = (latest, True) \<and>
      set latest = insert newRef {o' \<in> set oldLatest. still_latest db newEvent o'} \<and> distinct (map sar_EventID latest)"
proof (cases "EventID newEvent \<in> sar_EventID ` set oldLatest \<or> IsReferenced (EventID newEvent) db")
  case True
  have "map_of (by_id oldLatest) k = None \<longleftrightarrow> k \<notin> sar_EventID ` set oldLatest" for k
    by (auto simp: map_of_eq_None_iff image_iff)
  with True show ?thesis by (auto simp: calculateLatest_def Let_def existing_refs_eq [OF old])
next
  case False
  let ?rs = "filter (still_latest db newEvent) oldLatest"
  have "map_of (by_id oldLatest) (EventID newEvent) = None" using False by (auto simp: map_of_eq_None_iff)
  moreover have "fold AList.delete (PrevEventIDs newEvent) (filter (\<lambda>(k, l). \<not> IsReferenced (sar_EventID l) db) (by_id oldLatest)) = by_id ?rs"
    by (auto simp: fold_delete filter_map comp_def still_latest_def intro!: arg_cong [where f = by_id] filter_cong)
  ultimately have eq: "calculateLatest rng oldLatest newEvent newRef db =
      (newRef # List.map_filter (map_of (by_id ?rs)) (rng 70 (map sar_EventID ?rs)), True)"
    using False by (simp add: calculateLatest_def Let_def existing_refs_eq [OF old] comp_def)
  have d: "distinct (map sar_EventID ?rs)" using old by (simp add: distinct_map_filter)
  have m: "mset (rng 70 (map sar_EventID ?rs)) = mset (map sar_EventID ?rs)" by (rule range_order_mset [OF rng])
  note v = values_by_id [OF d m]
  have "EventID newEvent \<notin> set (rng 70 (map sar_EventID ?rs))" using False range_order_set [OF rng] by auto
  then have "distinct (map sar_EventID (newRef # List.map_filter (map_of (by_id ?rs)) (rng 70 (map sar_EventID ?rs))))"
    using v(2) d range_order_distinct [OF rng] by (simp add: new)
  then show ?thesis using False eq v(1) by auto
qed


text \<open>
  The latest events after a new event are the event itself and those of the old ones that no
  stored event and not the new one refers to, each once; if the new event is one of the old ones or
  is referenced already, they stay as they are.
\<close>

lemma calculateLatest_extremities:
  assumes "is_range_order rng" "distinct (map sar_EventID oldLatest)" "sar_EventID newRef = EventID newEvent"
  shows "\<exists>latest new. calculateLatest rng oldLatest newEvent newRef db = (latest, new) \<and> distinct (map sar_EventID latest) \<and>
    (new \<longleftrightarrow> EventID newEvent \<notin> sar_EventID ` set oldLatest \<and> \<not> IsReferenced (EventID newEvent) db) \<and>
    set latest = (if new then insert newRef {r \<in> set oldLatest. still_latest db newEvent r} else set oldLatest)"
  using calculateLatest_spec [OF assms, of db] assms(2) by (auto split: if_splits)

section \<open>Forward extremities\<close>

text \<open>
  Events arrive one after the other, each is stored and the latest events are calculated. The
  state has the tables, the latest events and the events received so far. Events come in order
  when each comes after those it refers to.
\<close>

type_synonym extremities = "roomDB \<times> StateAtEventAndReference list \<times> PDU list"

definition in_order :: "PDU list \<Rightarrow> PDU \<Rightarrow> bool" where
  "in_order seen e \<longleftrightarrow>
     EventID e \<notin> EventID ` set seen \<and> (\<forall>s \<in> set seen. EventID e \<notin> set (PrevEventIDs s)) \<and> EventID e \<notin> set (PrevEventIDs e)"

definition receive :: "string range_order \<Rightarrow> RoomInfo \<Rightarrow> PDU \<Rightarrow> int \<Rightarrow> int \<Rightarrow> roomDB \<Rightarrow> StateAtEventAndReference list
    \<Rightarrow> StateAtEventAndReference list \<times> roomDB" where
  "receive rng info e typeNID keyNID db latest =
     (case StoreEvent e (ri_RoomNID info) typeNID keyNID False db of (nid, sae, db') \<Rightarrow>
        (fst (calculateLatest rng latest e \<lparr>sar_state = sae, sar_EventID = EventID e\<rparr> db'), db'))"

inductive extremity_step :: "string range_order \<Rightarrow> RoomInfo \<Rightarrow> extremities \<Rightarrow> extremities \<Rightarrow> bool" for rng info where
  received: "in_order seen e \<Longrightarrow> receive rng info e typeNID keyNID db latest = (latest', db') \<Longrightarrow>
     extremity_step rng info (db, latest, seen) (db', latest', e # seen)"

inductive_cases extremity_stepE: "extremity_step rng info s t"

definition no_events :: "extremities \<Rightarrow> bool" where
  "no_events = (\<lambda>(db, latest, seen). rd_previous_events db = [] \<and> latest = [] \<and> seen = [])"

definition unreferenced :: "PDU list \<Rightarrow> string set" where
  "unreferenced seen = {EventID e | e. e \<in> set seen \<and> (\<forall>s \<in> set seen. EventID e \<notin> set (PrevEventIDs s))}"

definition extremities_inv :: "extremities \<Rightarrow> bool" where
  "extremities_inv = (\<lambda>(db, latest, seen).
     (\<forall>k. IsReferenced k db \<longleftrightarrow> (\<exists>s \<in> set seen. k \<in> set (PrevEventIDs s))) \<and>
     distinct (map sar_EventID latest) \<and> sar_EventID ` set latest = unreferenced seen)"

lemma IsReferenced_insert: "IsReferenced k (InsertPreviousEvent p n db) \<longleftrightarrow> k = p \<or> IsReferenced k db"
  by (cases "map_of (rd_previous_events db) p")
    (auto simp: InsertPreviousEvent_def IsReferenced_def Let_def AList.update_conv')

lemma IsReferenced_fold: "IsReferenced k (fold (\<lambda>p. InsertPreviousEvent p n) ps db) \<longleftrightarrow> k \<in> set ps \<or> IsReferenced k db"
  by (induction ps arbitrary: db) (auto simp: IsReferenced_insert)

lemma IsReferenced_store:
  assumes "StoreEvent e r t k rej db = (nid, sae, db')"
  shows "IsReferenced i db' \<longleftrightarrow> i \<in> set (PrevEventIDs e) \<or> IsReferenced i db"
proof -
  obtain n st db1 where ins: "InsertEvent r t k e rej db = (n, st, db1)" using prod_cases3 by blast
  then have "rd_previous_events db1 = rd_previous_events db"
    by (auto simp: InsertEvent_def split: option.splits if_splits)
  then show ?thesis using assms ins by (auto simp: StoreEvent_def IsReferenced_fold) (simp_all add: IsReferenced_def)
qed

lemma receive_keeps:
  assumes rng: "is_range_order rng" and inv: "extremities_inv (db, latest, seen)" and "order": "in_order seen e"
    and r: "receive rng info e typeNID keyNID db latest = (latest', db')"
  shows "extremities_inv (db', latest', e # seen)"
proof -
  obtain nid sae where st: "StoreEvent e (ri_RoomNID info) typeNID keyNID False db = (nid, sae, db')"
    and new: "latest' = fst (calculateLatest rng latest e \<lparr>sar_state = sae, sar_EventID = EventID e\<rparr> db')"
    using r by (auto simp: receive_def split: prod.splits)
  have refs: "IsReferenced k db' \<longleftrightarrow> (\<exists>s \<in> set (e # seen). k \<in> set (PrevEventIDs s))" for k
    using inv IsReferenced_store [OF st] by (auto simp: extremities_inv_def)
  have old: "distinct (map sar_EventID latest)" "sar_EventID ` set latest = unreferenced seen"
    using inv by (auto simp: extremities_inv_def)
  have fresh: "\<not> (EventID e \<in> sar_EventID ` set latest \<or> IsReferenced (EventID e) db')"
    using "order" by (auto simp: old(2) refs in_order_def unreferenced_def)
  have "set latest' = insert \<lparr>sar_state = sae, sar_EventID = EventID e\<rparr> {r \<in> set latest. still_latest db' e r}"
    "distinct (map sar_EventID latest')"
    using calculateLatest_spec [OF rng old(1), of "\<lparr>sar_state = sae, sar_EventID = EventID e\<rparr>" e db'] fresh unfolding new by auto
  moreover have "sar_EventID ` {r \<in> set latest. still_latest db' e r} = {i \<in> unreferenced seen. i \<notin> set (PrevEventIDs e)}"
  proof -
    have "still_latest db' e r \<longleftrightarrow> sar_EventID r \<notin> set (PrevEventIDs e)" if r: "r \<in> set latest" for r
    proof -
      have "sar_EventID r \<in> unreferenced seen" using r old(2) by blast
      then show ?thesis by (auto simp: still_latest_def refs unreferenced_def)
    qed
    then show ?thesis unfolding old(2) [symmetric] by auto
  qed
  moreover have "unreferenced (e # seen) = insert (EventID e) {i \<in> unreferenced seen. i \<notin> set (PrevEventIDs e)}"
    using "order" by (auto simp: unreferenced_def in_order_def)
  ultimately show ?thesis using refs by (auto simp: extremities_inv_def)
qed

lemma extremities_system:
  assumes "is_range_order rng"
  shows "step_invariant no_events (extremity_step rng info) extremities_inv"
proof
  show "no_events s \<Longrightarrow> extremities_inv s" for s
    by (auto simp: no_events_def extremities_inv_def unreferenced_def IsReferenced_def)
  show "extremities_inv s \<Longrightarrow> extremity_step rng info s t \<Longrightarrow> extremities_inv t" for s t
    by (auto elim!: extremity_stepE intro: receive_keeps [OF assms])
qed

interpretation extremities_rev: step_invariant no_events "extremity_step range_rev info" extremities_inv for info
  by (rule extremities_system) simp

lemma unreferenced_last: "in_order seen e \<Longrightarrow> EventID e \<in> unreferenced (e # seen)"
  by (auto simp: in_order_def unreferenced_def)

lemma reachable_extremities:
  assumes "is_range_order rng" "reachable no_events (extremity_step rng info) s"
  shows "extremities_inv s"
  by (rule step_invariant.reachable_inv [OF extremities_system [OF assms(1)] assms(2)])

text \<open>
  C14. While events arrive in order, the latest events are at every moment exactly the received
  events that no received event refers to, each once, and there is one as soon as there is an event.
\<close>

theorem latest_are_extremities:
  assumes "is_range_order rng" "reachable no_events (extremity_step rng info) (db, latest, seen)"
  shows "sar_EventID ` set latest = unreferenced seen \<and> distinct (map sar_EventID latest) \<and> (seen \<noteq> [] \<longrightarrow> latest \<noteq> [])"
proof -
  have "extremities_inv (db, latest, seen)" by (rule reachable_extremities [OF assms])
  moreover have "seen \<noteq> [] \<longrightarrow> unreferenced seen \<noteq> {}"
    using assms(2) by (cases rule: reachable.cases)
      (auto simp: no_events_def elim!: extremity_stepE dest!: unreferenced_last)
  ultimately show ?thesis by (auto simp: extremities_inv_def)
qed

text \<open>
  Out of order they are not: \<open>$3\<close> refers to \<open>$2\<close>, which comes later and refers to \<open>$1\<close>. When \<open>$2\<close> comes it
  is referenced already, the latest events stay as they are, and \<open>$1\<close> is still one of them
  although \<open>$2\<close> refers to it.
\<close>

definition chained :: "string \<Rightarrow> string list \<Rightarrow> PDU" where
  "chained eid prevs = (mk_event eid ''m.room.message'' None ''@u:a'' [] [] 1)\<lparr>PrevEventIDs := prevs\<rparr>"

definition receive_all :: "PDU list \<Rightarrow> StateAtEventAndReference list \<times> roomDB" where
  "receive_all es = fold (\<lambda>e (latest, db). receive range_id sample_info e 9 0 db latest) es ([], sample_rooms)"

theorem late_event_keeps_referenced:
  "(case receive_all [chained ''$1'' [], chained ''$3'' [''$2''], chained ''$2'' [''$1'']] of (latest, db) \<Rightarrow>
      (map sar_EventID latest, IsReferenced ''$1'' db)) = ([''$3'', ''$1''], True)"
  by code_simp

theorem latest_are_extremities_witness:
  "(case receive range_id sample_info (chained ''$1'' []) 9 0 sample_rooms [] of (latest, db) \<Rightarrow>
      sar_EventID ` set latest = {''$1''})"
proof -
  obtain latest db where r: "receive range_id sample_info (chained ''$1'' []) 9 0 sample_rooms [] = (latest, db)" by fastforce
  have "no_events (sample_rooms, [], [])" by (simp add: no_events_def sample_rooms_def)
  then have "reachable no_events (extremity_step range_id sample_info) (db, latest, [chained ''$1'' []])"
    by (rule reachable.more [OF reachable.start])
      (rule extremity_step.received [OF _ r], simp add: in_order_def chained_def)
  moreover have "unreferenced [chained ''$1'' []] = {''$1''}" by (simp add: unreferenced_def chained_def)
  ultimately show ?thesis using latest_are_extremities [OF range_id_ok] by (simp add: r)
qed

section \<open>The current state\<close>

text \<open>The table of memberships agrees with a state: every member event in it has its row.\<close>

definition memberships_agree :: "roomDB \<Rightarrow> int \<Rightarrow> (NIDTuple, int) map \<Rightarrow> bool" where
  "memberships_agree db room S \<longleftrightarrow>
     (\<forall>u n. S (NIDTuple MRoomMemberNID u) = Some n \<longrightarrow>
        (\<exists>m r. member_event (event_pdu (rd_store db) n) m \<and> membership_map db (room, u) = Some r \<and> row_for m n r))"

text \<open>Every entry of the table of events has a NID other than zero.\<close>

definition nids_ok :: "stateStore \<Rightarrow> bool" where
  "nids_ok db \<longleftrightarrow> map_of (db_events db) 0 = None"

lemma entry_ok_loadable: "nids_ok db \<Longrightarrow> \<forall>e \<in> set es. entry_ok db e \<Longrightarrow> entries_loadable db es"
  by (auto simp: entries_loadable_def entry_ok_def nids_ok_def)

lemma snapshot_entry_ok: "snapshot_state db nid t = Some n \<Longrightarrow> entry_ok db (StateEntry t n)"
  using in_blocks_state by (auto simp: snapshot_state_def split: option.splits)

lemma difference_entries:
  assumes ok: "store_ok h db" "known_snapshot db old" "known_snapshot db new"
  obtains removed added where "DifferenceBetweeenStateSnapshots old new db = Ok (removed, added)"
    "\<forall>e \<in> set removed \<union> set added. entry_ok db e" "\<forall>e \<in> set added. state_of added (entry_tuple e) = Some (EventNID e)"
    "\<forall>t. state_of removed t = (if snapshot_state db old t \<noteq> snapshot_state db new t then snapshot_state db old t else None)"
    "\<forall>t. state_of added t = (if snapshot_state db old t \<noteq> snapshot_state db new t then snapshot_state db new t else None)"
proof -
  obtain removed added where d: "DifferenceBetweeenStateSnapshots old new db = Ok (removed, added)"
    "\<forall>t n. StateEntry t n \<in> set removed \<longleftrightarrow> snapshot_state db old t = Some n \<and> snapshot_state db new t \<noteq> Some n"
    "\<forall>t n. StateEntry t n \<in> set added \<longleftrightarrow> snapshot_state db new t = Some n \<and> snapshot_state db old t \<noteq> Some n"
    using snapshot_difference [OF ok] by blast
  have state: "state_of es t = (if A t \<noteq> B t then A t else None)"
    if m: "\<forall>t n. StateEntry t n \<in> set es \<longleftrightarrow> A t = Some n \<and> B t \<noteq> Some n" for es A B t
  proof (cases "state_of es t")
    case (Some n)
    then show ?thesis using m state_of_in [OF Some] by auto
  next
    case None
    have "A t = B t" if ne: "A t \<noteq> None"
    proof (rule ccontr)
      assume "A t \<noteq> B t"
      then obtain n where "StateEntry t n \<in> set es" using m ne by auto
      then show False using None unfolding state_of_None by force
    qed
    then show ?thesis using None by (cases "A t") auto
  qed
  have entries: "entry_ok db e" if e: "e \<in> set removed \<union> set added" for e
  proof -
    obtain t n where "e = StateEntry t n" by (cases e) simp
    then show ?thesis using e d(2,3) snapshot_entry_ok by blast
  qed
  have "state_of added t = (if snapshot_state db old t \<noteq> snapshot_state db new t then snapshot_state db new t else None)" for t
    using state [OF d(3), of t] by metis
  moreover from this have "\<forall>e \<in> set added. state_of added (entry_tuple e) = Some (EventNID e)"
    using d(3) by (metis StateEntry.collapse)
  ultimately show ?thesis using state [OF d(2)] entries d(1) that by blast
qed

lemma after_event_cong:
  assumes "db_events db' = db_events db" "snapshots_kept db db'" "known_state db p"
  shows "known_snapshot db' (BeforeStateSnapshotNID p)" "snapshot_state db' (BeforeStateSnapshotNID p) = snapshot_state db (BeforeStateSnapshotNID p)"
  using assms by (auto simp: known_state_def snapshots_kept_def known_snapshot_def)

lemma known_kept:
  assumes "snapshots_kept db db'" "known_snapshot db n" "store_ok h db" "store_ok h db'"
  shows "known_snapshot db' n" "snapshot_state db' n = snapshot_state db n"
proof -
  have zero: "map_of (db_snapshots d) 0 = None" if "store_ok h d" for d
    using store_ok_snapshot [OF that, of 0] by (cases "map_of (db_snapshots d) 0") auto
  show "known_snapshot db' n" using assms(1,2) by (auto simp: known_snapshot_def snapshots_kept_def)
  show "snapshot_state db' n = snapshot_state db n"
    using assms(1,2) zero [OF assms(3)] zero [OF assms(4)] by (auto simp: known_snapshot_def snapshots_kept_def snapshot_state_def)
qed

text \<open>What \<^verbatim>\<open>latestState\<close> finds for a state event that is the only latest event.\<close>

definition state_found :: "latestEventsUpdater \<Rightarrow> stateStore \<Rightarrow> latestEventsUpdater \<Rightarrow> stateStore \<Rightarrow> bool" where
  "state_found u db u' db' \<longleftrightarrow>
     map_of (db_snapshots db') (u_newStateNID u') \<noteq> None \<and>
     snapshot_state db' (u_newStateNID u') = after_event db (u_stateAtEvent u) \<and>
     (\<forall>t. state_of (u_removed u') t =
        (if snapshot_state db (u_oldStateNID u) t \<noteq> after_event db (u_stateAtEvent u) t then snapshot_state db (u_oldStateNID u) t else None)) \<and>
     (\<forall>t. state_of (u_added u') t =
        (if snapshot_state db (u_oldStateNID u) t \<noteq> after_event db (u_stateAtEvent u) t then after_event db (u_stateAtEvent u) t else None)) \<and>
     (\<forall>e \<in> set (u_removed u' @ u_added u' @ u_stateBeforeEventRemoves u' @ u_stateBeforeEventAdds u'). entry_ok db' e) \<and>
     (\<forall>e \<in> set (u_added u'). state_of (u_added u') (entry_tuple e) = Some (EventNID e)) \<and>
     u_latest u' = u_latest u \<and> u_roomInfo u' = u_roomInfo u \<and> u_event u' = u_event u \<and> u_updater u' = u_updater u"

lemma latestState_spec:
  assumes ok: "store_ok (ie_hash env) (rd_store db)" and inj: "inj (ie_hash env)"
    and latest: "map sar_state (u_latest u) = [u_stateAtEvent u]" and regular: "\<not> u_rewritesState u"
    and state: "IsStateEvent (u_stateAtEvent u)"
    and known: "known_state (rd_store db) (u_stateAtEvent u)" and ord: "stored_in_order (rd_store db) (u_stateAtEvent u)"
    and old: "known_snapshot (rd_store db) (u_oldStateNID u)"
  shows "\<exists>u' st'. latestState env u db = Some (Ok (u', db\<lparr>rd_store := st'\<rparr>)) \<and> store_ok (ie_hash env) st' \<and>
    db_events st' = db_events (rd_store db) \<and> state_found u (rd_store db) u' st'"
proof -
  let ?st = "rd_store db" and ?p = "u_stateAtEvent u" and ?v = "NewStateResolution (rd_store db) (Some (u_roomInfo u))"
  have v: "v_db ?v = ?st" "v_roomInfo ?v = Some (u_roomInfo u)" by (simp_all add: NewStateResolution_def)
  obtain nid st' where calc: "CalculateAndStoreStateAfterEvents (ie_resolution env) (ie_hash env) [?p] ?v = Some (Ok (nid, ?v\<lparr>v_db := st'\<rparr>))"
      "store_ok (ie_hash env) st'" "snapshots_kept ?st st'" "db_events st' = db_events ?st"
      "map_of (db_snapshots st') nid \<noteq> None" "snapshot_state st' nid = after_event ?st ?p"
    using store_after_one [of "ie_hash env" ?v ?p "u_roomInfo u" "ie_resolution env"] ok inj known ord v by auto
  have known': "known_snapshot st' nid" using calc(5) by (simp add: known_snapshot_def)
  note old' = known_kept [OF calc(3) old ok calc(2)]
  note before = after_event_cong [OF calc(4,3) known]
  obtain removed added where d: "DifferenceBetweeenStateSnapshots (u_oldStateNID u) nid st' = Ok (removed, added)"
      "\<forall>e \<in> set removed \<union> set added. entry_ok st' e" "\<forall>e \<in> set added. state_of added (entry_tuple e) = Some (EventNID e)"
      "\<forall>t. state_of removed t = (if snapshot_state st' (u_oldStateNID u) t \<noteq> snapshot_state st' nid t then snapshot_state st' (u_oldStateNID u) t else None)"
      "\<forall>t. state_of added t = (if snapshot_state st' (u_oldStateNID u) t \<noteq> snapshot_state st' nid t then snapshot_state st' nid t else None)"
    using difference_entries [OF calc(2) old'(1) known'] .
  obtain br ba where b: "DifferenceBetweeenStateSnapshots nid (BeforeStateSnapshotNID ?p) st' = Ok (br, ba)"
      "\<forall>e \<in> set br \<union> set ba. entry_ok st' e"
    using difference_entries [OF calc(2) known' before(1)] by metis
  let ?u = "u\<lparr>u_newStateNID := nid, u_removed := removed, u_added := added, u_stateBeforeEventRemoves := br, u_stateBeforeEventAdds := ba\<rparr>"
  have "latestState env u db = Some (Ok (?u, db\<lparr>rd_store := st'\<rparr>))"
    using state regular by (simp add: latestState_def state_changed_def latest calc(1) d(1) b(1))
  moreover have "state_found u ?st ?u st'"
    unfolding state_found_def using calc(5,6) d(2-5) b(2) old'(2) by auto
  ultimately show ?thesis using calc(2,4) by blast
qed

text \<open>The output event names the changes of the state by the IDs of their events.\<close>

lemma event_ids:
  assumes "sorted_wrt (<) ns" "\<forall>n \<in> set ns. map_of (db_events db) n \<noteq> None"
  shows "BulkSelectEventID ns db = Ok (map (\<lambda>n. (n, er_event_id (the (map_of (db_events db) n)))) ns)"
  by (simp add: BulkSelectEventID_def Let_def select_in_all [OF assms] comp_def)

definition event_id_of :: "stateStore \<Rightarrow> StateEntry \<Rightarrow> string" where
  "event_id_of db e = er_event_id (the (map_of (db_events db) (EventNID e)))"

lemma makeOutput_spec:
  assumes "\<forall>e \<in> set (u_removed u @ u_added u @ u_stateBeforeEventRemoves u @ u_stateBeforeEventAdds u). entry_ok (rd_store db) e"
  shows "\<exists>out. makeOutputNewRoomEvent u db = Ok (NewRoomEvent out) \<and> ore_Event out = u_event u \<and>
    ore_LatestEventIDs out = map sar_EventID (u_latest u) \<and>
    ore_AddsStateEventIDs out = map (event_id_of (rd_store db)) (u_added u) \<and>
    ore_RemovesStateEventIDs out = map (event_id_of (rd_store db)) (u_removed u)"
proof -
  let ?es = "u_added u @ u_removed u @ u_stateBeforeEventRemoves u @ u_stateBeforeEventAdds u"
  define ns where "ns = sorted_list_of_set (set (map EventNID ?es))"
  have set_ns: "set ns = EventNID ` set ?es" by (simp add: ns_def image_Un)
  have "\<forall>n \<in> set ns. map_of (db_events (rd_store db)) n \<noteq> None" using assms unfolding set_ns by (auto simp: entry_ok_def)
  from event_ids [OF _ this] have sel: "BulkSelectEventID ns (rd_store db) =
      Ok (map (\<lambda>n. (n, er_event_id (the (map_of (db_events (rd_store db)) n)))) ns)" by (simp add: ns_def)
  have nids: "stateEventMap u db = Ok (map (\<lambda>n. (n, er_event_id (the (map_of (db_events (rd_store db)) n)))) ns)"
    unfolding stateEventMap_def sort_unique_linorder and_then_simps ns_def [symmetric] by (rule sel)
  have ids: "ids_of (map (\<lambda>n. (n, er_event_id (the (map_of (db_events (rd_store db)) n)))) ns) l = map (event_id_of (rd_store db)) l"
    if "set l \<subseteq> set ?es" for l
  proof -
    have "\<forall>e \<in> set l. EventNID e \<in> set ns" using that set_ns by auto
    then show ?thesis by (simp add: ids_of_def event_id_of_def map_of_map_restrict)
  qed
  have "set (u_added u) \<subseteq> set ?es" "set (u_removed u) \<subseteq> set ?es" by auto
  note this [THEN ids]
  then show ?thesis unfolding makeOutputNewRoomEvent_def nids by simp
qed

section \<open>Updating with a state event\<close>

text \<open>
  The room is known, its latest events and its current state are stored, and the tables agree with
  each other.
\<close>

definition room_ready :: "RoomInfo \<Rightarrow> room_row \<Rightarrow> roomDB \<Rightarrow> bool" where
  "room_ready info room db \<longleftrightarrow>
     map_of (rd_rooms db) (ri_RoomNID info) = Some room \<and> sorted_wrt (<) (rr_latest_event_nids room) \<and>
     (\<forall>n \<in> set (rr_latest_event_nids room). map_of (db_events (rd_store db)) n \<noteq> None) \<and>
     (rr_last_event_sent_nid room = 0 \<or> map_of (db_events (rd_store db)) (rr_last_event_sent_nid room) \<noteq> None) \<and>
     known_snapshot (rd_store db) (rr_state_snapshot_nid room) \<and> nids_ok (rd_store db) \<and>
     memberships_agree db (ri_RoomNID info) (snapshot_state (rd_store db) (rr_state_snapshot_nid room))"

definition latest_ids :: "room_row \<Rightarrow> roomDB \<Rightarrow> string list" where
  "latest_ids room db = map (\<lambda>n. er_event_id (the (map_of (db_events (rd_store db)) n))) (rr_latest_event_nids room)"

text \<open>The event replaces all latest events: it refers to each of them and nothing refers to it.\<close>

definition replaces_latest :: "PDU \<Rightarrow> room_row \<Rightarrow> roomDB \<Rightarrow> bool" where
  "replaces_latest e room db \<longleftrightarrow>
     distinct (latest_ids room db) \<and> set (latest_ids room db) \<subseteq> set (PrevEventIDs e) \<and>
     EventID e \<notin> set (PrevEventIDs e) \<and> \<not> IsReferenced (EventID e) db"

text \<open>The event is a stored state event that was not rejected and has not been sent on yet.\<close>

definition new_state_event :: "StateAtEvent \<Rightarrow> roomDB \<Rightarrow> bool" where
  "new_state_event p db \<longleftrightarrow>
     IsStateEvent p \<and> \<not> IsRejected p \<and> known_state (rd_store db) p \<and> stored_in_order (rd_store db) p \<and>
     EventNID (sae_entry p) \<notin> set (rd_sent db) \<and>
     (\<forall>t n. after_event (rd_store db) p t = Some n \<longrightarrow> EventTypeNID t = MRoomMemberNID \<longrightarrow>
        (\<exists>m. member_event (event_pdu (rd_store db) n) m))"

lemma updater_ready:
  assumes "room_ready info room db"
  obtains up where "NewRoomUpdater info db = Ok up" "map sar_EventID (ru_latestEvents up) = latest_ids room db"
    "ru_currentStateSnapshotNID up = rr_state_snapshot_nid room"
proof -
  have rows: "select_in (rr_latest_event_nids room) (db_events (rd_store db)) =
      map (\<lambda>n. (n, the (map_of (db_events (rd_store db)) n))) (rr_latest_event_nids room)"
    using assms by (intro select_in_all) (auto simp: room_ready_def)
  have "\<exists>eid. (if rr_last_event_sent_nid room = 0 then Ok []
      else (case map_of (db_events (rd_store db)) (rr_last_event_sent_nid room) of
              None \<Rightarrow> Err (GoError ''sql: no rows in result set'') | Some row \<Rightarrow> Ok (er_event_id row))) = Ok eid"
    using assms by (cases "rr_last_event_sent_nid room = 0") (auto simp: room_ready_def)
  then obtain eid where "(if rr_last_event_sent_nid room = 0 then Ok []
      else (case map_of (db_events (rd_store db)) (rr_last_event_sent_nid room) of
              None \<Rightarrow> Err (GoError ''sql: no rows in result set'') | Some row \<Rightarrow> Ok (er_event_id row))) = Ok eid" by blast
  then show ?thesis
    using that assms rows
    by (simp add: NewRoomUpdater_def room_ready_def BulkSelectStateAtEventAndReference_def latest_ids_def comp_def)
qed

text \<open>The event becomes the only latest event.\<close>

lemma sole_latest:
  assumes rng: "is_range_order rng" and ids: "map sar_EventID old = latest_ids room db"
    and rep: "replaces_latest e room db" and new: "sar_EventID newRef = EventID e"
  shows "calculateLatest rng old e newRef db = ([newRef], True)"
proof -
  have d: "distinct (map sar_EventID old)" "sar_EventID ` set old \<subseteq> set (PrevEventIDs e)"
    using rep unfolding ids by (auto simp: replaces_latest_def ids [symmetric])
  have "\<not> (EventID e \<in> sar_EventID ` set old \<or> IsReferenced (EventID e) db)"
    using rep d(2) by (auto simp: replaces_latest_def)
  with calculateLatest_spec [OF rng d(1) new, of db] obtain latest where l: "calculateLatest rng old e newRef db = (latest, True)"
      "set latest = insert newRef {r \<in> set old. still_latest db e r}" "distinct (map sar_EventID latest)" by auto
  have "{r \<in> set old. still_latest db e r} = {}" using d(2) by (auto simp: still_latest_def)
  then have "set latest = {newRef}" using l(2) by auto
  moreover have "distinct latest" using l(3) distinct_map by blast
  ultimately have "length latest = Suc 0" using distinct_card [of latest] by simp
  then obtain x where "latest = [x]" by (metis length_0_conv length_Suc_conv)
  then have "latest = [newRef]" using \<open>set latest = {newRef}\<close> by simp
  then show ?thesis using l(1) by simp
qed

text \<open>The memberships that agreed with the old state agree with the new one.\<close>

lemma agree_after:
  assumes old: "memberships_agree db room S" and ev: "db_events (rd_store db') = db_events (rd_store db)"
    and rem: "\<forall>t. state_of removed t = (if S t \<noteq> S' t then S t else None)"
    and add: "\<forall>t. state_of added t = (if S t \<noteq> S' t then S' t else None)"
    and rows: "\<forall>u. row_follows (rd_store db) removed added (NIDTuple MRoomMemberNID u) (membership_map db (room, u)) (membership_map db' (room, u))"
  shows "memberships_agree db' room S'"
  unfolding memberships_agree_def
proof (intro allI impI)
  fix u n
  let ?t = "NIDTuple MRoomMemberNID u"
  assume n: "S' ?t = Some n"
  have pdu: "event_pdu (rd_store db') n = event_pdu (rd_store db) n" by (simp add: event_pdu_def ev)
  show "\<exists>m r. member_event (event_pdu (rd_store db') n) m \<and> membership_map db' (room, u) = Some r \<and> row_for m n r"
  proof (cases "S ?t = S' ?t")
    case True
    then have "membership_map db' (room, u) = membership_map db (room, u)"
      using rows [rule_format, of u] rem add by (simp add: row_follows_def)
    then show ?thesis using old n True pdu by (simp add: memberships_agree_def)
  next
    case False
    then show ?thesis using rows [rule_format, of u] add n pdu by (simp add: row_follows_def)
  qed
qed

lemma members_valid_added:
  assumes "new_state_event p db" "\<forall>t. state_of added t = (if S t \<noteq> after_event (rd_store db) p t then after_event (rd_store db) p t else None)"
    "\<forall>e \<in> set added. state_of added (entry_tuple e) = Some (EventNID e)" "db_events st' = db_events (rd_store db)"
  shows "members_valid st' added"
  unfolding members_valid_def
proof (intro ballI impI)
  fix e assume e: "e \<in> set added" "EventTypeNID (entry_tuple e) = MRoomMemberNID"
  then have "after_event (rd_store db) p (entry_tuple e) = Some (EventNID e)" using assms(2,3) by (auto split: if_splits)
  then have "\<exists>m. member_event (event_pdu (rd_store db) (EventNID e)) m" using assms(1) e(2) by (auto simp: new_state_event_def)
  then show "\<exists>m. member_event (event_pdu st' (EventNID e)) m" by (simp add: event_pdu_def assms(4))
qed

lemma store_parts:
  assumes "db_events st' = db_events st" "db_blocks st' = db_blocks st" "db_snapshots st' = db_snapshots st"
  shows block_state_cong: "block_state st' b = block_state st b"
    and blocks_state_cong: "blocks_state st' bs = blocks_state st bs"
    and snapshot_state_cong: "snapshot_state st' n = snapshot_state st n"
proof -
  show *: "block_state st' b = block_state st b" for b
    unfolding block_state_def assms(2) select_events_cong [OF assms(1)] ..
  show **: "blocks_state st' bs = blocks_state st bs" for bs by (induction bs) (simp_all add: *)
  show "snapshot_state st' n = snapshot_state st n" using assms(3) by (simp add: snapshot_state_def ** split: option.splits)
qed

lemma store_ok_cong:
  assumes "db_events st' = db_events st" "db_blocks st' = db_blocks st" "db_snapshots st' = db_snapshots st"
    "db_next_block st' = db_next_block st" "db_next_snapshot st' = db_next_snapshot st"
  shows "store_ok h st' = store_ok h st"
  using assms by (simp add: store_ok_def block_ok_def snapshot_ok_def)


text \<open>The second topic replaces the first in the sample room.\<close>

definition topic_rooms :: roomDB where
  "topic_rooms = sample_rooms\<lparr>rd_store := sample_store, rd_rooms :=
     [(1, \<lparr>rr_latest_event_nids = [2], rr_last_event_sent_nid = 2, rr_state_snapshot_nid = 1\<rparr>)]\<rparr>"

definition sample_input :: input_env where
  "sample_input = \<lparr>ie_refs = range_id, ie_tuples = range_id, ie_resolution = sample_env, ie_hash = spell, ie_serverName = ''a''\<rparr>"

lemma topic_rooms_store [simp]: "rd_store topic_rooms = sample_store" "rd_previous_events topic_rooms = []" "rd_sent topic_rooms = []"
  by (simp_all add: topic_rooms_def sample_rooms_def)

lemma topic_ready: "room_ready sample_info \<lparr>rr_latest_event_nids = [2], rr_last_event_sent_nid = 2, rr_state_snapshot_nid = 1\<rparr> topic_rooms"
proof -
  have "map_of (db_events sample_store) 2 \<noteq> None" "map_of (db_events sample_store) 0 = None" by (simp_all add: sample_store_def)
  moreover have "memberships_agree topic_rooms 1 (snapshot_state sample_store 1)"
    by (simp add: memberships_agree_def sample_states MRoomMemberNID_def)
  ultimately show ?thesis
    by (simp add: room_ready_def known_snapshot_def sample_rows nids_ok_def) (simp add: topic_rooms_def)
qed


end
