(* ===== verification/HistoryVisibility.thy ===== *)
theory HistoryVisibility
  imports Events
begin

text \<open>
  Who may see an event: the filter that is applied to the events a client gets
  (\<^verbatim>\<open>syncapi/internal/history_visibility.go\<close>), and the rule for other servers
  (\<^verbatim>\<open>roomserver/auth/auth.go\<close>).

  The database of the sync API and the room server's queries are parameters. So is the value that
  \<^verbatim>\<open>gjson\<close> finds in the unsigned part of an event under \<^verbatim>\<open>prev_content.history_visibility\<close>;
  an event here has it as a field.
\<close>

section \<open>Visibility\<close>

abbreviation "MRoomHistoryVisibility \<equiv> ''m.room.history_visibility''"

abbreviation "HistoryVisibilityWorldReadable \<equiv> ''world_readable''"
abbreviation "HistoryVisibilityShared \<equiv> ''shared''"
abbreviation "HistoryVisibilityInvited \<equiv> ''invited''"
abbreviation "HistoryVisibilityJoined \<equiv> ''joined''"

definition HistoryVisibility_of :: "PDU \<Rightarrow> string outcome" where
  "HistoryVisibility_of e =
     (if \<not> StateKeyEquals e [] then Err (GoError
        ''gomatrixserverlib: HistoryVisibility() event is not a m.room.history_visibility event, bad state key'')
      else (case Unmarshal (dec_struct [(''history_visibility'', fld (\<lambda>s. s) (\<lambda>x _. x) dec_string)]) (Content e) [] of
          (v, err) \<Rightarrow> if err then Err (GoError ''json'') else Ok v))"

definition hisVisStringToIntMapping :: "(string, int) gomap" where
  "hisVisStringToIntMapping =
     [(HistoryVisibilityWorldReadable, 1), (HistoryVisibilityShared, 2), (HistoryVisibilityInvited, 3),
      (HistoryVisibilityJoined, 4)]"

definition hisVisIntToStringMapping :: "(int, string) gomap" where
  "hisVisIntToStringMapping =
     [(1, HistoryVisibilityWorldReadable), (2, HistoryVisibilityShared), (3, HistoryVisibilityInvited),
      (4, HistoryVisibilityJoined)]"

text \<open>\<^verbatim>\<open>Scan\<close> and \<^verbatim>\<open>Value\<close>: the column of the database (an integer).\<close>

definition Scan_int64 :: "int \<Rightarrow> string" where
  "Scan_int64 v = (case map_of hisVisIntToStringMapping (v mod 256) of Some s \<Rightarrow> s | None \<Rightarrow> HistoryVisibilityShared)"

definition HistoryVisibility_Value :: "string \<Rightarrow> int" where
  "HistoryVisibility_Value h = (case map_of hisVisStringToIntMapping h of Some v \<Rightarrow> v | None \<Rightarrow> 2)"

definition historyVisibilityPriority :: "(string, nat) gomap" where
  "historyVisibilityPriority =
     [(HistoryVisibilityWorldReadable, 0), (HistoryVisibilityShared, 1), (HistoryVisibilityInvited, 2),
      (HistoryVisibilityJoined, 3)]"

section \<open>The filter\<close>

record HeaderedEvent =
  he_PDU :: PDU
  Visibility :: string
  prev_visibility :: string

record eventVisibility =
  ev_visibility :: string
  membershipAtEvent :: string
  membershipCurrent :: string

definition eventVisibility_allowed :: "eventVisibility \<Rightarrow> bool" where
  "eventVisibility_allowed ev =
     (if ev_visibility ev = HistoryVisibilityWorldReadable then True
      else if ev_visibility ev = HistoryVisibilityJoined then membershipAtEvent ev = Join
      else if ev_visibility ev = HistoryVisibilityShared then
        membershipAtEvent ev = Join \<or> membershipCurrent ev = Join
      else if ev_visibility ev = HistoryVisibilityInvited then
        (if membershipAtEvent ev = Join then True else if membershipAtEvent ev = Invite then True else False)
      else False)"

definition visibilityForEvents ::
  "(RoomID \<Rightarrow> string list \<Rightarrow> string \<Rightarrow> (string, HeaderedEvent option) gomap \<times> goerr option) \<Rightarrow>
   HeaderedEvent list \<Rightarrow> string option \<Rightarrow> RoomID \<Rightarrow> (string, eventVisibility) gomap" where
  "visibilityForEvents queryMembershipAtEvent evs senderID roomID =
     (let eventIDs = map (EventID \<circ> he_PDU) evs;
          membershipEvents = (case senderID of None \<Rightarrow> []
            | Some sender \<Rightarrow> fst (queryMembershipAtEvent roomID eventIDs sender))
      in fold (\<lambda>event result.
           let eventID = EventID (he_PDU event);
               vis = \<lparr>ev_visibility = Visibility event, membershipAtEvent = Leave, membershipCurrent = []\<rparr>;
               vis = (case map_of membershipEvents eventID of
                   Some (Some ev) \<Rightarrow>
                     (case Membership (he_PDU ev) of Ok m \<Rightarrow> vis\<lparr>membershipAtEvent := m\<rparr> | _ \<Rightarrow> vis)
                 | _ \<Rightarrow> vis)
           in AList.update eventID vis result) evs [])"

text \<open>The effective visibility of an event that changes the visibility.\<close>

definition boundary_visibility :: "HeaderedEvent \<Rightarrow> string \<Rightarrow> string" where
  "boundary_visibility ev visibility =
     (if EventType (he_PDU ev) = MRoomHistoryVisibility then
        (case HistoryVisibility_of (he_PDU ev) of
           Ok hisVis \<Rightarrow>
             if hisVis \<noteq> [] then
               let prevHisVis = prev_visibility ev;
                   oldPrio = (case map_of historyVisibilityPriority prevHisVis of Some p \<Rightarrow> p | None \<Rightarrow> 1);
                   newPrio = (case map_of historyVisibilityPriority hisVis of Some p \<Rightarrow> p | None \<Rightarrow> 0)
               in if oldPrio < newPrio then prevHisVis else hisVis
             else visibility
         | _ \<Rightarrow> visibility)
      else visibility)"

fun filter_loop :: "RoomID \<Rightarrow> string option \<Rightarrow> string \<Rightarrow> string list option \<Rightarrow> (string, eventVisibility) gomap \<Rightarrow>
    HeaderedEvent list \<Rightarrow> HeaderedEvent list \<Rightarrow> HeaderedEvent list outcome" where
  "filter_loop firstEvRoomID senderID membership always visibilities [] eventsFiltered = Ok eventsFiltered"
| "filter_loop firstEvRoomID senderID membership always visibilities (ev # evs) eventsFiltered =
     (if room_raw (EventRoomID (he_PDU ev)) \<noteq> room_raw firstEvRoomID
      then Err (GoError ''events from different rooms supplied to ApplyHistoryVisibilityFilter'')
      else
        let evVis = (case map_of visibilities (EventID (he_PDU ev)) of Some v \<Rightarrow> v
              | None \<Rightarrow> \<lparr>ev_visibility = [], membershipAtEvent = [], membershipCurrent = []\<rparr>);
            evVis = evVis\<lparr>membershipCurrent := membership\<rparr>;
            include_it = filter_loop firstEvRoomID senderID membership always visibilities evs (eventsFiltered @ [ev])
        in if (case always of None \<Rightarrow> False | Some ids \<Rightarrow> EventID (he_PDU ev) \<in> set ids) then include_it
           else if (case senderID of None \<Rightarrow> False
               | Some sender \<Rightarrow> EventType (he_PDU ev) = MRoomMember \<and> StateKeyEquals (he_PDU ev) sender) then include_it
           else if eventVisibility_allowed (evVis\<lparr>ev_visibility := boundary_visibility ev (ev_visibility evVis)\<rparr>) then include_it
           else filter_loop firstEvRoomID senderID membership always visibilities evs eventsFiltered)"

definition ApplyHistoryVisibilityFilter ::
  "(string \<Rightarrow> string \<Rightarrow> int \<Rightarrow> string outcome) \<Rightarrow> (RoomID \<Rightarrow> UserID \<Rightarrow> string option outcome) \<Rightarrow>
   (RoomID \<Rightarrow> string list \<Rightarrow> string \<Rightarrow> (string, HeaderedEvent option) gomap \<times> goerr option) \<Rightarrow>
   HeaderedEvent list \<Rightarrow> string list option \<Rightarrow> UserID \<Rightarrow> HeaderedEvent list outcome" where
  "ApplyHistoryVisibilityFilter selectMembershipForUser querySenderIDForUser queryMembershipAtEvent evs always userID =
     (case evs of
        [] \<Rightarrow> Ok evs
      | ev # _ \<Rightarrow>
          let firstEvRoomID = EventRoomID (he_PDU ev) in
          and_then (selectMembershipForUser (room_raw firstEvRoomID) (user_raw userID) (2 ^ 63 - 1)) (\<lambda>membership.
          and_then (querySenderIDForUser firstEvRoomID userID) (\<lambda>senderID.
          filter_loop firstEvRoomID senderID membership always
            (visibilityForEvents queryMembershipAtEvent evs senderID firstEvRoomID) evs [])))"

section \<open>Other servers\<close>

definition HistoryVisibilityForRoom :: "PDU list \<Rightarrow> string" where
  "HistoryVisibilityForRoom authEvents =
     fold (\<lambda>ev visibility.
       if EventType ev \<noteq> MRoomHistoryVisibility then visibility
       else (case HistoryVisibility_of ev of Ok vis \<Rightarrow> vis | _ \<Rightarrow> visibility)) authEvents HistoryVisibilityShared"

fun IsAnyUserOnServerWithMembership :: "UserIDForSender \<Rightarrow> string \<Rightarrow> PDU list \<Rightarrow> string \<Rightarrow> bool outcome" where
  "IsAnyUserOnServerWithMembership querier serverName [] wantMembership = Ok False"
| "IsAnyUserOnServerWithMembership querier serverName (ev # authEvents) wantMembership =
     (let continue = IsAnyUserOnServerWithMembership querier serverName authEvents wantMembership in
      if EventType ev \<noteq> MRoomMember then continue
      else if Membership ev \<noteq> Ok wantMembership then continue
      else (case StateKey ev of
          None \<Rightarrow> continue
        | Some stateKey \<Rightarrow>
            (case querier (EventRoomID ev) stateKey of
               Err e \<Rightarrow> continue
             | Panic \<Rightarrow> Panic
             | Ok None \<Rightarrow> Panic
             | Ok (Some userID) \<Rightarrow> if user_domain userID = serverName then Ok True else continue)))"

definition IsServerAllowed :: "UserIDForSender \<Rightarrow> string \<Rightarrow> bool \<Rightarrow> PDU list \<Rightarrow> bool outcome" where
  "IsServerAllowed querier serverName serverCurrentlyInRoom authEvents =
     (let historyVisibility = HistoryVisibilityForRoom authEvents in
      if historyVisibility = HistoryVisibilityWorldReadable then Ok True
      else and_then (IsAnyUserOnServerWithMembership querier serverName authEvents Join) (\<lambda>joinedUserExists.
        if joinedUserExists then Ok True
        else if historyVisibility = HistoryVisibilityShared \<and> serverCurrentlyInRoom then Ok True
        else and_then (IsAnyUserOnServerWithMembership querier serverName authEvents Invite) (\<lambda>invitedUserExists.
          Ok (invitedUserExists \<and> historyVisibility = HistoryVisibilityInvited))))"

end
