(* ===== verification/HistoryVisibility_Correct.thy ===== *)
theory HistoryVisibility_Correct
  imports HistoryVisibility
begin

text \<open>
  The filter leaves exactly the events that the rules of the specification allow, in their order,
  and the rule for servers is that of its users.
\<close>

section \<open>The rules\<close>

text \<open>By visibility, membership at the event and membership now.\<close>

definition may_see :: "string \<Rightarrow> string \<Rightarrow> string \<Rightarrow> bool" where
  "may_see vis at_event now \<longleftrightarrow>
     vis = HistoryVisibilityWorldReadable \<or>
     at_event = Join \<and> vis \<in> {HistoryVisibilityShared, HistoryVisibilityInvited, HistoryVisibilityJoined} \<or>
     now = Join \<and> vis = HistoryVisibilityShared \<or>
     at_event = Invite \<and> vis = HistoryVisibilityInvited"

lemma allowed_may_see: "eventVisibility_allowed ev \<longleftrightarrow> may_see (ev_visibility ev) (membershipAtEvent ev) (membershipCurrent ev)"
  by (auto simp: eventVisibility_allowed_def may_see_def)

definition membership_at ::
  "(RoomID \<Rightarrow> string list \<Rightarrow> string \<Rightarrow> (string, HeaderedEvent option) gomap \<times> goerr option) \<Rightarrow>
   HeaderedEvent list \<Rightarrow> string option \<Rightarrow> RoomID \<Rightarrow> HeaderedEvent \<Rightarrow> string" where
  "membership_at query evs senderID room ev =
     (case senderID of None \<Rightarrow> Leave
      | Some sender \<Rightarrow>
          (case map_of (fst (query room (map (EventID \<circ> he_PDU) evs) sender)) (EventID (he_PDU ev)) of
             Some (Some m) \<Rightarrow> (case Membership (he_PDU m) of Ok x \<Rightarrow> x | _ \<Rightarrow> Leave)
           | _ \<Rightarrow> Leave))"

definition visible_to :: "string list option \<Rightarrow> string option \<Rightarrow> string \<Rightarrow> string \<Rightarrow> HeaderedEvent \<Rightarrow> bool" where
  "visible_to always senderID at_event now ev \<longleftrightarrow>
     (\<exists>ids. always = Some ids \<and> EventID (he_PDU ev) \<in> set ids) \<or>
     EventType (he_PDU ev) = MRoomMember \<and> senderID \<noteq> None \<and> StateKey (he_PDU ev) = senderID \<or>
     may_see (boundary_visibility ev (Visibility ev)) at_event now"

section \<open>The filter\<close>

lemma fold_update_other:
  "id \<notin> k ` set xs \<Longrightarrow> map_of (fold (\<lambda>e. AList.update (k e) (f e)) xs m) id = map_of m id"
  by (induction xs arbitrary: m) (auto simp: map_simps)

lemma fold_update_same:
  "\<forall>e \<in> set xs. \<forall>e' \<in> set xs. k e = k e' \<longrightarrow> f e = f e' \<Longrightarrow> e \<in> set xs \<Longrightarrow>
   map_of (fold (\<lambda>e. AList.update (k e) (f e)) xs m) (k e) = Some (f e)"
proof (induction xs rule: rev_induct)
  case (snoc x xs)
  show ?case
  proof (cases "k x = k e")
    case True
    moreover have "x \<in> set (xs @ [x])" by simp
    ultimately have "f x = f e" using snoc.prems by blast
    then show ?thesis using True by (simp add: map_simps)
  next
    case False
    then have "e \<in> set xs" using snoc.prems(2) by auto
    moreover have "\<forall>e \<in> set xs. \<forall>e' \<in> set xs. k e = k e' \<longrightarrow> f e = f e'"
      using snoc.prems(1) unfolding set_append by blast
    ultimately have "map_of (fold (\<lambda>e. AList.update (k e) (f e)) xs m) (k e) = Some (f e)" using snoc.IH by blast
    then show ?thesis using False by (simp add: map_simps)
  qed
qed simp

definition same_ids :: "HeaderedEvent list \<Rightarrow> bool" where
  "same_ids evs \<longleftrightarrow> (\<forall>e \<in> set evs. \<forall>e' \<in> set evs. EventID (he_PDU e) = EventID (he_PDU e') \<longrightarrow> e = e')"

lemma visibilityForEvents_at:
  assumes "same_ids evs" "e \<in> set evs"
  shows "map_of (visibilityForEvents q evs senderID room) (EventID (he_PDU e)) =
    Some \<lparr>ev_visibility = Visibility e, membershipAtEvent = membership_at q evs senderID room e, membershipCurrent = []\<rparr>"
proof -
  let ?f = "\<lambda>e. \<lparr>ev_visibility = Visibility e, membershipAtEvent = membership_at q evs senderID room e, membershipCurrent = []\<rparr>"
  have "visibilityForEvents q evs senderID room = fold (\<lambda>e. AList.update (EventID (he_PDU e)) (?f e)) evs []"
    unfolding visibilityForEvents_def Let_def
    by (rule fold_cong [OF refl refl], rule ext, rule arg_cong [where f = "\<lambda>v. AList.update _ v _"])
       (simp add: membership_at_def split: option.split outcome.split)
  moreover have inj: "\<forall>x \<in> set evs. \<forall>y \<in> set evs. EventID (he_PDU x) = EventID (he_PDU y) \<longrightarrow> ?f x = ?f y"
    using assms(1) unfolding same_ids_def by metis
  ultimately show ?thesis
    using fold_update_same [OF inj assms(2), of "[]"] by (simp only:)
qed

lemma filter_loop_eq:
  assumes "\<forall>e \<in> set evs. map_of vis (EventID (he_PDU e)) =
      Some \<lparr>ev_visibility = Visibility e, membershipAtEvent = at e, membershipCurrent = []\<rparr>"
  shows "filter_loop room senderID now always vis evs acc =
    (if \<forall>e \<in> set evs. room_raw (EventRoomID (he_PDU e)) = room_raw room
     then Ok (acc @ filter (\<lambda>e. visible_to always senderID (at e) now e) evs)
     else Err (GoError ''events from different rooms supplied to ApplyHistoryVisibilityFilter''))"
  using assms
proof (induction evs arbitrary: acc)
  case (Cons ev evs)
  have "visible_to always senderID (at ev) now ev \<longleftrightarrow>
      (case always of None \<Rightarrow> False | Some ids \<Rightarrow> EventID (he_PDU ev) \<in> set ids) \<or>
      (case senderID of None \<Rightarrow> False
       | Some sender \<Rightarrow> EventType (he_PDU ev) = MRoomMember \<and> StateKeyEquals (he_PDU ev) sender) \<or>
      may_see (boundary_visibility ev (Visibility ev)) (at ev) now"
    by (auto simp: visible_to_def split: option.splits)
  then show ?case using Cons by (simp add: Let_def allowed_may_see)
qed simp


definition vis_room :: RoomID where
  "vis_room = \<lparr>room_raw = ''!r:x'', room_opaqueID = ''r'', room_domain = ''x''\<rparr>"

definition sample_event :: "string \<Rightarrow> string \<Rightarrow> string option \<Rightarrow> json option \<Rightarrow> PDU" where
  "sample_event eid ty sk content =
     \<lparr>EventID = eid, StateKey = sk, EventType = ty, Content = content, SenderID = ''@a:x'', EventRoomID = vis_room,
      Version = ''10'', Redacts = [], PrevEventIDs = [], AuthEventIDs = [], OriginServerTS = 1, Depth = 1\<rparr>"

definition sample_user :: UserID where
  "sample_user = \<lparr>user_raw = ''@b:x'', user_local = ''b'', user_domain = ''x''\<rparr>"

definition vis_message :: "string \<Rightarrow> string \<Rightarrow> HeaderedEvent" where
  "vis_message eid vis =
     \<lparr>he_PDU = sample_event eid ''m.room.message'' None (Some (JObj [])), Visibility = vis, prev_visibility = []\<rparr>"


text \<open>
  The first event that sets the visibility has no previous one. The comment takes it to be
  shared, but the effective visibility becomes the empty one, which nobody may see, when the new
  visibility is more restrictive than shared.
\<close>

lemma first_visibility_hidden:
  assumes "EventType (he_PDU ev) = MRoomHistoryVisibility" "HistoryVisibility_of (he_PDU ev) = Ok HistoryVisibilityJoined"
    "prev_visibility ev = []"
  shows "boundary_visibility ev vis = []" "\<not> may_see (boundary_visibility ev vis) Join Join"
  using assms by (simp_all add: boundary_visibility_def historyVisibilityPriority_def may_see_def)

section \<open>Servers\<close>

definition on_server :: "UserIDForSender \<Rightarrow> string \<Rightarrow> string \<Rightarrow> PDU \<Rightarrow> bool" where
  "on_server querier serverName want ev \<longleftrightarrow> EventType ev = MRoomMember \<and> Membership ev = Ok want \<and>
     (\<exists>k u. StateKey ev = Some k \<and> querier (EventRoomID ev) k = Ok (Some u) \<and> user_domain u = serverName)"

definition answers :: "UserIDForSender \<Rightarrow> bool" where
  "answers querier \<longleftrightarrow> (\<forall>room k. querier room k \<noteq> Panic \<and> querier room k \<noteq> Ok None)"

lemma IsAnyUser_exact:
  "answers querier \<Longrightarrow> IsAnyUserOnServerWithMembership querier serverName evs want = Ok (\<exists>ev \<in> set evs. on_server querier serverName want ev)"
proof (induction evs)
  case (Cons ev evs)
  have "querier (EventRoomID ev) k \<noteq> Panic \<and> querier (EventRoomID ev) k \<noteq> Ok None" for k
    using Cons.prems by (simp add: answers_def)
  then show ?case using Cons
    by (auto simp: on_server_def Let_def split: option.splits outcome.splits)
qed simp

lemma IsServerAllowed_exact:
  assumes "answers querier"
  shows "IsServerAllowed querier serverName inRoom evs =
    Ok (let vis = HistoryVisibilityForRoom evs; has = (\<lambda>want. \<exists>ev \<in> set evs. on_server querier serverName want ev) in
        vis = HistoryVisibilityWorldReadable \<or> has Join \<or> vis = HistoryVisibilityShared \<and> inRoom \<or>
        vis = HistoryVisibilityInvited \<and> has Invite)"
  by (auto simp: IsServerAllowed_def IsAnyUser_exact [OF assms] Let_def)

text \<open>A sender without a user ID, which the query reports with a nil pointer, makes the check panic.\<close>

lemma IsServerAllowed_panics:
  "IsServerAllowed (\<lambda>room k. Ok None) ''y'' True
     [sample_event ''$m'' MRoomMember (Some ''key'') (Some (JObj [(''membership'', JStr Join)]))] = Panic"
  by code_simp

text \<open>A value that is not understood is not taken to be shared: a server that is in the room by now is
  refused.\<close>

lemma unknown_visibility_refused:
  "IsServerAllowed (\<lambda>room k. Err (GoError [])) ''y'' True
     [sample_event ''$v'' MRoomHistoryVisibility (Some []) (Some (JObj [(''history_visibility'', JStr ''public'')]))] = Ok False"
  by code_simp

text \<open>The column of the database keeps the four visibilities, and everything else is read as shared.\<close>

lemma Scan_Value: "Scan_int64 (HistoryVisibility_Value h) = (if h \<in> set (keys hisVisStringToIntMapping) then h else HistoryVisibilityShared)"
  by (auto simp: Scan_int64_def HistoryVisibility_Value_def hisVisStringToIntMapping_def hisVisIntToStringMapping_def)

end
