(* ===== verification/SyncTokens.thy ===== *)
theory SyncTokens
  imports Spec_IDs
begin

text \<open>
  The tokens by which clients say how far they have synchronised
  (\<^verbatim>\<open>syncapi/types/types.go\<close>): a position in each stream of the server, or a place in the
  topology of a room. Positions are 64-bit integers.
\<close>

section \<open>Numbers and separators\<close>

text \<open>\<^verbatim>\<open>%d\<close>, and parts with a separator between them.\<close>

fun nat_digits :: "nat \<Rightarrow> string" where
  "nat_digits n = (if n < 10 then [char_of (48 + n)] else nat_digits (n div 10) @ [char_of (48 + n mod 10)])"

declare nat_digits.simps [simp del]

definition fmt_d :: "int \<Rightarrow> string" where
  "fmt_d n = (if n < 0 then CHR ''-'' # nat_digits (nat (- n)) else nat_digits (nat n))"

fun join_with :: "char \<Rightarrow> string list \<Rightarrow> string" where
  "join_with sep [] = []"
| "join_with sep [p] = p"
| "join_with sep (p # ps) = p @ sep # join_with sep ps"

definition wrap_int64 :: "int \<Rightarrow> int" where
  "wrap_int64 n = (n + 2 ^ 63) mod 2 ^ 64 - 2 ^ 63"

definition is_int64 :: "int \<Rightarrow> bool" where
  "is_int64 n \<longleftrightarrow> - (2 ^ 63) \<le> n \<and> n < 2 ^ 63"

section \<open>Ranges\<close>

record Range =
  From :: int
  To :: int
  Backwards :: bool

definition Range_Low :: "Range \<Rightarrow> int" where
  "Range_Low r = (if \<not> Backwards r then From r else To r)"

definition Range_High :: "Range \<Rightarrow> int" where
  "Range_High r = (if \<not> Backwards r then To r else From r)"

section \<open>Stream tokens\<close>

record StreamingToken =
  PDUPosition :: int
  TypingPosition :: int
  ReceiptPosition :: int
  SendToDevicePosition :: int
  InvitePosition :: int
  AccountDataPosition :: int
  DeviceListPosition :: int
  NotificationDataPosition :: int
  PresencePosition :: int

definition token_positions :: "StreamingToken \<Rightarrow> int list" where
  "token_positions t =
     [PDUPosition t, TypingPosition t, ReceiptPosition t, SendToDevicePosition t, InvitePosition t,
      AccountDataPosition t, DeviceListPosition t, NotificationDataPosition t, PresencePosition t]"

definition StreamingToken_String :: "StreamingToken \<Rightarrow> string" where
  "StreamingToken_String t = CHR ''s'' # join_with CHR ''_'' (map fmt_d (token_positions t))"

definition IsAfter :: "StreamingToken \<Rightarrow> StreamingToken \<Rightarrow> bool" where
  "IsAfter t other \<longleftrightarrow>
     PDUPosition t > PDUPosition other \<or> TypingPosition t > TypingPosition other \<or>
     ReceiptPosition t > ReceiptPosition other \<or> SendToDevicePosition t > SendToDevicePosition other \<or>
     InvitePosition t > InvitePosition other \<or> AccountDataPosition t > AccountDataPosition other \<or>
     DeviceListPosition t > DeviceListPosition other \<or>
     NotificationDataPosition t > NotificationDataPosition other \<or> PresencePosition t > PresencePosition other"

definition IsEmpty :: "StreamingToken option \<Rightarrow> bool" where
  "IsEmpty t = (case t of None \<Rightarrow> True | Some t \<Rightarrow> wrap_int64 (sum_list (token_positions t)) = 0)"

definition later :: "int \<Rightarrow> int \<Rightarrow> int" where
  "later other mine = (if other > mine then other else mine)"

definition ApplyUpdates :: "StreamingToken \<Rightarrow> StreamingToken \<Rightarrow> StreamingToken" where
  "ApplyUpdates other t =
     \<lparr>PDUPosition = later (PDUPosition other) (PDUPosition t),
      TypingPosition = later (TypingPosition other) (TypingPosition t),
      ReceiptPosition = later (ReceiptPosition other) (ReceiptPosition t),
      SendToDevicePosition = later (SendToDevicePosition other) (SendToDevicePosition t),
      InvitePosition = later (InvitePosition other) (InvitePosition t),
      AccountDataPosition = later (AccountDataPosition other) (AccountDataPosition t),
      DeviceListPosition = later (DeviceListPosition other) (DeviceListPosition t),
      NotificationDataPosition = later (NotificationDataPosition other) (NotificationDataPosition t),
      PresencePosition = later (PresencePosition other) (PresencePosition t)\<rparr>"

definition WithUpdates :: "StreamingToken \<Rightarrow> StreamingToken \<Rightarrow> StreamingToken" where
  "WithUpdates t other = ApplyUpdates other t"

text \<open>The positions of at most the given number of parts; the rest is zero.\<close>

fun parse_positions :: "nat \<Rightarrow> string list \<Rightarrow> int list option" where
  "parse_positions 0 parts = Some []"
| "parse_positions (Suc n) [] = Some (replicate (Suc n) 0)"
| "parse_positions (Suc n) (p # parts) =
     (case ParseInt64 p of
        None \<Rightarrow> None
      | Some pos \<Rightarrow> map_option (Cons pos) (parse_positions n parts))"

definition token_of :: "int list \<Rightarrow> StreamingToken" where
  "token_of ps =
     \<lparr>PDUPosition = ps ! 0, TypingPosition = ps ! 1, ReceiptPosition = ps ! 2, SendToDevicePosition = ps ! 3,
      InvitePosition = ps ! 4, AccountDataPosition = ps ! 5, DeviceListPosition = ps ! 6,
      NotificationDataPosition = ps ! 7, PresencePosition = ps ! 8\<rparr>"

definition NewStreamTokenFromString :: "string \<Rightarrow> StreamingToken outcome" where
  "NewStreamTokenFromString tok =
     (if tok = [] then Err (GoError ''malformed sync token'')
      else if hd tok \<noteq> CHR ''s'' then Err (GoError ''malformed sync token'')
      else (case parse_positions 9 (split_on CHR ''_'' (tl (hd (split_on CHR ''.'' tok)))) of
          None \<Rightarrow> Err (GoError ''malformed sync token'')
        | Some ps \<Rightarrow> Ok (token_of ps)))"

section \<open>Topology tokens\<close>

record TopologyToken =
  tt_Depth :: int
  tt_PDUPosition :: int

definition StreamToken :: "TopologyToken \<Rightarrow> StreamingToken" where
  "StreamToken t = token_of (tt_PDUPosition t # replicate 8 0)"

definition TopologyToken_String :: "TopologyToken \<Rightarrow> string" where
  "TopologyToken_String t =
     (if tt_Depth t \<le> 0 \<and> tt_PDUPosition t \<le> 0 then []
      else CHR ''t'' # fmt_d (tt_Depth t) @ CHR ''_'' # fmt_d (tt_PDUPosition t))"

definition Decrement :: "TopologyToken \<Rightarrow> TopologyToken" where
  "Decrement t =
     (let (depth, pduPos) =
        (if wrap_int64 (tt_Depth t - 1) \<le> 0 then (1, tt_PDUPosition t)
         else (wrap_int64 (tt_Depth t - 1), wrap_int64 (tt_PDUPosition t + 1000)))
      in \<lparr>tt_Depth = if depth < 1 then 1 else depth, tt_PDUPosition = pduPos\<rparr>)"

text \<open>The loop stops only after index 2, for which \<^verbatim>\<open>positions\<close> has no room.\<close>

fun topology_positions :: "nat \<Rightarrow> string list \<Rightarrow> int list \<Rightarrow> int list outcome" where
  "topology_positions i [] positions = Ok positions"
| "topology_positions i (p # parts) positions =
     (if i > length positions then Ok positions
      else (case ParseInt64 p of
          None \<Rightarrow> Err (GoError ''strconv.ParseInt'')
        | Some pos \<Rightarrow>
            if i \<ge> length positions then Panic
            else topology_positions (Suc i) parts (positions[i := pos])))"

definition NewTopologyTokenFromString :: "string \<Rightarrow> TopologyToken outcome" where
  "NewTopologyTokenFromString tok =
     (if tok = [] then Err (GoError ''empty topology token'')
      else if hd tok \<noteq> CHR ''t'' then Err (GoError ''topology token must start with t'')
      else and_then (topology_positions 0 (split_on CHR ''_'' (tl tok)) [0, 0]) (\<lambda>ps.
        Ok \<lparr>tt_Depth = ps ! 0, tt_PDUPosition = ps ! 1\<rparr>))"

section \<open>Printing and parsing\<close>

lemma digits_val_snoc: "digits_val acc (s @ [c]) = 10 * digits_val acc s + digit_val c"
  by (induction s arbitrary: acc) auto

lemma of_char_digit: "d < 10 \<Longrightarrow> (of_char (char_of (48 + d :: nat)) :: nat) = 48 + d"
  by (simp add: of_char_of)

lemma is_digit_char: assumes "d < 10" shows "is_digit (char_of (48 + d :: nat))"
proof -
  have "d \<in> {0, 1, 2, 3, 4, 5, 6, 7, 8, 9}" using assms by auto
  then show ?thesis by (elim insertE emptyE) (auto simp: is_digit_def char_of_def bit_0)
qed

lemma nat_digits_spec: "digits_val 0 (nat_digits n) = n \<and> list_all is_digit (nat_digits n) \<and> nat_digits n \<noteq> []"
proof (induction n rule: nat_digits.induct)
  case (1 n)
  show ?case
  proof (cases "n < 10")
    case True
    then show ?thesis by (simp add: nat_digits.simps [of n] digit_val_def of_char_digit is_digit_char)
  next
    case False
    then show ?thesis using 1
      by (simp add: nat_digits.simps [of n] digits_val_snoc digit_val_def of_char_digit is_digit_char)
  qed
qed

lemma digit_not: "is_digit c \<Longrightarrow> c \<noteq> CHR ''_'' \<and> c \<noteq> CHR ''.'' \<and> c \<noteq> CHR ''-'' \<and> c \<noteq> CHR ''+''"
  by (auto simp: is_digit_def)

lemma fmt_d_chars: "c \<in> set (fmt_d n) \<Longrightarrow> c \<noteq> CHR ''_'' \<and> c \<noteq> CHR ''.''"
  using nat_digits_spec [of "nat n"] nat_digits_spec [of "nat (- n)"]
  by (auto simp: fmt_d_def list_all_iff dest: digit_not split: if_splits)

lemma ParseInt64_fmt_d:
  assumes "is_int64 n" shows "ParseInt64 (fmt_d n) = Some n"
proof (cases "n < 0")
  case True
  then show ?thesis using assms nat_digits_spec [of "nat (- n)"]
    by (simp add: ParseInt64_def fmt_d_def is_int64_def Let_def)
next
  case False
  obtain c cs where c: "nat_digits (nat n) = c # cs" using nat_digits_spec [of "nat n"] by (cases "nat_digits (nat n)") auto
  then have "is_digit c" using nat_digits_spec [of "nat n"] by simp
  then have "c \<noteq> CHR ''-''" "c \<noteq> CHR ''+''" using digit_not by blast+
  then show ?thesis using False assms nat_digits_spec [of "nat n"] c
    by (simp add: ParseInt64_def fmt_d_def is_int64_def Let_def)
qed

lemma Split_part: "sep \<notin> set p \<Longrightarrow> split_on sep p = [p]"
  by (induction p) auto

lemma Split_cons: "sep \<notin> set p \<Longrightarrow> split_on sep (p @ sep # s) = p # split_on sep s"
  by (induction p) auto

lemma Split_join: "ps \<noteq> [] \<Longrightarrow> \<forall>p \<in> set ps. sep \<notin> set p \<Longrightarrow> split_on sep (join_with sep ps) = ps"
  by (induction sep ps rule: join_with.induct) (auto simp: Split_part Split_cons)

lemma parse_positions_fmt:
  "\<forall>n \<in> set ns. is_int64 n \<Longrightarrow> parse_positions (length ns) (map fmt_d ns) = Some ns"
  by (induction ns) (auto simp: ParseInt64_fmt_d)

lemma length_token_positions: "length (token_positions t) = 9"
  by (simp add: token_positions_def)

lemma set_join: "set (join_with sep ps) \<subseteq> insert sep (\<Union>p \<in> set ps. set p)"
  by (induction sep ps rule: join_with.induct) auto

definition token_ok :: "StreamingToken \<Rightarrow> bool" where
  "token_ok t \<longleftrightarrow> (\<forall>n \<in> set (token_positions t). is_int64 n)"

text \<open>
  C40. Printing a stream token and parsing it again gives the same token, for all positions that
  are 64-bit integers; so does a topology token that is not before the start of the room.
\<close>

theorem tokens_roundtrip:
  "(token_ok t \<longrightarrow> NewStreamTokenFromString (StreamingToken_String t) = Ok t) \<and>
   (is_int64 (tt_Depth tt) \<and> is_int64 (tt_PDUPosition tt) \<and> (0 < tt_Depth tt \<or> 0 < tt_PDUPosition tt) \<longrightarrow>
      NewTopologyTokenFromString (TopologyToken_String tt) = Ok tt)"
proof (intro conjI impI)
  let ?s = "join_with CHR ''_'' (map fmt_d (token_positions t))"
  assume ok: "token_ok t"
  have parts: "split_on CHR ''_'' ?s = map fmt_d (token_positions t)"
    by (rule Split_join) (auto simp: token_positions_def dest: fmt_d_chars)
  have "CHR ''.'' \<notin> set ?s" using set_join [of "CHR ''_''" "map fmt_d (token_positions t)"] fmt_d_chars by fastforce
  then have "split_on CHR ''.'' (CHR ''s'' # ?s) = [CHR ''s'' # ?s]" by (intro Split_part) simp
  moreover have "parse_positions 9 (map fmt_d (token_positions t)) = Some (token_positions t)"
    using parse_positions_fmt [of "token_positions t"] ok by (simp add: token_ok_def length_token_positions)
  moreover have "token_of (token_positions t) = t" by (simp add: token_of_def token_positions_def)
  ultimately show "NewStreamTokenFromString (StreamingToken_String t) = Ok t"
    by (simp add: NewStreamTokenFromString_def StreamingToken_String_def parts)
next
  assume ok: "is_int64 (tt_Depth tt) \<and> is_int64 (tt_PDUPosition tt) \<and> (0 < tt_Depth tt \<or> 0 < tt_PDUPosition tt)"
  have "split_on CHR ''_'' (fmt_d (tt_Depth tt) @ CHR ''_'' # fmt_d (tt_PDUPosition tt)) = [fmt_d (tt_Depth tt), fmt_d (tt_PDUPosition tt)]"
    by (subst Split_cons) (auto intro: Split_part dest: fmt_d_chars)
  then show "NewTopologyTokenFromString (TopologyToken_String tt) = Ok tt"
    using ok by (auto simp: NewTopologyTokenFromString_def TopologyToken_String_def ParseInt64_fmt_d)
qed

definition sample_token :: StreamingToken where
  "sample_token = token_of [7, 0, -3, 12, 0, 5, 0, 1, 9]"

theorem tokens_roundtrip_witness:
  "NewStreamTokenFromString (StreamingToken_String sample_token) = Ok sample_token \<and>
   NewTopologyTokenFromString (TopologyToken_String \<lparr>tt_Depth = 4, tt_PDUPosition = 17\<rparr>) =
     Ok \<lparr>tt_Depth = 4, tt_PDUPosition = 17\<rparr>"
  using tokens_roundtrip [of sample_token "\<lparr>tt_Depth = 4, tt_PDUPosition = 17\<rparr>"]
  by (simp add: token_ok_def token_positions_def is_int64_def sample_token_def token_of_def)

text \<open>A third position stands in an array of two: the parser of topology tokens panics on it.\<close>

lemma topology_token_panics: "NewTopologyTokenFromString ''t1_2_3'' = Panic"
  by (simp add: NewTopologyTokenFromString_def ParseInt64_def digit_val_def is_digit_def Let_def)

section \<open>Updates\<close>

lemma later_greater: "later other mine > bound \<longleftrightarrow> mine > bound \<or> other > bound"
  by (auto simp: later_def)

lemma later_above: "\<not> other > later other mine" "\<not> mine > later other mine"
  by (auto simp: later_def)

lemma is_int64_later: "is_int64 other \<Longrightarrow> is_int64 mine \<Longrightarrow> is_int64 (later other mine)"
  by (simp add: later_def)

lemma IsAfter_WithUpdates: "IsAfter (WithUpdates t other) bound \<longleftrightarrow> IsAfter t bound \<or> IsAfter other bound"
  unfolding IsAfter_def WithUpdates_def ApplyUpdates_def StreamingToken.simps later_greater by blast

text \<open>
  Applying the updates of another token gives the least token that is before neither of the
  two: the result is never behind, and a token that is behind neither is not behind the result.
  A position that the other token has set back is kept.
\<close>

lemma WithUpdates_least:
  "\<not> IsAfter t (WithUpdates t other) \<and> \<not> IsAfter other (WithUpdates t other) \<and>
   (IsAfter (WithUpdates t other) bound \<longleftrightarrow> IsAfter t bound \<or> IsAfter other bound) \<and>
   (token_ok t \<longrightarrow> token_ok other \<longrightarrow> token_ok (WithUpdates t other))"
  by (simp add: IsAfter_WithUpdates)
     (simp add: IsAfter_def WithUpdates_def ApplyUpdates_def later_above token_ok_def token_positions_def is_int64_later)

end
