(* ===== verification/TypingCache.thy ===== *)
theory TypingCache
  imports SyncTokens StepSystem
begin

text \<open>
  The cache of typing notifications (\<^verbatim>\<open>internal/caching/cache_typing.go\<close>): which users are
  typing in which room, and the stream position of the last change of each room. Positions are
  64-bit integers.

  A user's entry holds the timer that removes it. \<^verbatim>\<open>time.AfterFunc\<close> starts a timer; when it
  is due it runs its function in a goroutine of its own, which has to wait for the lock of the
  cache; \<^verbatim>\<open>Stop\<close> keeps a timer that has not run out from doing so. The state below has the
  clock, the timers that run (with the time at which they are due, and the user and the room they
  remove), the functions that have started and wait for the lock, and the calls of
  \<^verbatim>\<open>AddTypingUser\<close> that have started their timer and wait for the lock.
\<close>

section \<open>The cache\<close>

record roomData =
  syncPosition :: int
  userSet :: "(string, nat) gomap"

record EDUCache =
  latestSyncPosition :: int
  data :: "(string, roomData) gomap"
  timeoutCallback :: bool

record typing_system =
  cache :: EDUCache
  clock :: int
  next_timer :: nat
  running :: "(nat, int \<times> string \<times> string) gomap"
  fired :: "(string \<times> string) list"
  adding :: "(string \<times> string \<times> nat) list"
  callbacks :: "(string \<times> string \<times> int) list"

definition defaultTypingTimeout :: int where
  "defaultTypingTimeout = 10 * 10 ^ 9"

definition newRoomData :: "EDUCache \<Rightarrow> roomData" where
  "newRoomData t = \<lparr>syncPosition = latestSyncPosition t, userSet = []\<rparr>"

definition NewTypingCache :: EDUCache where
  "NewTypingCache = \<lparr>latestSyncPosition = 0, data = [], timeoutCallback = False\<rparr>"

definition SetTimeoutCallback :: "EDUCache \<Rightarrow> EDUCache" where
  "SetTimeoutCallback t = t\<lparr>timeoutCallback := True\<rparr>"

definition GetTypingUsersIfUpdatedAfter :: "string \<Rightarrow> int \<Rightarrow> EDUCache \<Rightarrow> string list \<times> bool" where
  "GetTypingUsersIfUpdatedAfter roomID position t =
     (case map_of (data t) roomID of
        Some rd \<Rightarrow> if syncPosition rd > position then (keys (userSet rd), True) else ([], False)
      | None \<Rightarrow> ([], False))"

definition GetTypingUsers :: "string \<Rightarrow> EDUCache \<Rightarrow> string list" where
  "GetTypingUsers roomID t = fst (GetTypingUsersIfUpdatedAfter roomID 0 t)"

definition GetLatestSyncPosition :: "EDUCache \<Rightarrow> int" where
  "GetLatestSyncPosition t = latestSyncPosition t"

definition getExpireTime :: "int option \<Rightarrow> int \<Rightarrow> int" where
  "getExpireTime expire now = (case expire of Some e \<Rightarrow> e | None \<Rightarrow> now + defaultTypingTimeout)"

text \<open>\<^verbatim>\<open>Stop\<close>: a timer that is not running, one that has run out included, is left alone.\<close>

definition Stop :: "nat \<Rightarrow> typing_system \<Rightarrow> typing_system" where
  "Stop timer s = s\<lparr>running := AList.delete timer (running s)\<rparr>"

definition addUser :: "string \<Rightarrow> string \<Rightarrow> nat \<Rightarrow> typing_system \<Rightarrow> int \<times> typing_system" where
  "addUser userID roomID expiryTimer s =
     (let t = cache s;
          pos = wrap_int64 (latestSyncPosition t + 1);
          t = t\<lparr>latestSyncPosition := pos\<rparr>;
          rd = (case map_of (data t) roomID of
                  None \<Rightarrow> newRoomData t
                | Some rd \<Rightarrow> rd\<lparr>syncPosition := pos\<rparr>);
          s = (case map_of (userSet rd) userID of Some timer \<Rightarrow> Stop timer s | None \<Rightarrow> s);
          rd = rd\<lparr>userSet := AList.update userID expiryTimer (userSet rd)\<rparr>
      in (pos, s\<lparr>cache := t\<lparr>data := AList.update roomID rd (data t)\<rparr>\<rparr>))"

definition RemoveUser :: "string \<Rightarrow> string \<Rightarrow> typing_system \<Rightarrow> int \<times> typing_system" where
  "RemoveUser userID roomID s =
     (let t = cache s in
      case map_of (data t) roomID of
        None \<Rightarrow> (latestSyncPosition t, s)
      | Some rd \<Rightarrow>
          (case map_of (userSet rd) userID of
             None \<Rightarrow> (latestSyncPosition t, s)
           | Some timer \<Rightarrow>
               let pos = wrap_int64 (latestSyncPosition t + 1);
                   rd = rd\<lparr>userSet := AList.delete userID (userSet rd), syncPosition := pos\<rparr>
               in (pos, (Stop timer s)\<lparr>cache :=
                     t\<lparr>latestSyncPosition := pos, data := AList.update roomID rd (data t)\<rparr>\<rparr>)))"

text \<open>
  \<^verbatim>\<open>AddTypingUser\<close>, up to the lock: a time that is past leaves the cache as it is; otherwise
  the timer is started, and \<^verbatim>\<open>addUser\<close> is next.
\<close>

definition AddTypingUser_start :: "string \<Rightarrow> string \<Rightarrow> int option \<Rightarrow> typing_system \<Rightarrow> typing_system" where
  "AddTypingUser_start userID roomID expire s =
     (let expireTime = getExpireTime expire (clock s) in
      if expireTime - clock s > 0 then
        s\<lparr>running := AList.update (next_timer s) (expireTime, userID, roomID) (running s),
          adding := adding s @ [(userID, roomID, next_timer s)],
          next_timer := Suc (next_timer s)\<rparr>
      else s)"

definition drop_nth :: "nat \<Rightarrow> 'a list \<Rightarrow> 'a list" where
  "drop_nth k xs = take k xs @ drop (Suc k) xs"

definition AddTypingUser_lock :: "nat \<Rightarrow> typing_system \<Rightarrow> typing_system" where
  "AddTypingUser_lock k s =
     (if k < length (adding s)
      then (case adding s ! k of (u, r, timer) \<Rightarrow> snd (addUser u r timer (s\<lparr>adding := drop_nth k (adding s)\<rparr>)))
      else s)"

definition AddTypingUser :: "string \<Rightarrow> string \<Rightarrow> int option \<Rightarrow> typing_system \<Rightarrow> typing_system" where
  "AddTypingUser userID roomID expire s =
     (let expireTime = getExpireTime expire (clock s); timer = next_timer s in
      if expireTime - clock s > 0 then
        snd (addUser userID roomID timer
          (s\<lparr>running := AList.update timer (expireTime, userID, roomID) (running s), next_timer := Suc timer\<rparr>))
      else s)"

text \<open>The function of a timer: in its goroutine it takes the lock, then it makes the callback.\<close>

definition fire :: "nat \<Rightarrow> typing_system \<Rightarrow> typing_system" where
  "fire timer s =
     (case map_of (running s) timer of
        Some (due, u, r) \<Rightarrow>
          if due \<le> clock s then s\<lparr>running := AList.delete timer (running s), fired := fired s @ [(u, r)]\<rparr> else s
      | None \<Rightarrow> s)"

definition timed_out :: "nat \<Rightarrow> typing_system \<Rightarrow> typing_system" where
  "timed_out k s =
     (if k < length (fired s)
      then (case fired s ! k of (u, r) \<Rightarrow>
        (case RemoveUser u r (s\<lparr>fired := drop_nth k (fired s)\<rparr>) of (pos, s) \<Rightarrow>
          if timeoutCallback (cache s) then s\<lparr>callbacks := callbacks s @ [(u, r, pos)]\<rparr> else s))
      else s)"

section \<open>Runs\<close>

datatype typing_event =
    Set_callback
  | Add string string "int option"
  | Add_start string string "int option"
  | Add_lock nat
  | Remove string string
  | Tick nat
  | Fire nat
  | Timed_out nat

fun typing_step :: "typing_event \<Rightarrow> typing_system \<Rightarrow> typing_system" where
  "typing_step Set_callback s = s\<lparr>cache := SetTimeoutCallback (cache s)\<rparr>"
| "typing_step (Add u r e) s = AddTypingUser u r e s"
| "typing_step (Add_start u r e) s = AddTypingUser_start u r e s"
| "typing_step (Add_lock k) s = AddTypingUser_lock k s"
| "typing_step (Remove u r) s = snd (RemoveUser u r s)"
| "typing_step (Tick d) s = s\<lparr>clock := clock s + int d\<rparr>"
| "typing_step (Fire timer) s = fire timer s"
| "typing_step (Timed_out k) s = timed_out k s"

definition typing_run :: "typing_event list \<Rightarrow> typing_system \<Rightarrow> typing_system" where
  "typing_run evs s = fold typing_step evs s"

definition typing_start :: "int \<Rightarrow> typing_system" where
  "typing_start now =
     \<lparr>cache = NewTypingCache, clock = now, next_timer = 0, running = [], fired = [], adding = [], callbacks = []\<rparr>"

text \<open>The users that are typing in a room, whatever a client asks.\<close>

definition typing_users :: "string \<Rightarrow> typing_system \<Rightarrow> string set" where
  "typing_users r s = (case map_of (data (cache s)) r of None \<Rightarrow> {} | Some rd \<Rightarrow> set (keys (userSet rd)))"

end
