(* ===== verification/TypingCache_Correct.thy ===== *)
theory TypingCache_Correct
  imports TypingCache
begin

text \<open>
  A client that asks for the changes after the position it knows misses none, and a user does not
  stay in the list of typing users longer than its timer says, unless the timer overtakes the
  call that started it.
\<close>

section \<open>Positions\<close>

definition room_pos :: "string \<Rightarrow> typing_system \<Rightarrow> int" where
  "room_pos r s = (case map_of (data (cache s)) r of None \<Rightarrow> 0 | Some rd \<Rightarrow> syncPosition rd)"

definition positions_ok :: "typing_system \<Rightarrow> bool" where
  "positions_ok s \<longleftrightarrow> 0 \<le> latestSyncPosition (cache s) \<and>
     (\<forall>r rd. map_of (data (cache s)) r = Some rd \<longrightarrow>
        0 < syncPosition rd \<and> syncPosition rd \<le> latestSyncPosition (cache s))"

text \<open>What a change leaves of a room: its users and its position, or a position after the last.\<close>

definition follows :: "typing_system \<Rightarrow> typing_system \<Rightarrow> bool" where
  "follows s t \<longleftrightarrow> latestSyncPosition (cache s) \<le> latestSyncPosition (cache t) \<and>
     (\<forall>r. typing_users r t = typing_users r s \<and> room_pos r t = room_pos r s \<or>
          latestSyncPosition (cache s) < room_pos r t)"

lemma wrap_int64_id: "is_int64 n \<Longrightarrow> wrap_int64 n = n"
  by (simp add: wrap_int64_def is_int64_def)

lemma wrap_next: "0 \<le> n \<Longrightarrow> n + 1 < 2 ^ 63 \<Longrightarrow> wrap_int64 (n + 1) = n + 1"
  by (rule wrap_int64_id) (simp add: is_int64_def)

lemma follows_refl: "cache t = cache s \<Longrightarrow> follows s t"
  by (simp add: follows_def typing_users_def room_pos_def)

lemma follows_trans: "follows s t \<Longrightarrow> follows t u \<Longrightarrow> follows s u"
  unfolding follows_def by (metis order_trans order_le_less_trans)

lemma cache_Stop [simp]: "cache (Stop timer s) = cache s"
  by (simp add: Stop_def)

text \<open>A step that moves one room to the next position keeps the positions in order.\<close>

definition moves :: "string \<Rightarrow> roomData \<Rightarrow> typing_system \<Rightarrow> typing_system \<Rightarrow> bool" where
  "moves r rd s t \<longleftrightarrow>
     syncPosition rd = wrap_int64 (latestSyncPosition (cache s) + 1) \<and>
     cache t = (cache s)\<lparr>latestSyncPosition := wrap_int64 (latestSyncPosition (cache s) + 1),
       data := AList.update r rd (data (cache s))\<rparr>"

definition step_ok :: "typing_system \<Rightarrow> typing_system \<Rightarrow> bool" where
  "step_ok s t \<longleftrightarrow> positions_ok t \<and> follows s t \<and> latestSyncPosition (cache t) \<le> latestSyncPosition (cache s) + 1"

lemma moves_ok:
  assumes "moves r rd s t" "positions_ok s" "latestSyncPosition (cache s) + 1 < 2 ^ 63"
  shows "step_ok s t"
proof -
  let ?n = "latestSyncPosition (cache s)"
  have n: "wrap_int64 (?n + 1) = ?n + 1" using assms by (intro wrap_next) (auto simp: positions_ok_def)
  have p: "syncPosition rd = ?n + 1" using assms(1) by (simp add: moves_def n)
  have l: "latestSyncPosition (cache t) = ?n + 1" using assms(1) by (simp add: moves_def n)
  have m: "map_of (data (cache t)) = (map_of (data (cache s)))(r \<mapsto> rd)"
    using assms(1) by (simp add: moves_def n map_simps)
  have "positions_ok t" using assms(2) unfolding positions_ok_def l m by (auto simp: p split: if_splits) force
  moreover have "follows s t"
    unfolding follows_def l by (auto simp: typing_users_def room_pos_def m p)
  ultimately show ?thesis by (simp add: l step_ok_def)
qed

lemma same_cache_ok: "cache t = cache s \<Longrightarrow> positions_ok s \<Longrightarrow> step_ok s t"
  by (simp add: step_ok_def follows_refl) (simp add: positions_ok_def)

lemma step_ok_same: "cache t' = cache t \<Longrightarrow> step_ok s t \<Longrightarrow> step_ok s t'"
  by (simp add: step_ok_def positions_ok_def follows_def typing_users_def room_pos_def)

lemma addUser_moves: "\<exists>rd. moves r rd s (snd (addUser u r timer s))"
  by (auto simp: addUser_def moves_def Let_def newRoomData_def split: option.splits intro!: exI)

lemma RemoveUser_moves: "cache (snd (RemoveUser u r s)) = cache s \<or> (\<exists>rd. moves r rd s (snd (RemoveUser u r s)))"
  by (auto simp: RemoveUser_def moves_def Let_def split: option.splits intro!: exI)

lemma typing_step_ok:
  assumes "positions_ok s" "latestSyncPosition (cache s) + 1 < 2 ^ 63"
  shows "step_ok s (typing_step e s)"
proof -
  have add: "step_ok s (snd (addUser u r timer s'))" if "cache s' = cache s" for u r timer s'
    using addUser_moves [of r s' u timer] moves_ok assms that by (auto simp: moves_def)
  have rem: "step_ok s (snd (RemoveUser u r s'))" if "cache s' = cache s" for u r s'
    using RemoveUser_moves [of u r s'] moves_ok assms that same_cache_ok by (auto simp: moves_def)
  show ?thesis
  proof (cases e)
    case (Add u r x)
    then show ?thesis using assms by (auto simp: AddTypingUser_def Let_def intro: add same_cache_ok)
  next
    case (Add_lock k)
    then show ?thesis using assms by (auto simp: AddTypingUser_lock_def intro: add same_cache_ok split: prod.splits)
  next
    case (Remove u r)
    then show ?thesis by (simp add: rem)
  next
    case (Timed_out k)
    obtain u r where ur: "fired s ! k = (u, r)" by fastforce
    have rem': "step_ok s (snd (RemoveUser u r (s\<lparr>fired := drop_nth k (fired s)\<rparr>)))" by (simp add: rem)
    have "cache (timed_out k s) = cache (snd (RemoveUser u r (s\<lparr>fired := drop_nth k (fired s)\<rparr>)))" if "k < length (fired s)"
      using that ur by (simp add: timed_out_def split: prod.splits)
    moreover have "cache (timed_out k s) = cache s" if "\<not> k < length (fired s)" using that by (simp add: timed_out_def)
    ultimately show ?thesis using Timed_out assms(1) step_ok_same [OF _ rem'] by (auto intro: same_cache_ok)
  next
    case Set_callback
    then show ?thesis using assms
      by (simp add: SetTimeoutCallback_def step_ok_def positions_ok_def follows_def typing_users_def room_pos_def)
  qed (use assms in \<open>auto simp: AddTypingUser_start_def fire_def Let_def intro: same_cache_ok split: option.splits\<close>)
qed

lemma typing_run_ok:
  "positions_ok s \<Longrightarrow> latestSyncPosition (cache s) + int (length evs) < 2 ^ 63 \<Longrightarrow>
   positions_ok (typing_run evs s) \<and> follows s (typing_run evs s) \<and>
   latestSyncPosition (cache (typing_run evs s)) \<le> latestSyncPosition (cache s) + int (length evs)"
proof (induction evs arbitrary: s)
  case Nil
  then show ?case by (simp add: typing_run_def follows_refl)
next
  case (Cons e evs)
  have ok: "step_ok s (typing_step e s)" using Cons.prems by (intro typing_step_ok) auto
  then have "positions_ok (typing_run evs (typing_step e s)) \<and> follows (typing_step e s) (typing_run evs (typing_step e s)) \<and>
     latestSyncPosition (cache (typing_run evs (typing_step e s))) \<le> latestSyncPosition (cache (typing_step e s)) + int (length evs)"
    using Cons.prems by (intro Cons.IH) (auto simp: step_ok_def)
  then show ?case using ok follows_trans by (auto simp: typing_run_def step_ok_def)
qed

lemma start_positions: "positions_ok (typing_start now)"
  by (simp add: positions_ok_def typing_start_def NewTypingCache_def)

text \<open>What a client is told, in terms of the room.\<close>

lemma GetTypingUsersIfUpdatedAfter_set:
  "positions_ok s \<Longrightarrow> p \<ge> 0 \<Longrightarrow>
   (case GetTypingUsersIfUpdatedAfter r p (cache s) of (us, updated) \<Rightarrow>
      (updated \<longleftrightarrow> p < room_pos r s) \<and> (updated \<longrightarrow> set us = typing_users r s) \<and> (\<not> updated \<longrightarrow> us = []))"
  by (auto simp: GetTypingUsersIfUpdatedAfter_def room_pos_def typing_users_def split: option.splits)

lemma GetTypingUsers_set: "positions_ok s \<Longrightarrow> set (GetTypingUsers r (cache s)) = typing_users r s"
  by (auto simp: GetTypingUsers_def GetTypingUsersIfUpdatedAfter_def typing_users_def positions_ok_def split: option.splits)

text \<open>
  C36. A client that has the latest position, and asks again later whether a room has changed
  since, misses nothing, whatever calls, timers and clock did in between: either it is told that
  the room has changed, with exactly the users that are typing in it now, or the users are
  those that were typing in it then. The position it goes on with is never before its own. (The
  bound on the events keeps the 64-bit position from wrapping around.)
\<close>

theorem typing_polls_miss_nothing:
  assumes "int (length evs) + int (length evs') < 2 ^ 63"
  shows "let s = typing_run evs (typing_start now); t = typing_run evs' s in
     GetLatestSyncPosition (cache s) \<le> GetLatestSyncPosition (cache t) \<and>
     set (GetTypingUsers r (cache t)) = typing_users r t \<and>
     (case GetTypingUsersIfUpdatedAfter r (GetLatestSyncPosition (cache s)) (cache t) of (users, updated) \<Rightarrow>
        if updated then set users = typing_users r t else users = [] \<and> typing_users r t = typing_users r s)"
proof -
  define s where "s = typing_run evs (typing_start now)"
  define t where "t = typing_run evs' s"
  have z: "latestSyncPosition (cache (typing_start now)) = 0" by (simp add: typing_start_def NewTypingCache_def)
  have s: "positions_ok s" "latestSyncPosition (cache s) \<le> int (length evs)"
    using typing_run_ok [OF start_positions, of now evs] assms z by (auto simp: s_def)
  have t: "positions_ok t" "follows s t"
    using typing_run_ok [of s evs'] s assms by (auto simp: t_def)
  have "0 \<le> latestSyncPosition (cache s)" using s(1) by (simp add: positions_ok_def)
  then have "case GetTypingUsersIfUpdatedAfter r (GetLatestSyncPosition (cache s)) (cache t) of
           (users, updated) \<Rightarrow> if updated then set users = typing_users r t
                               else users = [] \<and> typing_users r t = typing_users r s"
    using GetTypingUsersIfUpdatedAfter_set [OF t(1), of "latestSyncPosition (cache s)" r] t(2)
    by (auto simp: GetLatestSyncPosition_def follows_def split: prod.splits)
  moreover have "GetLatestSyncPosition (cache s) \<le> GetLatestSyncPosition (cache t)"
    using t(2) by (simp add: follows_def GetLatestSyncPosition_def)
  ultimately show ?thesis using GetTypingUsers_set [OF t(1), of r]
    unfolding Let_def s_def [symmetric] t_def [symmetric] by blast
qed

section \<open>Timers\<close>

text \<open>
  Every typing user has a timer that runs, or whose function waits for the lock; a timer that
  runs belongs to the entry that holds it. (The set holds the users whose removal is under way.)
\<close>

definition entry :: "string \<Rightarrow> string \<Rightarrow> typing_system \<Rightarrow> nat option" where
  "entry r u s = (case map_of (data (cache s)) r of None \<Rightarrow> None | Some rd \<Rightarrow> map_of (userSet rd) u)"

definition timers_inv :: "(string \<Rightarrow> string \<Rightarrow> nat option) \<Rightarrow> (nat \<rightharpoonup> int \<times> string \<times> string) \<Rightarrow>
    (string \<times> string) set \<Rightarrow> nat \<Rightarrow> bool" where
  "timers_inv ent run due n \<longleftrightarrow>
     (\<forall>r u t. ent r u = Some t \<longrightarrow> t < n \<and> ((\<exists>d. run t = Some (d, u, r)) \<or> run t = None \<and> (u, r) \<in> due)) \<and>
     (\<forall>t x. run t = Some x \<longrightarrow> t < n)"

definition timers_ok :: "(string \<times> string) set \<Rightarrow> typing_system \<Rightarrow> bool" where
  "timers_ok exempt s \<longleftrightarrow> adding s = [] \<and>
     timers_inv (\<lambda>r u. entry r u s) (map_of (running s)) (set (fired s) \<union> exempt) (next_timer s)"

definition stop_old :: "nat option \<Rightarrow> (nat \<rightharpoonup> 'a) \<Rightarrow> (nat \<rightharpoonup> 'a)" where
  "stop_old old run = (case old of None \<Rightarrow> run | Some t \<Rightarrow> run(t := None))"

lemma keys_map_of: "k \<in> set (keys m) \<longleftrightarrow> map_of m k \<noteq> None"
  by (simp only: map_of_eq_None_iff set_map) blast

lemma typing_users_entry: "u \<in> typing_users r s \<longleftrightarrow> entry r u s \<noteq> None"
  by (simp add: typing_users_def entry_def keys_map_of [symmetric] del: not_None_eq split: option.split)

lemma entry_addUser:
  "entry r' u' (snd (addUser u r timer s)) = (if r' = r \<and> u' = u then Some timer else entry r' u' s)"
  by (auto simp: entry_def addUser_def Let_def newRoomData_def map_simps split: option.splits)

lemma running_addUser:
  "map_of (running (snd (addUser u r timer s))) =
     stop_old (entry r u s) (map_of (running s))"
  by (auto simp: stop_old_def entry_def addUser_def Let_def newRoomData_def Stop_def map_simps split: option.splits)

lemma entry_RemoveUser:
  "entry r' u' (snd (RemoveUser u r s)) = (if r' = r \<and> u' = u then None else entry r' u' s)"
  by (auto simp: entry_def RemoveUser_def Let_def map_simps split: option.splits)

lemma running_RemoveUser:
  "map_of (running (snd (RemoveUser u r s))) =
     stop_old (entry r u s) (map_of (running s))"
  by (auto simp: stop_old_def entry_def RemoveUser_def Let_def Stop_def map_simps split: option.splits)

lemma kept_addUser:
  "fired (snd (addUser u r timer s)) = fired s" "next_timer (snd (addUser u r timer s)) = next_timer s"
  "adding (snd (addUser u r timer s)) = adding s"
  by (auto simp: addUser_def Let_def Stop_def split: option.splits)

lemma kept_RemoveUser:
  "fired (snd (RemoveUser u r s)) = fired s" "next_timer (snd (RemoveUser u r s)) = next_timer s"
  "adding (snd (RemoveUser u r s)) = adding s"
  by (auto simp: RemoveUser_def Let_def Stop_def split: option.splits)

lemma stop_old_Some: "stop_old old run t = Some x \<longleftrightarrow> run t = Some x \<and> old \<noteq> Some t"
  by (auto simp: stop_old_def split: option.splits)

lemma timers_inv_entry:
  "timers_inv ent run due n \<Longrightarrow> ent r u = Some t \<Longrightarrow>
   t < n \<and> ((\<exists>d. run t = Some (d, u, r)) \<or> run t = None \<and> (u, r) \<in> due)"
  unfolding timers_inv_def by blast

lemma timers_inv_running: "timers_inv ent run due n \<Longrightarrow> run t = Some x \<Longrightarrow> t < n"
  unfolding timers_inv_def by blast

lemma timers_invI:
  assumes "\<And>r u t. ent r u = Some t \<Longrightarrow> t < n \<and> ((\<exists>d. run t = Some (d, u, r)) \<or> run t = None \<and> (u, r) \<in> due)"
    and "\<And>t x. run t = Some x \<Longrightarrow> t < n"
  shows "timers_inv ent run due n"
  using assms unfolding timers_inv_def by blast

lemma stop_old_other:
  assumes inv: "timers_inv ent run due n" and e: "ent r' u' = Some t" and ne: "(r', u') \<noteq> (r, u)"
  shows "stop_old (ent r u) run t = run t"
proof (cases "ent r u = Some t")
  case True
  then have "run t = None" using timers_inv_entry [OF inv e] timers_inv_entry [OF inv True] ne by auto
  then show ?thesis by (simp add: True stop_old_def)
next
  case False
  then show ?thesis by (auto simp: stop_old_def split: option.split)
qed

lemma timers_inv_remove:
  assumes inv: "timers_inv ent run (insert (u, r) due) n"
  shows "timers_inv (\<lambda>r' u'. if r' = r \<and> u' = u then None else ent r' u') (stop_old (ent r u) run) due n"
proof (rule timers_invI)
  fix r' u' t assume "(if r' = r \<and> u' = u then None else ent r' u') = Some t"
  then have e: "ent r' u' = Some t" and ne: "(r', u') \<noteq> (r, u)" by (auto split: if_splits)
  show "t < n \<and> ((\<exists>d. stop_old (ent r u) run t = Some (d, u', r')) \<or> stop_old (ent r u) run t = None \<and> (u', r') \<in> due)"
    unfolding stop_old_other [OF inv e ne] using timers_inv_entry [OF inv e] ne by blast
next
  fix t x assume "stop_old (ent r u) run t = Some x"
  then show "t < n" using timers_inv_running [OF inv] by (simp add: stop_old_Some)
qed

lemma timers_inv_start:
  assumes inv: "timers_inv ent run due n" shows "timers_inv ent (run(n \<mapsto> x)) due (Suc n)"
proof (rule timers_invI)
  fix r u t assume "ent r u = Some t"
  then show "t < Suc n \<and> ((\<exists>d. (run(n \<mapsto> x)) t = Some (d, u, r)) \<or> (run(n \<mapsto> x)) t = None \<and> (u, r) \<in> due)"
    using timers_inv_entry [OF inv] by fastforce
qed (use timers_inv_running [OF inv] in \<open>auto simp: less_Suc_eq split: if_splits\<close>)

lemma timers_inv_add:
  assumes inv0: "timers_inv ent run due n"
  shows "timers_inv (\<lambda>r' u'. if r' = r \<and> u' = u then Some n else ent r' u')
           (stop_old (ent r u) (run(n \<mapsto> (d, u, r)))) due (Suc n)"
proof -
  let ?run = "run(n \<mapsto> (d, u, r))"
  have inv: "timers_inv ent ?run due (Suc n)" using inv0 by (rule timers_inv_start)
  have old: "ent r u \<noteq> Some n" using timers_inv_entry [OF inv0, of r u n] by blast
  show ?thesis
  proof (rule timers_invI)
    fix r' u' t assume e: "(if r' = r \<and> u' = u then Some n else ent r' u') = Some t"
    show "t < Suc n \<and> ((\<exists>d'. stop_old (ent r u) ?run t = Some (d', u', r')) \<or>
        stop_old (ent r u) ?run t = None \<and> (u', r') \<in> due)"
    proof (cases "r' = r \<and> u' = u")
      case True
      then show ?thesis using old e by (simp add: stop_old_Some)
    next
      case False
      then have e': "ent r' u' = Some t" and ne: "(r', u') \<noteq> (r, u)" using e by auto
      show ?thesis unfolding stop_old_other [OF inv e' ne] by (rule timers_inv_entry [OF inv e'])
    qed
  next
    fix t x assume "stop_old (ent r u) ?run t = Some x"
    then show "t < Suc n" unfolding stop_old_Some using timers_inv_running [OF inv] by blast
  qed
qed

lemma RemoveUser_timers:
  assumes "timers_ok {(u, r)} s" shows "timers_ok {} (snd (RemoveUser u r s))"
  using assms timers_inv_remove [of "\<lambda>r u. entry r u s" _ u r]
  by (simp add: timers_ok_def kept_RemoveUser entry_RemoveUser running_RemoveUser)

lemma AddTypingUser_timers:
  assumes "timers_ok {} s" shows "timers_ok {} (AddTypingUser u r expire s)"
proof -
  let ?e = "getExpireTime expire (clock s)"
  let ?s = "s\<lparr>running := AList.update (next_timer s) (?e, u, r) (running s), next_timer := Suc (next_timer s)\<rparr>"
  have e: "entry r' u' ?s = entry r' u' s" for r' u' by (simp add: entry_def)
  have "timers_ok {} (snd (addUser u r (next_timer s) ?s))"
    using assms timers_inv_add [of "\<lambda>r u. entry r u s" "map_of (running s)" "set (fired s)" "next_timer s" r u ?e]
    by (simp add: timers_ok_def kept_addUser entry_addUser running_addUser e map_simps cong: if_cong)
  then show ?thesis using assms by (simp add: AddTypingUser_def Let_def)
qed

lemma fire_timers: assumes "timers_ok {} s" shows "timers_ok {} (fire timer s)"
proof (cases "fire timer s = s")
  case False
  then obtain d u r where t: "map_of (running s) timer = Some (d, u, r)"
    and f: "fire timer s = s\<lparr>running := AList.delete timer (running s), fired := fired s @ [(u, r)]\<rparr>"
    by (auto simp: fire_def split: option.splits if_splits)
  have inv: "timers_inv (\<lambda>r u. entry r u s) (map_of (running s)) (set (fired s)) (next_timer s)"
    using assms by (simp add: timers_ok_def)
  have "timers_inv (\<lambda>r u. entry r u s) ((map_of (running s))(timer := None)) (insert (u, r) (set (fired s))) (next_timer s)"
  proof (rule timers_invI)
    fix r' u' t' assume "entry r' u' s = Some t'"
    from timers_inv_entry [OF inv this] t
    show "t' < next_timer s \<and> ((\<exists>d. ((map_of (running s))(timer := None)) t' = Some (d, u', r')) \<or>
        ((map_of (running s))(timer := None)) t' = None \<and> (u', r') \<in> insert (u, r) (set (fired s)))"
      by (cases "t' = timer") auto
  qed (use timers_inv_running [OF inv] in \<open>auto split: if_splits\<close>)
  then show ?thesis using assms by (simp add: timers_ok_def f map_simps entry_def)
qed (use assms in simp)

lemma timers_ok_same:
  assumes "timers_ok X s" "data (cache t) = data (cache s)" "running t = running s" "fired t = fired s"
    "next_timer t = next_timer s" "adding t = adding s"
  shows "timers_ok X t"
  using assms by (simp add: timers_ok_def entry_def)

lemma timed_out_eq:
  assumes "k < length (fired s)" "fired s ! k = (u, r)"
  shows "\<exists>cs. timed_out k s = (snd (RemoveUser u r (s\<lparr>fired := drop_nth k (fired s)\<rparr>)))\<lparr>callbacks := cs\<rparr>"
proof -
  obtain pos t where t: "RemoveUser u r (s\<lparr>fired := drop_nth k (fired s)\<rparr>) = (pos, t)" by fastforce
  have "timed_out k s = t\<lparr>callbacks := if timeoutCallback (cache t) then callbacks t @ [(u, r, pos)] else callbacks t\<rparr>"
    using assms t by (simp add: timed_out_def)
  then show ?thesis by (metis t snd_conv)
qed

lemma drop_nth_set: "k < length xs \<Longrightarrow> set xs \<subseteq> insert (xs ! k) (set (drop_nth k xs))"
  by (subst id_take_nth_drop [of k xs]) (auto simp: drop_nth_def)

lemma timed_out_timers: assumes "timers_ok {} s" shows "timers_ok {} (timed_out k s)"
proof (cases "k < length (fired s)")
  case True
  obtain u r where ur: "fired s ! k = (u, r)" by fastforce
  let ?s = "s\<lparr>fired := drop_nth k (fired s)\<rparr>"
  have "set (fired s) \<subseteq> insert (u, r) (set (drop_nth k (fired s)))" using drop_nth_set [OF True] ur by simp
  then have "timers_ok {(u, r)} ?s"
    using assms unfolding timers_ok_def timers_inv_def entry_def by (auto simp: insert_commute)
  then have "timers_ok {} (snd (RemoveUser u r ?s))" by (rule RemoveUser_timers)
  moreover obtain cs where "timed_out k s = (snd (RemoveUser u r ?s))\<lparr>callbacks := cs\<rparr>"
    using timed_out_eq [OF True ur] by blast
  ultimately show ?thesis using timers_ok_same by simp
qed (use assms in \<open>simp add: timed_out_def\<close>)

fun one_piece :: "typing_event \<Rightarrow> bool" where
  "one_piece (Add_start u r e) = False"
| "one_piece e = True"

lemma typing_step_timers:
  assumes "one_piece e" "timers_ok {} s" shows "timers_ok {} (typing_step e s)"
proof (cases e)
  case (Remove u r)
  have "timers_ok {(u, r)} s" using assms(2) unfolding timers_ok_def timers_inv_def by blast
  then show ?thesis using Remove RemoveUser_timers by simp
next
  case (Add_lock k)
  have "adding s = []" using assms(2) by (simp add: timers_ok_def)
  then show ?thesis using Add_lock assms(2) by (simp add: AddTypingUser_lock_def)
qed (use assms in \<open>auto intro: AddTypingUser_timers fire_timers timed_out_timers timers_ok_same
      simp: SetTimeoutCallback_def\<close>)

lemma start_timers: "timers_ok {} (typing_start now)"
  by (simp add: timers_ok_def timers_inv_def typing_start_def NewTypingCache_def entry_def)

definition whole_step :: "typing_system \<Rightarrow> typing_system \<Rightarrow> bool" where
  "whole_step s t \<longleftrightarrow> (\<exists>e. one_piece e \<and> t = typing_step e s)"

interpretation typing_timers: step_invariant "\<lambda>s. \<exists>now. s = typing_start now" whole_step "timers_ok {}"
  by unfold_locales (auto simp: whole_step_def start_timers typing_step_timers)

lemma run_steps: "list_all one_piece evs \<Longrightarrow> whole_step\<^sup>*\<^sup>* s (typing_run evs s)"
proof (induction evs arbitrary: s)
  case (Cons e evs)
  then have "whole_step s (typing_step e s)" by (auto simp: whole_step_def)
  with Cons show ?case by (auto simp: typing_run_def intro: converse_rtranclp_into_rtranclp)
qed (simp add: typing_run_def)

lemma timed_out_removes:
  assumes "k < length (fired s)" "fired s ! k = (u, r)" shows "u \<notin> typing_users r (timed_out k s)"
proof -
  obtain cs where "timed_out k s = (snd (RemoveUser u r (s\<lparr>fired := drop_nth k (fired s)\<rparr>)))\<lparr>callbacks := cs\<rparr>"
    using timed_out_eq [OF assms] by blast
  then have "entry r u (timed_out k s) = None"
    using entry_RemoveUser [of r u u r "s\<lparr>fired := drop_nth k (fired s)\<rparr>"] by (simp add: entry_def)
  then show ?thesis by (simp add: typing_users_entry)
qed

text \<open>
  C37. As long as no timer overtakes the call that started it, a user that is typing has a timer
  that runs for it, or one that has run out and whose function waits for the lock. So it does
  not stay: once the clock has reached the time of the timer and its function has run, the user
  is gone.
\<close>

theorem typing_users_expire:
  assumes "list_all one_piece evs" and "u \<in> typing_users r (typing_run evs (typing_start now))"
  shows "((\<exists>timer due. map_of (running (typing_run evs (typing_start now))) timer = Some (due, u, r)) \<or>
          (u, r) \<in> set (fired (typing_run evs (typing_start now)))) \<and>
         (\<exists>d timer k. u \<notin> typing_users r
            (typing_run [Tick d, Fire timer, Timed_out k] (typing_run evs (typing_start now))))"
proof -
  define s where "s = typing_run evs (typing_start now)"
  have ok: "timers_ok {} s" unfolding s_def
    using run_steps [OF assms(1)] start_timers by (rule typing_timers.steps_inv)
  then have inv: "timers_inv (\<lambda>r u. entry r u s) (map_of (running s)) (set (fired s)) (next_timer s)"
    by (simp add: timers_ok_def)
  obtain t where "entry r u s = Some t" using assms(2) by (auto simp: s_def typing_users_entry)
  from timers_inv_entry [OF inv this]
  consider (runs) d where "map_of (running s) t = Some (d, u, r)" | (waits) "(u, r) \<in> set (fired s)" by blast
  then have "((\<exists>timer due. map_of (running s) timer = Some (due, u, r)) \<or> (u, r) \<in> set (fired s)) \<and>
    (\<exists>d timer k. u \<notin> typing_users r (typing_run [Tick d, Fire timer, Timed_out k] s))"
  proof cases
    case runs
    have "u \<notin> typing_users r (typing_run [Tick (nat (d - clock s)), Fire t, Timed_out (length (fired s))] s)"
      using runs by (simp add: typing_run_def fire_def timed_out_removes)
    then show ?thesis using runs by blast
  next
    case waits
    then obtain k where k: "k < length (fired s)" "fired s ! k = (u, r)" by (auto simp: in_set_conv_nth)
    have "map_of (running s) (next_timer s) = None"
      by (cases "map_of (running s) (next_timer s)") (auto dest: timers_inv_running [OF inv])
    then have "u \<notin> typing_users r (typing_run [Tick 0, Fire (next_timer s), Timed_out k] s)"
      using k by (simp add: typing_run_def fire_def timed_out_removes)
    then show ?thesis using waits by blast
  qed
  then show ?thesis by (simp only: s_def)
qed

definition typing_sample :: "typing_event list" where
  "typing_sample = [Set_callback, Add ''@a:x'' ''!r:x'' (Some 5), Tick 2, Add ''@b:x'' ''!r:x'' None, Tick 4, Fire 0]"

theorem typing_polls_miss_nothing_witness:
  "GetTypingUsersIfUpdatedAfter ''!r:x'' (GetLatestSyncPosition (cache (typing_run typing_sample (typing_start 0))))
     (cache (typing_run [Timed_out 0] (typing_run typing_sample (typing_start 0)))) = ([''@b:x''], True) \<and>
   GetTypingUsers ''!r:x'' (cache (typing_run typing_sample (typing_start 0))) = [''@a:x'', ''@b:x'']"
  using typing_polls_miss_nothing [of typing_sample "[Timed_out 0]" 0 "''!r:x''"]
  by (simp add: typing_sample_def) code_simp

theorem typing_users_expire_witness:
  "\<exists>d timer k. ''@b:x'' \<notin> typing_users ''!r:x''
     (typing_run [Tick d, Fire timer, Timed_out k] (typing_run typing_sample (typing_start 0)))"
proof -
  have "list_all one_piece typing_sample" by code_simp
  moreover have "''@b:x'' \<in> typing_users ''!r:x'' (typing_run typing_sample (typing_start 0))" by code_simp
  ultimately show ?thesis using typing_users_expire by blast
qed

text \<open>
  The timer is started before the user is added. When it runs out and its function takes the lock
  first, the user is added with a timer that will never fire again: nothing removes it.
\<close>

lemma typing_user_stays:
  defines "s \<equiv> typing_run [Add_start ''@a:x'' ''!r:x'' (Some 5), Tick 5, Fire 0, Timed_out 0, Add_lock 0] (typing_start 0)"
  shows "GetTypingUsers ''!r:x'' (cache s) = [''@a:x'']" "running s = []" "fired s = []" "adding s = []"
  unfolding s_def by code_simp+

end
