(* ===== verification/Transactions.thy ===== *)
theory Transactions
  imports SyncTokens
begin

text \<open>
  The cache of answers to requests with a transaction ID (\<^verbatim>\<open>internal/transactions/transactions.go\<close>):
  two maps, the front one for new entries, which a service moves back in every cleanup period. The
  answers are pointers, which the cache hands out as it got them; their type is a parameter.
\<close>

section \<open>Directories (Go's path/filepath)\<close>

text \<open>
  \<^verbatim>\<open>filepath.Clean\<close>: empty and \<^verbatim>\<open>.\<close> elements go, \<^verbatim>\<open>..\<close> takes the element before it
  along; at the root it goes too. The elements so far are in reverse.
\<close>

fun clean_elements :: "bool \<Rightarrow> string list \<Rightarrow> string list \<Rightarrow> string list" where
  "clean_elements rooted [] acc = rev acc"
| "clean_elements rooted (e # es) acc =
     (if e = [] \<or> e = ''.'' then clean_elements rooted es acc
      else if e = ''..'' then
        (if acc \<noteq> [] \<and> hd acc \<noteq> ''..'' then clean_elements rooted es (tl acc)
         else if rooted then clean_elements rooted es acc
         else clean_elements rooted es (e # acc))
      else clean_elements rooted es (e # acc))"

definition filepath_Clean :: "string \<Rightarrow> string" where
  "filepath_Clean path =
     (let rooted = (path \<noteq> [] \<and> hd path = CHR ''/'');
          body = join_with CHR ''/'' (clean_elements rooted (split_on CHR ''/'' path) [])
      in if rooted then CHR ''/'' # body else if body = [] then ''.'' else body)"

definition filepath_Dir :: "string \<Rightarrow> string" where
  "filepath_Dir path =
     (case strings_CutLast CHR ''/'' path of
        None \<Rightarrow> filepath_Clean []
      | Some (dir, file) \<Rightarrow> filepath_Clean (dir @ ''/''))"

section \<open>The cache\<close>

record CacheKey =
  AccessToken :: string
  TxnID :: string
  Endpoint :: string

record 'r Cache =
  txns_front :: "(CacheKey, 'r) gomap"
  txns_back :: "(CacheKey, 'r) gomap"
  cleanupPeriod :: int

definition DefaultCleanupPeriod :: int where
  "DefaultCleanupPeriod = 30 * 60 * 10 ^ 9"

definition NewWithCleanupPeriod :: "int \<Rightarrow> 'r Cache" where
  "NewWithCleanupPeriod period = \<lparr>txns_front = [], txns_back = [], cleanupPeriod = period\<rparr>"

definition New :: "'r Cache" where
  "New = NewWithCleanupPeriod DefaultCleanupPeriod"

definition cache_key :: "string \<Rightarrow> string \<Rightarrow> string \<Rightarrow> CacheKey" where
  "cache_key accessToken txnID path = \<lparr>AccessToken = accessToken, TxnID = txnID, Endpoint = filepath_Dir path\<rparr>"

definition FetchTransaction :: "string \<Rightarrow> string \<Rightarrow> string \<Rightarrow> 'r Cache \<Rightarrow> 'r option" where
  "FetchTransaction accessToken txnID path t =
     (case map_of (txns_front t) (cache_key accessToken txnID path) of
        Some res \<Rightarrow> Some res
      | None \<Rightarrow> map_of (txns_back t) (cache_key accessToken txnID path))"

definition AddTransaction :: "string \<Rightarrow> string \<Rightarrow> string \<Rightarrow> 'r \<Rightarrow> 'r Cache \<Rightarrow> 'r Cache" where
  "AddTransaction accessToken txnID path res t =
     t\<lparr>txns_front := AList.update (cache_key accessToken txnID path) res (txns_front t)\<rparr>"

text \<open>One turn of the loop of \<^verbatim>\<open>cacheCleanService\<close>.\<close>

definition cacheClean :: "'r Cache \<Rightarrow> 'r Cache" where
  "cacheClean t = t\<lparr>txns_back := txns_front t, txns_front := []\<rparr>"

text \<open>
  The service runs beside the requests: its ticker fires at every multiple of the period (counted
  from the start of the cache), and the maps are moved at that moment. \<open>Wait\<close> lets time pass.
\<close>

datatype 'r txn_event = Put string string string 'r | Wait nat

record 'r txn_system =
  txns :: "'r Cache"
  elapsed :: nat

definition cacheCleanService :: "nat \<Rightarrow> nat \<Rightarrow> 'r txn_system \<Rightarrow> 'r txn_system" where
  "cacheCleanService period d s =
     s\<lparr>txns := (cacheClean ^^ ((elapsed s + d) div period - elapsed s div period)) (txns s), elapsed := elapsed s + d\<rparr>"

fun txn_step :: "nat \<Rightarrow> 'r txn_event \<Rightarrow> 'r txn_system \<Rightarrow> 'r txn_system" where
  "txn_step period (Put tok txn path res) s = s\<lparr>txns := AddTransaction tok txn path res (txns s)\<rparr>"
| "txn_step period (Wait d) s = cacheCleanService period d s"

definition txn_run :: "nat \<Rightarrow> 'r txn_event list \<Rightarrow> 'r txn_system" where
  "txn_run period evs = fold (txn_step period) evs \<lparr>txns = NewWithCleanupPeriod (int period), elapsed = 0\<rparr>"

section \<open>What the cache promises\<close>

text \<open>
  The abstract view: the log of the additions with their times, and the last addition for a key,
  as long as it is not older than the previous period.
\<close>

type_synonym 'r txn_log = "(nat \<times> CacheKey \<times> 'r) list"

fun log_step :: "'r txn_event \<Rightarrow> 'r txn_log \<times> nat \<Rightarrow> 'r txn_log \<times> nat" where
  "log_step (Put tok txn path res) (l, now) = ((now, cache_key tok txn path, res) # l, now)"
| "log_step (Wait d) (l, now) = (l, now + d)"

definition log_run :: "'r txn_event list \<Rightarrow> 'r txn_log \<times> nat" where
  "log_run evs = fold log_step evs ([], 0)"

fun log_fetch :: "nat \<Rightarrow> CacheKey \<Rightarrow> 'r txn_log \<Rightarrow> nat \<Rightarrow> 'r option" where
  "log_fetch period k [] now = None"
| "log_fetch period k ((added, k', res) # l) now =
     (if k' = k then if now div period \<le> added div period + 1 then Some res else None
      else log_fetch period k l now)"

section \<open>The maps hold the last two periods of the log\<close>

definition in_epoch :: "nat \<Rightarrow> 'r txn_log \<Rightarrow> nat \<Rightarrow> CacheKey \<Rightarrow> 'r option" where
  "in_epoch period l e k =
     map_option (\<lambda>(added, k', res). res) (List.find (\<lambda>(added, k', res). k' = k \<and> added div period = e) l)"

lemma in_epoch_simps [simp]:
  "in_epoch period [] e k = None"
  "in_epoch period ((added, k', res) # l) e k =
     (if k' = k \<and> added div period = e then Some res else in_epoch period l e k)"
  by (simp_all add: in_epoch_def)

definition holds_epochs :: "nat \<Rightarrow> 'r txn_log \<Rightarrow> nat \<Rightarrow> 'r Cache \<Rightarrow> bool" where
  "holds_epochs period l e t \<longleftrightarrow> (\<forall>(added, x) \<in> set l. added div period \<le> e) \<and>
     map_of (txns_front t) = in_epoch period l e \<and>
     map_of (txns_back t) = (if e = 0 then Map.empty else in_epoch period l (e - 1))"

lemma in_epoch_None: "\<forall>(added, x) \<in> set l. added div period < e \<Longrightarrow> in_epoch period l e k = None"
  by (induction l) auto

lemma holds_cacheClean: "holds_epochs period l e t \<Longrightarrow> holds_epochs period l (Suc e) (cacheClean t)"
  by (fastforce simp: holds_epochs_def cacheClean_def intro: in_epoch_None [symmetric])

lemma holds_cleans: "holds_epochs period l e t \<Longrightarrow> holds_epochs period l (e + n) ((cacheClean ^^ n) t)"
  by (induction n) (auto intro: holds_cacheClean)

lemma holds_AddTransaction:
  "holds_epochs period l e t \<Longrightarrow> now div period = e \<Longrightarrow>
   holds_epochs period ((now, cache_key tok txn path, res) # l) e (AddTransaction tok txn path res t)"
  by (auto simp: holds_epochs_def AddTransaction_def map_simps fun_eq_iff)

lemma txn_run_snoc: "txn_run period (evs @ [e]) = txn_step period e (txn_run period evs)"
  by (simp add: txn_run_def)

lemma log_run_snoc: "log_run (evs @ [e]) = log_step e (log_run evs)"
  by (simp add: log_run_def)

lemma run_holds:
  "elapsed (txn_run period evs) = snd (log_run evs) \<and>
   holds_epochs period (fst (log_run evs)) (snd (log_run evs) div period) (txns (txn_run period evs))"
proof (induction evs rule: rev_induct)
  case Nil
  show ?case by (simp add: txn_run_def log_run_def holds_epochs_def NewWithCleanupPeriod_def fun_eq_iff)
next
  case (snoc e evs)
  obtain l now where l: "log_run evs = (l, now)" by fastforce
  show ?case
  proof (cases e)
    case (Put tok txn path res)
    then show ?thesis using snoc l by (simp add: txn_run_snoc log_run_snoc holds_AddTransaction)
  next
    case (Wait d)
    have "now div period \<le> (now + d) div period" by (rule div_le_mono) simp
    then show ?thesis
      using Wait snoc l holds_cleans [of period l "now div period" "txns (txn_run period evs)" "(now + d) div period - now div period"]
      by (simp add: txn_run_snoc log_run_snoc cacheCleanService_def)
  qed
qed

lemma log_sorted: "sorted_wrt (\<lambda>x y. fst x \<ge> fst y) (fst (log_run evs)) \<and> (\<forall>x \<in> set (fst (log_run evs)). fst x \<le> snd (log_run evs))"
proof (induction evs rule: rev_induct)
  case (snoc e evs)
  then show ?case by (cases e; cases "log_run evs") (auto simp: log_run_snoc)
qed (simp add: log_run_def)

lemma log_fetch_epochs:
  assumes "sorted_wrt (\<lambda>x y. fst x \<ge> fst y) l" "\<forall>x \<in> set l. fst x \<le> now"
  shows "log_fetch period k l now =
    (case in_epoch period l (now div period) k of Some res \<Rightarrow> Some res
     | None \<Rightarrow> if now div period = 0 then None else in_epoch period l (now div period - 1) k)"
  using assms
proof (induction l)
  case (Cons x l)
  obtain added k' res where x: "x = (added, k', res)" by (cases x)
  have le: "added div period \<le> now div period" using Cons.prems x by (simp add: div_le_mono)
  have "\<forall>(b, y) \<in> set l. b div period \<le> added div period" using Cons.prems(1) x by (auto simp: div_le_mono)
  then have none: "in_epoch period l e k = None" if "added div period < e" for e
    using that by (intro in_epoch_None) fastforce
  show ?case
  proof (cases "k' = k \<and> added div period \<noteq> now div period")
    case True
    then show ?thesis using x le none [of "now div period"] none [of "now div period - 1"] by auto
  next
    case False
    then show ?thesis using Cons x by (auto split: option.splits)
  qed
qed simp

lemma fetch_log:
  "FetchTransaction tok txn path (txns (txn_run period evs)) =
     log_fetch period (cache_key tok txn path) (fst (log_run evs)) (snd (log_run evs))"
  using run_holds [of period evs] log_sorted [of evs]
  by (auto simp: FetchTransaction_def log_fetch_epochs holds_epochs_def split: option.splits)

text \<open>
  C38. A lookup finds the answer that was last stored under the same access token, transaction ID
  and endpoint, if it was stored in this cleanup period or in the one before: the two maps of the
  cache implement the log of all answers.
\<close>

theorem FetchTransaction_refines_log:
  "FetchTransaction tok txn path (txns (txn_run period evs)) =
     log_fetch period (cache_key tok txn path) (fst (log_run evs)) (snd (log_run evs))"
  by (rule fetch_log)

text \<open>The documented life of an entry: at least one cleanup period, and at most two.\<close>

fun puts_key :: "CacheKey \<Rightarrow> 'r txn_event \<Rightarrow> bool" where
  "puts_key k (Put tok txn path res) \<longleftrightarrow> cache_key tok txn path = k"
| "puts_key k (Wait d) \<longleftrightarrow> False"

fun waits :: "'r txn_event list \<Rightarrow> nat" where
  "waits [] = 0"
| "waits (Wait d # evs) = d + waits evs"
| "waits (Put tok txn path res # evs) = waits evs"

lemma log_fetch_others:
  "\<not> list_ex (puts_key k) evs \<Longrightarrow>
   log_fetch period k (fst (fold log_step evs (l, now))) t = log_fetch period k l t \<and>
   snd (fold log_step evs (l, now)) = now + waits evs"
proof (induction evs arbitrary: l now)
  case (Cons e evs)
  then show ?case by (cases e) auto
qed simp

text \<open>
  C39. An answer stays in the cache for at least one cleanup period, and it is gone after two, when
  no other answer is stored under the same key meanwhile.
\<close>

theorem entry_lifetime:
  assumes other: "\<not> list_ex (puts_key (cache_key tok txn path)) rest"
  shows "(waits rest \<le> period \<longrightarrow>
            FetchTransaction tok txn path (txns (txn_run period (evs @ Put tok txn path res # rest))) = Some res) \<and>
         (0 < period \<and> 2 * period \<le> waits rest \<longrightarrow>
            FetchTransaction tok txn path (txns (txn_run period (evs @ Put tok txn path res # rest))) = None)"
proof -
  let ?k = "cache_key tok txn path" and ?t = "txns (txn_run period (evs @ Put tok txn path res # rest))"
  obtain l now where l: "log_run evs = (l, now)" by fastforce
  let ?l = "(now, ?k, res) # l"
  have run: "log_run (evs @ Put tok txn path res # rest) = fold log_step rest (?l, now)"
    using l by (simp add: log_run_def)
  have f: "FetchTransaction tok txn path ?t = log_fetch period ?k ?l (now + waits rest)"
    using log_fetch_others [OF other, of period ?l now "now + waits rest"] unfolding fetch_log run by simp
  have "FetchTransaction tok txn path ?t = Some res" if "waits rest \<le> period"
  proof -
    have "(now + waits rest) div period \<le> (now + period) div period" using that by (intro div_le_mono) simp
    then show ?thesis unfolding f by (cases "period = 0") (auto simp: div_add_self2)
  qed
  moreover have "FetchTransaction tok txn path ?t = None" if "0 < period" "2 * period \<le> waits rest"
  proof -
    have "(now + 2 * period) div period \<le> (now + waits rest) div period" using that by (intro div_le_mono) simp
    then show ?thesis unfolding f using that(1) by simp
  qed
  ultimately show ?thesis by blast
qed

definition sample_puts :: "nat txn_event list" where
  "sample_puts = [Put ''tok'' ''1'' ''/send/1'' 200, Wait 7]"

theorem entry_lifetime_witness:
  "FetchTransaction ''tok'' ''2'' ''/rooms/./x/2''
     (txns (txn_run 10 (sample_puts @ Put ''tok'' ''2'' ''/rooms/x/2'' 403 # [Wait 4, Put ''tok'' ''1'' ''/send/1'' 500, Wait 6]))) = Some 403 \<and>
   FetchTransaction ''tok'' ''2'' ''/rooms/x/2''
     (txns (txn_run 10 (sample_puts @ Put ''tok'' ''2'' ''/rooms/x/2'' 403 # [Wait 23]))) = None"
proof -
  have k: "cache_key ''tok'' ''2'' ''/rooms/./x/2'' = cache_key ''tok'' ''2'' ''/rooms/x/2''" by code_simp
  have "FetchTransaction ''tok'' ''2'' ''/rooms/x/2''
     (txns (txn_run 10 (sample_puts @ Put ''tok'' ''2'' ''/rooms/x/2'' 403 # [Wait 4, Put ''tok'' ''1'' ''/send/1'' 500, Wait 6]))) = Some 403"
    using entry_lifetime [of "''tok''" "''2''" "''/rooms/x/2''" "[Wait 4, Put ''tok'' ''1'' ''/send/1'' 500, Wait 6]" 10 sample_puts 403]
    by (simp add: cache_key_def)
  moreover have "FetchTransaction ''tok'' ''2'' ''/rooms/x/2''
     (txns (txn_run 10 (sample_puts @ Put ''tok'' ''2'' ''/rooms/x/2'' 403 # [Wait 23]))) = None"
    using entry_lifetime [of "''tok''" "''2''" "''/rooms/x/2''" "[Wait 23]" 10 sample_puts 403] by simp
  ultimately show ?thesis by (simp only: FetchTransaction_def k)
qed

end
