(* ===== verification/Redactions.thy ===== *)
theory Redactions
  imports RoomTables RoomStateCalc
begin

text \<open>
  Redactions (\<^verbatim>\<open>MaybeRedactEvent\<close> of \<^verbatim>\<open>roomserver/storage/shared/storage.go\<close>): a redaction is
  applied once both it and the event it redacts are known, in whichever order they come. The table
  of redactions says which were applied.

  What is left of a redacted event (\<^verbatim>\<open>Redact()\<close>, which depends on the room version) is the argument
  \<open>redact\<close>. The unsigned fields that name the redaction are not part of the model of an event. The
  query for the redaction of an event takes one row; which of several, it leaves open, and here it
  is the first that was stored.
\<close>

section \<open>Tables\<close>

record redaction_row =
  rx_redacts_event_id :: string
  rx_validated :: bool

record serverDB =
  sd_room :: roomDB
  sd_redactions :: "(string, redaction_row) gomap"
  sd_room_ids :: "(string, int \<times> RoomVersion) gomap"
  sd_next_room :: int
  sd_next_type :: int

definition InsertRedaction :: "string \<Rightarrow> string \<Rightarrow> serverDB \<Rightarrow> serverDB" where
  "InsertRedaction redactionEventID redactsEventID db =
     (if map_of (sd_redactions db) redactionEventID \<noteq> None then db
      else db\<lparr>sd_redactions := sd_redactions db @
        [(redactionEventID, \<lparr>rx_redacts_event_id = redactsEventID, rx_validated = False\<rparr>)]\<rparr>)"

definition SelectRedactionInfoByEventBeingRedacted :: "string \<Rightarrow> serverDB \<Rightarrow> (string \<times> redaction_row) option" where
  "SelectRedactionInfoByEventBeingRedacted eventID db =
     List.find (\<lambda>(_, row). rx_redacts_event_id row = eventID) (sd_redactions db)"

definition MarkRedactionValidated :: "string \<Rightarrow> bool \<Rightarrow> serverDB \<Rightarrow> serverDB" where
  "MarkRedactionValidated redactionEventID validated db =
     db\<lparr>sd_redactions := AList.map_entry redactionEventID (\<lambda>row. row\<lparr>rx_validated := validated\<rparr>) (sd_redactions db)\<rparr>"

text \<open>Overwriting the JSON of an event.\<close>

definition InsertEventJSON :: "int \<Rightarrow> PDU \<Rightarrow> serverDB \<Rightarrow> serverDB" where
  "InsertEventJSON eventNID event db =
     (let store = rd_store (sd_room db) in
      db\<lparr>sd_room := (sd_room db)\<lparr>rd_store := store\<lparr>db_events :=
        AList.map_entry eventNID (\<lambda>row. row\<lparr>er_pdu := event\<rparr>) (db_events store)\<rparr>\<rparr>\<rparr>)"

section \<open>Redacting\<close>

definition loadEvent :: "RoomInfo option \<Rightarrow> string \<Rightarrow> stateStore \<Rightarrow> (int \<times> PDU) option" where
  "loadEvent roomInfo eventID db =
     (case List.find (\<lambda>(nid, row). er_event_id row = eventID) (db_events db) of
        None \<Rightarrow> None
      | Some (nid, row) \<Rightarrow> if roomInfo = None then None else Some (nid, er_pdu row))"

definition is_redaction :: "PDU \<Rightarrow> bool" where
  "is_redaction event \<longleftrightarrow> EventType event = MRoomRedaction \<and> StateKey event = None"

text \<open>The redaction event, the redacted event and whether the redaction was applied before.\<close>

definition loadRedactionPair :: "RoomInfo option \<Rightarrow> int \<Rightarrow> PDU \<Rightarrow> serverDB
    \<Rightarrow> (int \<times> PDU) option \<times> (int \<times> PDU) option \<times> bool" where
  "loadRedactionPair roomInfo eventNID event db =
     (let eventBeingRedacted = (if is_redaction event then Redacts event else EventID event) in
      case SelectRedactionInfoByEventBeingRedacted eventBeingRedacted db of
        None \<Rightarrow> (None, None, False)
      | Some (redactionEventID, info) \<Rightarrow>
          if is_redaction event
          then (Some (eventNID, event), loadEvent roomInfo (rx_redacts_event_id info) (rd_store (sd_room db)), rx_validated info)
          else (loadEvent roomInfo redactionEventID (rd_store (sd_room db)), Some (eventNID, event), rx_validated info))"

text \<open>The domain of a sender; one that cannot be looked up has none, and one without user ID panics.\<close>

definition senderDomain :: "UserIDForSender \<Rightarrow> RoomID \<Rightarrow> string \<Rightarrow> string outcome" where
  "senderDomain querier room sender =
     (case querier room sender of
        Err _ \<Rightarrow> Ok []
      | Ok (Some user) \<Rightarrow> Ok (user_domain user)
      | _ \<Rightarrow> Panic)"

definition MaybeRedactEvent :: "(PDU \<Rightarrow> PDU) \<Rightarrow> UserIDForSender \<Rightarrow> RoomInfo option \<Rightarrow> int \<Rightarrow> PDU \<Rightarrow> StateResolution \<Rightarrow> serverDB
    \<Rightarrow> ((PDU \<times> PDU) option \<times> serverDB) outcome" where
  "MaybeRedactEvent redact querier roomInfo eventNID event plResolver db0 =
     (if is_redaction event \<and> EventID event = Redacts event then Ok (None, db0)
      else
        let db = (if is_redaction event then InsertRedaction (EventID event) (Redacts event) db0 else db0) in
        case loadRedactionPair roomInfo eventNID event db of
          (Some (_, redactionEvent), Some (redactedNID, redactedEvent), validated) \<Rightarrow>
            if validated then Ok (Some (redactionEvent, redactedEvent), db)
            else if room_raw (EventRoomID redactedEvent) \<noteq> room_raw (EventRoomID redactionEvent) then Ok (None, db)
            else
              and_then (senderDomain querier (EventRoomID redactedEvent) (SenderID redactedEvent)) (\<lambda>sender1Domain.
              and_then (senderDomain querier (EventRoomID redactedEvent) (SenderID redactionEvent)) (\<lambda>sender2Domain.
              and_then (Resolve (EventID redactionEvent) plResolver) (\<lambda>powerlevels.
                if UserLevel powerlevels (SenderID redactionEvent) \<ge> pl_Redact powerlevels \<or>
                   sender1Domain \<noteq> [] \<and> sender2Domain \<noteq> [] \<and> sender1Domain = sender2Domain
                then Ok (Some (redactionEvent, redact redactedEvent),
                  MarkRedactionValidated (EventID redactionEvent) True (InsertEventJSON redactedNID (redact redactedEvent) db))
                else Ok (None, db))))
        | _ \<Rightarrow> Ok (None, db))"

section \<open>Who may redact\<close>

definition may_redact :: "UserIDForSender \<Rightarrow> StateResolution \<Rightarrow> PDU \<Rightarrow> PDU \<Rightarrow> bool" where
  "may_redact querier plResolver redaction redacted \<longleftrightarrow>
     room_raw (EventRoomID redaction) = room_raw (EventRoomID redacted) \<and>
     (\<exists>levels. Resolve (EventID redaction) plResolver = Ok levels \<and>
        (pl_Redact levels \<le> UserLevel levels (SenderID redaction) \<or>
         (\<exists>d. d \<noteq> [] \<and> senderDomain querier (EventRoomID redacted) (SenderID redacted) = Ok d \<and>
              senderDomain querier (EventRoomID redacted) (SenderID redaction) = Ok d)))"

definition stored :: "int \<Rightarrow> serverDB \<Rightarrow> event_row option" where
  "stored nid db = map_of (db_events (rd_store (sd_room db))) nid"

lemma stored_kept:
  "stored nid (InsertRedaction a b db) = stored nid db" "stored nid (MarkRedactionValidated a v db) = stored nid db"
  by (simp_all add: stored_def InsertRedaction_def MarkRedactionValidated_def)

lemma stored_InsertEventJSON:
  "stored nid (InsertEventJSON n e db) =
     (if nid = n then map_option (\<lambda>row. row\<lparr>er_pdu := e\<rparr>) (stored nid db) else stored nid db)"
  by (simp add: stored_def InsertEventJSON_def Let_def map_of_map_entry map_option_case)

text \<open>What a call can do, by cases.\<close>

lemma MaybeRedactEvent_cases:
  assumes "MaybeRedactEvent redact querier roomInfo eventNID event v db = Ok (result, db')"
  obtains (nothing) "\<And>nid. stored nid db' = stored nid db" "result = None"
  | (before) redaction redacted nid nid' where "\<And>nid. stored nid db' = stored nid db" "result = Some (redaction, redacted)"
      "loadRedactionPair roomInfo eventNID event
         (if is_redaction event then InsertRedaction (EventID event) (Redacts event) db else db) =
         (Some (nid, redaction), Some (nid', redacted), True)"
  | (applied) redaction redacted nid nid' where "result = Some (redaction, redact redacted)" "may_redact querier v redaction redacted"
      "\<And>n. stored n db' = (if n = nid' then map_option (\<lambda>row. row\<lparr>er_pdu := redact redacted\<rparr>) (stored n db) else stored n db)"
      "loadRedactionPair roomInfo eventNID event
         (if is_redaction event then InsertRedaction (EventID event) (Redacts event) db else db) =
         (Some (nid, redaction), Some (nid', redacted), False)"
proof (cases "is_redaction event \<and> EventID event = Redacts event")
  case True
  then have r: "result = None" "db' = db" using assms by (simp_all add: MaybeRedactEvent_def)
  show ?thesis by (rule nothing) (simp_all add: r)
next
  case False
  define db1 where "db1 = (if is_redaction event then InsertRedaction (EventID event) (Redacts event) db else db)"
  have s1: "stored n db1 = stored n db" for n by (simp add: db1_def stored_kept)
  obtain a b validated where pair: "loadRedactionPair roomInfo eventNID event db1 = (a, b, validated)" by (metis prod_cases3)
  have run: "(case (a, b, validated) of
          (Some (_, redactionEvent), Some (redactedNID, redactedEvent), validated) \<Rightarrow>
            if validated then Ok (Some (redactionEvent, redactedEvent), db1)
            else if room_raw (EventRoomID redactedEvent) \<noteq> room_raw (EventRoomID redactionEvent) then Ok (None, db1)
            else
              and_then (senderDomain querier (EventRoomID redactedEvent) (SenderID redactedEvent)) (\<lambda>sender1Domain.
              and_then (senderDomain querier (EventRoomID redactedEvent) (SenderID redactionEvent)) (\<lambda>sender2Domain.
              and_then (Resolve (EventID redactionEvent) v) (\<lambda>powerlevels.
                if UserLevel powerlevels (SenderID redactionEvent) \<ge> pl_Redact powerlevels \<or>
                   sender1Domain \<noteq> [] \<and> sender2Domain \<noteq> [] \<and> sender1Domain = sender2Domain
                then Ok (Some (redactionEvent, redact redactedEvent),
                  MarkRedactionValidated (EventID redactionEvent) True (InsertEventJSON redactedNID (redact redactedEvent) db1))
                else Ok (None, db1))))
        | _ \<Rightarrow> Ok (None, db1)) = Ok (result, db')"
    using assms False unfolding MaybeRedactEvent_def Let_def db1_def [symmetric] pair by simp
  show ?thesis
  proof (cases "a = None \<or> b = None")
    case True
    then have r: "result = None" "db' = db1" using run by (auto split: option.splits prod.splits)
    show ?thesis by (rule nothing) (simp_all add: s1 r)
  next
    case False
    then obtain nid redaction nid' redacted where ab: "a = Some (nid, redaction)" "b = Some (nid', redacted)" by auto
    show ?thesis
    proof (cases validated)
      case True
      then show ?thesis using before [of redaction redacted nid nid'] run ab pair s1 by (simp add: db1_def)
    next
      case False
      show ?thesis
      proof (cases "result = None")
        case True
        then have r: "db' = db1" using run ab False by (auto simp: go_simps split: if_splits)
        show ?thesis by (rule nothing) (simp_all add: s1 r True)
      next
        case some: False
        have "result = Some (redaction, redact redacted)" "may_redact querier v redaction redacted"
          "db' = MarkRedactionValidated (EventID redaction) True (InsertEventJSON nid' (redact redacted) db1)"
          using run ab False some by (auto simp: go_simps may_redact_def split: if_splits)
        then show ?thesis using applied [of redaction redacted nid' nid] pair ab False s1
          by (simp add: stored_kept stored_InsertEventJSON db1_def)
      qed
    qed
  qed
qed

end
