(* ===== verification/RoomQueries.thy ===== *)
theory RoomQueries
  imports Redactions HistoryVisibility
begin

text \<open>
  What the room server asks its database while it takes in an event
  (\<^verbatim>\<open>roomserver/storage/shared/storage.go\<close>, \<^verbatim>\<open>roomserver/internal/query/query.go\<close>), and the check
  of an event against the current state (\<^verbatim>\<open>roomserver/internal/helpers/auth.go\<close>). Caches in front
  of the tables are not modelled, nor the numeric IDs that a query assigns before it fails.
\<close>

section \<open>Rooms and numeric IDs\<close>

record RoomInfoRow =
  rir_info :: RoomInfo
  rir_StateSnapshotNID :: int
  rir_IsStub :: bool

definition SelectRoomInfo :: "string \<Rightarrow> serverDB \<Rightarrow> RoomInfoRow option" where
  "SelectRoomInfo roomID db =
     (case map_of (sd_room_ids db) roomID of
        None \<Rightarrow> None
      | Some (nid, version) \<Rightarrow>
          map_option (\<lambda>row. \<lparr>rir_info = \<lparr>ri_RoomNID = nid, ri_RoomVersion = version\<rparr>,
              rir_StateSnapshotNID = rr_state_snapshot_nid row, rir_IsStub = (rr_latest_event_nids row = [])\<rparr>)
            (map_of (rd_rooms (sd_room db)) nid))"

definition extractRoomVersionFromCreateEvent :: "PDU \<Rightarrow> RoomVersion outcome" where
  "extractRoomVersionFromCreateEvent event =
     (if EventType event \<noteq> MRoomCreate then Ok []
      else (case Unmarshal dec_CreateContent (Content event) zero_CreateContent of (content, err) \<Rightarrow>
        if err then Err (GoError ''json'')
        else Ok (case cc_RoomVersion content of None \<Rightarrow> ''1'' | Some v \<Rightarrow> v)))"

definition assignRoomNID :: "string \<Rightarrow> RoomVersion \<Rightarrow> serverDB \<Rightarrow> int \<times> serverDB" where
  "assignRoomNID roomID roomVersion db =
     (case map_of (sd_room_ids db) roomID of
        Some (nid, _) \<Rightarrow> (nid, db)
      | None \<Rightarrow>
          let nid = sd_next_room db;
              row = \<lparr>rr_latest_event_nids = [], rr_last_event_sent_nid = 0, rr_state_snapshot_nid = 0\<rparr>
          in (nid, db\<lparr>sd_room_ids := AList.update roomID (nid, roomVersion) (sd_room_ids db), sd_next_room := nid + 1,
               sd_room := (sd_room db)\<lparr>rd_rooms := AList.update nid row (rd_rooms (sd_room db))\<rparr>\<rparr>))"

definition GetOrCreateRoomInfo :: "PDU \<Rightarrow> serverDB \<Rightarrow> (RoomInfo \<times> serverDB) outcome" where
  "GetOrCreateRoomInfo event db =
     and_then (extractRoomVersionFromCreateEvent event) (\<lambda>roomVersion.
       case assignRoomNID (room_raw (EventRoomID event)) roomVersion db of (roomNID, db) \<Rightarrow>
         Ok (\<lparr>ri_RoomNID = roomNID, ri_RoomVersion = roomVersion\<rparr>, db))"

abbreviation on_store :: "(stateStore \<Rightarrow> stateStore) \<Rightarrow> serverDB \<Rightarrow> serverDB" where
  "on_store f db \<equiv> db\<lparr>sd_room := (sd_room db)\<lparr>rd_store := f (rd_store (sd_room db))\<rparr>\<rparr>"

abbreviation store_of :: "serverDB \<Rightarrow> stateStore" where
  "store_of db \<equiv> rd_store (sd_room db)"

definition GetOrCreateEventTypeNID :: "string \<Rightarrow> serverDB \<Rightarrow> int \<times> serverDB" where
  "GetOrCreateEventTypeNID eventType db =
     (case map_of (db_event_types (store_of db)) eventType of
        Some nid \<Rightarrow> (nid, db)
      | None \<Rightarrow>
          let nid = sd_next_type db
          in (nid, (on_store (\<lambda>st. st\<lparr>db_event_types := AList.update eventType nid (db_event_types st)\<rparr>) db)
               \<lparr>sd_next_type := nid + 1\<rparr>))"

definition GetOrCreateEventStateKeyNID :: "string option \<Rightarrow> serverDB \<Rightarrow> int \<times> serverDB" where
  "GetOrCreateEventStateKeyNID eventStateKey db =
     (case eventStateKey of
        None \<Rightarrow> (0, db)
      | Some k \<Rightarrow> (case assignStateKeyNID k (store_of db) of (nid, st) \<Rightarrow> (nid, on_store (\<lambda>_. st) db)))"

section \<open>Events\<close>

definition has_event :: "string \<Rightarrow> stateStore \<Rightarrow> bool" where
  "has_event eventID db \<longleftrightarrow> list_ex (\<lambda>(_, row). er_event_id row = eventID) (db_events db)"

text \<open>The auth events that are not stored, and the previous events without a known state.\<close>

definition prev_missing :: "string \<Rightarrow> stateStore \<Rightarrow> bool" where
  "prev_missing prevEventID db =
     (case StateAtEventIDs [prevEventID] db of
        Ok (s # _) \<Rightarrow> entry_tuple (sae_entry s) \<noteq> NIDTuple MRoomCreateNID EmptyStateKeyNID \<and> BeforeStateSnapshotNID s = 0
      | _ \<Rightarrow> True)"

definition MissingAuthPrevEvents :: "PDU \<Rightarrow> stateStore \<Rightarrow> string list \<times> string list" where
  "MissingAuthPrevEvents e db =
     (filter (\<lambda>k. \<not> has_event k db) (AuthEventIDs e), filter (\<lambda>k. prev_missing k db) (PrevEventIDs e))"

text \<open>The entries of events by ID, rejected ones left out, ordered by tuple; IDs that are not stored are ignored.\<close>

definition StateEntriesForEventIDs :: "string list \<Rightarrow> stateStore \<Rightarrow> StateEntry list" where
  "StateEntriesForEventIDs eventIDs db =
     sort_Stable by_tuple (map (\<lambda>(nid, row). entry_of_row nid row)
       (filter (\<lambda>(_, row). er_event_id row \<in> set eventIDs \<and> \<not> er_is_rejected row) (db_events db)))"

definition GetStateEvent :: "string \<Rightarrow> string \<Rightarrow> string \<Rightarrow> serverDB \<Rightarrow> PDU option outcome \<times> serverDB" where
  "GetStateEvent roomID evType stateKey db =
     (case SelectRoomInfo roomID db of
        None \<Rightarrow> (Err (GoError ''room %s does not exist''), db)
      | Some info \<Rightarrow>
          if rir_IsStub info then (Ok None, db)
          else
            (case GetOrCreateEventTypeNID evType db of (eventTypeNID, db) \<Rightarrow>
            (case GetOrCreateEventStateKeyNID (Some stateKey) db of (stateKeyNID, db) \<Rightarrow>
              (and_then (LoadStateAtSnapshot (rir_StateSnapshotNID info) (store_of db)) (\<lambda>entries.
               and_then (GetRoomVersion (ri_RoomVersion (rir_info info))) (\<lambda>_.
                 case List.find (\<lambda>e. entry_tuple e = NIDTuple eventTypeNID stateKeyNID) entries of
                   None \<Rightarrow> Ok None
                 | Some e \<Rightarrow>
                     (case map_of (db_events (store_of db)) (EventNID e) of
                        None \<Rightarrow> Err (GoError ''GetStateEvent: no json for event nid %d'')
                      | Some row \<Rightarrow> Ok (Some (er_pdu row))))), db))))"

section \<open>Against the current state\<close>

definition auth_valid :: "(int \<times> PDU) list \<Rightarrow> bool" where
  "auth_valid evs \<longleftrightarrow> (case evs of [] \<Rightarrow> True
     | (_, e) # rest \<Rightarrow> list_all (\<lambda>(_, x). room_raw (EventRoomID x) = room_raw (EventRoomID e)) rest)"

definition lookup_event :: "StateEntry list \<Rightarrow> (int \<times> PDU) list \<Rightarrow> NIDTuple \<Rightarrow> PDU option" where
  "lookup_event state evs tuple =
     (case stateEntryMap_lookup state tuple of None \<Rightarrow> None | Some nid \<Rightarrow> eventMap_lookup evs nid)"

text \<open>The provider \<^verbatim>\<open>authEvents\<close>: its methods look up the state, then the loaded events.\<close>

definition authEvents_provider :: "(string, int) gomap \<Rightarrow> StateEntry list \<Rightarrow> (int \<times> PDU) list \<Rightarrow> AuthEventProvider" where
  "authEvents_provider stateKeyNIDMap state evs =
     (let fixed = (\<lambda>typeNID. Ok (lookup_event state evs (NIDTuple typeNID EmptyStateKeyNID)));
          keyed = (\<lambda>typeNID stateKey. Ok (case map_of stateKeyNIDMap stateKey of
              None \<Rightarrow> None | Some keyNID \<Rightarrow> lookup_event state evs (NIDTuple typeNID keyNID)))
      in \<lparr>prov_ident = 0, prov_Create = fixed MRoomCreateNID, prov_JoinRules = fixed MRoomJoinRulesNID,
          prov_PowerLevels = fixed MRoomPowerLevelsNID, prov_Member = keyed MRoomMemberNID,
          prov_ThirdPartyInvite = keyed MRoomThirdPartyInviteNID, prov_Valid = auth_valid evs\<rparr>)"

definition helpers_loadAuthEvents :: "StateNeeded \<Rightarrow> StateEntry list \<Rightarrow> stateStore \<Rightarrow> AuthEventProvider outcome \<times> stateStore" where
  "helpers_loadAuthEvents needed state db =
     (case eventStateKeyNIDs (sn_Member needed @ sn_ThirdPartyInvite needed) db of (stateKeyNIDMap, db) \<Rightarrow>
        let eventNIDs = List.map_filter (stateEntryMap_lookup state) (stateKeyTuplesNeeded stateKeyNIDMap needed)
        in (and_then (Events eventNIDs db) (\<lambda>evs. Ok (authEvents_provider stateKeyNIDMap state evs)), db))"

text \<open>Whether the event is soft-failed. An error, also of the check itself, is logged and counts as yes.\<close>

definition CheckForSoftFail :: "ed25519_verifier \<Rightarrow> UserIDForSender \<Rightarrow> RoomInfoRow option \<Rightarrow> PDU \<Rightarrow> string list \<Rightarrow> serverDB
    \<Rightarrow> bool outcome \<times> serverDB" where
  "CheckForSoftFail edv querier roomInfo event stateEventIDs db =
     (case (if length stateEventIDs > 1 then Ok (StateEntriesForEventIDs stateEventIDs (store_of db))
            else and_then (deref roomInfo) (\<lambda>info. LoadStateAtSnapshot (rir_StateSnapshotNID info) (store_of db))) of
        Panic \<Rightarrow> (Panic, db)
      | Err _ \<Rightarrow> (Ok True, db)
      | Ok authStateEntries \<Rightarrow>
          if authStateEntries = [] \<and> EventType event = MRoomCreate then (Ok False, db)
          else (case helpers_loadAuthEvents (StateNeededForAuth [event]) authStateEntries (store_of db) of (provider, st) \<Rightarrow>
            let db = on_store (\<lambda>_. st) db in
            (case provider of
               Panic \<Rightarrow> (Panic, db)
             | Err _ \<Rightarrow> (Ok True, db)
             | Ok authEvents \<Rightarrow>
                 (case Allowed edv querier event authEvents of
                    Ok _ \<Rightarrow> (Ok False, db)
                  | Err _ \<Rightarrow> (Ok True, db)
                  | Panic \<Rightarrow> (Panic, db)))))"

section \<open>The state after events\<close>

fun auth_chain_loop :: "nat \<Rightarrow> stateStore \<Rightarrow> string list \<Rightarrow> (string, PDU) gomap \<Rightarrow> (string, PDU) gomap outcome option" where
  "auth_chain_loop 0 db eventsToFetch authEventsMap = None"
| "auth_chain_loop (Suc n) db eventsToFetch authEventsMap =
     (if eventsToFetch = [] then Some (Ok authEventsMap)
      else run_then (Some (EventsFromIDs eventsToFetch db)) (\<lambda>evs.
        case fold (\<lambda>(_, e) (m, next).
               let m = AList.update (EventID e) e m
               in (m, next @ filter (\<lambda>k. map_of m k = None) (AuthEventIDs e))) evs (authEventsMap, []) of
          (m, next) \<Rightarrow> auth_chain_loop n db next m))"

definition GetAuthChain :: "resolution_env \<Rightarrow> string list \<Rightarrow> stateStore \<Rightarrow> PDU list outcome option" where
  "GetAuthChain env authEventIDs db =
     run_then (auth_chain_loop (env_fuel env) db authEventIDs []) (\<lambda>m.
       Some (Ok (List.map_filter (map_of m) (env_rng env 80 (keys m)))))"

record QueryStateAfterEventsResponse =
  qs_RoomExists :: bool
  qs_PrevEventsExist :: bool
  qs_StateEvents :: "PDU list"

text \<open>
  \<^verbatim>\<open>MissingEventError\<close> of the states at the previous events, and \<^verbatim>\<open>MissingStateError\<close> of the state of
  a single one, end the query with what is known; other errors, and wrapped ones, are passed on.
\<close>

definition QueryStateAfterEvents :: "resolution_env \<Rightarrow> string \<Rightarrow> string list \<Rightarrow> StateKeyTuple list \<Rightarrow> serverDB
    \<Rightarrow> (QueryStateAfterEventsResponse \<times> serverDB) outcome option" where
  "QueryStateAfterEvents env roomID prevEventIDs stateToFetch db =
     (case SelectRoomInfo roomID db of
        None \<Rightarrow> Some (Ok (\<lparr>qs_RoomExists = False, qs_PrevEventsExist = False, qs_StateEvents = []\<rparr>, db))
      | Some info \<Rightarrow>
          if rir_IsStub info then Some (Ok (\<lparr>qs_RoomExists = False, qs_PrevEventsExist = False, qs_StateEvents = []\<rparr>, db))
          else (case StateAtEventIDs prevEventIDs (store_of db) of
              Panic \<Rightarrow> Some Panic
            | Err e \<Rightarrow>
                if e = GoError ''storage: event IDs missing from the database (%d != %d)''
                then Some (Ok (\<lparr>qs_RoomExists = True, qs_PrevEventsExist = False, qs_StateEvents = []\<rparr>, db))
                else Some (Err e)
            | Ok prevStates \<Rightarrow>
                let roomState = NewStateResolution (store_of db) (Some (rir_info info)) in
                (case (if stateToFetch = []
                       then run_then (Some (LoadCombinedStateAfterEvents prevStates (v_db roomState))) (\<lambda>es. Some (Ok (es, roomState)))
                       else LoadStateAfterEventsForStringTuples env prevStates stateToFetch roomState) of
                   None \<Rightarrow> None
                 | Some Panic \<Rightarrow> Some Panic
                 | Some (Err e) \<Rightarrow>
                     if stateToFetch \<noteq> [] \<and> length prevStates = 1 \<and>
                        e = GoError ''storage: state NIDs missing from the database (%d != %d)''
                     then Some (Ok (\<lparr>qs_RoomExists = True, qs_PrevEventsExist = True, qs_StateEvents = []\<rparr>, db))
                     else Some (Err e)
                 | Some (Ok (entries, v)) \<Rightarrow>
                     let db = on_store (\<lambda>_. v_db v) db in
                     run_then (Some (Events (map EventNID entries) (store_of db))) (\<lambda>loaded.
                     let stateEvents = map snd loaded in
                     run_then
                       (if length prevEventIDs > 1
                        then run_then (GetAuthChain env (UniqueStrings (concat (map AuthEventIDs stateEvents))) (store_of db)) (\<lambda>authEvents.
                          ResolveConflicts (env_rng env) (env_rng3 env) (env_fuel env) (env_sha1 env) (env_edv env)
                            (ri_RoomVersion (rir_info info)) stateEvents authEvents (env_q env) (rejected_fn v))
                        else Some (Ok stateEvents)) (\<lambda>stateEvents.
                       Some (Ok (\<lparr>qs_RoomExists = True, qs_PrevEventsExist = True, qs_StateEvents = stateEvents\<rparr>, db)))))))"

end
