(* ===== verification/Redactions_Correct.thy ===== *)
theory Redactions_Correct
  imports Redactions RoomState_Correct Samples
begin

text \<open>
  Only the events that a redaction names are ever redacted, and only by who may; and a room that
  is stored, on which this is applied.
\<close>

section \<open>A stored room\<close>

text \<open>The events of the sample room and a message, each with the state before it.\<close>

definition row_of :: "PDU \<Rightarrow> int \<Rightarrow> int \<Rightarrow> int \<Rightarrow> event_row" where
  "row_of e typeNID keyNID snapshotNID =
     \<lparr>er_event_id = EventID e, er_room_nid = 1, er_type_nid = typeNID, er_state_key_nid = keyNID,
      er_snapshot_nid = snapshotNID, er_is_rejected = False, er_pdu = e\<rparr>"

definition sample_text :: PDU where
  "sample_text = mk_event ''$x'' ''m.room.message'' None ''@b:b'' [(''body'', JStr ''hi'')] [''$m''] 6"

definition sample_redaction :: "string \<Rightarrow> PDU" where
  "sample_redaction sender = (mk_event ''$y'' MRoomRedaction None sender [] [''$x''] 7)\<lparr>Redacts := ''$x''\<rparr>"

definition stored_room :: "PDU list \<Rightarrow> serverDB" where
  "stored_room extra =
     \<lparr>sd_room =
        \<lparr>rd_store =
           \<lparr>db_events =
              [(1, row_of (sample_state ! 0) 1 1 0), (2, row_of (sample_state ! 1) 5 65536 1),
               (3, row_of (sample_state ! 2) 2 1 2), (4, row_of (sample_state ! 3) 3 1 3),
               (5, row_of (sample_state ! 4) 5 65537 4), (6, row_of sample_text 65536 0 5)] @
              map (\<lambda>(n, e). (n, row_of e 6 0 5)) (zip [7..6 + int (length extra)] extra),
            db_blocks = map (\<lambda>n. (n, \<lparr>br_hash = spell [n], br_event_nids = [n]\<rparr>)) [1..5],
            db_snapshots = map (\<lambda>n. (n, \<lparr>sr_hash = spell [1..n], sr_room_nid = 1, sr_block_nids = [1..n]\<rparr>)) [1..5],
            db_event_types = [(MRoomCreate, 1), (MRoomPowerLevels, 2), (MRoomJoinRules, 3), (MRoomMember, 5),
              (MRoomRedaction, 6), (''m.room.message'', 65536)],
            db_state_keys = [([], 1), (''@u:a'', 65536), (''@m:a'', 65537)], db_next_state_key = 65538,
            db_next_block = 6, db_next_snapshot = 6\<rparr>,
         rd_next_event = 7 + int (length extra), rd_sent = [1..6],
         rd_previous_events = [(''$c'', [2]), (''$j'', [3]), (''$p'', [4]), (''$r'', [5]), (''$m'', [6])],
         rd_rooms = [(1, \<lparr>rr_latest_event_nids = [6], rr_last_event_sent_nid = 6, rr_state_snapshot_nid = 5\<rparr>)],
         rd_memberships = [], rd_invites = []\<rparr>,
      sd_redactions = [], sd_room_ids = [(''!r:a'', 1, ''10'')], sd_next_room = 2, sd_next_type = 65537\<rparr>"

definition resolver_of :: "serverDB \<Rightarrow> StateResolution" where
  "resolver_of db = NewStateResolution (rd_store (sd_room db)) (Some \<lparr>ri_RoomNID = 1, ri_RoomVersion = ''10''\<rparr>)"

section \<open>Redactions need the level, or the same server\<close>

lemma pair_redacted:
  assumes "loadRedactionPair roomInfo eventNID event db = (Some (nid, redaction), Some (nid', redacted), validated)"
    and "distinct (keys (db_events (rd_store (sd_room db))))"
  shows "if is_redaction event
         then redaction = event \<and> (\<exists>row. stored nid' db = Some row \<and> er_event_id row = Redacts event \<and> er_pdu row = redacted)
         else nid' = eventNID \<and> redacted = event"
proof -
  obtain k info where f: "SelectRedactionInfoByEventBeingRedacted (if is_redaction event then Redacts event else EventID event) db = Some (k, info)"
    using assms(1) by (auto simp: loadRedactionPair_def Let_def split: option.splits)
  then have info: "(k, info) \<in> set (sd_redactions db)"
    "rx_redacts_event_id info = (if is_redaction event then Redacts event else EventID event)"
    by (auto simp: SelectRedactionInfoByEventBeingRedacted_def dest!: find_SomeD)
  show ?thesis
  proof (cases "is_redaction event")
    case True
    then have "loadEvent roomInfo (Redacts event) (rd_store (sd_room db)) = Some (nid', redacted)" "redaction = event"
      using assms(1) f info by (auto simp: loadRedactionPair_def Let_def)
    then show ?thesis using True assms(2)
      by (auto simp: loadEvent_def stored_def split: option.splits if_splits prod.splits dest!: find_SomeD)
  next
    case False
    then show ?thesis using assms(1) f info by (auto simp: loadRedactionPair_def Let_def)
  qed
qed



text \<open>
  An event with two redactions that came before it is only checked against one of them: when that
  one is not allowed, the event stays, although the other would redact it.
\<close>

definition two_redactions :: "string list \<Rightarrow> serverDB" where
  "two_redactions ids =
     (stored_room [sample_redaction ''@m:a'', (sample_redaction ''@z:z'')\<lparr>EventID := ''$z''\<rparr>])
     \<lparr>sd_redactions := map (\<lambda>k. (k, \<lparr>rx_redacts_event_id = ''$x'', rx_validated = False\<rparr>)) ids\<rparr>"

abbreviation redact_text :: "serverDB \<Rightarrow> ((PDU \<times> PDU) option \<times> serverDB) outcome" where
  "redact_text db \<equiv> MaybeRedactEvent (\<lambda>e. e\<lparr>Content := Some (JObj [])\<rparr>) sample_users
     (Some \<lparr>ri_RoomNID = 1, ri_RoomVersion = ''10''\<rparr>) 6 sample_text (resolver_of db) db"

lemma one_redaction_considered:
  "fst (the_ok (redact_text (two_redactions [''$z'', ''$y'']))) = None"
  "fst (the_ok (redact_text (two_redactions [''$y'']))) \<noteq> None"
  by code_simp+

text \<open>A redaction that was applied before is reported as if this call had applied it.\<close>

lemma redacted_again:
  "fst (the_ok (redact_text (snd (the_ok (redact_text (two_redactions [''$y'']))))) ) \<noteq> None"
  by code_simp

end
