(* ===== verification/RoomQueries_Correct.thy ===== *)
theory RoomQueries_Correct
  imports RoomQueries Memberships_Correct Redactions_Correct RoomStateCalc_Correct
begin

text \<open>
  The auth chain that a query collects (\<^verbatim>\<open>GetAuthChain\<close>) is complete, and collecting it ends, also
  when events are missing or refer to each other.
\<close>

section \<open>Events by ID\<close>

definition event_by_id :: "stateStore \<Rightarrow> string \<Rightarrow> PDU option" where
  "event_by_id db k = map_of (map (\<lambda>(_, row). (er_event_id row, er_pdu row)) (db_events db)) k"

definition ids_unique :: "stateStore \<Rightarrow> bool" where
  "ids_unique db \<longleftrightarrow> distinct (keys (db_events db)) \<and> distinct (map (er_event_id \<circ> snd) (db_events db)) \<and>
     list_all (\<lambda>(_, row). EventID (er_pdu row) = er_event_id row) (db_events db)"

lemma event_by_id_row:
  assumes "ids_unique db" shows "event_by_id db k = Some e \<longleftrightarrow> (\<exists>n row. (n, row) \<in> set (db_events db) \<and> er_event_id row = k \<and> er_pdu row = e)"
proof -
  have "distinct (map fst (map (\<lambda>(_, row). (er_event_id row, er_pdu row)) (db_events db)))"
    using assms by (simp add: ids_unique_def comp_def case_prod_beta)
  then show ?thesis unfolding event_by_id_def by (force simp: map_of_eq_Some_iff image_iff)
qed

lemma event_by_id_ID: "ids_unique db \<Longrightarrow> event_by_id db k = Some e \<Longrightarrow> EventID e = k"
  by (auto simp: event_by_id_row ids_unique_def list_all_iff)

lemma EventsFromIDs_found:
  assumes "ids_unique db"
  obtains evs where "EventsFromIDs ids db = Ok evs" "snd ` set evs = {e. \<exists>k \<in> set ids. event_by_id db k = Some e}"
proof -
  let ?rows = "filter (\<lambda>(n, row). er_event_id row \<in> set ids) (db_events db)"
  let ?evs = "map (\<lambda>n. (n, er_pdu (the (map_of (db_events db) n)))) (sort (map fst ?rows))"
  have d: "distinct (keys (db_events db))" using assms by (simp add: ids_unique_def)
  have found: "\<forall>n \<in> set (sort (map fst ?rows)). map_of (db_events db) n \<noteq> None" using d by (force simp: map_of_eq_None_iff image_iff)
  have "EventsFromIDs ids db = Ok ?evs"
    using load_events_Ok [OF found] by (simp add: EventsFromIDs_def Events_def)
  moreover have "snd ` set ?evs = {e. \<exists>k \<in> set ids. event_by_id db k = Some e}"
    using d by (force simp: event_by_id_row [OF assms] image_iff)
  ultimately show ?thesis by (rule that)
qed

inductive in_auth_chain :: "stateStore \<Rightarrow> string list \<Rightarrow> PDU \<Rightarrow> bool" for db ids where
  start: "k \<in> set ids \<Longrightarrow> event_by_id db k = Some e \<Longrightarrow> in_auth_chain db ids e"
| auth: "in_auth_chain db ids e \<Longrightarrow> k \<in> set (AuthEventIDs e) \<Longrightarrow> event_by_id db k = Some e' \<Longrightarrow> in_auth_chain db ids e'"

section \<open>One round\<close>

definition chain_round :: "(int \<times> PDU) list \<Rightarrow> (string, PDU) gomap \<times> string list \<Rightarrow> (string, PDU) gomap \<times> string list" where
  "chain_round evs = fold (\<lambda>(_, e) (m, next).
     let m = AList.update (EventID e) e m
     in (m, next @ filter (\<lambda>k. map_of m k = None) (AuthEventIDs e))) evs"

definition chain_map_ok :: "stateStore \<Rightarrow> (string, PDU) gomap \<Rightarrow> bool" where
  "chain_map_ok db m \<longleftrightarrow> distinct (keys m) \<and> (\<forall>k e. map_of m k = Some e \<longrightarrow> event_by_id db k = Some e)"

lemma chain_round_spec:
  assumes "ids_unique db" "\<forall>e \<in> snd ` set evs. \<exists>k. event_by_id db k = Some e" "chain_map_ok db m" "chain_round evs (m, next) = (m', next')"
  shows "chain_map_ok db m' \<and> set (keys m') = set (keys m) \<union> EventID ` snd ` set evs \<and> set next \<subseteq> set next' \<and>
    (\<forall>k \<in> set next'. k \<in> set next \<or> k \<notin> set (keys m) \<and> (\<exists>e \<in> snd ` set evs. k \<in> set (AuthEventIDs e))) \<and>
    (\<forall>e \<in> snd ` set evs. \<forall>k \<in> set (AuthEventIDs e). k \<in> set (keys m') \<or> k \<in> set next')"
  using assms(2-4)
proof (induction evs arbitrary: m "next")
  case Nil
  then show ?case by (simp add: chain_round_def)
next
  case (Cons p evs)
  obtain n e where p: "p = (n, e)" by fastforce
  let ?m = "AList.update (EventID e) e m" and ?next = "next @ filter (\<lambda>k. map_of (AList.update (EventID e) e m) k = None) (AuthEventIDs e)"
  have e: "event_by_id db (EventID e) = Some e" using Cons.prems(1) p event_by_id_ID [OF assms(1)] by force
  have ok: "chain_map_ok db ?m" using Cons.prems(2) e by (auto simp: chain_map_ok_def update_conv')
  have keys: "set (keys ?m) = insert (EventID e) (set (keys m))" by (simp add: dom_update)
  have run: "chain_round evs (?m, ?next) = (m', next')" using Cons.prems(3) p by (simp add: chain_round_def Let_def)
  have pre: "\<forall>e \<in> snd ` set evs. \<exists>k. event_by_id db k = Some e" using Cons.prems(1) by simp
  have new: "set ?next = set next \<union> {k \<in> set (AuthEventIDs e). k \<noteq> EventID e \<and> k \<notin> set (keys m)}"
    using keys by (auto simp: map_of_eq_None_iff)
  define E where "E = snd ` set evs"
  have E: "snd ` set (p # evs) = insert e E" by (simp add: p E_def)
  note IH = Cons.IH [OF pre ok run, folded E_def, unfolded keys new]
  have all: "k \<in> set (keys m') \<or> k \<in> set next'" if "e' \<in> insert e E" "k \<in> set (AuthEventIDs e')" for e' k
  proof (cases "e' \<in> E")
    case False
    then have "k \<in> set (AuthEventIDs e)" using that by simp
    then show ?thesis using IH by blast
  qed (use IH that in blast)
  show ?case unfolding E
  proof (intro conjI)
    show "\<forall>k \<in> set next'. k \<in> set next \<or> k \<notin> set (keys m) \<and> (\<exists>e \<in> insert e E. k \<in> set (AuthEventIDs e))" using IH by blast
  qed (use IH all in auto)
qed

section \<open>All rounds\<close>

text \<open>What holds between rounds, and how many are left.\<close>

definition chain_inv :: "stateStore \<Rightarrow> string list \<Rightarrow> string list \<Rightarrow> (string, PDU) gomap \<Rightarrow> bool" where
  "chain_inv db ids fetch m \<longleftrightarrow> chain_map_ok db m \<and>
     (\<forall>k e. map_of m k = Some e \<or> k \<in> set fetch \<and> event_by_id db k = Some e \<longrightarrow> in_auth_chain db ids e) \<and>
     (\<forall>k. k \<in> set ids \<or> (\<exists>k1 e. map_of m k1 = Some e \<and> k \<in> set (AuthEventIDs e)) \<longrightarrow>
        k \<in> set (keys m) \<or> k \<in> set fetch \<or> k \<notin> dom (event_by_id db))"

definition rounds_left :: "stateStore \<Rightarrow> string list \<Rightarrow> (string, PDU) gomap \<Rightarrow> nat" where
  "rounds_left db fetch m = card (dom (event_by_id db) - set (keys m)) +
     (if fetch = [] then 0 else if \<forall>k \<in> set fetch. k \<notin> dom (event_by_id db) then 1 else 2)"

lemma finite_by_id: "finite (dom (event_by_id db))"
  unfolding event_by_id_def by (rule finite_dom_map_of)

lemma chain_map_val:
  assumes "chain_map_ok db m" "k \<in> set (keys m)" "event_by_id db k = Some e" shows "map_of m k = Some e"
proof -
  obtain e' where "map_of m k = Some e'" using assms(2) by (cases "map_of m k") (auto simp: map_of_eq_None_iff)
  then show ?thesis using assms by (auto simp: chain_map_ok_def)
qed

lemma chain_invD:
  assumes "chain_inv db ids fetch m"
  shows "chain_map_ok db m" "map_of m k = Some e \<Longrightarrow> in_auth_chain db ids e"
    "k \<in> set fetch \<Longrightarrow> event_by_id db k = Some e \<Longrightarrow> in_auth_chain db ids e"
    "k \<in> set ids \<Longrightarrow> k \<in> set (keys m) \<or> k \<in> set fetch \<or> k \<notin> dom (event_by_id db)"
    "map_of m k1 = Some e \<Longrightarrow> k \<in> set (AuthEventIDs e) \<Longrightarrow> k \<in> set (keys m) \<or> k \<in> set fetch \<or> k \<notin> dom (event_by_id db)"
  using assms unfolding chain_inv_def by blast+

text \<open>A round adds what was fetched, and asks next for what the fetched events refer to.\<close>

lemma chain_round_facts:
  assumes unique: "ids_unique db" and m: "chain_map_ok db m"
    and evs: "snd ` set evs = {e. \<exists>k \<in> set fetch. event_by_id db k = Some e}"
    and run: "chain_round evs (m, []) = (m', fetch')"
  shows "chain_map_ok db m'" and "set (keys m') = set (keys m) \<union> set fetch \<inter> dom (event_by_id db)"
    and "k \<in> set fetch' \<Longrightarrow> \<exists>k0 e. k0 \<in> set fetch \<and> event_by_id db k0 = Some e \<and> k \<in> set (AuthEventIDs e) \<and> k \<notin> set (keys m)"
    and "k0 \<in> set fetch \<Longrightarrow> event_by_id db k0 = Some e \<Longrightarrow> k \<in> set (AuthEventIDs e) \<Longrightarrow> k \<in> set (keys m') \<or> k \<in> set fetch'"
proof -
  have "\<forall>e \<in> snd ` set evs. \<exists>k. event_by_id db k = Some e" unfolding evs by blast
  note r = chain_round_spec [OF unique this m run, unfolded evs]
  have "EventID ` {e. \<exists>k \<in> set fetch. event_by_id db k = Some e} = set fetch \<inter> dom (event_by_id db)"
    using event_by_id_ID [OF unique] by (auto simp: dom_def)
  then show "set (keys m') = set (keys m) \<union> set fetch \<inter> dom (event_by_id db)" using r by simp
  show "chain_map_ok db m'" using r by (elim conjE)
  from r have r4: "\<forall>k \<in> set fetch'. k \<in> set [] \<or> k \<notin> set (keys m) \<and>
      (\<exists>e \<in> {e. \<exists>k \<in> set fetch. event_by_id db k = Some e}. k \<in> set (AuthEventIDs e))" by (elim conjE)
  show "\<exists>k0 e. k0 \<in> set fetch \<and> event_by_id db k0 = Some e \<and> k \<in> set (AuthEventIDs e) \<and> k \<notin> set (keys m)" if "k \<in> set fetch'"
    using bspec [OF r4 that] by auto
  from r have r5: "\<forall>e \<in> {e. \<exists>k \<in> set fetch. event_by_id db k = Some e}. \<forall>k \<in> set (AuthEventIDs e). k \<in> set (keys m') \<or> k \<in> set fetch'"
    by (elim conjE)
  show "k \<in> set (keys m') \<or> k \<in> set fetch'" if "k0 \<in> set fetch" "event_by_id db k0 = Some e" "k \<in> set (AuthEventIDs e)"
    using r5 that by blast
qed

lemma chain_round_inv:
  assumes unique: "ids_unique db" and inv: "chain_inv db ids fetch m"
    and evs: "snd ` set evs = {e. \<exists>k \<in> set fetch. event_by_id db k = Some e}"
    and run: "chain_round evs (m, []) = (m', fetch')"
  shows "chain_inv db ids fetch' m'"
proof -
  note r = chain_round_facts [OF unique chain_invD(1) [OF inv] evs run]
  have val': "map_of m k = Some e \<or> k \<in> set fetch \<and> event_by_id db k = Some e" if "map_of m' k = Some e" for k e
    using that r(1,2) map_of_Some_in_keys [OF that] chain_map_val [OF chain_invD(1) [OF inv], of k e]
    by (auto simp: chain_map_ok_def)
  have stays: "k \<in> set (keys m') \<or> k \<notin> dom (event_by_id db)" if "k \<in> set (keys m) \<or> k \<in> set fetch \<or> k \<notin> dom (event_by_id db)" for k
    using that r(2) by auto
  have refs: "k \<in> set (keys m') \<or> k \<in> set fetch' \<or> k \<notin> dom (event_by_id db)" if e: "map_of m' k1 = Some e" "k \<in> set (AuthEventIDs e)" for k1 e k
    using val' [OF e(1)]
  proof (elim disjE conjE)
    assume "map_of m k1 = Some e"
    from stays [OF chain_invD(5) [OF inv this e(2)]] show ?thesis by auto
  next
    assume "k1 \<in> set fetch" "event_by_id db k1 = Some e"
    from r(4) [OF this e(2)] show ?thesis by auto
  qed
  have next': "in_auth_chain db ids e" if "k \<in> set fetch'" "event_by_id db k = Some e" for k e
    using r(3) [OF that(1)] chain_invD(3) [OF inv] in_auth_chain.auth [OF _ _ that(2)] by blast
  have old: "in_auth_chain db ids e" if "map_of m' k = Some e" for k e
    using val' [OF that] chain_invD(2,3) [OF inv] by blast
  have start: "k \<in> set (keys m') \<or> k \<in> set fetch' \<or> k \<notin> dom (event_by_id db)" if "k \<in> set ids" for k
    using stays [OF chain_invD(4) [OF inv that]] by auto
  show ?thesis unfolding chain_inv_def using r(1) old next' start refs by blast
qed

lemma chain_round_progress:
  assumes unique: "ids_unique db" and inv: "chain_inv db ids fetch m" and some: "fetch \<noteq> []"
    and evs: "snd ` set evs = {e. \<exists>k \<in> set fetch. event_by_id db k = Some e}"
    and run: "chain_round evs (m, []) = (m', fetch')"
  shows "rounds_left db fetch' m' < rounds_left db fetch m"
proof -
  note r = chain_round_facts [OF unique chain_invD(1) [OF inv] evs run]
  let ?open = "\<lambda>m. dom (event_by_id db) - set (keys m)"
  show ?thesis
  proof (cases "set fetch \<inter> ?open m = {}")
    case True
    then have same: "?open m' = ?open m" using r(2) by blast
    have none: "k \<notin> dom (event_by_id db)" if k: "k \<in> set fetch'" for k
    proof -
      obtain k0 e where e: "k0 \<in> set fetch" "event_by_id db k0 = Some e" "k \<in> set (AuthEventIDs e)" "k \<notin> set (keys m)" using r(3) [OF k] by blast
      then have "map_of m k0 = Some e" using True by (intro chain_map_val [OF chain_invD(1) [OF inv]]) auto
      from chain_invD(5) [OF inv this e(3)] show ?thesis using e(4) True by blast
    qed
    have "fetch' = []" if "\<forall>k \<in> set fetch. k \<notin> dom (event_by_id db)"
      using r(3) that by (cases fetch') force+
    then show ?thesis using none some unfolding rounds_left_def same by auto
  next
    case False
    then have "?open m' \<subset> ?open m" using r(2) by blast
    then have "card (?open m') < card (?open m)" using finite_by_id by (intro psubset_card_mono) simp_all
    moreover have "\<not> (\<forall>k \<in> set fetch. k \<notin> dom (event_by_id db))" using False by blast
    ultimately show ?thesis using some unfolding rounds_left_def by (simp only: if_False split: if_split) simp
  qed
qed

lemma auth_chain_loop_ends:
  assumes "ids_unique db" "chain_inv db ids fetch m" "rounds_left db fetch m < n"
  shows "\<exists>m'. auth_chain_loop n db fetch m = Some (Ok m') \<and> chain_inv db ids [] m'"
  using assms(2,3)
proof (induction n arbitrary: fetch m)
  case (Suc n)
  show ?case
  proof (cases "fetch = []")
    case True
    then show ?thesis using Suc.prems by simp
  next
    case False
    obtain evs where evs: "EventsFromIDs fetch db = Ok evs" "snd ` set evs = {e. \<exists>k \<in> set fetch. event_by_id db k = Some e}"
      using EventsFromIDs_found [OF assms(1)] .
    obtain m' fetch' where r: "chain_round evs (m, []) = (m', fetch')" by fastforce
    note step = chain_round_inv [OF assms(1) Suc.prems(1) evs(2) r] chain_round_progress [OF assms(1) Suc.prems(1) False evs(2) r]
    have "auth_chain_loop (Suc n) db fetch m = auth_chain_loop n db fetch' m'"
      using False evs(1) r [unfolded chain_round_def] by simp
    then show ?thesis using Suc.IH [OF step(1)] step(2) Suc.prems(2) by simp
  qed
qed simp

text \<open>
  C15. Collecting the auth chain of events ends and gives every stored event that can be reached over
  the auth events, each once, and nothing else, also when some of them are not stored.
\<close>

theorem GetAuthChain_complete:
  assumes "ids_unique db" "is_range_order (env_rng env)" "length (db_events db) + 2 < env_fuel env"
  shows "\<exists>evs. GetAuthChain env ids db = Some (Ok evs) \<and> distinct (map EventID evs) \<and> set evs = {e. in_auth_chain db ids e}"
proof -
  have "dom (event_by_id db) = set (map (er_event_id \<circ> snd) (db_events db))"
    unfolding event_by_id_def [abs_def] by (simp add: dom_map_of_conv_image_fst image_comp comp_def case_prod_beta)
  then have "card (dom (event_by_id db)) \<le> length (db_events db)" using card_length by (metis length_map)
  then have "rounds_left db ids [] < env_fuel env" using assms(3) by (auto simp: rounds_left_def)
  moreover have "chain_inv db ids ids []" by (auto simp: chain_inv_def chain_map_ok_def in_auth_chain.start)
  ultimately obtain m where m: "auth_chain_loop (env_fuel env) db ids [] = Some (Ok m)" "chain_inv db ids [] m"
    using auth_chain_loop_ends [OF assms(1)] by blast
  let ?evs = "List.map_filter (map_of m) (env_rng env 80 (keys m))"
  have ok: "distinct (keys m)" "\<And>k e. map_of m k = Some e \<Longrightarrow> event_by_id db k = Some e"
    using m(2) by (auto simp: chain_inv_def chain_map_ok_def)
  have set: "set ?evs = ran (map_of m)"
    using range_order_set [OF assms(2), of 80 "keys m"] by (auto simp: List.map_filter_def ran_def image_iff) (metis fst_conv map_of_SomeD option.sel)
  have stored: "e \<in> ran (map_of m)" if "k \<in> set (keys m)" "event_by_id db k = Some e" for k e
    using that ok by (force simp: ran_def dest: weak_map_of_SomeI)
  have "e \<in> ran (map_of m)" if "in_auth_chain db ids e" for e
    using that
  proof (induction rule: in_auth_chain.induct)
    case (start k e)
    then have "k \<in> set (keys m)" using chain_invD(4) [OF m(2) start(1)] start(2) by (simp add: domIff)
    then show ?case using stored start by blast
  next
    case (auth e k e')
    then obtain k1 where "map_of m k1 = Some e" by (auto simp: ran_def)
    then have "k \<in> set (keys m)" using chain_invD(5) [OF m(2) _ auth(2)] auth(3) by (simp add: domIff)
    then show ?case using stored auth by blast
  qed
  then have "set ?evs = {e. in_auth_chain db ids e}" unfolding set using m(2) by (auto simp: chain_inv_def ran_def)
  moreover have "distinct (map EventID ?evs)"
  proof -
    have "map EventID (List.map_filter (map_of m) ks) = ks" if "set ks \<subseteq> set (keys m)" for ks
      using that
    proof (induction ks)
      case (Cons k ks)
      then obtain e where "map_of m k = Some e" by (cases "map_of m k") (auto simp: map_of_eq_None_iff)
      then show ?case using Cons ok(2) event_by_id_ID [OF assms(1)] by (simp add: List.map_filter_simps)
    qed (simp add: List.map_filter_simps)
    then show ?thesis using range_order_set [OF assms(2)] range_order_distinct [OF assms(2)] ok(1) by simp
  qed
  ultimately show ?thesis using m(1) by (simp add: GetAuthChain_def)
qed

theorem GetAuthChain_complete_witness:
  "\<exists>evs. GetAuthChain sample_env [''$m''] (store_of (stored_room [])) = Some (Ok evs) \<and>
     set evs = {e. in_auth_chain (store_of (stored_room [])) [''$m''] e}"
proof -
  have "ids_unique (store_of (stored_room []))" "length (db_events (store_of (stored_room []))) + 2 < env_fuel sample_env" by code_simp+
  moreover have "is_range_order (env_rng sample_env)" by (simp add: sample_env_def)
  ultimately show ?thesis using GetAuthChain_complete [of "store_of (stored_room [])" sample_env "[''$m'']"] by blast
qed

end
