(* ===== verification/StateResponses.thy ===== *)
theory StateResponses
  imports StateResV2_Correct MembershipAuth
begin

text \<open>
  The state of a room as another server gives it (\<^verbatim>\<open>internal/matrixserver/authstate.go\<close>): the responses to
  \<^verbatim>\<open>/state\<close> and \<^verbatim>\<open>/send_join\<close>. Events with a bad signature and events that their auth events do not
  allow are left out.

  Parsing the events of a response is left out, a response holds the events; whether the signatures of
  an event are good is the argument \<open>verify\<close>. Auth events that are not in the response may be asked of a
  provider. An event ID that was asked for in vain is in the map with no event, so that it is asked for
  only once.
\<close>

section \<open>Auth events of an event\<close>

type_synonym EventProvider = "RoomVersion \<Rightarrow> string list \<Rightarrow> PDU list outcome"

type_synonym events_by_id = "(string, PDU option) gomap"

definition provide_event :: "PDU \<Rightarrow> AuthEvents \<times> events_by_id \<Rightarrow> AuthEvents \<times> events_by_id" where
  "provide_event e am =
     (case am of (authEvents, eventsByID) \<Rightarrow>
       (case AddEvent authEvents e of
          Ok authEvents \<Rightarrow> (authEvents, AList.update (EventID e) (Some e) eventsByID)
        | _ \<Rightarrow> (authEvents, AList.update (EventID e) None eventsByID)))"

text \<open>The loop over the auth event IDs, with its retry: a provider is asked at most \<open>n\<close> times.\<close>

function auth_events_loop :: "nat \<Rightarrow> EventProvider option \<Rightarrow> RoomVersion \<Rightarrow> string list \<Rightarrow> AuthEvents \<Rightarrow> events_by_id
    \<Rightarrow> (AuthEvents outcome \<times> events_by_id) option" where
  "auth_events_loop n missingAuth version [] authEvents eventsByID = Some (Ok authEvents, eventsByID)"
| "auth_events_loop n missingAuth version (ae # ids) authEvents eventsByID =
     (case map_of eventsByID ae of
        Some (Some authEvent) \<Rightarrow>
          (case AddEvent authEvents authEvent of
             Ok authEvents \<Rightarrow> auth_events_loop n missingAuth version ids authEvents eventsByID
           | Err e \<Rightarrow> Some (Err e, eventsByID)
           | Panic \<Rightarrow> Some (Panic, eventsByID))
      | Some None \<Rightarrow> auth_events_loop n missingAuth version ids authEvents eventsByID
      | None \<Rightarrow>
          (case missingAuth of
             None \<Rightarrow> auth_events_loop n missingAuth version ids authEvents eventsByID
           | Some provide \<Rightarrow>
               (case n of
                  0 \<Rightarrow> None
                | Suc n \<Rightarrow>
                    (case provide version [ae] of
                       Panic \<Rightarrow> Some (Panic, eventsByID)
                     | Err _ \<Rightarrow> auth_events_loop n missingAuth version (ae # ids) authEvents (AList.update ae None eventsByID)
                     | Ok [] \<Rightarrow> auth_events_loop n missingAuth version (ae # ids) authEvents (AList.update ae None eventsByID)
                     | Ok (e # es) \<Rightarrow>
                         (case fold provide_event (e # es) (authEvents, eventsByID) of (authEvents, eventsByID) \<Rightarrow>
                            auth_events_loop n missingAuth version (ae # ids) authEvents eventsByID)))))"
  by pat_completeness auto
termination by (relation "measure (\<lambda>(n, _, _, ids, _). n + length ids)") auto

definition checkAllowedByAuthEvents :: "nat \<Rightarrow> ed25519_verifier \<Rightarrow> UserIDForSender \<Rightarrow> PDU \<Rightarrow> events_by_id \<Rightarrow> EventProvider option
    \<Rightarrow> (unit outcome \<times> events_by_id) option" where
  "checkAllowedByAuthEvents n edv q event eventsByID missingAuth =
     map_option (\<lambda>(r, m). (and_then r (\<lambda>authEvents. Allowed edv q event (AuthEvents_provider 0 authEvents)), m))
       (auth_events_loop n missingAuth (Version event) (AuthEventIDs event) empty_AuthEvents eventsByID)"

section \<open>Responses\<close>

record StateResponse =
  resp_AuthEvents :: "PDU list"
  resp_StateEvents :: "PDU list"

text \<open>Every event must be a state event, and no two of the state may have the same tuple.\<close>

fun check_tuples :: "StateKeyTuple list \<Rightarrow> PDU list \<Rightarrow> unit outcome" where
  "check_tuples seen [] = Ok ()"
| "check_tuples seen (e # es) =
     (case StateKey e of
        None \<Rightarrow> Err (GoError ''gomatrixserverlib: event %q does not have a state key'')
      | Some k \<Rightarrow>
          if (EventType e, k) \<in> set seen then Err (GoError ''gomatrixserverlib: duplicate state key tuple (%q, %q)'')
          else check_tuples ((EventType e, k) # seen) es)"

definition check_state_keys :: "PDU list \<Rightarrow> unit outcome" where
  "check_state_keys = each (\<lambda>e. if StateKey e = None then Err (GoError ''gomatrixserverlib: event %q does not have a state key'') else Ok ())"

text \<open>The IDs of the events that are not allowed, in addition to those that were not signed.\<close>

fun not_allowed :: "nat \<Rightarrow> ed25519_verifier \<Rightarrow> UserIDForSender \<Rightarrow> EventProvider option \<Rightarrow> PDU list \<Rightarrow> events_by_id \<Rightarrow> string list
    \<Rightarrow> string list outcome option" where
  "not_allowed n edv q missingAuth [] eventsByID failures = Some (Ok failures)"
| "not_allowed n edv q missingAuth (e # es) eventsByID failures =
     (case checkAllowedByAuthEvents n edv q e eventsByID missingAuth of
        None \<Rightarrow> None
      | Some (Panic, _) \<Rightarrow> Some Panic
      | Some (Ok _, m) \<Rightarrow> not_allowed n edv q missingAuth es m failures
      | Some (Err _, m) \<Rightarrow> not_allowed n edv q missingAuth es m (EventID e # failures))"

definition events_by_id_of :: "PDU list \<Rightarrow> events_by_id" where
  "events_by_id_of es = fold (\<lambda>e. AList.update (EventID e) (Some e)) es []"

definition CheckStateResponse :: "nat \<Rightarrow> ed25519_verifier \<Rightarrow> (PDU \<Rightarrow> bool) \<Rightarrow> StateResponse \<Rightarrow> EventProvider option \<Rightarrow> UserIDForSender
    \<Rightarrow> (PDU list \<times> PDU list) outcome option" where
  "CheckStateResponse n edv verify r missingAuth q =
     (let authEvents = resp_AuthEvents r; stateEvents = resp_StateEvents r; allEvents = authEvents @ stateEvents;
          unsigned = map EventID (filter (\<lambda>e. \<not> verify e) allEvents) in
      run_then (Some (and_then (check_state_keys authEvents) (\<lambda>_. check_tuples [] stateEvents))) (\<lambda>_.
      run_then (not_allowed n edv q missingAuth allEvents
          (events_by_id_of (filter (\<lambda>e. EventID e \<notin> set unsigned) allEvents)) unsigned) (\<lambda>failures.
        Some (Ok (filter (\<lambda>e. EventID e \<notin> set failures) authEvents, filter (\<lambda>e. EventID e \<notin> set failures) stateEvents)))))"

definition CheckSendJoinResponse :: "nat \<Rightarrow> ed25519_verifier \<Rightarrow> (PDU \<Rightarrow> bool) \<Rightarrow> StateResponse \<Rightarrow> PDU \<Rightarrow> EventProvider option
    \<Rightarrow> UserIDForSender \<Rightarrow> StateResponse outcome option" where
  "CheckSendJoinResponse n edv verify r joinEvent missingAuth q =
     run_then (CheckStateResponse n edv verify r missingAuth q) (\<lambda>(authEvents, stateEvents).
       case checkAllowedByAuthEvents n edv q joinEvent (events_by_id_of (authEvents @ stateEvents)) missingAuth of
         None \<Rightarrow> None
       | Some (Panic, _) \<Rightarrow> Some Panic
       | Some (Err e, _) \<Rightarrow> Some (Err (GoError ''gomatrixserverlib: event with ID %q is not allowed by its auth events: %w''))
       | Some (Ok _, _) \<Rightarrow>
           run_then (Some (NewAuthEvents stateEvents)) (\<lambda>authEventProvider.
             (case Allowed edv q joinEvent (AuthEvents_provider 0 authEventProvider) of
                Panic \<Rightarrow> Some Panic
              | Err _ \<Rightarrow> Some (Err (GoError ''gomatrixserverlib: event with ID %q is not allowed by the current room state: %w''))
              | Ok _ \<Rightarrow> Some (Ok \<lparr>resp_AuthEvents = authEvents, resp_StateEvents = stateEvents\<rparr>))))"

text \<open>Both lists in one, each event once, after its auth events.\<close>

definition combined_events :: "string range_order \<Rightarrow> StateResponse \<Rightarrow> PDU list" where
  "combined_events rng r =
     (let m = fold (\<lambda>e. AList.update (EventID e) e) (resp_AuthEvents r @ resp_StateEvents r) []
      in List.map_filter (map_of m) (rng 95 (keys m)))"

definition LineariseStateResponse :: "string range_order \<Rightarrow> StateResponse \<Rightarrow> PDU list outcome" where
  "LineariseStateResponse rng r = ReverseTopologicalOrdering rng (combined_events rng r) TopologicalOrderByAuthEvents"

section \<open>The state at an event\<close>

record StateProvider =
  StateIDsBeforeEvent :: "PDU \<Rightarrow> string list outcome"
  StateBeforeEvent :: "RoomVersion \<Rightarrow> PDU \<Rightarrow> string list \<Rightarrow> events_by_id outcome"

definition VerifyAuthRulesAtState :: "ed25519_verifier \<Rightarrow> StateProvider \<Rightarrow> PDU \<Rightarrow> bool \<Rightarrow> UserIDForSender \<Rightarrow> unit outcome" where
  "VerifyAuthRulesAtState edv sp eventToVerify allowValidation q =
     and_then (StateIDsBeforeEvent sp eventToVerify) (\<lambda>stateIDs.
       if allowValidation \<and> list_all (\<lambda>k. k \<in> set stateIDs) (AuthEventIDs eventToVerify) then Ok ()
       else and_then (StateBeforeEvent sp (Version eventToVerify) eventToVerify stateIDs) (\<lambda>roomState.
         case checkAllowedByAuthEvents 0 edv q eventToVerify roomState None of
           Some (r, _) \<Rightarrow> r
         | None \<Rightarrow> Panic))"

end
