(* ===== verification/ServerACLs.thy ===== *)
theory ServerACLs
  imports GoJSON Spec_IDs
begin

text \<open>
  The access control lists by which a room bans servers (\<^verbatim>\<open>roomserver/acls/acls.go\<close>). The list
  entries are globs, which the code turns into regular expressions.

  Server names are ASCII, so the regular expressions are matched byte by byte. The JSON text in a
  stripped event is given by what it parses to.
\<close>

section \<open>Regular expressions (Go's regexp)\<close>

text \<open>
  The part of the syntax that the code generates: literals, escaped or not, \<^verbatim>\<open>.\<close> and
  \<^verbatim>\<open>.*\<close>. \<^verbatim>\<open>MatchString\<close> looks for a match anywhere in the text.
\<close>

definition regexp_special :: "char \<Rightarrow> bool" where
  "regexp_special c \<longleftrightarrow> c = CHR 0x5C \<or> c \<in> set ''.+*?()|[]{}^$''"

definition QuoteMeta :: "string \<Rightarrow> string" where
  "QuoteMeta s = concat (map (\<lambda>c. if regexp_special c then [CHR 0x5C, c] else [c]) s)"

text \<open>\<^verbatim>\<open>strings.Replace(s, old, new, -1)\<close> for two bytes.\<close>

fun strings_Replace2 :: "char \<Rightarrow> char \<Rightarrow> string \<Rightarrow> string \<Rightarrow> string" where
  "strings_Replace2 a b new (c # d # s) =
     (if c = a \<and> d = b then new @ strings_Replace2 a b new s else c # strings_Replace2 a b new (d # s))"
| "strings_Replace2 a b new s = s"

datatype regexp = Lit char | Dot | DotStar

fun regexp_Compile :: "string \<Rightarrow> regexp list option" where
  "regexp_Compile [] = Some []"
| "regexp_Compile (c # s) =
     (if c = CHR 0x5C then
        (case s of d # s \<Rightarrow> if regexp_special d then map_option (Cons (Lit d)) (regexp_Compile s) else None
         | [] \<Rightarrow> None)
      else if c = CHR ''.'' then
        (case s of d # s' \<Rightarrow> if d = CHR ''*'' then map_option (Cons DotStar) (regexp_Compile s')
                            else map_option (Cons Dot) (regexp_Compile s)
         | [] \<Rightarrow> Some [Dot])
      else if regexp_special c then None
      else map_option (Cons (Lit c)) (regexp_Compile s))"

abbreviation newline :: char where
  "newline \<equiv> CHR 0x0A"

function regexp_prefix :: "regexp list \<Rightarrow> string \<Rightarrow> bool" where
  "regexp_prefix [] s = True"
| "regexp_prefix (Lit c # re) s = (case s of [] \<Rightarrow> False | x # s \<Rightarrow> x = c \<and> regexp_prefix re s)"
| "regexp_prefix (Dot # re) s = (case s of [] \<Rightarrow> False | x # s \<Rightarrow> x \<noteq> newline \<and> regexp_prefix re s)"
| "regexp_prefix (DotStar # re) s =
     (regexp_prefix re s \<or> (case s of [] \<Rightarrow> False | x # s \<Rightarrow> x \<noteq> newline \<and> regexp_prefix (DotStar # re) s))"
  by pat_completeness auto
termination by (relation "measure (\<lambda>(re, s). length re + length s)") auto

fun MatchString :: "regexp list \<Rightarrow> string \<Rightarrow> bool" where
  "MatchString re [] = regexp_prefix re []"
| "MatchString re (c # s) = (regexp_prefix re (c # s) \<or> MatchString re s)"

section \<open>Addresses (Go's net)\<close>

definition SplitHostPort :: "string \<Rightarrow> (string \<times> string) option" where
  "SplitHostPort hostport =
     (case strings_CutLast CHR '':'' hostport of
        None \<Rightarrow> None
      | Some (hostPart, port) \<Rightarrow>
          if hd hostport = CHR ''['' then
            (case strings_Cut CHR '']'' hostport of
               None \<Rightarrow> None
             | Some (inner, after) \<Rightarrow>
                 if after = [] \<or> inner @ '']'' \<noteq> hostPart then None
                 else if CHR ''['' \<in> set (tl hostport) \<or> CHR '']'' \<in> set after then None
                 else Some (tl inner, port))
          else if CHR '':'' \<in> set hostPart \<or> CHR ''['' \<in> set hostport \<or> CHR '']'' \<in> set hostport then None
          else Some (hostPart, port))"

text \<open>Whether \<^verbatim>\<open>net.ParseCIDR\<close> succeeds: an address without a zone, and a prefix length that fits it.\<close>

definition ParseCIDR_ok :: "string \<Rightarrow> bool" where
  "ParseCIDR_ok s =
     (case strings_Cut CHR ''/'' s of
        None \<Rightarrow> False
      | Some (addr, prefixLen) \<Rightarrow>
          ParseIP addr \<noteq> None \<and> prefixLen \<noteq> [] \<and> list_all is_digit prefixLen \<and>
          digits_val 0 prefixLen \<le> (if List.find (\<lambda>c. c \<in> set ''.:%'') addr = Some CHR ''.'' then 32 else 128))"

section \<open>The lists\<close>

record StrippedEvent =
  se_RoomID :: string
  se_EventType :: string
  se_StateKey :: string
  se_ContentValue :: "json option"

record ServerACL =
  acl_Allowed :: "string list"
  acl_Denied :: "string list"
  acl_AllowIPLiterals :: bool

record serverACL =
  acl_IPLiterals :: bool
  allowedRegexes :: "regexp list list"
  deniedRegexes :: "regexp list list"

record ServerACLs =
  acls :: "(string, serverACL) gomap"
  aclRegexCache :: "(string, regexp list) gomap"

definition dec_ServerACL :: "ServerACL decoder" where
  "dec_ServerACL = dec_struct
     [(''allow'', fld acl_Allowed (\<lambda>x a. a\<lparr>acl_Allowed := x\<rparr>) (dec_slice [] dec_string)),
      (''deny'', fld acl_Denied (\<lambda>x a. a\<lparr>acl_Denied := x\<rparr>) (dec_slice [] dec_string)),
      (''allow_ip_literals'', fld acl_AllowIPLiterals (\<lambda>x a. a\<lparr>acl_AllowIPLiterals := x\<rparr>) dec_bool)]"

definition zero_ServerACL :: ServerACL where
  "zero_ServerACL = \<lparr>acl_Allowed = [], acl_Denied = [], acl_AllowIPLiterals = False\<rparr>"

definition compileACLRegex :: "string \<Rightarrow> regexp list outcome" where
  "compileACLRegex orig =
     (let escaped = QuoteMeta orig;
          escaped = strings_Replace2 CHR 0x5C CHR ''?'' ''.'' escaped;
          escaped = strings_Replace2 CHR 0x5C CHR ''*'' ''.*'' escaped
      in case regexp_Compile escaped of None \<Rightarrow> Err (GoError ''error parsing regexp'') | Some re \<Rightarrow> Ok re)"

definition cachedCompileACLRegex :: "string \<Rightarrow> ServerACLs \<Rightarrow> regexp list outcome \<times> ServerACLs" where
  "cachedCompileACLRegex orig s =
     (case map_of (aclRegexCache s) orig of
        Some re \<Rightarrow> (Ok re, s)
      | None \<Rightarrow>
          (case compileACLRegex orig of
             Ok compiled \<Rightarrow> (Ok compiled, s\<lparr>aclRegexCache := AList.update orig compiled (aclRegexCache s)\<rparr>)
           | Err e \<Rightarrow> (Err e, s)
           | Panic \<Rightarrow> (Panic, s)))"

text \<open>The loop over one of the lists: an entry that does not compile is left out.\<close>

fun compile_all :: "string list \<Rightarrow> ServerACLs \<Rightarrow> regexp list list \<times> ServerACLs" where
  "compile_all [] s = ([], s)"
| "compile_all (orig # origs) s =
     (case cachedCompileACLRegex orig s of (r, s) \<Rightarrow>
        (case compile_all origs s of (res, s) \<Rightarrow>
           (case r of Ok expr \<Rightarrow> (expr # res, s) | _ \<Rightarrow> (res, s))))"

definition OnServerACLUpdate :: "StrippedEvent \<Rightarrow> ServerACLs \<Rightarrow> ServerACLs" where
  "OnServerACLUpdate strippedEvent s =
     (case Unmarshal dec_ServerACL (se_ContentValue strippedEvent) zero_ServerACL of (acl, err) \<Rightarrow>
        if err then s
        else (case compile_all (acl_Allowed acl) s of (allowed, s) \<Rightarrow>
               (case compile_all (acl_Denied acl) s of (denied, s) \<Rightarrow>
                  s\<lparr>acls := AList.update (se_RoomID strippedEvent)
                     \<lparr>acl_IPLiterals = acl_AllowIPLiterals acl, allowedRegexes = allowed, deniedRegexes = denied\<rparr>
                     (acls s)\<rparr>)))"

definition empty_ServerACLs :: ServerACLs where
  "empty_ServerACLs = \<lparr>acls = [], aclRegexCache = []\<rparr>"

text \<open>
  The database is a parameter: the rooms with lists, and the list events of rooms, with the error
  of the query, which is only logged. Without the rooms the program ends.
\<close>

definition NewServerACLs ::
  "string list outcome \<Rightarrow> (string list \<Rightarrow> StrippedEvent list \<times> goerr option) \<Rightarrow> ServerACLs outcome" where
  "NewServerACLs roomsWithACLs getBulkStateContent =
     (case roomsWithACLs of
        Ok rooms \<Rightarrow> Ok (fold OnServerACLUpdate (fst (getBulkStateContent rooms)) empty_ServerACLs)
      | _ \<Rightarrow> Panic)"

definition host_only :: "string \<Rightarrow> string" where
  "host_only serverName = (case SplitHostPort serverName of Some (host, port) \<Rightarrow> host | None \<Rightarrow> serverName)"

definition IsServerBannedFromRoom :: "string \<Rightarrow> string \<Rightarrow> ServerACLs \<Rightarrow> bool" where
  "IsServerBannedFromRoom serverName roomID s =
     (case map_of (acls s) roomID of
        None \<Rightarrow> False
      | Some acl \<Rightarrow>
          let serverName = host_only serverName in
          if ParseCIDR_ok (serverName @ ''/0'') \<and> \<not> acl_IPLiterals acl then True
          else if list_ex (\<lambda>expr. MatchString expr serverName) (deniedRegexes acl) then True
          else if list_ex (\<lambda>expr. MatchString expr serverName) (allowedRegexes acl) then False
          else True)"

section \<open>Globs\<close>

text \<open>
  What the lists mean: \<^verbatim>\<open>*\<close> stands for any text and \<^verbatim>\<open>?\<close> for one character.
\<close>

function glob :: "string \<Rightarrow> string \<Rightarrow> bool" where
  "glob [] s = (s = [])"
| "glob (c # p) s =
     (if c = CHR ''*'' then glob p s \<or> (case s of [] \<Rightarrow> False | x # s \<Rightarrow> glob (c # p) s)
      else (case s of [] \<Rightarrow> False | x # s \<Rightarrow> (c = CHR ''?'' \<or> x = c) \<and> glob p s))"
  by pat_completeness auto
termination by (relation "measure (\<lambda>(p, s). length p + length s)") auto

definition glob_somewhere :: "string \<Rightarrow> string \<Rightarrow> bool" where
  "glob_somewhere p s \<longleftrightarrow> (\<exists>a m b. s = a @ m @ b \<and> glob p m)"

section \<open>The regular expression of a glob\<close>

definition glob_regexp :: "char \<Rightarrow> regexp" where
  "glob_regexp c = (if c = CHR ''?'' then Dot else if c = CHR ''*'' then DotStar else Lit c)"

text \<open>An entry with its question marks, and then its stars, put in place.\<close>

definition acl_quoted :: "char set \<Rightarrow> char \<Rightarrow> string" where
  "acl_quoted placed c =
     (if c \<in> placed \<and> c = CHR ''?'' then ''.'' else if c \<in> placed \<and> c = CHR ''*'' then ''.*''
      else if regexp_special c then [CHR 0x5C, c] else [c])"

lemma acl_quoted_hd: "concat (map (acl_quoted X) s) = [] \<or> hd (concat (map (acl_quoted X) s)) \<notin> {CHR ''?'', CHR ''*''}"
  by (induction s) (auto simp: acl_quoted_def regexp_special_def)

lemma Replace2_one: "s = [] \<or> hd s \<noteq> b \<Longrightarrow> strings_Replace2 a b new (c # s) = c # strings_Replace2 a b new s"
  by (cases s) auto

lemma Replace2_acl_quoted:
  assumes "b = CHR ''?'' \<and> X = {} \<and> new = ''.'' \<or> b = CHR ''*'' \<and> X = {CHR ''?''} \<and> new = ''.*''"
  shows "strings_Replace2 CHR 0x5C b new (concat (map (acl_quoted X) s)) = concat (map (acl_quoted (insert b X)) s)"
proof (induction s)
  case (Cons c s)
  let ?r = "concat (map (acl_quoted X) s)"
  have r: "?r = [] \<or> hd ?r \<noteq> b" using acl_quoted_hd [of X s] assms by auto
  show ?case
  proof (cases "c = b")
    case True
    then have "acl_quoted X c = [CHR 0x5C, b]" "acl_quoted (insert b X) c = new"
      using assms by (auto simp: acl_quoted_def regexp_special_def)
    then show ?thesis using Cons True by simp
  next
    case False
    then have same: "acl_quoted (insert b X) c = acl_quoted X c" by (auto simp: acl_quoted_def)
    have "acl_quoted X c = [c] \<or> acl_quoted X c = ''.'' \<or> acl_quoted X c = [CHR 0x5C, c]"
      using assms by (auto simp: acl_quoted_def)
    then have "strings_Replace2 CHR 0x5C b new (acl_quoted X c @ ?r) = acl_quoted X c @ strings_Replace2 CHR 0x5C b new ?r"
      using r False by (auto simp: Replace2_one)
    then show ?thesis using Cons same by simp
  qed
qed simp

lemma Compile_dot:
  "r = [] \<Longrightarrow> regexp_Compile (CHR ''.'' # r) = map_option (Cons Dot) (regexp_Compile r)"
  "hd r \<noteq> CHR ''*'' \<Longrightarrow> regexp_Compile (CHR ''.'' # r) = map_option (Cons Dot) (regexp_Compile r)"
  by (cases r; simp add: regexp_special_def)+

lemma Compile_acl_quoted:
  "regexp_Compile (concat (map (acl_quoted {CHR ''*'', CHR ''?''}) s)) = Some (map glob_regexp s)"
proof (induction s)
  case (Cons c s)
  let ?X = "{CHR ''*'', CHR ''?''}"
  let ?r = "concat (map (acl_quoted ?X) s)"
  have "?r = [] \<or> hd ?r \<noteq> CHR ''*''" using acl_quoted_hd [of ?X s] by auto
  then have dot: "regexp_Compile (CHR ''.'' # ?r) = map_option (Cons Dot) (regexp_Compile ?r)"
    using Compile_dot by blast
  consider "c = CHR ''?''" | "c = CHR ''*''" | "c \<noteq> CHR ''?''" "c \<noteq> CHR ''*''" by blast
  then show ?case
  proof cases
    case 1
    then have "acl_quoted ?X c = ''.''" by (simp add: acl_quoted_def)
    then show ?thesis using Cons dot 1 by (simp add: glob_regexp_def)
  next
    case 2
    then have "acl_quoted ?X c = ''.*''" by (simp add: acl_quoted_def)
    then show ?thesis using Cons 2 by (simp add: glob_regexp_def)
  next
    case 3
    then have "acl_quoted ?X c = (if regexp_special c then [CHR 0x5C, c] else [c])" by (simp add: acl_quoted_def)
    then show ?thesis using Cons 3 by (auto simp: regexp_special_def glob_regexp_def)
  qed
qed simp

lemma compileACLRegex_glob: "compileACLRegex orig = Ok (map glob_regexp orig)"
proof -
  have q: "QuoteMeta orig = concat (map (acl_quoted {}) orig)" by (simp add: QuoteMeta_def acl_quoted_def [abs_def])
  show ?thesis
    by (simp add: compileACLRegex_def q Replace2_acl_quoted Compile_acl_quoted)
qed

text \<open>The search is not anchored: it finds the glob anywhere in the name.\<close>

lemma glob_cases [simp]:
  "glob (CHR ''*'' # p) [] = glob p []"
  "glob (CHR ''*'' # p) (x # s) = (glob p (x # s) \<or> glob (CHR ''*'' # p) s)"
  "c \<noteq> CHR ''*'' \<Longrightarrow> glob (c # p) [] = False"
  "c \<noteq> CHR ''*'' \<Longrightarrow> glob (c # p) (x # s) = ((c = CHR ''?'' \<or> x = c) \<and> glob p s)"
  by simp_all

lemma regexp_prefix_cases [simp]:
  "regexp_prefix (Lit c # re) [] = False"
  "regexp_prefix (Lit c # re) (x # s) = (x = c \<and> regexp_prefix re s)"
  "regexp_prefix (Dot # re) [] = False"
  "regexp_prefix (Dot # re) (x # s) = (x \<noteq> newline \<and> regexp_prefix re s)"
  "regexp_prefix (DotStar # re) [] = regexp_prefix re []"
  "regexp_prefix (DotStar # re) (x # s) =
     (regexp_prefix re (x # s) \<or> x \<noteq> newline \<and> regexp_prefix (DotStar # re) s)"
  by simp_all

declare glob.simps(2) [simp del] regexp_prefix.simps(2-4) [simp del]

definition glob_begins :: "string \<Rightarrow> string \<Rightarrow> bool" where
  "glob_begins p s \<longleftrightarrow> (\<exists>m b. s = m @ b \<and> glob p m)"

lemma glob_begins_Nil: "glob_begins p [] \<longleftrightarrow> glob p []"
  by (simp add: glob_begins_def)

lemma glob_begins_Cons: "glob_begins p (x # s) \<longleftrightarrow> glob p [] \<or> (\<exists>m b. s = m @ b \<and> glob p (x # m))"
  by (auto simp: glob_begins_def Cons_eq_append_conv)

lemma glob_begins_star:
  "glob_begins (CHR ''*'' # p) (x # s) \<longleftrightarrow> glob_begins p (x # s) \<or> glob_begins (CHR ''*'' # p) s"
  unfolding glob_begins_Cons by (auto simp: glob_begins_def)

lemma glob_begins_one:
  "c \<noteq> CHR ''*'' \<Longrightarrow> glob_begins (c # p) (x # s) \<longleftrightarrow> (c = CHR ''?'' \<or> x = c) \<and> glob_begins p s"
  unfolding glob_begins_Cons by (auto simp: glob_begins_def)

lemma prefix_glob: "newline \<notin> set s \<Longrightarrow> regexp_prefix (map glob_regexp p) s \<longleftrightarrow> glob_begins p s"
proof (induction p s rule: glob.induct)
  case (2 c p s)
  show ?case
  proof (cases s)
    case Nil
    then show ?thesis using 2 by (cases "c = CHR ''*''") (auto simp: glob_regexp_def glob_begins_Nil)
  next
    case (Cons x s')
    then show ?thesis using 2
      by (cases "c = CHR ''*''") (auto simp: glob_regexp_def glob_begins_star glob_begins_one)
  qed
qed (simp add: glob_begins_def)

lemma MatchString_glob:
  "newline \<notin> set s \<Longrightarrow> MatchString (map glob_regexp p) s \<longleftrightarrow> glob_somewhere p s"
proof (induction s)
  case Nil
  then show ?case using prefix_glob [of "[]" p] by (simp add: glob_somewhere_def glob_begins_def)
next
  case (Cons c s)
  have "glob_somewhere p (c # s) \<longleftrightarrow> glob_begins p (c # s) \<or> glob_somewhere p s"
    unfolding glob_somewhere_def glob_begins_def by (auto simp: Cons_eq_append_conv) (metis append_Nil append_Cons)+
  then show ?case using Cons prefix_glob [of "c # s" p] by simp
qed

section \<open>Who is banned\<close>

definition regexps_ok :: "ServerACLs \<Rightarrow> bool" where
  "regexps_ok s \<longleftrightarrow> (\<forall>orig re. map_of (aclRegexCache s) orig = Some re \<longrightarrow> re = map glob_regexp orig)"

lemma cachedCompileACLRegex_ok:
  assumes "regexps_ok s"
  shows "\<exists>s'. cachedCompileACLRegex orig s = (Ok (map glob_regexp orig), s') \<and> regexps_ok s' \<and> acls s' = acls s"
  using assms
  by (auto simp: cachedCompileACLRegex_def compileACLRegex_glob regexps_ok_def map_simps split: option.splits)

lemma compile_all_ok:
  "regexps_ok s \<Longrightarrow> \<exists>s'. compile_all origs s = (map (map glob_regexp) origs, s') \<and> regexps_ok s' \<and> acls s' = acls s"
proof (induction origs arbitrary: s)
  case (Cons orig origs)
  obtain s1 where 1: "cachedCompileACLRegex orig s = (Ok (map glob_regexp orig), s1)" "regexps_ok s1" "acls s1 = acls s"
    using cachedCompileACLRegex_ok [OF Cons.prems] by blast
  obtain s2 where "compile_all origs s1 = (map (map glob_regexp) origs, s2)" "regexps_ok s2" "acls s2 = acls s1"
    using Cons.IH [OF 1(2)] by blast
  with 1 show ?case by simp
qed simp

definition decoded :: "StrippedEvent \<Rightarrow> ServerACL option" where
  "decoded ev = (case Unmarshal dec_ServerACL (se_ContentValue ev) zero_ServerACL of (acl, err) \<Rightarrow> if err then None else Some acl)"

definition compiled :: "ServerACL \<Rightarrow> serverACL" where
  "compiled acl = \<lparr>acl_IPLiterals = acl_AllowIPLiterals acl, allowedRegexes = map (map glob_regexp) (acl_Allowed acl),
     deniedRegexes = map (map glob_regexp) (acl_Denied acl)\<rparr>"

lemma OnServerACLUpdate_ok:
  assumes "regexps_ok s"
  shows "regexps_ok (OnServerACLUpdate ev s) \<and>
    map_of (acls (OnServerACLUpdate ev s)) room =
      (case decoded ev of Some acl \<Rightarrow> if se_RoomID ev = room then Some (compiled acl) else map_of (acls s) room
       | None \<Rightarrow> map_of (acls s) room)"
proof (cases "decoded ev")
  case None
  then show ?thesis using assms by (auto simp: OnServerACLUpdate_def decoded_def split: prod.splits if_splits)
next
  case (Some acl)
  obtain s1 where 1: "compile_all (acl_Allowed acl) s = (map (map glob_regexp) (acl_Allowed acl), s1)" "regexps_ok s1" "acls s1 = acls s"
    using compile_all_ok [OF assms] by blast
  obtain s2 where 2: "compile_all (acl_Denied acl) s1 = (map (map glob_regexp) (acl_Denied acl), s2)" "regexps_ok s2" "acls s2 = acls s1"
    using compile_all_ok [OF 1(2)] by blast
  have "OnServerACLUpdate ev s = s2\<lparr>acls := AList.update (se_RoomID ev) (compiled acl) (acls s)\<rparr>"
    using Some 1 2 by (auto simp: OnServerACLUpdate_def decoded_def compiled_def split: prod.splits if_splits)
  then show ?thesis using Some 2 by (auto simp: regexps_ok_def map_simps)
qed

text \<open>The list in force in a room: that of the last event whose content is well-formed.\<close>

fun acl_of_room :: "string \<Rightarrow> StrippedEvent list \<Rightarrow> ServerACL option" where
  "acl_of_room room [] = None"
| "acl_of_room room (ev # evs) =
     (case acl_of_room room evs of
        Some acl \<Rightarrow> Some acl
      | None \<Rightarrow> if se_RoomID ev = room then decoded ev else None)"

lemma acl_of_room_snoc:
  "acl_of_room room (evs @ [ev]) =
     (case decoded ev of Some acl \<Rightarrow> if se_RoomID ev = room then Some acl else acl_of_room room evs
      | None \<Rightarrow> acl_of_room room evs)"
  by (induction evs) (auto split: option.splits)

lemma updates_ok:
  "regexps_ok (fold OnServerACLUpdate evs empty_ServerACLs) \<and>
   map_of (acls (fold OnServerACLUpdate evs empty_ServerACLs)) room = map_option compiled (acl_of_room room evs)"
proof (induction evs rule: rev_induct)
  case Nil
  show ?case by (simp add: empty_ServerACLs_def regexps_ok_def)
next
  case (snoc ev evs)
  then show ?case using OnServerACLUpdate_ok [of "fold OnServerACLUpdate evs empty_ServerACLs" ev room]
    by (auto simp: acl_of_room_snoc split: option.splits)
qed

definition ip_literal :: "string \<Rightarrow> bool" where
  "ip_literal host \<longleftrightarrow> CHR ''/'' \<notin> set host \<and> ParseIP host \<noteq> None"

lemma ParseCIDR_literal: "ParseCIDR_ok (host @ ''/0'') \<longleftrightarrow> ip_literal host"
proof (cases "CHR ''/'' \<in> set host")
  case True
  then obtain a b where "host = a @ CHR ''/'' # b" "CHR ''/'' \<notin> set a" by (meson split_list_first)
  then have "strings_Cut CHR ''/'' (host @ ''/0'') = Some (a, b @ ''/0'')" by (simp add: strings_Cut_Some)
  then show ?thesis using True by (simp add: ParseCIDR_ok_def ip_literal_def is_digit_def)
next
  case False
  then have "strings_Cut CHR ''/'' (host @ ''/0'') = Some (host, ''0'')" by (simp add: strings_Cut_Some)
  then show ?thesis using False by (simp add: ParseCIDR_ok_def ip_literal_def is_digit_def digit_val_def)
qed

lemma set_host_only: "set (host_only name) \<subseteq> set name"
  by (auto simp: host_only_def SplitHostPort_def strings_CutLast_Some strings_Cut_Some tl_append
      split: option.splits if_splits list.splits dest: list.set_sel(2))

text \<open>
  C32. After any sequence of list events, a server is banned from a room exactly when the room has a
  list, that of the last well-formed event, and the host name (without port) is an IP literal
  while those are not allowed, or an entry of the deny list matches some part of it, or no
  entry of the allow list does. The deny list comes first, and a server that no list names is banned.
\<close>

theorem IsServerBannedFromRoom_exact:
  assumes "newline \<notin> set name"
  shows "IsServerBannedFromRoom name room (fold OnServerACLUpdate evs empty_ServerACLs) \<longleftrightarrow>
    (case acl_of_room room evs of
       None \<Rightarrow> False
     | Some acl \<Rightarrow>
         \<not> acl_AllowIPLiterals acl \<and> ip_literal (host_only name) \<or>
         (\<exists>p \<in> set (acl_Denied acl). glob_somewhere p (host_only name)) \<or>
         (\<forall>p \<in> set (acl_Allowed acl). \<not> glob_somewhere p (host_only name)))"
proof -
  have n: "newline \<notin> set (host_only name)" using assms set_host_only by blast
  show ?thesis using updates_ok [of evs room]
    by (auto simp: IsServerBannedFromRoom_def compiled_def ParseCIDR_literal MatchString_glob [OF n] list_ex_iff Let_def
        split: option.splits)
qed

definition sample_acl :: StrippedEvent where
  "sample_acl = \<lparr>se_RoomID = ''!r:x'', se_EventType = ''m.room.server_acl'', se_StateKey = [],
     se_ContentValue = Some (JObj [(''allow'', JArr [JStr ''*'']), (''allow_ip_literals'', JBool False),
       (''deny'', JArr [JStr ''hello.world'', JStr ''*.hello.world''])])\<rparr>"

lemma sample_acl_decoded:
  "decoded sample_acl = Some \<lparr>acl_Allowed = [''*''], acl_Denied = [''hello.world'', ''*.hello.world''], acl_AllowIPLiterals = False\<rparr>"
  by code_simp

lemma sample_acl_stored:
  "map_of (acls (OnServerACLUpdate sample_acl empty_ServerACLs)) ''!r:x'' =
     Some (compiled \<lparr>acl_Allowed = [''*''], acl_Denied = [''hello.world'', ''*.hello.world''], acl_AllowIPLiterals = False\<rparr>)"
  using OnServerACLUpdate_ok [of empty_ServerACLs sample_acl "''!r:x''"]
  by (simp add: sample_acl_decoded empty_ServerACLs_def regexps_ok_def) (simp add: sample_acl_def)

lemmas banned_simps = IsServerBannedFromRoom_def sample_acl_stored compiled_def glob_regexp_def host_only_def
  SplitHostPort_def strings_CutLast_def ParseCIDR_literal ip_literal_def Let_def ParseIP_def

lemma sample_banned:
  "\<not> IsServerBannedFromRoom ''matrix.org:8448'' ''!r:x'' (OnServerACLUpdate sample_acl empty_ServerACLs)"
  "IsServerBannedFromRoom ''x.hello.world'' ''!r:x'' (OnServerACLUpdate sample_acl empty_ServerACLs)"
  by (simp_all add: banned_simps parse_ipv4_def ipv4_field_def is_digit_def)

text \<open>
  The expressions have no anchors: a denied name is denied inside of other names too, although as a
  glob it does not match them. An IPv6 literal is recognised only when a port follows it.
\<close>

lemma deny_matches_inside:
  "IsServerBannedFromRoom ''hello.world.example.org'' ''!r:x'' (OnServerACLUpdate sample_acl empty_ServerACLs)"
  "\<not> glob ''hello.world'' ''hello.world.example.org''" "\<not> glob ''*.hello.world'' ''hello.world.example.org''"
  by (simp_all add: banned_simps parse_ipv4_def ipv4_field_def is_digit_def)

lemma ipv6_literal_needs_port:
  "IsServerBannedFromRoom ''[2001:db8::1]:8448'' ''!r:x'' (OnServerACLUpdate sample_acl empty_ServerACLs)"
  "\<not> IsServerBannedFromRoom ''[2001:db8::1]'' ''!r:x'' (OnServerACLUpdate sample_acl empty_ServerACLs)"
  by (simp_all add: banned_simps parse_ipv6_def numeral_eq_Suc is_hex_def Let_def)

theorem IsServerBannedFromRoom_exact_witness:
  "\<exists>p \<in> {''hello.world'', ''*.hello.world''}. glob_somewhere p (host_only ''x.hello.world'')"
proof -
  have host: "host_only ''x.hello.world'' = ''x.hello.world''"
    by (simp add: host_only_def SplitHostPort_def strings_CutLast_def)
  have "\<not> ip_literal ''x.hello.world''"
    by (simp add: ip_literal_def ParseIP_def parse_ipv4_def ipv4_field_def is_digit_def)
  moreover have "glob_somewhere ''*'' ''x.hello.world''"
    by (subst MatchString_glob [symmetric]) (simp_all add: glob_regexp_def)
  moreover have "se_RoomID sample_acl = ''!r:x''" by (simp add: sample_acl_def)
  ultimately show ?thesis
    using IsServerBannedFromRoom_exact [of "''x.hello.world''" "''!r:x''" "[sample_acl]"] sample_banned(2)
    by (simp add: sample_acl_decoded host)
qed

end
