(* ===== verification/InputEvents.thy ===== *)
theory InputEvents
  imports RoomQueries LatestEvents ServerACLs
begin

text \<open>
  Taking in an event (\<^verbatim>\<open>processRoomEvent\<close> of \<^verbatim>\<open>roomserver/internal/input/input_events.go\<close>): the
  event is checked against its auth events, the state before it and the current state, stored,
  given its state, and, unless it was rejected or soft-failed, made part of the room.

  The steps work on the tables, the lists of banned servers and the output log; each database call
  commits by itself, so what was written stays when a later step fails. What the function asks of
  other servers and other components is the record \<open>outside\<close>: the servers in the room, the fetching
  of missing events and of their state (\<^verbatim>\<open>input_missing.go\<close>), the auth chain that other servers
  offer, signature checks, redaction, room keys, the tables of a room upgrade and the leave events of
  guests. Logging and tracing are left out.
\<close>

section \<open>State and outside\<close>

definition MRoomServerACL :: string where
  "MRoomServerACL = ''m.room.server_acl''"

datatype input_output = RoomOutput OutputEvent | OldRoomEvent PDU string | RedactedEvent string PDU

datatype Kind = KindOutlier | KindNew | KindOld

record InputRoomEvent =
  ire_Kind :: Kind
  ire_Event :: PDU
  ire_Origin :: string
  ire_HasState :: bool
  ire_StateEventIDs :: "string list"

record inputer =
  in_db :: serverDB
  in_acls :: ServerACLs
  in_output :: "input_output list"
  in_queue :: "InputRoomEvent list"

record outside =
  o_env :: input_env
  o_expired :: bool
  o_joinedHosts :: "string \<Rightarrow> string list outcome"
  o_servers :: "string range_order"
  o_missingState :: "RoomInfoRow option \<Rightarrow> string list \<Rightarrow> InputRoomEvent \<Rightarrow> inputer
    \<Rightarrow> ((PDU list option \<times> goerr option) outcome \<times> inputer) option"
  o_eventAuth :: "string \<Rightarrow> PDU \<Rightarrow> PDU list outcome"
  o_verify :: "PDU \<Rightarrow> bool"
  o_redact :: "PDU \<Rightarrow> PDU"
  o_storeKey :: "string \<Rightarrow> UserID \<Rightarrow> RoomID \<Rightarrow> unit outcome"
  o_virtualHosts :: "string list"
  o_upgradeRoom :: "PDU \<Rightarrow> unit outcome"
  o_kickGuests :: "PDU \<Rightarrow> RoomInfo \<Rightarrow> serverDB \<Rightarrow> InputRoomEvent list outcome"

abbreviation o_edv :: "outside \<Rightarrow> ed25519_verifier" where
  "o_edv out \<equiv> env_edv (ie_resolution (o_env out))"

abbreviation o_q :: "outside \<Rightarrow> UserIDForSender" where
  "o_q out \<equiv> env_q (ie_resolution (o_env out))"

text \<open>A step may run out of fuel; otherwise it has an outcome and leaves a state.\<close>

type_synonym 'a process = "inputer \<Rightarrow> ('a outcome \<times> inputer) option"

definition process_then :: "'a process \<Rightarrow> ('a \<Rightarrow> 'b process) \<Rightarrow> 'b process" where
  "process_then m f s =
     (case m s of
        None \<Rightarrow> None
      | Some (Ok x, s) \<Rightarrow> f x s
      | Some (Err e, s) \<Rightarrow> Some (Err e, s)
      | Some (Panic, s) \<Rightarrow> Some (Panic, s))"

definition finish :: "'a outcome \<Rightarrow> 'a process" where
  "finish r s = Some (r, s)"

definition on_db :: "(serverDB \<Rightarrow> 'a \<times> serverDB) \<Rightarrow> 'a process" where
  "on_db f s = (case f (in_db s) of (x, db) \<Rightarrow> Some (Ok x, s\<lparr>in_db := db\<rparr>))"

definition on_db_outcome :: "(serverDB \<Rightarrow> 'a outcome \<times> serverDB) \<Rightarrow> 'a process" where
  "on_db_outcome f s = (case f (in_db s) of (r, db) \<Rightarrow> Some (r, s\<lparr>in_db := db\<rparr>))"

text \<open>A transaction: the tables change when it succeeds.\<close>

definition transaction :: "(serverDB \<Rightarrow> ('a \<times> serverDB) outcome option) \<Rightarrow> 'a process" where
  "transaction f s =
     (case f (in_db s) of
        None \<Rightarrow> None
      | Some (Ok (x, db)) \<Rightarrow> Some (Ok x, s\<lparr>in_db := db\<rparr>)
      | Some (Err e) \<Rightarrow> Some (Err e, s)
      | Some Panic \<Rightarrow> Some (Panic, s))"

text \<open>
  \<^verbatim>\<open>ProduceRoomEvents\<close> of \<^verbatim>\<open>roomserver/producers/roomevent.go\<close>: the lists of banned servers among new events
  are taken over when the function returns, the last one first. Publishing succeeds in the model.
\<close>

definition stripped_acl :: "PDU \<Rightarrow> StrippedEvent" where
  "stripped_acl ev = \<lparr>se_RoomID = room_raw (EventRoomID ev), se_EventType = EventType ev, se_StateKey = the (StateKey ev),
     se_ContentValue = Content ev\<rparr>"

definition acl_update :: "input_output \<Rightarrow> StrippedEvent option" where
  "acl_update update =
     (case update of
        RoomOutput (NewRoomEvent new) \<Rightarrow>
          let ev = ore_Event new in
          if EventType ev = MRoomServerACL \<and> StateKeyEquals ev [] then Some (stripped_acl ev) else None
      | _ \<Rightarrow> None)"

definition ProduceRoomEvents :: "input_output list \<Rightarrow> unit process" where
  "ProduceRoomEvents updates s = Some (Ok (), s\<lparr>in_output := in_output s @ updates,
     in_acls := fold OnServerACLUpdate (rev (List.map_filter acl_update updates)) (in_acls s)\<rparr>)"

section \<open>Auth events\<close>

type_synonym known_events = "(string, int \<times> PDU) gomap"

text \<open>The auth events that are stored, and whether some are not.\<close>

fun known_auth_events :: "RoomInfo option \<Rightarrow> stateStore \<Rightarrow> string list \<Rightarrow> known_events \<Rightarrow> AuthEvents \<Rightarrow> bool
    \<Rightarrow> (known_events \<times> AuthEvents \<times> bool) outcome" where
  "known_auth_events roomInfo db [] known auth unknown = Ok (known, auth, unknown)"
| "known_auth_events roomInfo db (authEventID # ids) known auth unknown =
     (case (roomInfo, EventsFromIDs [authEventID] db) of
        (Some info, Ok (ev # _)) \<Rightarrow>
          and_then (case IsEventRejected (ri_RoomNID info) (EventID (snd ev)) db of
              Ok b \<Rightarrow> Ok b
            | Err e \<Rightarrow> if e = GoError ''sql: no rows in result set'' then Ok False else Err e
            | Panic \<Rightarrow> Panic) (\<lambda>isRejected.
          and_then (if isRejected then Ok auth else AddEvent auth (snd ev)) (\<lambda>auth.
            known_auth_events roomInfo db ids (AList.update authEventID ev known) auth unknown))
      | _ \<Rightarrow> known_auth_events roomInfo db ids known auth True)"

fun first_answer :: "(string \<Rightarrow> PDU list outcome) \<Rightarrow> string list \<Rightarrow> PDU list option" where
  "first_answer ask [] = None"
| "first_answer ask (server # servers) = (case ask server of Ok evs \<Rightarrow> Some evs | _ \<Rightarrow> first_answer ask servers)"

text \<open>Storing one event of the auth chain. Its state key NID is looked up for the state key of the event that is taken in.\<close>

definition store_auth_event :: "outside \<Rightarrow> PDU \<Rightarrow> PDU \<Rightarrow> RoomInfo option \<Rightarrow> known_events \<Rightarrow> AuthEvents
    \<Rightarrow> (RoomInfo option \<times> known_events \<times> AuthEvents) process" where
  "store_auth_event out event authEvent roomInfo known auth =
     (if map_of known (EventID authEvent) \<noteq> None \<or> \<not> o_verify out authEvent \<or>
         list_ex (\<lambda>k. map_of known k = None) (AuthEventIDs authEvent)
      then finish (Ok (roomInfo, known, auth))
      else
        (case Allowed (o_edv out) (o_q out) authEvent (AuthEvents_provider 0 auth) of
           Panic \<Rightarrow> finish Panic
         | verdict \<Rightarrow>
             let isRejected = (verdict \<noteq> Ok ()) in
             process_then (case roomInfo of
                 Some info \<Rightarrow> finish (Ok info)
               | None \<Rightarrow> transaction (\<lambda>db. Some (GetOrCreateRoomInfo authEvent db))) (\<lambda>info.
             process_then (on_db (GetOrCreateEventTypeNID (EventType authEvent))) (\<lambda>eventTypeNID.
             process_then (on_db (GetOrCreateEventStateKeyNID (StateKey event))) (\<lambda>eventStateKeyNID.
             process_then (on_db (\<lambda>db. case StoreEvent authEvent (ri_RoomNID info) eventTypeNID eventStateKeyNID isRejected (sd_room db) of
                 (eventNID, _, room) \<Rightarrow> (eventNID, db\<lparr>sd_room := room\<rparr>))) (\<lambda>eventNID.
             process_then (finish (if isRejected then Ok auth else AddEvent auth authEvent)) (\<lambda>auth.
               finish (Ok (Some info, AList.update (EventID authEvent) (eventNID, authEvent) known, auth)))))))))"

fun store_auth_events :: "outside \<Rightarrow> PDU \<Rightarrow> PDU list \<Rightarrow> RoomInfo option \<Rightarrow> known_events \<Rightarrow> AuthEvents
    \<Rightarrow> (known_events \<times> AuthEvents) process" where
  "store_auth_events out event [] roomInfo known auth = finish (Ok (known, auth))"
| "store_auth_events out event (authEvent # rest) roomInfo known auth =
     process_then (store_auth_event out event authEvent roomInfo known auth) (\<lambda>(roomInfo, known, auth).
       store_auth_events out event rest roomInfo known auth)"

definition fetchAuthEvents :: "outside \<Rightarrow> RoomInfo option \<Rightarrow> PDU \<Rightarrow> string list \<Rightarrow> (known_events \<times> AuthEvents) process" where
  "fetchAuthEvents out roomInfo event servers s =
     process_then (finish (known_auth_events roomInfo (store_of (in_db s)) (AuthEventIDs event) [] empty_AuthEvents False))
       (\<lambda>(known, auth, unknown).
         if \<not> unknown then finish (Ok (known, auth))
         else (case first_answer (\<lambda>server. o_eventAuth out server event) servers of
             None \<Rightarrow> finish (Err (GoError ''no servers provided event auth for event ID %q, tried servers %v''))
           | Some chain \<Rightarrow>
               process_then (finish (ReverseTopologicalOrdering (env_rng (ie_resolution (o_env out))) chain TopologicalOrderByAuthEvents))
                 (\<lambda>ordered. store_auth_events out event ordered roomInfo known auth))) s"

section \<open>The state before\<close>

fun visibility_before :: "PDU list \<Rightarrow> string" where
  "visibility_before [] = HistoryVisibilityShared"
| "visibility_before (e # es) =
     (if EventType e \<noteq> MRoomHistoryVisibility \<or> \<not> StateKeyEquals e [] then visibility_before es
      else (case HistoryVisibility_of e of Ok hisVis \<Rightarrow> hisVis | _ \<Rightarrow> visibility_before es))"

definition is_create :: "PDU \<Rightarrow> bool" where
  "is_create event \<longleftrightarrow> EventType event = MRoomCreate \<and> StateKeyEquals event []"

text \<open>The state before the event, or the reason to reject it.\<close>

definition stateBeforeEvent :: "outside \<Rightarrow> InputRoomEvent \<Rightarrow> bool \<Rightarrow> (goerr + PDU list) process" where
  "stateBeforeEvent out input missingPrev s =
     (let event = ire_Event input; roomID = room_raw (EventRoomID event) in
      if ire_HasState input then
        process_then (finish (EventsFromIDs (ire_StateEventIDs input) (store_of (in_db s)))) (\<lambda>evs. finish (Ok (Inr (map snd evs)))) s
      else if missingPrev then finish (Ok (Inl (GoError ''event %q has missing prev events''))) s
      else if PrevEventIDs event = [] then finish (Ok (Inl (GoError ''event %q must have prev events''))) s
      else
        process_then (transaction (QueryStateAfterEvents (ie_resolution (o_env out)) roomID (PrevEventIDs event)
            (Tuples (StateNeededForAuth [event]) @ [(MRoomHistoryVisibility, [])]))) (\<lambda>res.
          finish (Ok (if \<not> qs_RoomExists res then Inl (GoError ''room %q does not exist'')
                      else if \<not> qs_PrevEventsExist res then Inl (GoError ''prev events of %q are not known'')
                      else Inr (qs_StateEvents res)))) s)"

definition processStateBefore :: "outside \<Rightarrow> InputRoomEvent \<Rightarrow> bool \<Rightarrow> (string \<times> goerr option) process" where
  "processStateBefore out input missingPrev =
     (if is_create (ire_Event input) then finish (Ok (HistoryVisibilityShared, None))
      else process_then (stateBeforeEvent out input missingPrev) (\<lambda>before.
        case before of
          Inl rejectionErr \<Rightarrow> finish (Ok (HistoryVisibilityShared, Some rejectionErr))
        | Inr evs \<Rightarrow>
            process_then (finish (NewAuthEvents evs)) (\<lambda>auth.
              case Allowed (o_edv out) (o_q out) (ire_Event input) (AuthEvents_provider 0 auth) of
                Err e \<Rightarrow> finish (Ok (HistoryVisibilityShared, Some e))
              | Panic \<Rightarrow> finish Panic
              | Ok _ \<Rightarrow> finish (Ok (visibility_before evs, None)))))"

definition calculateAndSetState :: "outside \<Rightarrow> InputRoomEvent \<Rightarrow> RoomInfo \<Rightarrow> StateAtEvent \<Rightarrow> StateAtEvent process" where
  "calculateAndSetState out input roomInfo stateAtEvent =
     transaction (\<lambda>db.
       run_then (Some (NewRoomUpdater roomInfo (sd_room db))) (\<lambda>_.
       run_then
         (if ire_HasState input
          then Some (addState (ie_hash (o_env out)) (ri_RoomNID roomInfo) []
            (DeduplicateStateEntries (StateEntriesForEventIDs (ire_StateEventIDs input) (store_of db))) (store_of db))
          else run_then (CalculateAndStoreStateBeforeEvent (ie_resolution (o_env out)) (ie_hash (o_env out)) (ire_Event input)
              (NewStateResolution (store_of db) (Some roomInfo))) (\<lambda>(nid, v). Some (Ok (nid, v_db v)))) (\<lambda>(nid, st).
       Some (Ok (StateAtEvent nid (IsRejected stateAtEvent) (sae_entry stateAtEvent),
         db\<lparr>sd_room := SetState (EventNID (sae_entry stateAtEvent)) nid ((sd_room db)\<lparr>rd_store := st\<rparr>)\<rparr>)))))"

section \<open>Checking\<close>

text \<open>The servers to ask: where the event came from, its sender's server, then the others in the room.\<close>

definition servers_to_ask :: "outside \<Rightarrow> InputRoomEvent \<Rightarrow> UserID option \<Rightarrow> string list \<Rightarrow> string list" where
  "servers_to_ask out input sender serverNames =
     (let self = ie_serverName (o_env out);
          servers = filter (\<lambda>n. n \<noteq> self) (remdups serverNames);
          origin = (if ire_Origin input \<noteq> [] \<and> ire_Origin input \<noteq> self then [ire_Origin input] else []);
          domain = (case sender of
              Some u \<Rightarrow> if user_domain u \<noteq> ire_Origin input \<and> user_domain u \<noteq> self then [user_domain u] else []
            | None \<Rightarrow> [])
      in origin @ domain @ o_servers out 90 (filter (\<lambda>n. n \<notin> set (origin @ domain)) servers))"

text \<open>An outlier that is stored and was not rejected is not processed again.\<close>

definition seen_outlier :: "InputRoomEvent \<Rightarrow> RoomInfoRow option \<Rightarrow> serverDB \<Rightarrow> bool outcome" where
  "seen_outlier input roomInfo db =
     (case (ire_Kind input, roomInfo) of
        (KindOutlier, Some info) \<Rightarrow>
          (case IsEventRejected (ri_RoomNID (rir_info info)) (EventID (ire_Event input)) (store_of db) of
             Ok wasRejected \<Rightarrow> Ok (\<not> wasRejected)
           | Err e \<Rightarrow> if e = GoError ''sql: no rows in result set'' then Ok False else Err e
           | Panic \<Rightarrow> Panic)
      | _ \<Rightarrow> Ok False)"

definition with_state :: "PDU list option \<Rightarrow> InputRoomEvent \<Rightarrow> InputRoomEvent" where
  "with_state snapshot input =
     (case snapshot of
        None \<Rightarrow> input
      | Some evs \<Rightarrow> input\<lparr>ire_HasState := True, ire_StateEventIDs := map EventID evs\<rparr>)"

text \<open>Filling the gap before a new event: what is known afterwards, and the reason to reject it if that failed.\<close>

definition fill_gap :: "outside \<Rightarrow> RoomInfoRow option \<Rightarrow> InputRoomEvent \<Rightarrow> bool \<Rightarrow> string list
    \<Rightarrow> (InputRoomEvent \<times> bool \<times> goerr option) process" where
  "fill_gap out roomInfo input missingPrev servers =
     (if \<not> (missingPrev \<and> ire_Kind input = KindNew) then finish (Ok (input, missingPrev, None))
      else if servers = [] then finish (Ok (input, missingPrev, Some (GoError ''missing prev events and no other servers to ask'')))
      else process_then (o_missingState out roomInfo servers input) (\<lambda>(snapshot, err).
        case err of
          Some (ValidationError e True) \<Rightarrow> finish (Ok (with_state snapshot input, snapshot = None, err))
        | Some e \<Rightarrow> finish (Ok (input, missingPrev, err))
        | None \<Rightarrow> finish (Ok (with_state snapshot input, False, None))))"

record checked =
  ck_input :: InputRoomEvent
  ck_roomInfo :: "RoomInfoRow option"
  ck_sender :: "UserID option"
  ck_missingPrev :: bool
  ck_rejectionErr :: "goerr option"
  ck_softfail :: bool
  ck_visibility :: string

definition missing_before :: "InputRoomEvent \<Rightarrow> serverDB \<Rightarrow> bool \<times> bool" where
  "missing_before input db =
     (if is_create (ire_Event input) then (False, False)
      else (case MissingAuthPrevEvents (ire_Event input) (store_of db) of (missingAuthIDs, missingPrevIDs) \<Rightarrow>
        (missingAuthIDs \<noteq> [], \<not> ire_HasState input \<and> missingPrevIDs \<noteq> [])))"

definition gap_servers :: "outside \<Rightarrow> InputRoomEvent \<Rightarrow> UserID option \<Rightarrow> bool \<Rightarrow> string list outcome" where
  "gap_servers out input sender missing =
     (if missing
      then and_then (o_joinedHosts out (room_raw (EventRoomID (ire_Event input)))) (\<lambda>names. Ok (servers_to_ask out input sender names))
      else Ok [])"

definition check_auth :: "outside \<Rightarrow> RoomInfoRow option \<Rightarrow> PDU \<Rightarrow> string list \<Rightarrow> goerr option \<Rightarrow> goerr option process" where
  "check_auth out roomInfo event servers rejectionErr =
     process_then (fetchAuthEvents out (map_option rir_info roomInfo) event servers) (\<lambda>(known, auth).
       case Allowed (o_edv out) (o_q out) event (AuthEvents_provider 0 auth) of
         Panic \<Rightarrow> finish Panic
       | verdict \<Rightarrow>
           let rejectionErr = (case verdict of Err e \<Rightarrow> Some e | _ \<Rightarrow> rejectionErr) in
           if rejectionErr \<noteq> None \<and> list_ex (\<lambda>k. map_of known k = None) (AuthEventIDs event)
           then finish (Err (GoError ''missing auth event %s for event %s (type %q)''))
           else finish (Ok rejectionErr))"

text \<open>Against the auth events, the current state and the state before.\<close>

definition check_allowed :: "outside \<Rightarrow> RoomInfoRow option \<Rightarrow> UserID option \<Rightarrow> string list \<Rightarrow> InputRoomEvent \<Rightarrow> bool \<Rightarrow> goerr option
    \<Rightarrow> checked process" where
  "check_allowed out roomInfo sender servers input missingPrev rejectionErr =
     (let event = ire_Event input in
      process_then (check_auth out roomInfo event servers rejectionErr) (\<lambda>rejectionErr.
      process_then (if ire_Kind input = KindNew \<and> \<not> is_create event
                    then on_db_outcome (CheckForSoftFail (o_edv out) (o_q out) roomInfo event (ire_StateEventIDs input))
                    else finish (Ok False)) (\<lambda>softfail.
      process_then (if ire_Kind input \<noteq> KindOutlier \<and> rejectionErr = None \<and> \<not> is_create event
                    then processStateBefore out input missingPrev
                    else finish (Ok (HistoryVisibilityShared, rejectionErr))) (\<lambda>(historyVisibility, rejectionErr).
        finish (Ok \<lparr>ck_input = input, ck_roomInfo = roomInfo, ck_sender = sender, ck_missingPrev = missingPrev,
          ck_rejectionErr = rejectionErr, ck_softfail = softfail, ck_visibility = historyVisibility\<rparr>)))))"

definition check_event :: "outside \<Rightarrow> InputRoomEvent \<Rightarrow> checked option process" where
  "check_event out input s =
     (let event = ire_Event input; roomInfo = SelectRoomInfo (room_raw (EventRoomID event)) (in_db s) in
      if roomInfo = None \<and> \<not> is_create event then finish (Err (GoError ''room %s does not exist for event %s'')) s
      else
        process_then (finish (o_q out (EventRoomID event) (SenderID event))) (\<lambda>sender.
        process_then (finish (seen_outlier input roomInfo (in_db s))) (\<lambda>seen.
        if seen then finish (Ok None)
        else
          (case missing_before input (in_db s) of (missingAuth, missingPrev) \<Rightarrow>
          process_then (finish (gap_servers out input sender (missingAuth \<or> missingPrev))) (\<lambda>servers.
          process_then (fill_gap out roomInfo input missingPrev servers) (\<lambda>(input, missingPrev, rejectionErr).
          process_then (check_allowed out roomInfo sender servers input missingPrev rejectionErr) (\<lambda>ck. finish (Ok (Some ck)))))))) s)"

section \<open>Storing\<close>

definition IsLocalServerName :: "outside \<Rightarrow> string \<Rightarrow> bool" where
  "IsLocalServerName out serverName \<longleftrightarrow> serverName = ie_serverName (o_env out) \<or> serverName \<in> set (o_virtualHosts out)"

definition store_event :: "RoomInfoRow option \<Rightarrow> PDU \<Rightarrow> bool \<Rightarrow> (int \<times> StateAtEvent) process" where
  "store_event roomInfo event isRejected =
     process_then (case roomInfo of
         Some info \<Rightarrow> finish (Ok (rir_info info))
       | None \<Rightarrow> transaction (\<lambda>db. Some (GetOrCreateRoomInfo event db))) (\<lambda>info.
     process_then (on_db (GetOrCreateEventTypeNID (EventType event))) (\<lambda>eventTypeNID.
     process_then (on_db (GetOrCreateEventStateKeyNID (StateKey event))) (\<lambda>eventStateKeyNID.
       on_db (\<lambda>db. case StoreEvent event (ri_RoomNID info) eventTypeNID eventStateKeyNID isRejected (sd_room db) of
         (eventNID, stateAtEvent, room) \<Rightarrow> ((eventNID, stateAtEvent), db\<lparr>sd_room := room\<rparr>)))))"

text \<open>A redaction that storing the event completes.\<close>

definition redact_stored :: "outside \<Rightarrow> RoomInfo \<Rightarrow> int \<Rightarrow> PDU \<Rightarrow> (PDU \<times> PDU) option process" where
  "redact_stored out info eventNID event =
     transaction (\<lambda>db. Some (MaybeRedactEvent (o_redact out) (o_q out) (Some info) eventNID event
       (NewStateResolution (store_of db) (Some info)) db))"

text \<open>The key of a user in a room with pseudo IDs.\<close>

definition store_room_key :: "outside \<Rightarrow> PDU \<Rightarrow> unit outcome" where
  "store_room_key out event =
     (if Version event = RoomVersionPseudoIDs \<and> EventType event = MRoomMember
      then (case Unmarshal dec_MemberContent (Content event) zero_MemberContent of (mapping, err) \<Rightarrow>
        if err then Err (GoError ''json'')
        else (case mc_MXIDMapping mapping of
            None \<Rightarrow> Ok ()
          | Some mx \<Rightarrow> and_then (NewUserID (mx_UserID mx) True) (\<lambda>user. o_storeKey out (mx_UserRoomKey mx) user (EventRoomID event))))
      else Ok ())"

definition announce :: "outside \<Rightarrow> checked \<Rightarrow> RoomInfo \<Rightarrow> StateAtEvent \<Rightarrow> unit process" where
  "announce out ck info stateAtEvent =
     (let event = ire_Event (ck_input ck) in
      case ire_Kind (ck_input ck) of
        KindNew \<Rightarrow>
          process_then (transaction (\<lambda>db. run_then
              (updateLatestEvents (o_env out) info stateAtEvent event (ire_HasState (ck_input ck)) (sd_room db))
              (\<lambda>(updates, room). Some (Ok (updates, db\<lparr>sd_room := room\<rparr>))))) (\<lambda>updates.
            ProduceRoomEvents (map RoomOutput updates))
      | KindOld \<Rightarrow> ProduceRoomEvents [OldRoomEvent event (ck_visibility ck)]
      | KindOutlier \<Rightarrow> finish (Ok ()))"

text \<open>After a local join the list of banned servers is read again; an error is logged.\<close>

definition refresh_acls :: "outside \<Rightarrow> PDU \<Rightarrow> unit process" where
  "refresh_acls out event s =
     (if EventType event = MRoomMember \<and> Membership event = Ok Join
      then process_then (finish (deref (StateKey event))) (\<lambda>stateKey s.
        let serverName = (case SplitID CHR ''@'' stateKey of Ok (_, domain) \<Rightarrow> domain | _ \<Rightarrow> []) in
        if \<not> IsLocalServerName out serverName then finish (Ok ()) s
        else (case GetStateEvent (room_raw (EventRoomID event)) MRoomServerACL [] (in_db s) of
            (Panic, db) \<Rightarrow> Some (Panic, s\<lparr>in_db := db\<rparr>)
          | (Ok (Some aclEvent), db) \<Rightarrow>
              (if StateKey aclEvent = None then Some (Panic, s\<lparr>in_db := db\<rparr>)
               else Some (Ok (), s\<lparr>in_db := db, in_acls := OnServerACLUpdate (stripped_acl aclEvent) (in_acls s)\<rparr>))
          | (_, db) \<Rightarrow> Some (Ok (), s\<lparr>in_db := db\<rparr>))) s
      else finish (Ok ()) s)"

definition upgrade_remote :: "outside \<Rightarrow> UserID option \<Rightarrow> PDU \<Rightarrow> unit outcome" where
  "upgrade_remote out sender event =
     (let domain = (case sender of Some u \<Rightarrow> user_domain u | None \<Rightarrow> []) in
      if EventType event = ''m.room.tombstone'' \<and> StateKeyEquals event [] \<and> \<not> IsLocalServerName out domain
      then o_upgradeRoom out event else Ok ())"

text \<open>When guests may no longer join, leave events for those in the room are queued; an error is logged.\<close>

definition guest_access :: "PDU \<Rightarrow> string" where
  "guest_access event =
     (case Content event of
        Some (JObj members) \<Rightarrow> (case map_of members ''guest_access'' of Some (JStr v) \<Rightarrow> v | _ \<Rightarrow> [])
      | _ \<Rightarrow> [])"

definition kick_guests :: "outside \<Rightarrow> RoomInfo \<Rightarrow> PDU \<Rightarrow> unit process" where
  "kick_guests out info event s =
     (if EventType event = ''m.room.guest_access'' \<and> guest_access event \<noteq> ''can_join''
      then (case o_kickGuests out event info (in_db s) of
          Ok evs \<Rightarrow> Some (Ok (), s\<lparr>in_queue := in_queue s @ evs\<rparr>)
        | Err _ \<Rightarrow> Some (Ok (), s)
        | Panic \<Rightarrow> Some (Panic, s))
      else finish (Ok ()) s)"

text \<open>What an event that was accepted brings about.\<close>

definition accept :: "outside \<Rightarrow> checked \<Rightarrow> RoomInfo \<Rightarrow> StateAtEvent \<Rightarrow> (PDU \<times> PDU) option \<Rightarrow> unit process" where
  "accept out ck info stateAtEvent redaction =
     (let event = ire_Event (ck_input ck) in
      process_then (finish (store_room_key out event)) (\<lambda>_.
      process_then (announce out ck info stateAtEvent) (\<lambda>_.
      process_then (refresh_acls out event) (\<lambda>_.
      process_then (finish (upgrade_remote out (ck_sender ck) event)) (\<lambda>_.
      process_then (case redaction of
          Some (redactionEvent, redactedEvent) \<Rightarrow>
            if EventID redactedEvent \<noteq> [] then ProduceRoomEvents [RedactedEvent (EventID redactedEvent) redactionEvent]
            else finish (Ok ())
        | None \<Rightarrow> finish (Ok ())) (\<lambda>_.
        kick_guests out info event))))))"

fun error_text :: "goerr \<Rightarrow> string" where
  "error_text (NotAllowed t) = t"
| "error_text (GoError t) = t"
| "error_text (ValidationError t p) = t"
| "error_text (VerifySigError t) = t"
| "error_text (RejectedError t) = t"

definition finish_event :: "outside \<Rightarrow> checked \<Rightarrow> unit process" where
  "finish_event out ck =
     (let input = ck_input ck; event = ire_Event input; isRejected = (ck_rejectionErr ck \<noteq> None) in
      process_then (store_event (ck_roomInfo ck) event isRejected) (\<lambda>(eventNID, stateAtEvent).
      if ire_Kind input = KindOutlier then finish (Ok ())
      else
        (\<lambda>s. case SelectRoomInfo (room_raw (EventRoomID event)) (in_db s) of
          None \<Rightarrow> finish (Err (GoError ''updater.RoomInfo missing for room %s'')) s
        | Some row \<Rightarrow>
            (let info = rir_info row in
             process_then (if ire_HasState input \<or> \<not> ck_missingPrev ck \<and> BeforeStateSnapshotNID stateAtEvent = 0
                           then calculateAndSetState out input info stateAtEvent else finish (Ok stateAtEvent)) (\<lambda>stateAtEvent.
             process_then (if \<not> isRejected \<and> \<not> is_create event then redact_stored out info eventNID event
                           else finish (Ok None)) (\<lambda>redaction.
               case ck_rejectionErr ck of
                 Some e \<Rightarrow> finish (Err (RejectedError (error_text e)))
               | None \<Rightarrow> if ck_softfail ck then finish (Ok ()) else accept out ck info stateAtEvent redaction))) s)))"

definition processRoomEvent :: "outside \<Rightarrow> InputRoomEvent \<Rightarrow> unit process" where
  "processRoomEvent out input =
     (if o_expired out then finish (Err (GoError ''context deadline exceeded''))
      else process_then (check_event out input) (\<lambda>result.
        case result of None \<Rightarrow> finish (Ok ()) | Some ck \<Rightarrow> finish_event out ck))"

end
