(* ===== verification/InputMissing.thy ===== *)
theory InputMissing
  imports InputEvents StateResponses
begin

text \<open>
  Filling a gap before a new event (\<^verbatim>\<open>roomserver/internal/input/input_missing.go\<close>): the events between the
  known ones and the new one are asked of other servers; if they do not close the gap, the state at its
  far end is put together from what is stored and what other servers say, and rolled forward.

  What other servers answer is the record \<open>federation\<close>. Deadlines are not modelled. The workers that
  fetch events at the same time fetch different ones and only add them to a cache, so they are fetched
  one after the other here, in an order that is an argument. Errors that the code wraps are the error of
  the statement that wraps them, as the types of wrapped errors are not looked at.
\<close>

section \<open>Answers of other servers\<close>

text \<open>An event that is asked for: no answer, one that cannot be parsed, or an event, perhaps one that is too large.\<close>

datatype event_answer = NoAnswer | Unparsable | NotPersistable | Persistable PDU string | Parsed PDU

record federation =
  fed_MissingEvents :: "string \<Rightarrow> string list \<Rightarrow> PDU \<Rightarrow> PDU list outcome"
  fed_StateIDs :: "string \<Rightarrow> string \<Rightarrow> (string list \<times> string list) outcome"
  fed_State :: "string \<Rightarrow> string \<Rightarrow> StateResponse outcome"
  fed_Event :: "string \<Rightarrow> string \<Rightarrow> event_answer"

section \<open>The request\<close>

record missingStateReq =
  t_origin :: string
  t_roomInfo :: "RoomInfo option"
  t_servers :: "string list"
  t_hadEvents :: "string list"
  t_haveEvents :: "(string, PDU) gomap"

definition cacheAndReturn :: "PDU \<Rightarrow> missingStateReq \<Rightarrow> PDU \<times> missingStateReq" where
  "cacheAndReturn ev t =
     (case map_of (t_haveEvents t) (EventID ev) of
        Some cached \<Rightarrow> (cached, t)
      | None \<Rightarrow> (ev, t\<lparr>t_haveEvents := AList.update (EventID ev) ev (t_haveEvents t)\<rparr>))"

definition hadEvent :: "string \<Rightarrow> missingStateReq \<Rightarrow> missingStateReq" where
  "hadEvent eventID t = t\<lparr>t_hadEvents := List.insert eventID (t_hadEvents t)\<rparr>"

fun cache_all :: "bool \<Rightarrow> PDU list \<Rightarrow> missingStateReq \<Rightarrow> PDU list \<times> missingStateReq" where
  "cache_all had [] t = ([], t)"
| "cache_all had (e # es) t =
     (case cacheAndReturn e t of (e', t) \<Rightarrow>
        (case cache_all had es (if had then hadEvent (EventID e) t else t) of (es', t) \<Rightarrow> (e' # es', t)))"

section \<open>Events\<close>

fun ask_for_event :: "(string \<Rightarrow> event_answer) \<Rightarrow> string list \<Rightarrow> (PDU \<times> goerr option) option" where
  "ask_for_event ask [] = None"
| "ask_for_event ask (server # servers) =
     (case ask server of
        Parsed e \<Rightarrow> Some (e, None)
      | Persistable e msg \<Rightarrow> Some (e, Some (ValidationError msg True))
      | NotPersistable \<Rightarrow> None
      | _ \<Rightarrow> ask_for_event ask servers)"

text \<open>An event, and the reason why it is not valid if it can be kept all the same.\<close>

definition lookupEvent :: "federation \<Rightarrow> outside \<Rightarrow> RoomVersion \<Rightarrow> string \<Rightarrow> bool \<Rightarrow> stateStore \<Rightarrow> missingStateReq
    \<Rightarrow> (PDU \<times> goerr option) outcome \<times> missingStateReq" where
  "lookupEvent fed out roomVersion missingEventID localFirst db t =
     (case GetRoomVersion roomVersion of
        Err e \<Rightarrow> (Err e, t)
      | Panic \<Rightarrow> (Panic, t)
      | Ok _ \<Rightarrow>
          (case (if localFirst \<and> t_roomInfo t \<noteq> None then EventsFromIDs [missingEventID] db else Ok []) of
             Ok [(_, e)] \<Rightarrow> (Ok (e, None), t)
           | Panic \<Rightarrow> (Panic, t)
           | _ \<Rightarrow>
               (case ask_for_event (\<lambda>server. fed_Event fed server missingEventID) (t_servers t) of
                  None \<Rightarrow> (Err (GoError ''not able to find event via %d server(s)''), t)
                | Some (event, validationError) \<Rightarrow>
                    if \<not> o_verify out event then (Err (VerifySigError (EventID event)), t)
                    else (case cacheAndReturn event t of (event, t) \<Rightarrow> (Ok (event, validationError), t)))))"

section \<open>State before an event, from other servers\<close>

fun ask_for_state_ids :: "(string \<Rightarrow> (string list \<times> string list) outcome) \<Rightarrow> string list \<Rightarrow> (string list \<times> string list) outcome" where
  "ask_for_state_ids ask [] = Panic"
| "ask_for_state_ids ask (server # servers) =
     (case ask server of
        Ok ids \<Rightarrow> Ok ids
      | _ \<Rightarrow> if servers = [] then Err (GoError ''t.federation.LookupStateIDs tried %d server(s), last error: %w'')
            else ask_for_state_ids ask servers)"

definition createRespStateFromStateIDs :: "string list \<times> string list \<Rightarrow> missingStateReq \<Rightarrow> StateResponse" where
  "createRespStateFromStateIDs ids t =
     \<lparr>resp_AuthEvents = List.map_filter (map_of (t_haveEvents t)) (snd ids),
      resp_StateEvents = List.map_filter (map_of (t_haveEvents t)) (fst ids)\<rparr>"

definition lookupMissingStateViaState :: "federation \<Rightarrow> outside \<Rightarrow> string \<Rightarrow> missingStateReq \<Rightarrow> StateResponse outcome option" where
  "lookupMissingStateViaState fed out eventID t =
     run_then (Some (fed_State fed (t_origin t) eventID)) (\<lambda>r.
     run_then (CheckStateResponse 0 (o_edv out) (o_verify out) r None (o_q out)) (\<lambda>(authEvents, stateEvents).
       Some (Ok \<lparr>resp_AuthEvents = authEvents, resp_StateEvents = stateEvents\<rparr>)))"

text \<open>Events that cannot be fetched are left out.\<close>

definition fetch :: "federation \<Rightarrow> outside \<Rightarrow> RoomVersion \<Rightarrow> stateStore \<Rightarrow> string \<Rightarrow> missingStateReq \<Rightarrow> missingStateReq" where
  "fetch fed out roomVersion db missingEventID t =
     (case lookupEvent fed out roomVersion missingEventID False db t of
        (Ok (h, _), t) \<Rightarrow> snd (cacheAndReturn h t)
      | (_, t) \<Rightarrow> t)"

definition concurrentRequests :: nat where
  "concurrentRequests = 8"

definition lookupMissingStateViaStateIDs :: "federation \<Rightarrow> outside \<Rightarrow> RoomVersion \<Rightarrow> string \<Rightarrow> stateStore \<Rightarrow> missingStateReq
    \<Rightarrow> (StateResponse outcome \<times> missingStateReq) option" where
  "lookupMissingStateViaStateIDs fed out roomVersion eventID db t =
     (case ask_for_state_ids (\<lambda>server. fed_StateIDs fed server eventID) (t_servers t) of
        Panic \<Rightarrow> Some (Panic, t)
      | Err e \<Rightarrow> Some (Err e, t)
      | Ok (stateIDs, authIDs) \<Rightarrow>
          let wantIDs = stateIDs @ authIDs;
              missingEventList = remdups (filter (\<lambda>sid. map_of (t_haveEvents t) sid = None) wantIDs) in
          (case (if t_roomInfo t = None then Err (GoError ''room info is invalid'') else EventsFromIDs missingEventList db) of
             Panic \<Rightarrow> Some (Panic, t)
           | Err _ \<Rightarrow> Some (Err (GoError ''t.db.EventsFromIDs: %w''), t)
           | Ok events \<Rightarrow>
               (case cache_all True (map snd events) t of (cached, t) \<Rightarrow>
                  let missing = filter (\<lambda>sid. sid \<notin> set (map EventID cached)) missingEventList in
                  if concurrentRequests < length missing \<and> length wantIDs div 2 < length missing
                  then map_option (\<lambda>r. (r, t)) (lookupMissingStateViaState fed out eventID t)
                  else
                    let t = fold (fetch fed out roomVersion db) (o_servers out 91 missing) t
                    in Some (Ok (createRespStateFromStateIDs (stateIDs, authIDs) t), t))))"

section \<open>State after an event\<close>

text \<open>
  From what is stored. The list of state events is emptied before their auth events are looked for, so
  none are found.
\<close>

definition lookupStateAfterEventLocally :: "string \<Rightarrow> stateStore \<Rightarrow> missingStateReq \<Rightarrow> StateResponse option outcome \<times> missingStateReq" where
  "lookupStateAfterEventLocally eventID db t =
     (case and_then (StateAtEventIDs [eventID] db) (\<lambda>stateAtEvents. LoadCombinedStateAfterEvents stateAtEvents db) of
        Panic \<Rightarrow> (Panic, t)
      | Err _ \<Rightarrow> (Ok None, t)
      | Ok loaded \<Rightarrow>
          (case (if t_roomInfo t = None then Err (GoError ''room info is invalid'') else Events (map EventNID loaded) db) of
             Panic \<Rightarrow> (Panic, t)
           | Err _ \<Rightarrow> (Ok None, t)
           | Ok stateEvents \<Rightarrow>
               (case cache_all True (map snd stateEvents) t of (cached, t) \<Rightarrow>
                  (Ok (Some \<lparr>resp_AuthEvents = [], resp_StateEvents = cached\<rparr>), t))))"

fun replace_state :: "PDU \<Rightarrow> PDU list \<Rightarrow> PDU list" where
  "replace_state h [] = [h]"
| "replace_state h (se # ses) = (if tuple_of se = tuple_of h then h # ses else se # replace_state h ses)"

definition add_to_state :: "PDU \<Rightarrow> StateResponse \<Rightarrow> StateResponse" where
  "add_to_state h r = (if StateKey h = None then r else r\<lparr>resp_StateEvents := replace_state h (resp_StateEvents r)\<rparr>)"

text \<open>The state, whether it can be trusted, and why the event is not valid if it is not.\<close>

definition lookupStateAfterEvent :: "federation \<Rightarrow> outside \<Rightarrow> RoomVersion \<Rightarrow> string \<Rightarrow> stateStore \<Rightarrow> missingStateReq
    \<Rightarrow> ((StateResponse \<times> bool \<times> goerr option) outcome \<times> missingStateReq) option" where
  "lookupStateAfterEvent fed out roomVersion eventID db t =
     (case lookupStateAfterEventLocally eventID db t of
        (Panic, t) \<Rightarrow> Some (Panic, t)
      | (Ok (Some respState), t) \<Rightarrow> Some (Ok (respState, True, None), t)
      | (_, t) \<Rightarrow>
          (case lookupMissingStateViaStateIDs fed out roomVersion eventID db t of
             None \<Rightarrow> None
           | Some (Panic, t) \<Rightarrow> Some (Panic, t)
           | Some (Err _, t) \<Rightarrow> Some (Err (GoError ''t.lookupStateBeforeEvent: %w''), t)
           | Some (Ok respState, t) \<Rightarrow>
               (case lookupEvent fed out roomVersion eventID False db t of
                  (Panic, t) \<Rightarrow> Some (Panic, t)
                | (Err (ValidationError msg p), t) \<Rightarrow> Some (Err (ValidationError msg p), t)
                | (Err (VerifySigError _), t) \<Rightarrow> Some (Ok (respState, False, None), t)
                | (Err _, t) \<Rightarrow> Some (Err (GoError ''t.lookupEvent: %w''), t)
                | (Ok (h, validationError), t) \<Rightarrow>
                    (case cacheAndReturn h t of (h, t) \<Rightarrow> Some (Ok (add_to_state h respState, False, validationError), t)))))"

section \<open>State before an event\<close>

definition checkAllowedByState :: "outside \<Rightarrow> PDU \<Rightarrow> PDU list \<Rightarrow> unit outcome" where
  "checkAllowedByState out e stateEvents =
     and_then (NewAuthEvents stateEvents) (\<lambda>auth. Allowed (o_edv out) (o_q out) e (AuthEvents_provider 0 auth))"

text \<open>
  \<^verbatim>\<open>Allowed\<close> never fails with a \<^verbatim>\<open>MissingAuthEventError\<close>, for which the function would fetch an event and try
  again; every error is passed on.
\<close>

definition resolveStatesAndCheck :: "outside \<Rightarrow> RoomVersion \<Rightarrow> StateResponse list \<Rightarrow> PDU \<Rightarrow> stateStore \<Rightarrow> missingStateReq
    \<Rightarrow> StateResponse outcome option" where
  "resolveStatesAndCheck out roomVersion states e db t =
     (let authEventList = concat (map resp_AuthEvents states); stateEventList = concat (map resp_StateEvents states);
          env = ie_resolution (o_env out);
          isRejected = (\<lambda>eventID. case t_roomInfo t of
              Some info \<Rightarrow> (case IsEventRejected (ri_RoomNID info) eventID db of Ok b \<Rightarrow> b | _ \<Rightarrow> True)
            | None \<Rightarrow> True) in
      run_then (ResolveConflicts (env_rng env) (env_rng3 env) (env_fuel env) (env_sha1 env) (env_edv env) roomVersion
          stateEventList authEventList (env_q env) isRejected) (\<lambda>resolvedStateEvents.
      run_then (Some (checkAllowedByState out e resolvedStateEvents)) (\<lambda>_.
        Some (Ok \<lparr>resp_AuthEvents = authEventList, resp_StateEvents = resolvedStateEvents\<rparr>))))"

fun prev_states :: "federation \<Rightarrow> outside \<Rightarrow> RoomVersion \<Rightarrow> string list \<Rightarrow> stateStore \<Rightarrow> missingStateReq
    \<Rightarrow> (((StateResponse \<times> bool) list \<times> goerr option) outcome \<times> missingStateReq) option" where
  "prev_states fed out roomVersion [] db t = Some (Ok ([], None), t)"
| "prev_states fed out roomVersion (prevEventID # ids) db t =
     (case lookupStateAfterEvent fed out roomVersion prevEventID db t of
        None \<Rightarrow> None
      | Some (Panic, t) \<Rightarrow> Some (Panic, t)
      | Some (Err (ValidationError msg p), t) \<Rightarrow> Some (Err (ValidationError msg p), t)
      | Some (Err _, t) \<Rightarrow> Some (Err (GoError ''t.lookupStateAfterEvent: %w''), t)
      | Some (Ok (prevState, trustworthy, err), t) \<Rightarrow>
          (case prev_states fed out roomVersion ids db t of
             Some (Ok (states, err'), t) \<Rightarrow> Some (Ok ((prevState, trustworthy) # states, if err' = None then err else err'), t)
           | r \<Rightarrow> r))"

definition lookupResolvedStateBeforeEvent :: "federation \<Rightarrow> outside \<Rightarrow> RoomVersion \<Rightarrow> PDU \<Rightarrow> stateStore \<Rightarrow> missingStateReq
    \<Rightarrow> ((StateResponse \<times> goerr option) outcome \<times> missingStateReq) option" where
  "lookupResolvedStateBeforeEvent fed out roomVersion e db t =
     (case prev_states fed out roomVersion (PrevEventIDs e) db t of
        None \<Rightarrow> None
      | Some (Panic, t) \<Rightarrow> Some (Panic, t)
      | Some (Err err, t) \<Rightarrow> Some (Err err, t)
      | Some (Ok (states, validationError), t) \<Rightarrow>
          (let resolve = map_option (\<lambda>r. (case r of
                   Ok resolved \<Rightarrow> Ok (resolved, validationError)
                 | Err (ValidationError msg p) \<Rightarrow> Err (ValidationError msg p)
                 | Err _ \<Rightarrow> Err (GoError ''t.resolveStatesAndCheck: %w'')
                 | Panic \<Rightarrow> Panic, t))
                 (resolveStatesAndCheck out roomVersion (map fst states) e db t) in
           case states of
             [] \<Rightarrow> if is_create e then Some (Ok (\<lparr>resp_AuthEvents = [], resp_StateEvents = []\<rparr>, validationError), t)
                  else Some (Err (GoError ''expected %d states but got %d''), t)
           | [(resolved, True)] \<Rightarrow>
               if is_create e \<or> resp_StateEvents resolved \<noteq> [] then Some (Ok (resolved, validationError), t) else resolve
           | _ \<Rightarrow> resolve))"

section \<open>Missing events\<close>

definition LatestEventIDs :: "int \<Rightarrow> roomDB \<Rightarrow> string list outcome" where
  "LatestEventIDs roomNID db =
     (case map_of (rd_rooms db) roomNID of
        None \<Rightarrow> Err (GoError ''sql: no rows in result set'')
      | Some row \<Rightarrow> and_then (BulkSelectEventID (rr_latest_event_nids row) (rd_store db)) (\<lambda>m. Ok (map snd m)))"

definition isPrevStateKnown :: "PDU \<Rightarrow> stateStore \<Rightarrow> bool" where
  "isPrevStateKnown e db =
     (case StateAtEventIDs (PrevEventIDs e) db of
        Ok states \<Rightarrow> length states = length (PrevEventIDs e) \<and> list_all (\<lambda>s. BeforeStateSnapshotNID s \<noteq> 0) states
      | _ \<Rightarrow> False)"

text \<open>The events, the oldest first, whether they close the gap, and whether the state before the event is known.\<close>

definition getMissingEvents :: "federation \<Rightarrow> outside \<Rightarrow> PDU \<Rightarrow> serverDB \<Rightarrow> missingStateReq
    \<Rightarrow> (PDU list \<times> bool \<times> bool) outcome \<times> missingStateReq" where
  "getMissingEvents fed out e db t0 =
     (case and_then (deref (t_roomInfo t0)) (\<lambda>info. LatestEventIDs (ri_RoomNID info) (sd_room db)) of
        Panic \<Rightarrow> (Panic, t0)
      | Err _ \<Rightarrow> (Err (GoError ''t.DB.LatestEventIDs: %w''), t0)
      | Ok latest \<Rightarrow>
          let t1 = fold hadEvent latest t0 in
          (case first_answer (\<lambda>server. fed_MissingEvents fed server latest e) (t_servers t1) of
             None \<Rightarrow> (Err (GoError ''unable to get prev_events for event %q: %s''), t1)
           | Some resp \<Rightarrow>
               (case cache_all False (filter (o_verify out) resp) t1 of (missingEvents, t) \<Rightarrow>
                  (case ReverseTopologicalOrdering (env_rng (ie_resolution (o_env out))) missingEvents TopologicalOrderByPrevEvents of
                     Panic \<Rightarrow> (Panic, t)
                   | Err err \<Rightarrow> (Err err, t)
                   | Ok newEvents \<Rightarrow>
                       if \<not> list_ex (\<lambda>pe. pe \<in> set (map EventID newEvents)) (PrevEventIDs e)
                       then (Err (GoError ''unable to get prev_events for event %q: %s''), t)
                       else (case newEvents of
                           [] \<Rightarrow> (Ok ([], False, False), t)
                         | earliest # _ \<Rightarrow>
                             if PrevEventIDs earliest = [] \<and> is_create earliest
                             then (Ok (newEvents, True, isPrevStateKnown e (store_of db)), t)
                             else (case StateAtEventIDs [EventID earliest] (store_of db) of
                                 Err _ \<Rightarrow> (Ok (newEvents, False, False), t)
                               | Panic \<Rightarrow> (Panic, t)
                               | Ok [] \<Rightarrow> (Panic, t)
                               | Ok _ \<Rightarrow> (Ok (newEvents, True, isPrevStateKnown e (store_of db)), t)))))))"

section \<open>Filling the gap\<close>

text \<open>Taking in an event in passing: that it is rejected is no error, other errors are wrapped.\<close>

definition inject :: "outside \<Rightarrow> string \<Rightarrow> InputRoomEvent \<Rightarrow> unit process" where
  "inject out wrap ire s =
     (case processRoomEvent out ire s of
        Some (Err (RejectedError _), s) \<Rightarrow> Some (Ok (), s)
      | Some (Err _, s) \<Rightarrow> Some (Err (GoError wrap), s)
      | r \<Rightarrow> r)"

fun inject_all :: "outside \<Rightarrow> string \<Rightarrow> InputRoomEvent list \<Rightarrow> unit process" where
  "inject_all out wrap [] = finish (Ok ())"
| "inject_all out wrap (ire # ires) = process_then (inject out wrap ire) (\<lambda>_. inject_all out wrap ires)"

definition old_event :: "string \<Rightarrow> PDU \<Rightarrow> InputRoomEvent" where
  "old_event origin e = \<lparr>ire_Kind = KindOld, ire_Event = e, ire_Origin = origin, ire_HasState = False, ire_StateEventIDs = []\<rparr>"

definition outlier :: "string \<Rightarrow> PDU \<Rightarrow> InputRoomEvent" where
  "outlier origin e = \<lparr>ire_Kind = KindOutlier, ire_Event = e, ire_Origin = origin, ire_HasState = False, ire_StateEventIDs = []\<rparr>"

definition sendOutliers :: "outside \<Rightarrow> string \<Rightarrow> string list \<Rightarrow> StateResponse \<Rightarrow> unit process" where
  "sendOutliers out origin hadEvents resolved =
     process_then (finish (LineariseStateResponse (env_rng (ie_resolution (o_env out))) resolved)) (\<lambda>outliers.
       inject_all out ''sendOutliers: %w'' (map (outlier origin) (filter (\<lambda>e. EventID e \<notin> set hadEvents) outliers)))"

text \<open>A lookup, with its error wrapped; an event that is not valid is an error here, too.\<close>

definition resolved_before :: "federation \<Rightarrow> outside \<Rightarrow> string \<Rightarrow> RoomVersion \<Rightarrow> PDU \<Rightarrow> missingStateReq \<Rightarrow> (StateResponse \<times> missingStateReq) process" where
  "resolved_before fed out wrap roomVersion e t s =
     (case lookupResolvedStateBeforeEvent fed out roomVersion e (store_of (in_db s)) t of
        None \<Rightarrow> None
      | Some (Panic, _) \<Rightarrow> Some (Panic, s)
      | Some (Ok (resolved, None), t) \<Rightarrow> Some (Ok (resolved, t), s)
      | Some (_, _) \<Rightarrow> Some (Err (GoError wrap), s))"

definition roll_forward :: "federation \<Rightarrow> outside \<Rightarrow> RoomVersion \<Rightarrow> PDU \<Rightarrow> PDU list \<Rightarrow> missingStateReq \<Rightarrow> PDU list option process" where
  "roll_forward fed out roomVersion e newEvents t =
     process_then (resolved_before fed out ''t.lookupState (backwards extremity): %w'' roomVersion (hd newEvents) t) (\<lambda>(resolved, t).
     process_then (sendOutliers out (t_origin t) (t_hadEvents t) resolved) (\<lambda>_.
     process_then (inject out ''t.inputer.processRoomEvent (backward extremity): %w''
         ((old_event (t_origin t) (hd newEvents))\<lparr>ire_HasState := True, ire_StateEventIDs := map EventID (resp_StateEvents resolved)\<rparr>)) (\<lambda>_.
     process_then (inject_all out ''t.inputer.processRoomEvent (fast forward): %w'' (map (old_event (t_origin t)) (tl newEvents))) (\<lambda>_ s.
       if isPrevStateKnown e (store_of (in_db s)) then finish (Ok None) s
       else
         process_then (resolved_before fed out ''t.lookupState (new event): %w'' roomVersion e t) (\<lambda>(resolved, t').
         process_then (sendOutliers out (t_origin t) (t_hadEvents t) resolved) (\<lambda>_.
           finish (Ok (Some (resp_StateEvents resolved))))) s))))"

definition fill :: "federation \<Rightarrow> outside \<Rightarrow> PDU \<Rightarrow> missingStateReq \<Rightarrow> PDU list option process" where
  "fill fed out e t0 s =
     (case getMissingEvents fed out e (in_db s) t0 of
        (Panic, _) \<Rightarrow> Some (Panic, s)
      | (Err _, _) \<Rightarrow> Some (Err (GoError ''t.getMissingEvents: %w''), s)
      | (Ok (newEvents, isGapFilled, prevStatesKnown), t) \<Rightarrow>
          if newEvents = [] then Some (Err (GoError ''expected to find missing events but not found''), s)
          else process_then (if isGapFilled
              then inject_all out ''t.inputer.processRoomEvent (filling gap): %w'' (map (old_event (t_origin t)) newEvents)
              else finish (Ok ())) (\<lambda>_.
            if isGapFilled \<and> prevStatesKnown then finish (Ok None)
            else roll_forward fed out (Version e) e newEvents t) s)"

text \<open>The state to use for the event, if its previous events do not give it, or the error.\<close>

definition processEventWithMissingState :: "federation \<Rightarrow> outside \<Rightarrow> RoomInfoRow option \<Rightarrow> string list \<Rightarrow> InputRoomEvent
    \<Rightarrow> (PDU list option \<times> goerr option) process" where
  "processEventWithMissingState fed out roomInfo servers input s =
     (case fill fed out (ire_Event input) \<lparr>t_origin = ire_Origin input, t_roomInfo = map_option rir_info roomInfo, t_servers = servers,
          t_hadEvents = [], t_haveEvents = []\<rparr> s of
        None \<Rightarrow> None
      | Some (Panic, s) \<Rightarrow> Some (Panic, s)
      | Some (Err e, s) \<Rightarrow> Some (Ok (None, Some e), s)
      | Some (Ok snapshot, s) \<Rightarrow> Some (Ok (snapshot, None), s))"

text \<open>
  Events that are taken in on the way are old ones or outliers, for which no gap is filled, so what
  \<open>out\<close> has for missing state does not matter there.
\<close>

definition with_missing_state :: "federation \<Rightarrow> outside \<Rightarrow> outside" where
  "with_missing_state fed out = out\<lparr>o_missingState := processEventWithMissingState fed out\<rparr>"

definition processInput :: "federation \<Rightarrow> outside \<Rightarrow> InputRoomEvent \<Rightarrow> unit process" where
  "processInput fed out input = processRoomEvent (with_missing_state fed out) input"

end
