(* ===== verification/InputEvents_Correct.thy ===== *)
theory InputEvents_Correct
  imports InputEvents Redactions_Correct LatestEvents_Correct
begin

text \<open>
  An event takes part in a room only if all three checks allow it. The part of the state that
  clients and other servers see is the \<open>room_view\<close>; the steps that come before an event is accepted
  leave it alone.
\<close>

section \<open>Steps that keep a relation\<close>

text \<open>The run of a step, from a state, ends in a state that is related to it.\<close>

definition preserves :: "(inputer \<Rightarrow> inputer \<Rightarrow> bool) \<Rightarrow> inputer \<Rightarrow> ('a outcome \<times> inputer) option \<Rightarrow> bool" where
  "preserves R s run \<longleftrightarrow> (\<forall>r s'. run = Some (r, s') \<longrightarrow> R s s')"

lemma preservesD: "run = Some (r, s') \<Longrightarrow> preserves R s run \<Longrightarrow> R s s'"
  by (simp add: preserves_def)

lemma process_then_Ok:
  "process_then m f s = Some (Ok y, s') \<longleftrightarrow> (\<exists>x t. m s = Some (Ok x, t) \<and> f x t = Some (Ok y, s'))"
  by (auto simp: process_then_def split: option.splits outcome.splits)

named_theorems preserving

locale kept_relation =
  fixes R :: "inputer \<Rightarrow> inputer \<Rightarrow> bool"
  assumes refl: "R s s" and trans: "R s t \<Longrightarrow> R t u \<Longrightarrow> R s u"
begin

lemma finish [preserving]: "preserves R s (finish r s)"
  by (simp add: preserves_def finish_def refl)

lemma process_then_result:
  assumes m: "preserves R s (m s)" and f: "\<And>x t. m s = Some (Ok x, t) \<Longrightarrow> preserves R t (f x t)"
  shows "preserves R s (process_then m f s)"
  unfolding preserves_def
proof (intro allI impI)
  fix r s' assume run: "process_then m f s = Some (r, s')"
  then obtain q t where q: "m s = Some (q, t)" by (auto simp: process_then_def split: option.splits)
  then have st: "R s t" using m by (rule preservesD)
  show "R s s'"
  proof (cases q)
    case (Ok x)
    then have "f x t = Some (r, s')" using run q by (simp add: process_then_def)
    then have "R t s'" by (rule preservesD) (use f q Ok in simp)
    with st show ?thesis by (rule trans)
  qed (use run q st in \<open>simp_all add: process_then_def\<close>)
qed

lemma process_then [preserving]:
  assumes "preserves R s (m s)" "\<And>x t. preserves R t (f x t)" shows "preserves R s (process_then m f s)"
  using assms by (rule process_then_result)

lemma transaction:
  assumes "\<And>x db. f (in_db s) = Some (Ok (x, db)) \<Longrightarrow> R s (s\<lparr>in_db := db\<rparr>)"
  shows "preserves R s (transaction f s)"
  unfolding preserves_def transaction_def using assms refl by (auto split: option.splits outcome.splits)

lemma on_db: "R s (s\<lparr>in_db := snd (f (in_db s))\<rparr>) \<Longrightarrow> preserves R s (on_db f s)"
  by (auto simp: preserves_def on_db_def split: prod.splits)

lemma on_db_outcome: "R s (s\<lparr>in_db := snd (f (in_db s))\<rparr>) \<Longrightarrow> preserves R s (on_db_outcome f s)"
  by (auto simp: preserves_def on_db_outcome_def split: prod.splits)

end

section \<open>The view of the room\<close>

definition tables_view where
  "tables_view db =
     (rd_rooms (sd_room db), rd_memberships (sd_room db), rd_invites (sd_room db), rd_sent (sd_room db), sd_room_ids db, sd_next_room db)"

definition room_view where
  "room_view s = (tables_view (in_db s), in_acls s, in_output s, in_queue s)"

abbreviation same_view :: "inputer \<Rightarrow> inputer \<Rightarrow> bool" where
  "same_view s s' \<equiv> room_view s' = room_view s"

interpretation view: kept_relation same_view
  by unfold_locales simp_all

lemma same_view_db: "same_view s (s\<lparr>in_db := db\<rparr>) \<longleftrightarrow> tables_view db = tables_view (in_db s)"
  by (simp add: room_view_def)

lemma tables_view_room:
  assumes "rd_rooms r = rd_rooms (sd_room db)" "rd_memberships r = rd_memberships (sd_room db)" "rd_invites r = rd_invites (sd_room db)"
    "rd_sent r = rd_sent (sd_room db)"
  shows "tables_view (db\<lparr>sd_room := r\<rparr>) = tables_view db"
  using assms by (simp add: tables_view_def)

lemma tables_view_store [simp]: "tables_view (db\<lparr>sd_room := (sd_room db)\<lparr>rd_store := st\<rparr>\<rparr>) = tables_view db"
  "tables_view (db\<lparr>sd_next_type := n\<rparr>) = tables_view db" "tables_view (db\<lparr>sd_redactions := x\<rparr>) = tables_view db"
  by (simp_all add: tables_view_def)

lemma view_type_nid [simp]: "tables_view (snd (GetOrCreateEventTypeNID t db)) = tables_view db"
  by (simp add: GetOrCreateEventTypeNID_def Let_def split: option.splits)

lemma view_key_nid [simp]: "tables_view (snd (GetOrCreateEventStateKeyNID k db)) = tables_view db"
  by (simp add: GetOrCreateEventStateKeyNID_def Let_def split: option.splits prod.splits)

text \<open>What storing an event leaves alone.\<close>

definition same_room_tables :: "roomDB \<Rightarrow> roomDB \<Rightarrow> bool" where
  "same_room_tables r r' \<longleftrightarrow> rd_rooms r' = rd_rooms r \<and> rd_memberships r' = rd_memberships r \<and> rd_invites r' = rd_invites r \<and> rd_sent r' = rd_sent r"

lemma InsertPreviousEvent_tables: "same_room_tables r (InsertPreviousEvent k nid r)"
  by (simp add: same_room_tables_def InsertPreviousEvent_def Let_def)

lemma InsertPreviousEvents_tables: "same_room_tables r (fold (\<lambda>k. InsertPreviousEvent k nid) ks r)"
proof (induction ks arbitrary: r)
  case (Cons k ks)
  from Cons [of "InsertPreviousEvent k nid r"] show ?case
    using InsertPreviousEvent_tables [of r k nid] by (simp add: same_room_tables_def)
qed (simp add: same_room_tables_def)

lemma StoreEvent_tables: "same_room_tables r (snd (snd (StoreEvent e room t k rejected r)))"
proof -
  obtain nid st r1 where i: "InsertEvent room t k e rejected r = (nid, st, r1)" by (metis prod_cases3)
  then have "same_room_tables r r1" by (auto simp: same_room_tables_def InsertEvent_def split: option.splits if_splits)
  then show ?thesis using i InsertPreviousEvents_tables [of r1 nid "PrevEventIDs e"] by (simp add: StoreEvent_def same_room_tables_def)
qed

lemma view_StoreEvent:
  "StoreEvent e room t k rejected (sd_room db) = (nid, st, r) \<Longrightarrow> tables_view (db\<lparr>sd_room := r\<rparr>) = tables_view db"
  using StoreEvent_tables [of "sd_room db" e room t k rejected] by (auto simp: same_room_tables_def intro: tables_view_room)

lemma view_SetState: "tables_view (db\<lparr>sd_room := SetState nid snap ((sd_room db)\<lparr>rd_store := st\<rparr>)\<rparr>) = tables_view db"
  by (simp add: SetState_def)

lemma view_soft_fail [simp]: "tables_view (snd (CheckForSoftFail edv q info e ids db)) = tables_view db"
  by (simp add: CheckForSoftFail_def Let_def split: outcome.splits prod.splits if_splits)

lemma view_state_after:
  assumes "QueryStateAfterEvents env roomID prev needed db = Some (Ok (res, db'))"
  shows "tables_view db' = tables_view db"
  using assms unfolding QueryStateAfterEvents_def
  by (auto simp: Let_def run_then_def split: option.splits outcome.splits prod.splits if_splits)

lemma view_redact:
  assumes "MaybeRedactEvent redact q info nid e v db = Ok (res, db')"
  shows "tables_view db' = tables_view db"
proof -
  have [simp]: "tables_view (InsertRedaction a b d) = tables_view d"
    "tables_view (MarkRedactionValidated a c d) = tables_view d"
    "tables_view (InsertEventJSON n p d) = tables_view d" for a b c d n p
    by (simp_all add: InsertRedaction_def MarkRedactionValidated_def InsertEventJSON_def Let_def)
  show ?thesis using assms unfolding MaybeRedactEvent_def
    by (auto simp: Let_def and_then_def split: option.splits outcome.splits prod.splits if_splits)
qed

section \<open>Steps before the event is accepted\<close>

lemma type_nid_keeps [preserving]: "preserves same_view s (on_db (GetOrCreateEventTypeNID t) s)"
  and key_nid_keeps [preserving]: "preserves same_view s (on_db (GetOrCreateEventStateKeyNID k) s)"
  by (rule view.on_db, simp add: same_view_db)+

lemma store_keeps [preserving]:
  "preserves same_view s (on_db (\<lambda>db. case StoreEvent e room t k rejected (sd_room db) of (nid, st, r) \<Rightarrow> (g nid st, db\<lparr>sd_room := r\<rparr>)) s)"
proof -
  obtain nid st r where "StoreEvent e room t k rejected (sd_room (in_db s)) = (nid, st, r)" by (metis prod_cases3)
  then show ?thesis
    by (intro view.on_db) (simp add: same_view_db view_StoreEvent)
qed

lemma store_auth_event_keeps [preserving]: "preserves same_view s (store_auth_event out e a (Some info) known auth s)"
  unfolding store_auth_event_def Let_def
  by (auto split: outcome.splits intro!: preserving)

lemma store_auth_event_room:
  assumes "store_auth_event out e a (Some info) known auth s = Some (Ok (info', known', auth'), s')"
  shows "info' = Some info"
  using assms unfolding store_auth_event_def Let_def
  by (auto simp: finish_def process_then_Ok split: outcome.splits if_splits)

lemma store_auth_events_keep [preserving]: "preserves same_view s (store_auth_events out e evs (Some info) known auth s)"
proof (induction evs arbitrary: known auth s)
  case (Cons a evs)
  show ?case unfolding store_auth_events.simps
  proof (rule view.process_then_result [where m = "store_auth_event out e a (Some info) known auth", OF store_auth_event_keeps])
    fix x t assume "store_auth_event out e a (Some info) known auth s = Some (Ok x, t)"
    then obtain k u where "x = (Some info, k, u)" by (cases x) (auto dest: store_auth_event_room)
    then show "preserves same_view t ((case x of (i, k, u) \<Rightarrow> store_auth_events out e evs i k u) t)" using Cons by simp
  qed
qed (simp add: preserving)

lemma fetchAuthEvents_keeps [preserving]: "preserves same_view s (fetchAuthEvents out (Some info) e servers s)"
  unfolding fetchAuthEvents_def by (auto intro!: preserving split: option.splits)

lemma query_keeps [preserving]: "preserves same_view s (transaction (QueryStateAfterEvents env roomID prev needed) s)"
  by (rule view.transaction) (simp add: same_view_db view_state_after)

lemma stateBeforeEvent_keeps [preserving]: "preserves same_view s (stateBeforeEvent out input missingPrev s)"
  unfolding stateBeforeEvent_def Let_def by (auto intro!: preserving)

lemma processStateBefore_keeps [preserving]: "preserves same_view s (processStateBefore out input missingPrev s)"
  unfolding processStateBefore_def by (auto intro!: preserving split: sum.splits outcome.splits)

lemma softfail_keeps [preserving]: "preserves same_view s (on_db_outcome (CheckForSoftFail edv q info e ids) s)"
  by (rule view.on_db_outcome) (simp add: same_view_db)

lemma calculateAndSetState_keeps [preserving]: "preserves same_view s (calculateAndSetState out input info st s)"
  unfolding calculateAndSetState_def
  by (rule view.transaction) (auto simp: same_view_db view_SetState run_then_def split: option.splits outcome.splits prod.splits)

lemma redact_keeps [preserving]: "preserves same_view s (redact_stored out info nid e s)"
  unfolding redact_stored_def by (rule view.transaction) (auto simp: same_view_db view_redact)

lemma check_auth_keeps [preserving]: "preserves same_view s (check_auth out (Some info) e servers err s)"
  unfolding check_auth_def Let_def by (auto intro!: preserving split: outcome.splits)

lemma store_event_keeps [preserving]: "preserves same_view s (store_event (Some info) e rejected s)"
  unfolding store_event_def by (auto intro!: preserving)

section \<open>The three checks\<close>

abbreviation allowed_with :: "outside \<Rightarrow> PDU \<Rightarrow> AuthEvents \<Rightarrow> bool" where
  "allowed_with out e auth \<equiv> Allowed (o_edv out) (o_q out) e (AuthEvents_provider 0 auth) = Ok ()"

text \<open>The event is allowed by its auth events.\<close>

definition passes_auth :: "outside \<Rightarrow> RoomInfoRow option \<Rightarrow> PDU \<Rightarrow> inputer \<Rightarrow> inputer \<Rightarrow> bool" where
  "passes_auth out info e s s' \<longleftrightarrow>
     (\<exists>servers known auth. fetchAuthEvents out (map_option rir_info info) e servers s = Some (Ok (known, auth), s') \<and> allowed_with out e auth)"

text \<open>A new event is allowed by the current state.\<close>

definition passes_current :: "outside \<Rightarrow> RoomInfoRow option \<Rightarrow> InputRoomEvent \<Rightarrow> inputer \<Rightarrow> inputer \<Rightarrow> bool" where
  "passes_current out info input s s' \<longleftrightarrow>
     (if ire_Kind input = KindNew
      then on_db_outcome (CheckForSoftFail (o_edv out) (o_q out) info (ire_Event input) (ire_StateEventIDs input)) s = Some (Ok False, s')
      else s' = s)"

text \<open>The event is allowed by the state before it.\<close>

definition passes_before :: "outside \<Rightarrow> InputRoomEvent \<Rightarrow> bool \<Rightarrow> inputer \<Rightarrow> bool" where
  "passes_before out input missingPrev s \<longleftrightarrow>
     (\<exists>evs auth s'. stateBeforeEvent out input missingPrev s = Some (Ok (Inr evs), s') \<and> NewAuthEvents evs = Ok auth \<and>
        allowed_with out (ire_Event input) auth)"

text \<open>No previous event is missing, or they are not asked for.\<close>

definition no_gap :: "InputRoomEvent \<Rightarrow> inputer \<Rightarrow> bool" where
  "no_gap input s \<longleftrightarrow> \<not> snd (missing_before input (in_db s)) \<or> ire_Kind input \<noteq> KindNew"

lemma fill_gap_none: "\<not> missingPrev \<or> ire_Kind input \<noteq> KindNew \<Longrightarrow> fill_gap out roomInfo input missingPrev servers s = Some (Ok (input, missingPrev, None), s)"
  by (auto simp: fill_gap_def finish_def)

lemma processStateBefore_allows:
  assumes "processStateBefore out input missingPrev s = Some (Ok (vis, None), s')" "\<not> is_create (ire_Event input)"
  shows "passes_before out input missingPrev s"
proof -
  obtain before t where before: "stateBeforeEvent out input missingPrev s = Some (Ok before, t)"
      "(case before of
          Inl rejectionErr \<Rightarrow> finish (Ok (HistoryVisibilityShared, Some rejectionErr))
        | Inr evs \<Rightarrow>
            process_then (finish (NewAuthEvents evs)) (\<lambda>auth.
              case Allowed (o_edv out) (o_q out) (ire_Event input) (AuthEvents_provider 0 auth) of
                Err e \<Rightarrow> finish (Ok (HistoryVisibilityShared, Some e))
              | Panic \<Rightarrow> finish Panic
              | Ok _ \<Rightarrow> finish (Ok (visibility_before evs, None)))) t = Some (Ok (vis, None), s')"
    using assms unfolding processStateBefore_def by (auto simp: process_then_Ok)
  then obtain evs where evs: "before = Inr evs" by (cases before) (auto simp: finish_def)
  then obtain auth where auth: "NewAuthEvents evs = Ok auth" using before(2) by (auto simp: process_then_Ok finish_def)
  then have "allowed_with out (ire_Event input) auth" using before(2) evs
    by (cases "Allowed (o_edv out) (o_q out) (ire_Event input) (AuthEvents_provider 0 auth)") (auto simp: process_then_Ok finish_def)
  then show ?thesis using before(1) evs auth by (auto simp: passes_before_def)
qed

lemma check_auth_allows:
  assumes "check_auth out info e servers err s = Some (Ok None, s')"
  shows "passes_auth out info e s s'"
proof -
  obtain known auth t where f: "fetchAuthEvents out (map_option rir_info info) e servers s = Some (Ok (known, auth), t)"
    using assms by (auto simp: check_auth_def process_then_Ok)
  with assms have "allowed_with out e auth \<and> s' = t"
    by (cases "Allowed (o_edv out) (o_q out) e (AuthEvents_provider 0 auth)")
      (auto simp: check_auth_def process_then_Ok finish_def Let_def split: if_splits)
  with f show ?thesis by (auto simp: passes_auth_def)
qed

lemma check_allowed_keeps [preserving]:
  "preserves same_view s (check_allowed out (Some info) sender servers input missingPrev err s)"
  unfolding check_allowed_def Let_def by (auto intro!: preserving)

lemma check_allowed_steps:
  assumes run: "check_allowed out info sender servers input missingPrev err s = Some (Ok ck, s')"
  obtains err1 s1 soft s2 vis err2 where
    "check_auth out info (ire_Event input) servers err s = Some (Ok err1, s1)"
    "(if ire_Kind input = KindNew \<and> \<not> is_create (ire_Event input)
      then on_db_outcome (CheckForSoftFail (o_edv out) (o_q out) info (ire_Event input) (ire_StateEventIDs input))
      else finish (Ok False)) s1 = Some (Ok soft, s2)"
    "(if ire_Kind input \<noteq> KindOutlier \<and> err1 = None \<and> \<not> is_create (ire_Event input) then processStateBefore out input missingPrev
      else finish (Ok (HistoryVisibilityShared, err1))) s2 = Some (Ok (vis, err2), s')"
    "ck_input ck = input" "ck_roomInfo ck = info" "ck_rejectionErr ck = err2" "ck_softfail ck = soft"
  using run unfolding check_allowed_def Let_def process_then_Ok finish_def [of "Ok (_ :: checked)"] by fastforce

lemma check_allowed_allows:
  assumes run: "check_allowed out info sender servers input missingPrev err s = Some (Ok ck, s')"
  shows "ck_input ck = input \<and> ck_roomInfo ck = info"
    and "ire_Kind input \<noteq> KindOutlier \<Longrightarrow> ck_rejectionErr ck = None \<Longrightarrow> \<not> ck_softfail ck \<Longrightarrow>
      \<exists>s1. passes_auth out info (ire_Event input) s s1 \<and>
        (is_create (ire_Event input) \<or> (\<exists>s2. passes_current out info input s1 s2 \<and> passes_before out input missingPrev s2))"
proof -
  show "ck_input ck = input \<and> ck_roomInfo ck = info" using run by (rule check_allowed_steps) simp
  assume ok: "ire_Kind input \<noteq> KindOutlier" "ck_rejectionErr ck = None" "\<not> ck_softfail ck"
  show "\<exists>s1. passes_auth out info (ire_Event input) s s1 \<and>
      (is_create (ire_Event input) \<or> (\<exists>s2. passes_current out info input s1 s2 \<and> passes_before out input missingPrev s2))"
    using run
  proof (rule check_allowed_steps)
    fix err1 s1 soft s2 vis err2
    assume steps: "check_auth out info (ire_Event input) servers err s = Some (Ok err1, s1)"
      "(if ire_Kind input = KindNew \<and> \<not> is_create (ire_Event input)
        then on_db_outcome (CheckForSoftFail (o_edv out) (o_q out) info (ire_Event input) (ire_StateEventIDs input))
        else finish (Ok False)) s1 = Some (Ok soft, s2)"
      "(if ire_Kind input \<noteq> KindOutlier \<and> err1 = None \<and> \<not> is_create (ire_Event input) then processStateBefore out input missingPrev
        else finish (Ok (HistoryVisibilityShared, err1))) s2 = Some (Ok (vis, err2), s')"
      "ck_rejectionErr ck = err2" "ck_softfail ck = soft"
    then have err1: "err1 = None" using ok by (cases err1) (auto simp: finish_def)
    have "passes_auth out info (ire_Event input) s s1" using steps(1) by (intro check_auth_allows) (simp add: err1)
    moreover have "passes_current out info input s1 s2" if "\<not> is_create (ire_Event input)"
      using steps ok that by (auto simp: passes_current_def finish_def split: if_splits)
    moreover have "passes_before out input missingPrev s2" if "\<not> is_create (ire_Event input)"
      using steps ok err1 that by (intro processStateBefore_allows) simp_all
    ultimately show ?thesis by blast
  qed
qed

lemma check_event_keeps:
  assumes "\<not> is_create (ire_Event input)" "no_gap input s"
  shows "preserves same_view s (check_event out input s)"
proof (cases "SelectRoomInfo (room_raw (EventRoomID (ire_Event input))) (in_db s)")
  case None
  then show ?thesis using assms(1) by (simp add: check_event_def preserving)
next
  case (Some info)
  obtain ma mp where m: "missing_before input (in_db s) = (ma, mp)" by fastforce
  have "preserves same_view t (fill_gap out roomInfo input mp servers t)" for roomInfo servers t
    using assms(2) m by (simp add: fill_gap_none no_gap_def preserves_def)
  then show ?thesis unfolding check_event_def Let_def Some m by (auto intro!: preserving)
qed

lemma check_event_allows:
  assumes run: "check_event out input s = Some (Ok (Some ck), s')" and create: "\<not> is_create (ire_Event input)" and gap: "no_gap input s"
  obtains info where "SelectRoomInfo (room_raw (EventRoomID (ire_Event input))) (in_db s) = Some info" "ck_roomInfo ck = Some info"
    "ck_input ck = input"
    "ire_Kind input \<noteq> KindOutlier \<Longrightarrow> ck_rejectionErr ck = None \<Longrightarrow> \<not> ck_softfail ck \<Longrightarrow>
      \<exists>s1 s2. passes_auth out (Some info) (ire_Event input) s s1 \<and> passes_current out (Some info) input s1 s2 \<and>
        passes_before out input (snd (missing_before input (in_db s))) s2"
proof -
  obtain ma mp where m: "missing_before input (in_db s) = (ma, mp)" by fastforce
  obtain info where info: "SelectRoomInfo (room_raw (EventRoomID (ire_Event input))) (in_db s) = Some info"
    using run create by (cases "SelectRoomInfo (room_raw (EventRoomID (ire_Event input))) (in_db s)") (auto simp: check_event_def finish_def)
  have fill: "fill_gap out roomInfo input mp servers t = Some (Ok (input, mp, None), t)" for roomInfo servers t
    using gap m by (simp add: fill_gap_none no_gap_def)
  obtain sender servers where "check_allowed out (Some info) sender servers input mp None s = Some (Ok ck, s')"
    using run create unfolding check_event_def Let_def info m
    by (auto simp: process_then_Ok finish_def fill split: if_splits)
  from check_allowed_allows [OF this] info m create show ?thesis by (intro that) auto
qed

text \<open>Only what passed the checks is accepted; everything else is stored, and no more.\<close>

lemma finish_event_keeps:
  assumes "ck_roomInfo ck = Some info" "ire_Kind (ck_input ck) = KindOutlier \<or> ck_rejectionErr ck \<noteq> None \<or> ck_softfail ck"
  shows "preserves same_view s (finish_event out ck s)"
  unfolding finish_event_def Let_def assms(1)
  using assms(2) by (auto intro!: preserving split: option.splits)

section \<open>Events and their rooms\<close>


text \<open>A message of the moderator in the stored room.\<close>

definition sample_outside :: outside where
  "sample_outside =
     \<lparr>o_env = sample_input, o_expired = False, o_joinedHosts = (\<lambda>_. Ok [''a'', ''b'']), o_servers = range_id,
      o_missingState = (\<lambda>info servers input s. Some (Ok (None, Some (GoError ''not found'')), s)),
      o_eventAuth = (\<lambda>server e. Err (GoError ''not found'')), o_verify = (\<lambda>e. True),
      o_redact = (\<lambda>e. e\<lparr>Content := Some (JObj [])\<rparr>), o_storeKey = (\<lambda>key user room. Ok ()), o_virtualHosts = [],
      o_upgradeRoom = (\<lambda>e. Ok ()), o_kickGuests = (\<lambda>e info db. Ok [])\<rparr>"

definition sample_new :: "string \<Rightarrow> InputRoomEvent" where
  "sample_new sender =
     \<lparr>ire_Kind = KindNew, ire_Event = (mk_event ''$w'' ''m.room.message'' None sender [(''body'', JStr ''hi'')] [''$c'', ''$p'', ''$m''] 7)
        \<lparr>PrevEventIDs := [''$x'']\<rparr>, ire_Origin = ''a'', ire_HasState = False, ire_StateEventIDs = []\<rparr>"

definition sample_inputer :: inputer where
  "sample_inputer = \<lparr>in_db = stored_room [], in_acls = empty_ServerACLs, in_output = [], in_queue = []\<rparr>"


text \<open>
  An auth event that another server offers is stored under the state key of the event that needs it:
  the membership of a banned user that is fetched for a message gets no state key at all.
\<close>

lemma auth_event_key_lost:
  "\<exists>s. store_auth_event sample_outside (ire_Event (sample_new ''@m:a'')) (sample_state ! 5) (Some \<lparr>ri_RoomNID = 1, ri_RoomVersion = ''10''\<rparr>)
       [(''$c'', 1, sample_state ! 0), (''$j'', 2, sample_state ! 1), (''$p'', 3, sample_state ! 2)]
       (the_ok (NewAuthEvents (take 3 sample_state))) sample_inputer =
       Some (Ok (Some \<lparr>ri_RoomNID = 1, ri_RoomVersion = ''10''\<rparr>,
         [(''$c'', 1, sample_state ! 0), (''$j'', 2, sample_state ! 1), (''$p'', 3, sample_state ! 2), (''$b'', 7, sample_state ! 5)],
         the_ok (NewAuthEvents (take 3 sample_state @ [sample_state ! 5]))), s) \<and>
     map_option er_state_key_nid (stored 7 (in_db s)) = Some 0 \<and> StateKey (sample_state ! 5) = Some ''@b:a''"
  by (intro exI conjI) code_simp+

end
