(* ===== verification/InputMissing_Correct.thy ===== *)
theory InputMissing_Correct
  imports InputMissing InputEvents_Correct
begin

text \<open>
  However large the gap before a new event and whatever other servers answer, the latest events, the
  current state, the memberships and invites of the rooms that are known change only by the new event
  itself, after it passed all checks.
\<close>

section \<open>Rooms that are known\<close>

definition rooms_fresh :: "serverDB \<Rightarrow> bool" where
  "rooms_fresh db \<longleftrightarrow> (\<forall>n \<in> set (keys (rd_rooms (sd_room db))). n < sd_next_room db)"

text \<open>The rows of known rooms stay, and so do memberships, invites and the events that were sent.\<close>

definition rooms_kept :: "serverDB \<Rightarrow> serverDB \<Rightarrow> bool" where
  "rooms_kept db db' \<longleftrightarrow> map_of (rd_rooms (sd_room db)) \<subseteq>\<^sub>m map_of (rd_rooms (sd_room db')) \<and>
     rd_memberships (sd_room db') = rd_memberships (sd_room db) \<and> rd_invites (sd_room db') = rd_invites (sd_room db) \<and>
     rd_sent (sd_room db') = rd_sent (sd_room db)"

definition keeps_rooms :: "inputer \<Rightarrow> inputer \<Rightarrow> bool" where
  "keeps_rooms s s' \<longleftrightarrow> (rooms_fresh (in_db s) \<longrightarrow> rooms_fresh (in_db s') \<and> rooms_kept (in_db s) (in_db s'))"

interpretation rooms: kept_relation keeps_rooms
  by unfold_locales (auto simp: keeps_rooms_def rooms_kept_def intro: map_le_trans)

lemma tables_keep_rooms: "tables_view (in_db s') = tables_view (in_db s) \<Longrightarrow> keeps_rooms s s'"
  by (simp add: tables_view_def keeps_rooms_def rooms_fresh_def rooms_kept_def)

lemma view_keeps_rooms: "preserves same_view s run \<Longrightarrow> preserves keeps_rooms s run"
  by (auto simp: preserves_def room_view_def intro: tables_keep_rooms)

named_theorems room_keeping

lemmas [room_keeping] = rooms.finish rooms.process_then

lemma assignRoomNID_keeps:
  assumes "assignRoomNID roomID version (in_db s) = (nid, db)"
  shows "keeps_rooms s (s\<lparr>in_db := db\<rparr>)"
proof (cases "map_of (sd_room_ids (in_db s)) roomID")
  case None
  let ?row = "\<lparr>rr_latest_event_nids = [], rr_last_event_sent_nid = 0, rr_state_snapshot_nid = 0\<rparr>"
  have db: "rd_rooms (sd_room db) = AList.update (sd_next_room (in_db s)) ?row (rd_rooms (sd_room (in_db s)))" "sd_next_room db = sd_next_room (in_db s) + 1"
      "rd_memberships (sd_room db) = rd_memberships (sd_room (in_db s))" "rd_invites (sd_room db) = rd_invites (sd_room (in_db s))"
      "rd_sent (sd_room db) = rd_sent (sd_room (in_db s))"
    using assms None by (auto simp: assignRoomNID_def Let_def)
  show ?thesis unfolding keeps_rooms_def
  proof (intro impI conjI)
    assume fresh: "rooms_fresh (in_db s)"
    then show "rooms_fresh (in_db (s\<lparr>in_db := db\<rparr>))" by (auto simp: rooms_fresh_def db dom_update)
    have "map_of (rd_rooms (sd_room (in_db s))) (sd_next_room (in_db s)) = None"
      using fresh by (force simp: rooms_fresh_def map_of_eq_None_iff)
    then show "rooms_kept (in_db s) (in_db (s\<lparr>in_db := db\<rparr>))"
      by (auto simp: rooms_kept_def db map_le_def AList.update_conv')
  qed
next
  case (Some a)
  then have "db = in_db s" using assms by (cases a) (simp add: assignRoomNID_def)
  then show ?thesis by (intro tables_keep_rooms) simp
qed

lemma create_room_keeps [room_keeping]: "preserves keeps_rooms s (transaction (\<lambda>db. Some (GetOrCreateRoomInfo e db)) s)"
proof (rule rooms.transaction)
  fix x db assume run: "Some (GetOrCreateRoomInfo e (in_db s)) = Some (Ok (x, db))"
  then obtain version where v: "extractRoomVersionFromCreateEvent e = Ok version" by (auto simp: GetOrCreateRoomInfo_def go_simps)
  obtain nid db' where a: "assignRoomNID (room_raw (EventRoomID e)) version (in_db s) = (nid, db')" by fastforce
  then have "db' = db" using run v by (simp add: GetOrCreateRoomInfo_def)
  with a have "assignRoomNID (room_raw (EventRoomID e)) version (in_db s) = (nid, db)" by simp
  then show "keeps_rooms s (s\<lparr>in_db := db\<rparr>)" by (rule assignRoomNID_keeps)
qed

lemmas steps_keep_rooms [room_keeping] =
  type_nid_keeps [THEN view_keeps_rooms] key_nid_keeps [THEN view_keeps_rooms] store_keeps [THEN view_keeps_rooms]
  processStateBefore_keeps [THEN view_keeps_rooms] softfail_keeps [THEN view_keeps_rooms]
  calculateAndSetState_keeps [THEN view_keeps_rooms] redact_keeps [THEN view_keeps_rooms]

section \<open>Old events and outliers\<close>

lemma store_auth_event_rooms [room_keeping]: "preserves keeps_rooms s (store_auth_event out e a info known auth s)"
  unfolding store_auth_event_def Let_def by (auto split: outcome.splits option.splits intro!: room_keeping)

lemma store_auth_events_rooms [room_keeping]: "preserves keeps_rooms s (store_auth_events out e evs info known auth s)"
  by (induction evs arbitrary: info known auth s) (auto intro!: room_keeping)

lemma fetchAuthEvents_rooms [room_keeping]: "preserves keeps_rooms s (fetchAuthEvents out info e servers s)"
  unfolding fetchAuthEvents_def by (auto intro!: room_keeping split: option.splits)

lemma check_auth_rooms [room_keeping]: "preserves keeps_rooms s (check_auth out info e servers err s)"
  unfolding check_auth_def Let_def by (auto intro!: room_keeping split: outcome.splits)

lemma check_allowed_rooms [room_keeping]: "preserves keeps_rooms s (check_allowed out info sender servers input missingPrev err s)"
  unfolding check_allowed_def Let_def by (auto intro!: room_keeping)

lemma store_event_rooms [room_keeping]: "preserves keeps_rooms s (store_event info e rejected s)"
  unfolding store_event_def by (auto intro!: room_keeping split: option.splits)

lemma produce_rooms [room_keeping]: "preserves keeps_rooms s (ProduceRoomEvents updates s)"
  by (auto simp: preserves_def ProduceRoomEvents_def intro: tables_keep_rooms)

lemma view_GetStateEvent: "tables_view (snd (GetStateEvent roomID t k db)) = tables_view db"
proof -
  obtain nid1 db1 where 1: "GetOrCreateEventTypeNID t db = (nid1, db1)" by fastforce
  obtain nid2 db2 where 2: "GetOrCreateEventStateKeyNID (Some k) db1 = (nid2, db2)" by fastforce
  have "tables_view db2 = tables_view db" using view_type_nid [of t db] view_key_nid [of "Some k" db1] 1 2 by simp
  then show ?thesis by (auto simp: GetStateEvent_def 1 2 split: option.splits)
qed

lemma refresh_acls_rooms [room_keeping]: "preserves keeps_rooms s (refresh_acls out e s)"
proof -
  have kept: "preserves keeps_rooms t (case GetStateEvent roomID ty k (in_db t) of
            (Panic, db) \<Rightarrow> Some (Panic, t\<lparr>in_db := db\<rparr>)
          | (Ok (Some aclEvent), db) \<Rightarrow>
              (if StateKey aclEvent = None then Some (Panic, t\<lparr>in_db := db\<rparr>)
               else Some (Ok (), t\<lparr>in_db := db, in_acls := OnServerACLUpdate (stripped_acl aclEvent) (in_acls t)\<rparr>))
          | (_, db) \<Rightarrow> Some (Ok (), t\<lparr>in_db := db\<rparr>))" for t roomID ty k
    using view_GetStateEvent [of roomID ty k "in_db t"]
    by (cases "GetStateEvent roomID ty k (in_db t)")
      (auto simp: preserves_def intro!: tables_keep_rooms split: outcome.splits option.splits if_splits)
  show ?thesis unfolding refresh_acls_def Let_def by (auto intro!: room_keeping kept)
qed

lemma kick_guests_rooms [room_keeping]: "preserves keeps_rooms s (kick_guests out info e s)"
  by (auto simp: preserves_def kick_guests_def finish_def intro: tables_keep_rooms split: outcome.splits if_splits)

lemma accept_old_rooms:
  assumes "ire_Kind (ck_input ck) \<noteq> KindNew"
  shows "preserves keeps_rooms s (accept out ck info st redaction s)"
proof -
  have "preserves keeps_rooms t (announce out ck info st t)" for t
    using assms unfolding announce_def Let_def by (cases "ire_Kind (ck_input ck)") (auto intro!: room_keeping)
  then show ?thesis unfolding accept_def Let_def by (auto intro!: room_keeping split: option.splits prod.splits)
qed

text \<open>An event that does not pass the checks, an outlier or an old event.\<close>

lemma finish_event_rooms:
  assumes "ire_Kind (ck_input ck) \<noteq> KindNew \<or> ck_rejectionErr ck \<noteq> None \<or> ck_softfail ck"
  shows "preserves keeps_rooms s (finish_event out ck s)"
proof -
  have "preserves keeps_rooms t (accept out ck info st redaction t)" if "ck_rejectionErr ck = None" "\<not> ck_softfail ck" for t info st redaction
    using assms that by (intro accept_old_rooms) simp
  then show ?thesis unfolding finish_event_def Let_def by (auto intro!: room_keeping split: option.splits)
qed

text \<open>Filling a gap changes the state that is given for the event, and nothing else of it.\<close>

lemma fill_gap_input:
  assumes "fill_gap out info input mp servers s = Some (Ok (input', mp', err), s')"
  shows "ire_Kind input' = ire_Kind input \<and> ire_Event input' = ire_Event input"
proof -
  have "ire_Kind (with_state snap input) = ire_Kind input \<and> ire_Event (with_state snap input) = ire_Event input" for snap
    by (simp add: with_state_def split: option.splits)
  note same = this
  show ?thesis
  proof (cases "\<not> (mp \<and> ire_Kind input = KindNew) \<or> servers = []")
    case True
    then show ?thesis using assms by (auto simp: fill_gap_def finish_def split: if_splits)
  next
    case False
    then obtain snap e t where "(case e of
          Some (ValidationError x True) \<Rightarrow> finish (Ok (with_state snap input, snap = None, e))
        | Some x \<Rightarrow> finish (Ok (input, mp, e))
        | None \<Rightarrow> finish (Ok (with_state snap input, False, None))) t = Some (Ok (input', mp', err), s')"
      using assms unfolding fill_gap_def by (auto simp: process_then_Ok)
    then have "input' = input \<or> input' = with_state snap input"
      by (cases e rule: option.exhaust; simp add: finish_def split: goerr.splits bool.splits)
    then show ?thesis using same by auto
  qed
qed

lemma check_event_steps:
  assumes "check_event out input s = Some (Ok (Some ck), s')"
  obtains sender servers input' mp' err s0 where
    "fill_gap out (SelectRoomInfo (room_raw (EventRoomID (ire_Event input))) (in_db s)) input (snd (missing_before input (in_db s))) servers s =
      Some (Ok (input', mp', err), s0)"
    "check_allowed out (SelectRoomInfo (room_raw (EventRoomID (ire_Event input))) (in_db s)) sender servers input' mp' err s0 = Some (Ok ck, s')"
proof -
  define info where "info = SelectRoomInfo (room_raw (EventRoomID (ire_Event input))) (in_db s)"
  obtain ma mp where m: "missing_before input (in_db s) = (ma, mp)" by fastforce
  show ?thesis using assms that unfolding check_event_def Let_def info_def [symmetric] m
    by (auto simp: process_then_Ok finish_def split: if_splits)
qed

lemma fill_gap_rooms:
  assumes "ire_Kind input = KindNew \<Longrightarrow> preserves keeps_rooms s (o_missingState out info servers input s)"
  shows "preserves keeps_rooms s (fill_gap out info input mp servers s)"
  unfolding fill_gap_def by (auto intro!: room_keeping assms split: option.splits goerr.splits bool.splits)

lemma check_event_rooms:
  assumes "\<And>info servers t. ire_Kind input = KindNew \<Longrightarrow> preserves keeps_rooms t (o_missingState out info servers input t)"
  shows "preserves keeps_rooms s (check_event out input s)"
proof -
  obtain ma mp where m: "missing_before input (in_db s) = (ma, mp)" by fastforce
  show ?thesis unfolding check_event_def Let_def m by (auto intro!: room_keeping fill_gap_rooms assms)
qed

text \<open>Whatever is done about missing state, the rooms change only by events that passed the checks.\<close>

lemma rooms_change_only_if_allowed:
  assumes missing: "\<And>info servers t. ire_Kind input = KindNew \<Longrightarrow> preserves keeps_rooms t (o_missingState out info servers input t)"
    and run: "processRoomEvent out input s = Some (r, s')" and changed: "\<not> keeps_rooms s s'"
  obtains servers input' mp' err s0 s1 where "ire_Kind input = KindNew"
    "fill_gap out (SelectRoomInfo (room_raw (EventRoomID (ire_Event input))) (in_db s)) input (snd (missing_before input (in_db s))) servers s =
      Some (Ok (input', mp', err), s0)"
    "passes_auth out (SelectRoomInfo (room_raw (EventRoomID (ire_Event input))) (in_db s)) (ire_Event input) s0 s1"
    "is_create (ire_Event input) \<or> (\<exists>s2. passes_current out (SelectRoomInfo (room_raw (EventRoomID (ire_Event input))) (in_db s)) input' s1 s2 \<and>
       passes_before out input' mp' s2)"
proof -
  define rest where "rest = (\<lambda>res. case res of None \<Rightarrow> finish (Ok ()) | Some ck \<Rightarrow> finish_event out ck)"
  have fails: "\<not> preserves keeps_rooms s (processRoomEvent out input s)" using run changed by (auto simp: preserves_def)
  then have "processRoomEvent out input s = process_then (check_event out input) rest s"
    by (cases "o_expired out") (simp_all add: processRoomEvent_def rest_def room_keeping)
  then obtain res t where res: "check_event out input s = Some (Ok res, t)" "\<not> preserves keeps_rooms t (rest res t)"
    using rooms.process_then_result [of s "check_event out input" rest, OF check_event_rooms [OF missing]] fails by auto
  then obtain ck where ck: "check_event out input s = Some (Ok (Some ck), t)" "\<not> preserves keeps_rooms t (finish_event out ck t)"
    by (cases res) (simp_all add: rest_def room_keeping)
  have ok: "ire_Kind (ck_input ck) = KindNew" "ck_rejectionErr ck = None" "\<not> ck_softfail ck"
    using ck(2) finish_event_rooms by blast+
  show ?thesis using ck(1)
  proof (rule check_event_steps)
    fix sender servers input' mp' err s0
    assume fill: "fill_gap out (SelectRoomInfo (room_raw (EventRoomID (ire_Event input))) (in_db s)) input (snd (missing_before input (in_db s))) servers s =
        Some (Ok (input', mp', err), s0)"
      and allowed: "check_allowed out (SelectRoomInfo (room_raw (EventRoomID (ire_Event input))) (in_db s)) sender servers input' mp' err s0 = Some (Ok ck, t)"
    note same = fill_gap_input [OF fill]
    from check_allowed_allows [OF allowed] ok
    obtain s1 where "passes_auth out (SelectRoomInfo (room_raw (EventRoomID (ire_Event input))) (in_db s)) (ire_Event input') s0 s1"
        "is_create (ire_Event input') \<or> (\<exists>s2. passes_current out (SelectRoomInfo (room_raw (EventRoomID (ire_Event input))) (in_db s)) input' s1 s2 \<and>
          passes_before out input' mp' s2)" by auto
    with fill same check_allowed_allows(1) [OF allowed] ok show ?thesis by (intro that) auto
  qed
qed

lemma processRoomEvent_old_rooms:
  assumes "ire_Kind input \<noteq> KindNew"
  shows "preserves keeps_rooms s (processRoomEvent out input s)"
proof -
  have missing: "\<And>info servers t. ire_Kind input = KindNew \<Longrightarrow> preserves keeps_rooms t (o_missingState out info servers input t)"
    using assms by simp
  show ?thesis unfolding preserves_def
  proof (intro allI impI, rule ccontr)
    fix r s' assume "processRoomEvent out input s = Some (r, s')" "\<not> keeps_rooms s s'"
    from rooms_change_only_if_allowed [OF missing this] assms show False by blast
  qed
qed

section \<open>Filling a gap\<close>

lemma inject_rooms [room_keeping]: "ire_Kind ire \<noteq> KindNew \<Longrightarrow> preserves keeps_rooms s (inject out wrap ire s)"
  using processRoomEvent_old_rooms [of ire s out]
  by (auto simp: preserves_def inject_def split: option.splits outcome.splits goerr.splits)

lemma inject_all_rooms [room_keeping]:
  "\<forall>ire \<in> set ires. ire_Kind ire \<noteq> KindNew \<Longrightarrow> preserves keeps_rooms s (inject_all out wrap ires s)"
  by (induction ires arbitrary: s) (auto intro!: room_keeping)

lemma injected_kinds [simp]: "ire_Kind (old_event origin e) = KindOld" "ire_Kind (outlier origin e) = KindOutlier"
  by (simp_all add: old_event_def outlier_def)

lemma sendOutliers_rooms [room_keeping]: "preserves keeps_rooms s (sendOutliers out origin had resolved s)"
  unfolding sendOutliers_def by (auto intro!: room_keeping)

lemma resolved_before_rooms [room_keeping]: "preserves keeps_rooms s (resolved_before fed out wrap version e t s)"
  by (auto simp: preserves_def resolved_before_def rooms.refl split: option.splits outcome.splits prod.splits)

lemma roll_forward_rooms [room_keeping]: "preserves keeps_rooms s (roll_forward fed out version e newEvents t s)"
  unfolding roll_forward_def by (auto intro!: room_keeping)

lemma fill_rooms: "preserves keeps_rooms s (fill fed out e t s)"
proof -
  have stop: "preserves keeps_rooms s (Some (r, s))" for r by (simp add: preserves_def rooms.refl)
  show ?thesis unfolding fill_def by (auto intro!: stop room_keeping split: prod.splits outcome.splits)
qed

lemma missing_state_rooms: "preserves keeps_rooms s (processEventWithMissingState fed out info servers input s)"
  unfolding processEventWithMissingState_def
  using fill_rooms by (auto simp: preserves_def split: option.splits outcome.splits prod.splits)


text \<open>Another server knows the one event that is missing before a message.\<close>

definition sample_message :: "string \<Rightarrow> string \<Rightarrow> PDU" where
  "sample_message eventID before =
     (mk_event eventID ''m.room.message'' None ''@m:a'' [(''body'', JStr ''hi'')] [''$c'', ''$p'', ''$m''] 7)\<lparr>PrevEventIDs := [before]\<rparr>"

definition sample_federation :: federation where
  "sample_federation =
     \<lparr>fed_MissingEvents = (\<lambda>server latest e. Ok [sample_message ''$v'' ''$x'']), fed_StateIDs = (\<lambda>server eventID. Err (GoError ''not found'')),
      fed_State = (\<lambda>server eventID. Err (GoError ''not found'')), fed_Event = (\<lambda>server eventID. NoAnswer)\<rparr>"

definition sample_gap :: InputRoomEvent where
  "sample_gap = (sample_new ''@m:a'')\<lparr>ire_Event := sample_message ''$w'' ''$v''\<rparr>"


end
