(* ===== verification/GoInterface.thy ===== *)
theory GoInterface
  imports GoJSON
begin

text \<open>
  JSON values as Go's \<^verbatim>\<open>interface{}\<close>: what decoding and encoding one again makes of it. Objects become maps, in
  which the last of several members with the same name counts and which are encoded in the order of
  their names; numbers become floats.
\<close>

text \<open>Decoding fails if a number is too large for a float.\<close>

fun numbers_fit :: "json \<Rightarrow> bool" where
  "numbers_fit (JNum raw) \<longleftrightarrow> ParseFloat64 raw \<noteq> None"
| "numbers_fit (JArr js) \<longleftrightarrow> list_all numbers_fit js"
| "numbers_fit (JObj kvs) \<longleftrightarrow> list_all (\<lambda>kv. numbers_fit (snd kv)) kvs"
| "numbers_fit _ \<longleftrightarrow> True"

definition dec_any :: "json option decoder" where
  "dec_any j v = (case j of JNull \<Rightarrow> (None, DNone) | _ \<Rightarrow> (Some j, if numbers_fit j then DNone else DSaved))"

text \<open>The members of a map as they are encoded.\<close>

definition sorted_members :: "(string \<times> 'a) list \<Rightarrow> (string \<times> 'a) list" where
  "sorted_members kvs = map (\<lambda>k. (k, the (map_of (rev kvs) k))) (sort (remdups (map fst kvs)))"

text \<open>How a float is printed is an argument.\<close>

fun through_interface :: "(bool \<times> int \<times> int \<Rightarrow> string) \<Rightarrow> json \<Rightarrow> json" where
  "through_interface pf (JNum raw) = JNum (case ParseFloat64 raw of Some f \<Rightarrow> pf f | None \<Rightarrow> raw)"
| "through_interface pf (JArr js) = JArr (map (through_interface pf) js)"
| "through_interface pf (JObj kvs) = JObj (sorted_members (map (\<lambda>kv. (fst kv, through_interface pf (snd kv))) kvs))"
| "through_interface pf j = j"

lemma map_of_sorted_members: "map_of (sorted_members kvs) k = map_of (rev kvs) k"
proof (cases "k \<in> fst ` set kvs")
  case True
  then have "\<exists>v. map_of (rev kvs) k = Some v" by (metis domD dom_map_of_conv_image_fst set_rev)
  then show ?thesis using True by (auto simp: sorted_members_def map_of_map_restrict restrict_map_def)
next
  case False
  then have none: "map_of (rev kvs) k = None" by (simp add: map_of_eq_None_iff)
  show ?thesis unfolding none using False by (simp add: sorted_members_def map_of_map_restrict restrict_map_def)
qed

lemma keys_sorted_members [simp]: "map fst (sorted_members kvs) = sort (remdups (map fst kvs))"
  by (simp add: sorted_members_def comp_def)

end
