(* ===== verification/PushRules.thy ===== *)
theory PushRules
  imports ServerACLs EventContent GoInterface
begin

text \<open>
  Push rules (\<^verbatim>\<open>internal/pushrules\<close>): which events a user is notified of. The rules of a user are kept as
  a JSON document (\<^verbatim>\<open>userapi/storage/shared/storage.go\<close>), changed through the client API
  (\<^verbatim>\<open>clientapi/routing/pushrules.go\<close>) and evaluated for every event of the user's rooms
  (\<^verbatim>\<open>userapi/consumers/roomserver.go\<close>).

  Texts are UTF-8, as all strings of JSON documents are. A number in the value of a tweak keeps its
  literal.
\<close>

section \<open>Rules\<close>

type_synonym tweaks = "(string, json option) gomap"

record Action =
  act_Kind :: string
  act_Tweak :: string
  act_Value :: "json option"

record Condition =
  cond_Kind :: string
  cond_Key :: string
  cond_Pattern :: "string option"
  cond_Is :: string

text \<open>A slice is \<open>None\<close> if it is nil. A pointer in it that is nil is \<open>None\<close>, too.\<close>

record Rule =
  rule_RuleID :: string
  rule_Default :: bool
  rule_Enabled :: bool
  rule_Conditions :: "Condition option list option"
  rule_Actions :: "Action option list option"
  rule_Pattern :: "string option"

record RuleSet =
  rs_Override :: "Rule list"
  rs_Content :: "Rule list"
  rs_Room :: "Rule list"
  rs_Sender :: "Rule list"
  rs_Underride :: "Rule list"

abbreviation slice :: "'a list option \<Rightarrow> 'a list" where
  "slice xs \<equiv> (case xs of None \<Rightarrow> [] | Some xs \<Rightarrow> xs)"

definition push_kinds :: "string list" where
  "push_kinds = [''override'', ''content'', ''room'', ''sender'', ''underride'']"

section \<open>Patterns\<close>

text \<open>The number of bytes of a character, by its first byte.\<close>

definition char_width :: "char \<Rightarrow> nat" where
  "char_width c = (if c < CHR 0xC0 then 1 else if c < CHR 0xE0 then 2 else if c < CHR 0xF0 then 3 else 4)"

definition next_char :: "string \<Rightarrow> string" where
  "next_char s = (case s of [] \<Rightarrow> [] | c # cs \<Rightarrow> drop (char_width c - 1) cs)"

lemma next_char_shorter [simp]: "s \<noteq> [] \<Longrightarrow> length (next_char s) < length s"
  by (cases s) (auto simp: next_char_def)

text \<open>\<^verbatim>\<open>MatchString\<close> for an expression between \<^verbatim>\<open>^(\<close> and \<^verbatim>\<open>)$\<close>: all of the text has to match.\<close>

function match_all :: "regexp list \<Rightarrow> string \<Rightarrow> bool" where
  "match_all [] s = (s = [])"
| "match_all (Lit c # re) s = (s \<noteq> [] \<and> hd s = c \<and> match_all re (tl s))"
| "match_all (Dot # re) s = (if s = [] \<or> hd s = newline then False else match_all re (next_char s))"
| "match_all (DotStar # re) s =
     (match_all re s \<or> (if s = [] \<or> hd s = newline then False else match_all (DotStar # re) (next_char s)))"
  by pat_completeness auto
termination by (relation "measure (\<lambda>(re, s). length s + length re)") (auto simp: less_SucI add_less_le_mono)

abbreviation glob_char :: "char \<Rightarrow> bool" where
  "glob_char c \<equiv> c = CHR ''*'' \<or> c = CHR ''?''"

text \<open>\<^verbatim>\<open>globNonMetaRegexp.ReplaceAllStringFunc(pattern, regexp.QuoteMeta)\<close>\<close>

function quote_non_meta :: "string \<Rightarrow> string" where
  "quote_non_meta [] = []"
| "quote_non_meta (c # s) =
     (if glob_char c then c # quote_non_meta s
      else QuoteMeta (c # takeWhile (\<lambda>c. \<not> glob_char c) s) @ quote_non_meta (dropWhile (\<lambda>c. \<not> glob_char c) s))"
  by pat_completeness auto
termination by (relation "measure length") (auto simp: le_imp_less_Suc length_dropWhile_le)

definition strings_Replace1 :: "char \<Rightarrow> string \<Rightarrow> string \<Rightarrow> string" where
  "strings_Replace1 old new s = concat (map (\<lambda>c. if c = old then new else [c]) s)"

definition globToRegexp :: "string \<Rightarrow> regexp list outcome" where
  "globToRegexp pattern =
     (let pattern = (if \<not> list_ex glob_char pattern then ''*'' @ pattern @ ''*'' else pattern);
          pattern = quote_non_meta pattern;
          pattern = strings_Replace1 CHR ''*'' ''.*'' pattern;
          pattern = strings_Replace1 CHR ''?'' ''.'' pattern
      in case regexp_Compile pattern of None \<Rightarrow> Err (GoError ''error parsing regexp'') | Some re \<Rightarrow> Ok re)"

text \<open>\<^verbatim>\<open>strings.Split\<close> by one byte.\<close>

fun strings_Split :: "char \<Rightarrow> string \<Rightarrow> string list" where
  "strings_Split sep [] = [[]]"
| "strings_Split sep (c # s) =
     (case strings_Split sep s of p # ps \<Rightarrow> if c = sep then [] # p # ps else (c # p) # ps | [] \<Rightarrow> [])"

text \<open>Of members with the same name the last one counts.\<close>

fun follow_path :: "string list \<Rightarrow> json \<Rightarrow> json option" where
  "follow_path [] v = Some v"
| "follow_path (key # path) v =
     (case v of
        JObj kvs \<Rightarrow> (case map_of (rev kvs) key of None \<Rightarrow> None | Some v \<Rightarrow> follow_path path v)
      | _ \<Rightarrow> None)"

definition lookupMapPath :: "string list \<Rightarrow> json \<Rightarrow> json option" where
  "lookupMapPath path m = (if path = [] then None else follow_path path m)"

record pushEvent =
  pe_PDU :: PDU
  pe_JSON :: "json option"

text \<open>\<^verbatim>\<open>json.Unmarshal\<close> into a map: \<^verbatim>\<open>null\<close> leaves it nil, in which nothing is found.\<close>

definition event_map :: "json option \<Rightarrow> json outcome" where
  "event_map doc =
     (case doc of
        Some (JObj kvs) \<Rightarrow> if numbers_fit (JObj kvs) then Ok (JObj kvs) else Err (GoError ''parsing event: %w'')
      | Some JNull \<Rightarrow> Ok (JObj [])
      | _ \<Rightarrow> Err (GoError ''parsing event: %w''))"

definition patternMatches :: "string \<Rightarrow> string \<Rightarrow> pushEvent \<Rightarrow> bool outcome" where
  "patternMatches key pattern event =
     (if pattern = [] then Ok False
      else and_then (globToRegexp pattern) (\<lambda>re.
        and_then (event_map (pe_JSON event)) (\<lambda>eventMap.
          case lookupMapPath (strings_Split CHR ''.'' key) eventMap of
            Some (JStr v) \<Rightarrow> Ok (match_all re v)
          | _ \<Rightarrow> Ok False)))"

section \<open>Conditions\<close>

record EvaluationContext =
  ec_UserDisplayName :: string
  ec_RoomMemberCount :: "int outcome"
  ec_HasPowerLevel :: "string \<Rightarrow> string \<Rightarrow> bool outcome"

abbreviation has_prefix :: "string \<Rightarrow> string \<Rightarrow> bool" where
  "has_prefix s p \<equiv> take (length p) s = p"

definition parseRoomMemberCountCondition :: "string \<Rightarrow> (int \<Rightarrow> bool) outcome" where
  "parseRoomMemberCountCondition s =
     (let (cmp, s) =
        (if has_prefix s ''<='' then (\<lambda>b a :: int. a \<le> b, drop 2 s)
         else if has_prefix s ''>='' then (\<lambda>b a. a \<ge> b, drop 2 s)
         else if has_prefix s ''<'' then (\<lambda>b a. a < b, drop 1 s)
         else if has_prefix s ''>'' then (\<lambda>b a. a > b, drop 1 s)
         else if has_prefix s ''=='' then (\<lambda>b a. a = b, drop 2 s)
         else (\<lambda>b a. a = b, s))
      in case ParseInt64 s of None \<Rightarrow> Err (GoError ''strconv.ParseInt'') | Some b \<Rightarrow> Ok (cmp b))"

definition conditionMatches :: "Condition \<Rightarrow> pushEvent \<Rightarrow> EvaluationContext \<Rightarrow> bool outcome" where
  "conditionMatches cond event ec =
     (if cond_Kind cond = ''event_match'' then
        (case cond_Pattern cond of
           None \<Rightarrow> Err (GoError ''missing condition pattern'')
         | Some pattern \<Rightarrow> patternMatches (cond_Key cond) pattern event)
      else if cond_Kind cond = ''contains_display_name'' then patternMatches ''content.body'' (ec_UserDisplayName ec) event
      else if cond_Kind cond = ''room_member_count'' then
        (case parseRoomMemberCountCondition (cond_Is cond) of
           Panic \<Rightarrow> Panic
         | Err _ \<Rightarrow> Err (GoError ''parsing room_member_count condition: %w'')
         | Ok cmp \<Rightarrow>
             (case ec_RoomMemberCount ec of
                Panic \<Rightarrow> Panic
              | Err _ \<Rightarrow> Err (GoError ''RoomMemberCount failed: %w'')
              | Ok n \<Rightarrow> Ok (cmp n)))
      else if cond_Kind cond = ''sender_notification_permission'' then
        ec_HasPowerLevel ec (SenderID (pe_PDU event)) (cond_Key cond)
      else Ok False)"

fun conditions_match :: "Condition option list \<Rightarrow> pushEvent \<Rightarrow> EvaluationContext \<Rightarrow> bool outcome" where
  "conditions_match [] event ec = Ok True"
| "conditions_match (c # cs) event ec =
     and_then (deref c) (\<lambda>cond. and_then (conditionMatches cond event ec) (\<lambda>ok.
       if \<not> ok then Ok False else conditions_match cs event ec))"

section \<open>Evaluation\<close>

definition ruleMatches :: "Rule \<Rightarrow> string \<Rightarrow> pushEvent \<Rightarrow> EvaluationContext \<Rightarrow> UserIDForSender \<Rightarrow> bool outcome" where
  "ruleMatches rule kind event ec q =
     (if \<not> rule_Enabled rule then Ok False
      else if kind = ''override'' \<or> kind = ''underride'' then conditions_match (slice (rule_Conditions rule)) event ec
      else if kind = ''content'' then
        (case rule_Pattern rule of None \<Rightarrow> Ok False | Some pattern \<Rightarrow> patternMatches ''content.body'' pattern event)
      else if kind = ''room'' then Ok (rule_RuleID rule = room_raw (EventRoomID (pe_PDU event)))
      else if kind = ''sender'' then
        (case q (EventRoomID (pe_PDU event)) (SenderID (pe_PDU event)) of
           Ok sender \<Rightarrow> and_then (deref sender) (\<lambda>u. Ok (rule_RuleID rule = user_raw u))
         | Err _ \<Rightarrow> Ok (rule_RuleID rule = [])
         | Panic \<Rightarrow> Panic)
      else Ok False)"

definition NewRuleSetEvaluator :: "RuleSet \<Rightarrow> (string \<times> Rule list) list" where
  "NewRuleSetEvaluator rs =
     [(''override'', rs_Override rs), (''content'', rs_Content rs), (''room'', rs_Room rs),
      (''sender'', rs_Sender rs), (''underride'', rs_Underride rs)]"

text \<open>The loop over the rules of a kind, the default ones or the others.\<close>

fun match_rules :: "bool \<Rightarrow> string \<Rightarrow> Rule list \<Rightarrow> pushEvent \<Rightarrow> EvaluationContext \<Rightarrow> UserIDForSender \<Rightarrow> Rule option outcome" where
  "match_rules def kind [] event ec q = Ok None"
| "match_rules def kind (rule # rules) event ec q =
     (if rule_Default rule \<noteq> def then match_rules def kind rules event ec q
      else and_then (ruleMatches rule kind event ec q) (\<lambda>ok.
        if ok then Ok (Some rule) else match_rules def kind rules event ec q))"

definition or_else :: "'a option outcome \<Rightarrow> 'a option outcome \<Rightarrow> 'a option outcome" where
  "or_else m n = and_then m (\<lambda>r. case r of None \<Rightarrow> n | Some x \<Rightarrow> Ok (Some x))"

fun match_kinds :: "(string \<times> Rule list) list \<Rightarrow> pushEvent \<Rightarrow> EvaluationContext \<Rightarrow> UserIDForSender \<Rightarrow> Rule option outcome" where
  "match_kinds [] event ec q = Ok None"
| "match_kinds ((kind, rules) # rest) event ec q =
     or_else (match_rules False kind rules event ec q)
       (or_else (match_rules True kind rules event ec q) (match_kinds rest event ec q))"

definition MatchEvent :: "RuleSet \<Rightarrow> pushEvent \<Rightarrow> EvaluationContext \<Rightarrow> UserIDForSender \<Rightarrow> Rule option outcome" where
  "MatchEvent rs event ec q = match_kinds (NewRuleSetEvaluator rs) event ec q"

section \<open>Actions\<close>

fun actions_loop :: "Action option list \<Rightarrow> string \<Rightarrow> tweaks \<Rightarrow> (string \<times> tweaks) outcome" where
  "actions_loop [] kind tweaks = Ok (kind, tweaks)"
| "actions_loop (a # as) kind tweaks =
     and_then (deref a) (\<lambda>a.
       if act_Kind a = ''dont_notify'' then actions_loop as kind tweaks
       else if act_Kind a = ''set_tweak'' then actions_loop as kind (AList.update (act_Tweak a) (act_Value a) tweaks)
       else if kind \<noteq> [] then Err (GoError ''got multiple primary actions: already had %q, got %s'')
       else actions_loop as (act_Kind a) tweaks)"

definition ActionsToTweaks :: "Action option list \<Rightarrow> (string \<times> tweaks) outcome" where
  "ActionsToTweaks as = actions_loop as [] []"

definition BoolTweakOr :: "tweaks \<Rightarrow> string \<Rightarrow> bool \<Rightarrow> bool" where
  "BoolTweakOr tweaks key def = (case map_of tweaks key of Some (Some (JBool b)) \<Rightarrow> b | _ \<Rightarrow> def)"

end
