(* ===== verification/PushRuleStore.thy ===== *)
theory PushRuleStore
  imports PushRules Events
begin

text \<open>
  Where the push rules of a user come from and go to: the default rules, the JSON document that is kept
  for the user, the handlers of the client API that change it, the copy that is made when a room is
  upgraded, and the evaluation when an event arrives.

  The state is the document of one user; every account gets one when it is created. Queries and updates
  of the database succeed. No list of rules in a stored document has an element \<^verbatim>\<open>null\<close>, since no rule
  that is stored is nil; the decoder stops there.
\<close>

section \<open>Default rules\<close>

abbreviation act :: "string \<Rightarrow> Action option" where
  "act kind \<equiv> Some \<lparr>act_Kind = kind, act_Tweak = [], act_Value = None\<rparr>"

abbreviation tweak :: "string \<Rightarrow> json option \<Rightarrow> Action option" where
  "tweak t v \<equiv> Some \<lparr>act_Kind = ''set_tweak'', act_Tweak = t, act_Value = v\<rparr>"

abbreviation event_match :: "string \<Rightarrow> string \<Rightarrow> Condition option" where
  "event_match key pattern \<equiv> Some \<lparr>cond_Kind = ''event_match'', cond_Key = key, cond_Pattern = Some pattern, cond_Is = []\<rparr>"

abbreviation condition :: "string \<Rightarrow> string \<Rightarrow> string \<Rightarrow> Condition option" where
  "condition kind key is \<equiv> Some \<lparr>cond_Kind = kind, cond_Key = key, cond_Pattern = None, cond_Is = is\<rparr>"

abbreviation default_rule :: "string \<Rightarrow> Condition option list \<Rightarrow> Action option list \<Rightarrow> Rule" where
  "default_rule i cs as \<equiv>
     \<lparr>rule_RuleID = i, rule_Default = True, rule_Enabled = True, rule_Conditions = Some cs, rule_Actions = Some as, rule_Pattern = None\<rparr>"

definition mRuleMasterDefinition :: Rule where
  "mRuleMasterDefinition =
     \<lparr>rule_RuleID = ''.m.rule.master'', rule_Default = True, rule_Enabled = False, rule_Conditions = None, rule_Actions = Some [], rule_Pattern = None\<rparr>"

definition mRuleSuppressNoticesDefinition :: Rule where
  "mRuleSuppressNoticesDefinition = default_rule ''.m.rule.suppress_notices'' [event_match ''content.msgtype'' ''m.notice''] []"

definition mRuleMemberEventDefinition :: Rule where
  "mRuleMemberEventDefinition = default_rule ''.m.rule.member_event'' [event_match ''type'' ''m.room.member''] []"

definition mRuleContainsDisplayNameDefinition :: Rule where
  "mRuleContainsDisplayNameDefinition = default_rule ''.m.rule.contains_display_name'' [condition ''contains_display_name'' [] []]
     [act ''notify'', tweak ''sound'' (Some (JStr ''default'')), tweak ''highlight'' None]"

definition mRuleTombstoneDefinition :: Rule where
  "mRuleTombstoneDefinition = default_rule ''.m.rule.tombstone'' [event_match ''type'' ''m.room.tombstone'', event_match ''state_key'' []]
     [act ''notify'', tweak ''highlight'' None]"

definition mRuleACLsDefinition :: Rule where
  "mRuleACLsDefinition = default_rule ''.m.rule.room.server_acl'' [event_match ''type'' ''m.room.server_acl'', event_match ''state_key'' []] []"

definition mRuleRoomNotifDefinition :: Rule where
  "mRuleRoomNotifDefinition = default_rule ''.m.rule.roomnotif''
     [event_match ''content.body'' ''@room'', condition ''sender_notification_permission'' ''room'' []]
     [act ''notify'', tweak ''highlight'' None]"

definition mRuleReactionDefinition :: Rule where
  "mRuleReactionDefinition = default_rule ''.m.rule.reaction'' [event_match ''type'' ''m.reaction''] []"

definition mRuleInviteForMeDefinition :: "string \<Rightarrow> Rule" where
  "mRuleInviteForMeDefinition userID = default_rule ''.m.rule.invite_for_me''
     [event_match ''type'' ''m.room.member'', event_match ''content.membership'' ''invite'', event_match ''state_key'' userID]
     [act ''notify'', tweak ''sound'' (Some (JStr ''default''))]"

definition defaultOverrideRules :: "string \<Rightarrow> Rule list" where
  "defaultOverrideRules userID =
     [mRuleMasterDefinition, mRuleSuppressNoticesDefinition, mRuleInviteForMeDefinition userID, mRuleMemberEventDefinition,
      mRuleContainsDisplayNameDefinition, mRuleRoomNotifDefinition, mRuleTombstoneDefinition, mRuleReactionDefinition, mRuleACLsDefinition]"

definition mRuleContainsUserNameDefinition :: "string \<Rightarrow> Rule" where
  "mRuleContainsUserNameDefinition localpart =
     \<lparr>rule_RuleID = ''.m.rule.contains_user_name'', rule_Default = True, rule_Enabled = True, rule_Conditions = None,
      rule_Actions = Some [act ''notify'', tweak ''sound'' (Some (JStr ''default'')), tweak ''highlight'' None], rule_Pattern = Some localpart\<rparr>"

definition defaultContentRules :: "string \<Rightarrow> Rule list" where
  "defaultContentRules localpart = [mRuleContainsUserNameDefinition localpart]"

definition mRuleCallDefinition :: Rule where
  "mRuleCallDefinition = default_rule ''.m.rule.call'' [event_match ''type'' ''m.call.invite'']
     [act ''notify'', tweak ''sound'' (Some (JStr ''ring''))]"

definition mRuleEncryptedRoomOneToOneDefinition :: Rule where
  "mRuleEncryptedRoomOneToOneDefinition = default_rule ''.m.rule.encrypted_room_one_to_one''
     [condition ''room_member_count'' [] ''2'', event_match ''type'' ''m.room.encrypted'']
     [act ''notify'', tweak ''sound'' (Some (JStr ''default''))]"

definition mRuleRoomOneToOneDefinition :: Rule where
  "mRuleRoomOneToOneDefinition = default_rule ''.m.rule.room_one_to_one''
     [condition ''room_member_count'' [] ''2'', event_match ''type'' ''m.room.message'']
     [act ''notify'', tweak ''sound'' (Some (JStr ''default''))]"

definition mRuleMessageDefinition :: Rule where
  "mRuleMessageDefinition = default_rule ''.m.rule.message'' [event_match ''type'' ''m.room.message''] [act ''notify'']"

definition mRuleEncryptedDefinition :: Rule where
  "mRuleEncryptedDefinition = default_rule ''.m.rule.encrypted'' [event_match ''type'' ''m.room.encrypted''] [act ''notify'']"

definition defaultUnderrideRules :: "Rule list" where
  "defaultUnderrideRules =
     [mRuleCallDefinition, mRuleRoomOneToOneDefinition, mRuleEncryptedRoomOneToOneDefinition, mRuleMessageDefinition, mRuleEncryptedDefinition]"

definition DefaultGlobalRuleSet :: "string \<Rightarrow> string \<Rightarrow> RuleSet" where
  "DefaultGlobalRuleSet localpart serverName =
     \<lparr>rs_Override = defaultOverrideRules (''@'' @ localpart @ '':'' @ serverName), rs_Content = defaultContentRules localpart,
      rs_Room = [], rs_Sender = [], rs_Underride = defaultUnderrideRules\<rparr>"

section \<open>The document\<close>

definition omit_empty :: "string \<Rightarrow> string \<Rightarrow> (string \<times> json) list" where
  "omit_empty name s = (if s = [] then [] else [(name, JStr s)])"

definition opt_member :: "string \<Rightarrow> json option \<Rightarrow> (string \<times> json) list" where
  "opt_member name v = (case v of None \<Rightarrow> [] | Some j \<Rightarrow> [(name, j)])"

definition Action_MarshalJSON :: "Action \<Rightarrow> json outcome" where
  "Action_MarshalJSON a =
     (if act_Tweak a = [] \<and> act_Value a = None then Ok (JStr (act_Kind a))
      else if act_Kind a \<noteq> ''set_tweak'' then Err (GoError ''only set_tweak actions may have a value, but got kind %q'')
      else Ok (JObj ((act_Kind a, JStr (act_Tweak a)) # opt_member ''value'' (act_Value a))))"

text \<open>The elements of a slice, one after the other; a nil pointer is \<^verbatim>\<open>null\<close>.\<close>

fun marshal_all :: "('a \<Rightarrow> json outcome) \<Rightarrow> 'a list \<Rightarrow> json list outcome" where
  "marshal_all f [] = Ok []"
| "marshal_all f (x # xs) = and_then (f x) (\<lambda>j. and_then (marshal_all f xs) (\<lambda>js. Ok (j # js)))"

definition marshal_ptr :: "('a \<Rightarrow> json outcome) \<Rightarrow> 'a option \<Rightarrow> json outcome" where
  "marshal_ptr f p = (case p of None \<Rightarrow> Ok JNull | Some x \<Rightarrow> f x)"

definition json_of_Condition :: "Condition \<Rightarrow> json" where
  "json_of_Condition c =
     JObj ((''kind'', JStr (cond_Kind c)) # omit_empty ''key'' (cond_Key c) @ opt_member ''pattern'' (map_option JStr (cond_Pattern c)) @
       omit_empty ''is'' (cond_Is c))"

definition json_of_Rule :: "Rule \<Rightarrow> json outcome" where
  "json_of_Rule r =
     and_then (marshal_all (marshal_ptr (\<lambda>c. Ok (json_of_Condition c))) (slice (rule_Conditions r))) (\<lambda>conditions.
     and_then (marshal_all (marshal_ptr Action_MarshalJSON) (slice (rule_Actions r))) (\<lambda>actions.
       Ok (JObj ([(''rule_id'', JStr (rule_RuleID r)), (''default'', JBool (rule_Default r)), (''enabled'', JBool (rule_Enabled r))] @
         (if conditions = [] then [] else [(''conditions'', JArr conditions)]) @
         [(''actions'', if rule_Actions r = None then JNull else JArr actions)] @
         opt_member ''pattern'' (map_option JStr (rule_Pattern r))))))"

definition json_of_rules :: "string \<Rightarrow> Rule list \<Rightarrow> (string \<times> json) list outcome" where
  "json_of_rules name rules = and_then (marshal_all json_of_Rule rules) (\<lambda>js. Ok (if js = [] then [] else [(name, JArr js)]))"

definition json_of_RuleSet :: "RuleSet \<Rightarrow> json outcome" where
  "json_of_RuleSet rs =
     and_then (json_of_rules ''override'' (rs_Override rs)) (\<lambda>ov.
     and_then (json_of_rules ''content'' (rs_Content rs)) (\<lambda>c.
     and_then (json_of_rules ''room'' (rs_Room rs)) (\<lambda>r.
     and_then (json_of_rules ''sender'' (rs_Sender rs)) (\<lambda>s.
     and_then (json_of_rules ''underride'' (rs_Underride rs)) (\<lambda>u.
       Ok (JObj (ov @ c @ r @ s @ u)))))))"

definition json_of_AccountRuleSets :: "RuleSet \<Rightarrow> json outcome" where
  "json_of_AccountRuleSets global = and_then (json_of_RuleSet global) (\<lambda>j. Ok (JObj [(''global'', j)]))"

definition dec_raw_action :: "(string \<times> json option) decoder" where
  "dec_raw_action = dec_struct [(''set_tweak'', fld fst (\<lambda>x a. (x, snd a)) dec_string), (''value'', fld snd (\<lambda>x a. (fst a, x)) dec_any)]"

definition Action_UnmarshalJSON :: "Action decoder" where
  "Action_UnmarshalJSON j a =
     (case j of
        JStr s \<Rightarrow> (a\<lparr>act_Kind := s\<rparr>, DNone)
      | _ \<Rightarrow>
          (case Unmarshal dec_raw_action (Some j) ([], None) of (raw, err) \<Rightarrow>
             if err then (a, DAbort)
             else if fst raw = [] then (a, DAbort)
             else (a\<lparr>act_Kind := ''set_tweak'', act_Tweak := fst raw, act_Value := (case snd raw of None \<Rightarrow> act_Value a | v \<Rightarrow> v)\<rparr>, DNone)))"

definition zero_Action :: Action where
  "zero_Action = \<lparr>act_Kind = [], act_Tweak = [], act_Value = None\<rparr>"

definition zero_Condition :: Condition where
  "zero_Condition = \<lparr>cond_Kind = [], cond_Key = [], cond_Pattern = None, cond_Is = []\<rparr>"

definition zero_Rule :: Rule where
  "zero_Rule = \<lparr>rule_RuleID = [], rule_Default = False, rule_Enabled = False, rule_Conditions = None, rule_Actions = None, rule_Pattern = None\<rparr>"

definition zero_RuleSet :: RuleSet where
  "zero_RuleSet = \<lparr>rs_Override = [], rs_Content = [], rs_Room = [], rs_Sender = [], rs_Underride = []\<rparr>"

definition dec_Condition :: "Condition decoder" where
  "dec_Condition = dec_struct
     [(''kind'', fld cond_Kind (\<lambda>x c. c\<lparr>cond_Kind := x\<rparr>) dec_string), (''key'', fld cond_Key (\<lambda>x c. c\<lparr>cond_Key := x\<rparr>) dec_string),
      (''pattern'', fld cond_Pattern (\<lambda>x c. c\<lparr>cond_Pattern := x\<rparr>) (dec_ptr [] dec_string)), (''is'', fld cond_Is (\<lambda>x c. c\<lparr>cond_Is := x\<rparr>) dec_string)]"

definition dec_Rule :: "Rule decoder" where
  "dec_Rule = dec_struct
     [(''rule_id'', fld rule_RuleID (\<lambda>x r. r\<lparr>rule_RuleID := x\<rparr>) dec_string), (''default'', fld rule_Default (\<lambda>x r. r\<lparr>rule_Default := x\<rparr>) dec_bool),
      (''enabled'', fld rule_Enabled (\<lambda>x r. r\<lparr>rule_Enabled := x\<rparr>) dec_bool),
      (''conditions'', fld rule_Conditions (\<lambda>x r. r\<lparr>rule_Conditions := x\<rparr>) (dec_ptr [] (dec_slice None (dec_ptr zero_Condition dec_Condition)))),
      (''actions'', fld rule_Actions (\<lambda>x r. r\<lparr>rule_Actions := x\<rparr>) (dec_ptr [] (dec_slice None (dec_ptr zero_Action Action_UnmarshalJSON)))),
      (''pattern'', fld rule_Pattern (\<lambda>x r. r\<lparr>rule_Pattern := x\<rparr>) (dec_ptr [] dec_string))]"

definition dec_rules :: "Rule list decoder" where
  "dec_rules = dec_slice zero_Rule (\<lambda>j r. if j = JNull then (r, DAbort) else dec_Rule j r)"

definition dec_RuleSet :: "RuleSet decoder" where
  "dec_RuleSet = dec_struct
     [(''override'', fld rs_Override (\<lambda>x r. r\<lparr>rs_Override := x\<rparr>) dec_rules), (''content'', fld rs_Content (\<lambda>x r. r\<lparr>rs_Content := x\<rparr>) dec_rules),
      (''room'', fld rs_Room (\<lambda>x r. r\<lparr>rs_Room := x\<rparr>) dec_rules), (''sender'', fld rs_Sender (\<lambda>x r. r\<lparr>rs_Sender := x\<rparr>) dec_rules),
      (''underride'', fld rs_Underride (\<lambda>x r. r\<lparr>rs_Underride := x\<rparr>) dec_rules)]"

definition dec_AccountRuleSets :: "RuleSet decoder" where
  "dec_AccountRuleSets = dec_struct [(''global'', fld id (\<lambda>x _. x) dec_RuleSet)]"

text \<open>The document that comes with a new account.\<close>

definition account_document :: "string \<Rightarrow> string \<Rightarrow> json outcome" where
  "account_document localpart serverName = json_of_AccountRuleSets (DefaultGlobalRuleSet localpart serverName)"

text \<open>The rules of a user, and the document, which is made if there is none.\<close>

definition storage_QueryPushRules :: "string \<Rightarrow> string \<Rightarrow> json option \<Rightarrow> RuleSet outcome \<times> json option" where
  "storage_QueryPushRules localpart serverName data =
     (case data of
        None \<Rightarrow>
          (let rules = DefaultGlobalRuleSet localpart serverName in
           case json_of_AccountRuleSets rules of
             Ok j \<Rightarrow> (Ok rules, Some j)
           | _ \<Rightarrow> (Err (GoError ''failed to marshal default push rules: %w''), data))
      | Some j \<Rightarrow>
          (case Unmarshal dec_AccountRuleSets (Some j) zero_RuleSet of (rules, err) \<Rightarrow>
             (if err then Err (GoError ''json.Unmarshal'') else Ok rules, data)))"

definition api_QueryPushRules :: "string \<Rightarrow> json option \<Rightarrow> RuleSet outcome \<times> json option" where
  "api_QueryPushRules userID data =
     (case SplitID CHR ''@'' userID of
        Ok (localpart, domain) \<Rightarrow> storage_QueryPushRules localpart domain data
      | Err _ \<Rightarrow> (Err (GoError ''failed to split user ID %q for push rules''), data)
      | Panic \<Rightarrow> (Panic, data))"

text \<open>\<^verbatim>\<open>InputAccountData\<close> replaces the document of a user of this server.\<close>

definition PerformPushRulesPut :: "RuleSet \<Rightarrow> json option \<Rightarrow> unit outcome \<times> json option" where
  "PerformPushRulesPut rules data =
     (case json_of_AccountRuleSets rules of
        Ok j \<Rightarrow> (Ok (), Some j)
      | Err e \<Rightarrow> (Err e, data)
      | Panic \<Rightarrow> (Panic, data))"

section \<open>Validation\<close>

definition validateAction :: "Action option \<Rightarrow> goerr list outcome" where
  "validateAction a =
     and_then (deref a) (\<lambda>a.
       Ok (if act_Kind a \<in> {''notify'', ''dont_notify'', ''coalesce'', ''set_tweak''} then [] else [GoError ''invalid rule action kind: %s'']))"

definition validateCondition :: "Condition option \<Rightarrow> goerr list outcome" where
  "validateCondition c =
     and_then (deref c) (\<lambda>c.
       Ok (if cond_Kind c \<in> {''event_match'', ''contains_display_name'', ''room_member_count'', ''sender_notification_permission''} then []
           else [GoError ''invalid rule condition kind: %s'']))"

fun validate_all :: "('a \<Rightarrow> goerr list outcome) \<Rightarrow> 'a list \<Rightarrow> goerr list outcome" where
  "validate_all f [] = Ok []"
| "validate_all f (x # xs) = and_then (f x) (\<lambda>errs. and_then (validate_all f xs) (\<lambda>errs'. Ok (errs @ errs')))"

text \<open>\<^verbatim>\<open>^([^\\]+)$\<close>\<close>

definition validRuleID :: "string \<Rightarrow> bool" where
  "validRuleID s \<longleftrightarrow> s \<noteq> [] \<and> CHR 0x5C \<notin> set s"

definition validate_kind :: "string \<Rightarrow> Rule \<Rightarrow> goerr list" where
  "validate_kind kind rule =
     (if kind = ''override'' \<or> kind = ''underride'' then
        (if rule_Conditions rule = None then [GoError ''missing rule conditions''] else [])
      else if kind = ''content'' then
        (if rule_Pattern rule = None \<or> rule_Pattern rule = Some [] then [GoError ''missing content rule pattern''] else [])
      else if kind = ''room'' \<or> kind = ''sender'' then []
      else [GoError ''invalid rule kind: %s''])"

definition ValidateRule :: "string \<Rightarrow> Rule \<Rightarrow> goerr list outcome" where
  "ValidateRule kind rule =
     and_then (validate_all validateAction (slice (rule_Actions rule))) (\<lambda>action_errs.
     and_then (validate_all validateCondition (slice (rule_Conditions rule))) (\<lambda>condition_errs.
       Ok ((if take 1 (rule_RuleID rule) = ''.'' then [GoError ''invalid rule ID: rule can not start with a dot''] else []) @
           (if \<not> validRuleID (rule_RuleID rule) then [GoError ''invalid rule ID: %s''] else []) @
           (if rule_Actions rule = None then [GoError ''missing actions''] else []) @
           action_errs @ condition_errs @ validate_kind kind rule)))"

section \<open>The client API\<close>

text \<open>An answer with its status code; what goes wrong is named.\<close>

datatype 'a answer = Answer 'a | Failure nat string

definition answer_error :: "goerr \<Rightarrow> 'a answer outcome" where
  "answer_error e = Ok (Failure 500 ''M_UNKNOWN'')"

definition invalid_param :: "'a answer outcome" where
  "invalid_param = Ok (Failure 400 ''M_INVALID_PARAM'')"

definition not_found :: "'a answer outcome" where
  "not_found = Ok (Failure 404 ''M_NOT_FOUND'')"

definition pushRuleSetByScope :: "RuleSet \<Rightarrow> string \<Rightarrow> RuleSet option" where
  "pushRuleSetByScope global scope = (if scope = ''global'' then Some global else None)"

text \<open>The pointer to the rules of a kind: how they are read and written.\<close>

definition pushRuleSetKind :: "RuleSet \<Rightarrow> string \<Rightarrow> Rule list option" where
  "pushRuleSetKind rs kind =
     (if kind = ''override'' then Some (rs_Override rs) else if kind = ''content'' then Some (rs_Content rs)
      else if kind = ''room'' then Some (rs_Room rs) else if kind = ''sender'' then Some (rs_Sender rs)
      else if kind = ''underride'' then Some (rs_Underride rs) else None)"

definition set_kind :: "string \<Rightarrow> Rule list \<Rightarrow> RuleSet \<Rightarrow> RuleSet" where
  "set_kind kind rules rs =
     (if kind = ''override'' then rs\<lparr>rs_Override := rules\<rparr> else if kind = ''content'' then rs\<lparr>rs_Content := rules\<rparr>
      else if kind = ''room'' then rs\<lparr>rs_Room := rules\<rparr> else if kind = ''sender'' then rs\<lparr>rs_Sender := rules\<rparr>
      else if kind = ''underride'' then rs\<lparr>rs_Underride := rules\<rparr> else rs)"

fun pushRuleIndexByID :: "Rule list \<Rightarrow> string \<Rightarrow> nat option" where
  "pushRuleIndexByID [] i = None"
| "pushRuleIndexByID (r # rs) i = (if rule_RuleID r = i then Some 0 else map_option Suc (pushRuleIndexByID rs i))"

text \<open>Where to look for a rule that a new one is put next to: from an index on.\<close>

definition find_neighbour :: "Rule list \<Rightarrow> nat \<Rightarrow> string \<Rightarrow> nat option" where
  "find_neighbour rules i neighbour =
     (case pushRuleIndexByID (drop i rules) neighbour of
        None \<Rightarrow> None
      | Some j \<Rightarrow> if rule_Default (rules ! (i + j)) then None else Some (i + j))"

definition findPushRuleInsertionIndex :: "Rule list \<Rightarrow> string \<Rightarrow> string \<Rightarrow> nat option" where
  "findPushRuleInsertionIndex rules afterID beforeID =
     (case (if afterID = [] then Some 0 else map_option Suc (find_neighbour rules 0 afterID)) of
        None \<Rightarrow> None
      | Some i \<Rightarrow> if beforeID = [] then Some i else find_neighbour rules i beforeID)"

definition remove_at :: "nat \<Rightarrow> 'a list \<Rightarrow> 'a list" where
  "remove_at i xs = take i xs @ drop (Suc i) xs"

definition insert_at :: "nat \<Rightarrow> 'a \<Rightarrow> 'a list \<Rightarrow> 'a list" where
  "insert_at i x xs = take i xs @ [x] @ drop i xs"

text \<open>The rules of a kind after a rule is put among them, if the place for it is found.\<close>

definition put_rule :: "Rule list \<Rightarrow> Rule \<Rightarrow> string \<Rightarrow> string \<Rightarrow> Rule list option" where
  "put_rule rules newRule after before =
     (case pushRuleIndexByID rules (rule_RuleID newRule) of
        Some i \<Rightarrow>
          if after = [] \<and> before = [] then Some (rules[i := newRule])
          else (let rules = remove_at i rules in
                map_option (\<lambda>k. insert_at k newRule rules) (findPushRuleInsertionIndex rules after before))
      | None \<Rightarrow>
          map_option (\<lambda>k. insert_at k (newRule\<lparr>rule_Enabled := True\<rparr>) rules) (findPushRuleInsertionIndex rules after before))"

text \<open>
  What all handlers begin with: the rules of the user and of a kind. The document is made if there is
  none, also when the request fails afterwards.
\<close>

definition with_rules :: "string \<Rightarrow> string \<Rightarrow> string \<Rightarrow> json option \<Rightarrow>
    (RuleSet \<Rightarrow> Rule list \<Rightarrow> json option \<Rightarrow> 'a answer outcome \<times> json option) \<Rightarrow> 'a answer outcome \<times> json option" where
  "with_rules userID scope kind data handler =
     (case api_QueryPushRules userID data of
        (Panic, data) \<Rightarrow> (Panic, data)
      | (Err e, data) \<Rightarrow> (answer_error e, data)
      | (Ok ruleSets, data) \<Rightarrow>
          (case pushRuleSetByScope ruleSets scope of
             None \<Rightarrow> (invalid_param, data)
           | Some ruleSet \<Rightarrow>
               (case pushRuleSetKind ruleSet kind of
                  None \<Rightarrow> (invalid_param, data)
                | Some rules \<Rightarrow> handler ruleSet rules data)))"

definition save_rules :: "RuleSet \<Rightarrow> json option \<Rightarrow> unit answer outcome \<times> json option" where
  "save_rules ruleSet data =
     (case PerformPushRulesPut ruleSet data of
        (Ok _, data) \<Rightarrow> (Ok (Answer ()), data)
      | (Err e, data) \<Rightarrow> (answer_error e, data)
      | (Panic, data) \<Rightarrow> (Panic, data))"

definition GetPushRuleByRuleID :: "string \<Rightarrow> string \<Rightarrow> string \<Rightarrow> string \<Rightarrow> json option \<Rightarrow> Rule answer outcome \<times> json option" where
  "GetPushRuleByRuleID scope kind ruleID userID data =
     with_rules userID scope kind data (\<lambda>_ rules data.
       case pushRuleIndexByID rules ruleID of
         None \<Rightarrow> (not_found, data)
       | Some i \<Rightarrow> (Ok (Answer (rules ! i)), data))"

definition PutPushRuleByRuleID :: "string \<Rightarrow> string \<Rightarrow> string \<Rightarrow> string \<Rightarrow> string \<Rightarrow> json option \<Rightarrow> string \<Rightarrow> json option
    \<Rightarrow> unit answer outcome \<times> json option" where
  "PutPushRuleByRuleID scope kind ruleID after before body userID data =
     (case Unmarshal dec_Rule body zero_Rule of (newRule, err) \<Rightarrow>
        if err then (Ok (Failure 400 ''M_BAD_JSON''), data)
        else
          let newRule = newRule\<lparr>rule_RuleID := ruleID\<rparr> in
          (case ValidateRule kind newRule of
             Panic \<Rightarrow> (Panic, data)
           | Err e \<Rightarrow> (answer_error e, data)
           | Ok (_ # _) \<Rightarrow> (invalid_param, data)
           | Ok [] \<Rightarrow>
               with_rules userID scope kind data (\<lambda>ruleSet rules data.
                 case put_rule rules newRule after before of
                   None \<Rightarrow> (not_found, data)
                 | Some rules \<Rightarrow> save_rules (set_kind kind rules ruleSet) data)))"

definition DeletePushRuleByRuleID :: "string \<Rightarrow> string \<Rightarrow> string \<Rightarrow> string \<Rightarrow> json option \<Rightarrow> unit answer outcome \<times> json option" where
  "DeletePushRuleByRuleID scope kind ruleID userID data =
     with_rules userID scope kind data (\<lambda>ruleSet rules data.
       case pushRuleIndexByID rules ruleID of
         None \<Rightarrow> (not_found, data)
       | Some i \<Rightarrow> save_rules (set_kind kind (remove_at i rules) ruleSet) data)"

text \<open>The attributes \<^verbatim>\<open>actions\<close> and \<^verbatim>\<open>enabled\<close>: whether two rules have the same, and taking it over.\<close>

definition same_attr :: "string \<Rightarrow> Rule \<Rightarrow> Rule \<Rightarrow> bool" where
  "same_attr attr r r' = (if attr = ''actions'' then rule_Actions r = rule_Actions r' else rule_Enabled r = rule_Enabled r')"

definition set_attr :: "string \<Rightarrow> Rule \<Rightarrow> Rule \<Rightarrow> Rule" where
  "set_attr attr src dest =
     (if attr = ''actions'' then dest\<lparr>rule_Actions := rule_Actions src\<rparr> else dest\<lparr>rule_Enabled := rule_Enabled src\<rparr>)"

definition PutPushRuleAttrByRuleID :: "string \<Rightarrow> string \<Rightarrow> string \<Rightarrow> string \<Rightarrow> json option \<Rightarrow> string \<Rightarrow> json option
    \<Rightarrow> unit answer outcome \<times> json option" where
  "PutPushRuleAttrByRuleID scope kind ruleID attr body userID data =
     (case Unmarshal dec_Rule body zero_Rule of (newPartialRule, err) \<Rightarrow>
        if err then (Ok (Failure 400 ''M_BAD_JSON''), data)
        else
          let newPartialRule = newPartialRule\<lparr>rule_Actions := Some (slice (rule_Actions newPartialRule))\<rparr> in
          if attr \<noteq> ''actions'' \<and> attr \<noteq> ''enabled'' then (invalid_param, data)
          else
            with_rules userID scope kind data (\<lambda>ruleSet rules data.
              case pushRuleIndexByID rules ruleID of
                None \<Rightarrow> (not_found, data)
              | Some i \<Rightarrow>
                  if same_attr attr (rules ! i) newPartialRule then (Ok (Answer ()), data)
                  else save_rules (set_kind kind (rules[i := set_attr attr newPartialRule (rules ! i)]) ruleSet) data))"

definition GetAllPushRules :: "string \<Rightarrow> json option \<Rightarrow> RuleSet answer outcome \<times> json option" where
  "GetAllPushRules userID data =
     (case api_QueryPushRules userID data of
        (Panic, data) \<Rightarrow> (Panic, data)
      | (Err e, data) \<Rightarrow> (answer_error e, data)
      | (Ok ruleSets, data) \<Rightarrow> (Ok (Answer ruleSets), data))"

definition GetPushRulesByScope :: "string \<Rightarrow> string \<Rightarrow> json option \<Rightarrow> RuleSet answer outcome \<times> json option" where
  "GetPushRulesByScope scope userID data =
     (case api_QueryPushRules userID data of
        (Panic, data) \<Rightarrow> (Panic, data)
      | (Err e, data) \<Rightarrow> (answer_error e, data)
      | (Ok ruleSets, data) \<Rightarrow>
          (case pushRuleSetByScope ruleSets scope of
             None \<Rightarrow> (invalid_param, data)
           | Some ruleSet \<Rightarrow> (Ok (Answer ruleSet), data)))"

definition GetPushRulesByKind :: "string \<Rightarrow> string \<Rightarrow> string \<Rightarrow> json option \<Rightarrow> Rule list answer outcome \<times> json option" where
  "GetPushRulesByKind scope kind userID data =
     with_rules userID scope kind data (\<lambda>_ rules data. (if rules = [] then invalid_param else Ok (Answer rules), data))"

definition GetPushRuleAttrByRuleID :: "string \<Rightarrow> string \<Rightarrow> string \<Rightarrow> string \<Rightarrow> string \<Rightarrow> json option
    \<Rightarrow> (Action option list option + bool) answer outcome \<times> json option" where
  "GetPushRuleAttrByRuleID scope kind ruleID attr userID data =
     (if attr \<noteq> ''actions'' \<and> attr \<noteq> ''enabled'' then (invalid_param, data)
      else
        with_rules userID scope kind data (\<lambda>_ rules data.
          case pushRuleIndexByID rules ruleID of
            None \<Rightarrow> (not_found, data)
          | Some i \<Rightarrow> (Ok (Answer (if attr = ''actions'' then Inl (rule_Actions (rules ! i)) else Inr (rule_Enabled (rules ! i)))), data)))"

section \<open>Room upgrades\<close>

text \<open>The rules for the old room are copied one after the other, the document is stored after each.\<close>

fun copy_rules :: "Rule list \<Rightarrow> string \<Rightarrow> string \<Rightarrow> RuleSet \<Rightarrow> json option \<Rightarrow> unit outcome \<times> json option" where
  "copy_rules [] oldRoomID newRoomID pushRules data = (Ok (), data)"
| "copy_rules (roomRule # rules) oldRoomID newRoomID pushRules data =
     (if rule_RuleID roomRule \<noteq> oldRoomID then copy_rules rules oldRoomID newRoomID pushRules data
      else
        let pushRules = pushRules\<lparr>rs_Room := rs_Room pushRules @ [roomRule\<lparr>rule_RuleID := newRoomID\<rparr>]\<rparr> in
        (case PerformPushRulesPut pushRules data of
           (Ok _, data) \<Rightarrow> copy_rules rules oldRoomID newRoomID pushRules data
         | r \<Rightarrow> r))"

definition copyPushrules :: "string \<Rightarrow> string \<Rightarrow> string \<Rightarrow> string \<Rightarrow> json option \<Rightarrow> unit outcome \<times> json option" where
  "copyPushrules oldRoomID newRoomID localpart serverName data =
     (case storage_QueryPushRules localpart serverName data of
        (Panic, data) \<Rightarrow> (Panic, data)
      | (Err _, data) \<Rightarrow> (Err (GoError ''failed to query pushrules for user: %w''), data)
      | (Ok pushRules, data) \<Rightarrow> copy_rules (rs_Room pushRules) oldRoomID newRoomID pushRules data)"

section \<open>Events that arrive\<close>

record localMembership =
  lm_UserID :: string
  lm_Localpart :: string
  lm_Domain :: string
  lm_DisplayName :: string

text \<open>The power levels of the current state decide; if there are none, everybody may.\<close>

fun HasPowerLevel :: "PDU list \<Rightarrow> string \<Rightarrow> string \<Rightarrow> bool outcome" where
  "HasPowerLevel [] senderID levelKey = Ok True"
| "HasPowerLevel (ev # evs) senderID levelKey =
     (if EventType ev \<noteq> MRoomPowerLevels then HasPowerLevel evs senderID levelKey
      else and_then (NewPowerLevelContentFromEvent ev) (\<lambda>plc. Ok (UserLevel plc senderID \<ge> NotificationLevel plc levelKey)))"

definition ruleSetEvalContext :: "PDU list outcome \<Rightarrow> localMembership \<Rightarrow> int \<Rightarrow> EvaluationContext" where
  "ruleSetEvalContext stateEvents mem roomSize =
     \<lparr>ec_UserDisplayName = lm_DisplayName mem, ec_RoomMemberCount = Ok roomSize,
      ec_HasPowerLevel = (\<lambda>senderID levelKey. and_then stateEvents (\<lambda>evs. HasPowerLevel evs senderID levelKey))\<rparr>"

definition dec_IgnoredUsers :: "(string, json option) gomap decoder" where
  "dec_IgnoredUsers = dec_struct [(''ignored_users'', dec_map None dec_any)]"

text \<open>The sender as far as it is known: an unknown one is a nil pointer. A user ID of nil panics.\<close>

definition check_ignored :: "json option \<Rightarrow> UserID option \<Rightarrow> unit outcome" where
  "check_ignored ignoredData sender =
     (case ignoredData of
        None \<Rightarrow> Ok ()
      | Some j \<Rightarrow>
          (case Unmarshal dec_IgnoredUsers (Some j) [] of (ignored, err) \<Rightarrow>
             if err then Err (GoError ''json.Unmarshal'')
             else and_then (deref sender) (\<lambda>u. if map_of ignored (user_raw u) \<noteq> None then Err (GoError ''user %s is ignored'') else Ok ())))"

definition evaluatePushRules :: "UserIDForSender \<Rightarrow> PDU list outcome \<Rightarrow> json option \<Rightarrow> pushEvent \<Rightarrow> localMembership \<Rightarrow> int \<Rightarrow> json option
    \<Rightarrow> Action option list outcome \<times> json option" where
  "evaluatePushRules q stateEvents ignoredData event mem roomSize data =
     (case (case q (EventRoomID (pe_PDU event)) (SenderID (pe_PDU event)) of
              Panic \<Rightarrow> Panic
            | Err _ \<Rightarrow> Ok (None, [])
            | Ok sender \<Rightarrow> and_then (deref sender) (\<lambda>u. Ok (Some u, user_raw u))) of
        Panic \<Rightarrow> (Panic, data)
      | Err e \<Rightarrow> (Err e, data)
      | Ok (sender, user) \<Rightarrow>
          if user = lm_UserID mem then (Ok [], data)
          else
            (case check_ignored ignoredData sender of
               Panic \<Rightarrow> (Panic, data)
             | Err e \<Rightarrow> (Err e, data)
             | Ok _ \<Rightarrow>
                 (case storage_QueryPushRules (lm_Localpart mem) (lm_Domain mem) data of (ruleSets, data) \<Rightarrow>
                    (and_then ruleSets (\<lambda>rs.
                       and_then (MatchEvent rs event (ruleSetEvalContext stateEvents mem roomSize) q) (\<lambda>rule.
                         Ok (case rule of None \<Rightarrow> [] | Some rule \<Rightarrow> slice (rule_Actions rule)))), data))))"

text \<open>Whether the user is notified, with the tweaks.\<close>

definition notify_decision :: "UserIDForSender \<Rightarrow> PDU list outcome \<Rightarrow> json option \<Rightarrow> pushEvent \<Rightarrow> localMembership \<Rightarrow> int \<Rightarrow> json option
    \<Rightarrow> tweaks option outcome" where
  "notify_decision q stateEvents ignoredData event mem roomSize data =
     and_then (fst (evaluatePushRules q stateEvents ignoredData event mem roomSize data)) (\<lambda>actions.
     and_then (ActionsToTweaks actions) (\<lambda>(a, tweaks).
       Ok (if a \<noteq> ''notify'' then None else Some tweaks)))"

end
