(* ===== verification/PushRules_Correct.thy ===== *)
theory PushRules_Correct
  imports PushRuleStore Samples
begin

text \<open>
  What push rules mean: the pattern of a rule is a glob, and of all rules the first one counts that
  matches, in the order of the kinds and with the user's own rules before the default ones.
\<close>

section \<open>Patterns\<close>

text \<open>A glob over UTF-8 text: \<^verbatim>\<open>*\<close> stands for any characters and \<^verbatim>\<open>?\<close> for one.\<close>

function utf8_glob :: "string \<Rightarrow> string \<Rightarrow> bool" where
  "utf8_glob [] s = (s = [])"
| "utf8_glob (c # p) s =
     (if c = CHR ''*'' then utf8_glob p s \<or> (if s = [] then False else utf8_glob (c # p) (next_char s))
      else if c = CHR ''?'' then (if s = [] then False else utf8_glob p (next_char s))
      else s \<noteq> [] \<and> hd s = c \<and> utf8_glob p (tl s))"
  by pat_completeness auto
termination by (relation "measure (\<lambda>(p, s). length s + length p)") (auto simp: less_SucI add_less_le_mono)

text \<open>A pattern without wildcards may be anywhere in the text.\<close>

definition widened :: "string \<Rightarrow> string" where
  "widened p = (if \<not> list_ex glob_char p then ''*'' @ p @ ''*'' else p)"

lemma QuoteMeta_append: "QuoteMeta (s @ t) = QuoteMeta s @ QuoteMeta t"
  by (simp add: QuoteMeta_def)

lemma quote_non_meta_chars: "quote_non_meta p = concat (map (\<lambda>c. if glob_char c then [c] else QuoteMeta [c]) p)"
proof (induction p rule: quote_non_meta.induct)
  case (2 c s)
  have run: "QuoteMeta t = concat (map (\<lambda>c. if glob_char c then [c] else QuoteMeta [c]) t)" if "list_all (\<lambda>c. \<not> glob_char c) t" for t
    using that by (induction t) (simp_all add: QuoteMeta_def)
  show ?case
  proof (cases "glob_char c")
    case True
    then show ?thesis using 2 by auto
  next
    case False
    let ?t = "takeWhile (\<lambda>c. \<not> glob_char c) s" and ?d = "dropWhile (\<lambda>c. \<not> glob_char c) s"
    have "list_all (\<lambda>c. \<not> glob_char c) (c # ?t)" using False by (auto simp: list_all_iff dest: set_takeWhileD)
    then have "quote_non_meta (c # s) = concat (map (\<lambda>c. if glob_char c then [c] else QuoteMeta [c]) (c # ?t @ ?d))"
      using run [of "c # ?t"] "2.IH"(2) False by (simp del: takeWhile_dropWhile_id)
    then show ?thesis by (simp only: takeWhile_dropWhile_id)
  qed
qed simp

lemma Replace1_concat: "strings_Replace1 a new (concat (map f s)) = concat (map (\<lambda>c. strings_Replace1 a new (f c)) s)"
  by (induction s) (simp_all add: strings_Replace1_def)

lemma globToRegexp_glob: "globToRegexp p = Ok (map glob_regexp (widened p))"
proof -
  have "strings_Replace1 CHR ''?'' ''.'' (strings_Replace1 CHR ''*'' ''.*'' (if glob_char c then [c] else QuoteMeta [c])) =
      acl_quoted {CHR ''*'', CHR ''?''} c" for c
    by (auto simp: strings_Replace1_def QuoteMeta_def acl_quoted_def regexp_special_def)
  then show ?thesis
    by (simp add: globToRegexp_def Let_def widened_def quote_non_meta_chars Replace1_concat Compile_acl_quoted)
qed

lemma next_char_set: "set (next_char s) \<subseteq> set s"
  by (cases s) (auto simp: next_char_def dest: in_set_dropD)

lemma match_all_cases:
  "match_all (DotStar # re) [] \<longleftrightarrow> match_all re []"
  "match_all (DotStar # re) (x # s) \<longleftrightarrow> match_all re (x # s) \<or> x \<noteq> newline \<and> match_all (DotStar # re) (next_char (x # s))"
  by simp_all

lemma utf8_glob_cases:
  "utf8_glob (CHR ''*'' # p) [] \<longleftrightarrow> utf8_glob p []"
  "utf8_glob (CHR ''*'' # p) (x # s) \<longleftrightarrow> utf8_glob p (x # s) \<or> utf8_glob (CHR ''*'' # p) (next_char (x # s))"
  "utf8_glob (CHR ''?'' # p) s \<longleftrightarrow> s \<noteq> [] \<and> utf8_glob p (next_char s)"
  "\<not> glob_char c \<Longrightarrow> utf8_glob (c # p) s \<longleftrightarrow> s \<noteq> [] \<and> hd s = c \<and> utf8_glob p (tl s)"
  by simp_all

declare match_all.simps(4) [simp del] utf8_glob.simps(2) [simp del]
declare match_all_cases [simp] utf8_glob_cases [simp]

text \<open>On one line of text the expression is the glob.\<close>

lemma match_all_glob: "newline \<notin> set s \<Longrightarrow> match_all (map glob_regexp p) s \<longleftrightarrow> utf8_glob p s"
proof (induction p s rule: utf8_glob.induct)
  case (2 c p s)
  show ?case
  proof (cases s)
    case Nil
    then show ?thesis using 2 by (cases "c = CHR ''*''") (auto simp: glob_regexp_def)
  next
    case (Cons x s')
    have "newline \<notin> set (next_char s)" using 2(5) next_char_set [of s] by blast
    moreover have "x \<noteq> newline" "newline \<notin> set s'" using 2(5) Cons by auto
    ultimately show ?thesis using 2(1-4) Cons
      by (cases "c = CHR ''*''"; cases "c = CHR ''?''") (simp_all add: glob_regexp_def)
  qed
qed simp

section \<open>Rules\<close>

definition text_matches :: "json option \<Rightarrow> string \<Rightarrow> string \<Rightarrow> bool" where
  "text_matches doc key pattern \<longleftrightarrow> pattern \<noteq> [] \<and>
     (case event_map doc of
        Ok m \<Rightarrow> (case lookupMapPath (strings_Split CHR ''.'' key) m of Some (JStr v) \<Rightarrow> utf8_glob (widened pattern) v | _ \<Rightarrow> False)
      | _ \<Rightarrow> False)"

text \<open>The event is an object that can be decoded, and every text in it is one line.\<close>

fun one_line :: "json \<Rightarrow> bool" where
  "one_line (JStr s) \<longleftrightarrow> newline \<notin> set s"
| "one_line (JObj kvs) \<longleftrightarrow> list_all (\<lambda>kv. one_line (snd kv)) kvs"
| "one_line _ \<longleftrightarrow> True"

definition plain_event :: "pushEvent \<Rightarrow> bool" where
  "plain_event ev \<longleftrightarrow> (\<exists>kvs. pe_JSON ev = Some (JObj kvs) \<and> numbers_fit (JObj kvs) \<and> one_line (JObj kvs))"

lemma follow_path_one_line: "follow_path path j = Some v \<Longrightarrow> one_line j \<Longrightarrow> one_line v"
proof (induction path arbitrary: j)
  case (Cons key path)
  then obtain kvs w where w: "j = JObj kvs" "map_of (rev kvs) key = Some w" "follow_path path w = Some v"
    by (auto split: json.splits option.splits)
  have "(key, w) \<in> set kvs" using map_of_SomeD [OF w(2)] by simp
  then have "one_line w" using Cons.prems(2) w(1) by (auto simp: list_all_iff)
  then show ?case using Cons.IH w(3) by blast
qed simp

lemma patternMatches_text:
  assumes "plain_event ev"
  shows "patternMatches key pattern ev = Ok (text_matches (pe_JSON ev) key pattern)"
proof -
  obtain kvs where j: "pe_JSON ev = Some (JObj kvs)" "numbers_fit (JObj kvs)" "one_line (JObj kvs)" using assms by (auto simp: plain_event_def)
  have m: "event_map (pe_JSON ev) = Ok (JObj kvs)" using j by (simp add: event_map_def)
  let ?v = "lookupMapPath (strings_Split CHR ''.'' key) (JObj kvs)"
  have "match_all (map glob_regexp (widened pattern)) v \<longleftrightarrow> utf8_glob (widened pattern) v" if "?v = Some (JStr v)" for v
    using follow_path_one_line [of "strings_Split CHR ''.'' key" "JObj kvs" "JStr v"] that j(3)
    by (intro match_all_glob) (simp add: lookupMapPath_def split: if_splits)
  then show ?thesis
    by (auto simp: patternMatches_def globToRegexp_glob m text_matches_def split: option.splits json.splits)
qed

definition count_holds :: "string \<Rightarrow> int \<Rightarrow> bool" where
  "count_holds is n \<longleftrightarrow> (case parseRoomMemberCountCondition is of Ok cmp \<Rightarrow> cmp n | _ \<Rightarrow> False)"

definition condition_holds :: "pushEvent \<Rightarrow> string \<Rightarrow> int \<Rightarrow> (string \<Rightarrow> string \<Rightarrow> bool) \<Rightarrow> Condition \<Rightarrow> bool" where
  "condition_holds ev name n may c \<longleftrightarrow>
     cond_Kind c = ''event_match'' \<and> text_matches (pe_JSON ev) (cond_Key c) (the (cond_Pattern c)) \<or>
     cond_Kind c = ''contains_display_name'' \<and> text_matches (pe_JSON ev) ''content.body'' name \<or>
     cond_Kind c = ''room_member_count'' \<and> count_holds (cond_Is c) n \<or>
     cond_Kind c = ''sender_notification_permission'' \<and> may (SenderID (pe_PDU ev)) (cond_Key c)"

text \<open>A rule that can be evaluated: no condition is nil, and each has what its kind needs.\<close>

definition complete_condition :: "Condition option \<Rightarrow> bool" where
  "complete_condition c \<longleftrightarrow> (\<exists>c'. c = Some c' \<and> (cond_Kind c' = ''event_match'' \<longrightarrow> cond_Pattern c' \<noteq> None) \<and>
     (cond_Kind c' = ''room_member_count'' \<longrightarrow> (\<exists>cmp. parseRoomMemberCountCondition (cond_Is c') = Ok cmp)))"

definition rule_holds :: "pushEvent \<Rightarrow> string \<Rightarrow> int \<Rightarrow> (string \<Rightarrow> string \<Rightarrow> bool) \<Rightarrow> string \<Rightarrow> string \<Rightarrow> Rule \<Rightarrow> bool" where
  "rule_holds ev name n may sender kind r \<longleftrightarrow> rule_Enabled r \<and>
     (kind \<in> {''override'', ''underride''} \<and> (\<forall>c \<in> set (slice (rule_Conditions r)). condition_holds ev name n may (the c)) \<or>
      kind = ''content'' \<and> (case rule_Pattern r of None \<Rightarrow> False | Some p \<Rightarrow> text_matches (pe_JSON ev) ''content.body'' p) \<or>
      kind = ''room'' \<and> rule_RuleID r = room_raw (EventRoomID (pe_PDU ev)) \<or>
      kind = ''sender'' \<and> rule_RuleID r = sender)"

lemma conditionMatches_holds:
  assumes "plain_event ev" "complete_condition (Some c)"
  shows "conditionMatches c ev \<lparr>ec_UserDisplayName = name, ec_RoomMemberCount = Ok n, ec_HasPowerLevel = (\<lambda>s k. Ok (may s k))\<rparr> =
    Ok (condition_holds ev name n may c)"
  using assms(2) by (auto simp: conditionMatches_def condition_holds_def complete_condition_def count_holds_def patternMatches_text [OF assms(1)])

lemma conditions_match_holds:
  assumes "plain_event ev" "list_all complete_condition cs"
  shows "conditions_match cs ev \<lparr>ec_UserDisplayName = name, ec_RoomMemberCount = Ok n, ec_HasPowerLevel = (\<lambda>s k. Ok (may s k))\<rparr> =
    Ok (\<forall>c \<in> set cs. condition_holds ev name n may (the c))"
  using assms(2)
proof (induction cs)
  case (Cons c cs)
  then obtain c' where "c = Some c'" by (auto simp: complete_condition_def)
  then show ?case using Cons conditionMatches_holds [OF assms(1), of c'] by auto
qed simp

lemma ruleMatches_holds:
  assumes "plain_event ev" "list_all complete_condition (slice (rule_Conditions r))"
    and "q (EventRoomID (pe_PDU ev)) (SenderID (pe_PDU ev)) = Ok (Some u)"
  shows "ruleMatches r kind ev \<lparr>ec_UserDisplayName = name, ec_RoomMemberCount = Ok n, ec_HasPowerLevel = (\<lambda>s k. Ok (may s k))\<rparr> q =
    Ok (rule_holds ev name n may (user_raw u) kind r)"
  using assms(2,3) conditions_match_holds [OF assms(1,2)] patternMatches_text [OF assms(1)]
  by (auto simp: ruleMatches_def rule_holds_def split: option.splits)

section \<open>The first rule that matches\<close>

text \<open>All rules with their kinds, the ones that count first in front.\<close>

definition by_priority :: "RuleSet \<Rightarrow> (string \<times> Rule) list" where
  "by_priority rs = concat (map (\<lambda>(kind, rules). map (Pair kind) (filter (\<lambda>r. \<not> rule_Default r) rules @ filter rule_Default rules))
     (NewRuleSetEvaluator rs))"

fun first_match :: "(string \<Rightarrow> Rule \<Rightarrow> bool outcome) \<Rightarrow> (string \<times> Rule) list \<Rightarrow> Rule option outcome" where
  "first_match f [] = Ok None"
| "first_match f ((kind, r) # rest) = and_then (f kind r) (\<lambda>ok. if ok then Ok (Some r) else first_match f rest)"

lemma first_match_append: "first_match f (xs @ ys) = or_else (first_match f xs) (first_match f ys)"
proof (induction xs)
  case (Cons x xs)
  then show ?case by (cases x; cases "f (fst x) (snd x)") (auto simp: or_else_def)
qed (simp add: or_else_def)

lemma match_rules_first:
  "match_rules def kind rules ev ec q =
     first_match (\<lambda>kind r. ruleMatches r kind ev ec q) (map (Pair kind) (filter (\<lambda>r. rule_Default r = def) rules))"
proof (induction rules)
  case (Cons r rules)
  then show ?case by (cases "rule_Default r = def") (simp_all cong: if_cong)
qed simp

lemma MatchEvent_first: "MatchEvent rs ev ec q = first_match (\<lambda>kind r. ruleMatches r kind ev ec q) (by_priority rs)"
proof -
  have "match_kinds ks ev ec q = first_match (\<lambda>kind r. ruleMatches r kind ev ec q)
      (concat (map (\<lambda>(kind, rules). map (Pair kind) (filter (\<lambda>r. \<not> rule_Default r) rules @ filter rule_Default rules)) ks))" for ks
    by (induction ks) (auto simp: match_rules_first first_match_append or_else_def and_then_def split: outcome.splits option.splits)
  then show ?thesis by (simp add: MatchEvent_def by_priority_def)
qed

lemma first_match_find:
  "(\<And>kind r. (kind, r) \<in> set xs \<Longrightarrow> f kind r = Ok (g kind r)) \<Longrightarrow>
   first_match f xs = Ok (map_option snd (List.find (\<lambda>(kind, r). g kind r) xs))"
  by (induction xs rule: first_match.induct) auto


text \<open>A message of another user that has the name of the user in it.\<close>

definition sample_pushed :: "string \<Rightarrow> pushEvent" where
  "sample_pushed body =
     \<lparr>pe_PDU = mk_event ''$w'' ''m.room.message'' None ''@m:a'' [(''body'', JStr body)] [] 7,
      pe_JSON = Some (JObj [(''type'', JStr ''m.room.message''), (''sender'', JStr ''@m:a''), (''content'', JObj [(''body'', JStr body)])])\<rparr>"


section \<open>Default rules that do nothing\<close>

text \<open>An empty pattern matches nothing, so the rules for events with an empty state key never match.\<close>

lemma empty_pattern_never: "conditions_match [event_match key pattern, event_match key' []] ev ec \<noteq> Ok True"
  by (auto simp: conditionMatches_def patternMatches_def go_simps)

lemma tombstone_never_matches: "kind \<in> {''override'', ''underride''} \<Longrightarrow> ruleMatches mRuleTombstoneDefinition kind ev ec q \<noteq> Ok True"
  using empty_pattern_never by (auto simp: ruleMatches_def mRuleTombstoneDefinition_def)

lemma acl_rule_never_matches: "kind \<in> {''override'', ''underride''} \<Longrightarrow> ruleMatches mRuleACLsDefinition kind ev ec q \<noteq> Ok True"
  using empty_pattern_never by (auto simp: ruleMatches_def mRuleACLsDefinition_def)

text \<open>A text of two lines is matched by no pattern with an asterisk before or after, nor by one without wildcards.\<close>

lemma second_line_not_matched:
  "patternMatches ''content.body'' ''alice'' (sample_pushed (''hi'' @ [newline] @ ''alice'')) = Ok False"
  by code_simp

text \<open>The type of an event only has to contain the type of a default rule.\<close>

lemma member_rule_matches_inside:
  "patternMatches ''type'' ''m.room.member'' \<lparr>pe_PDU = pe_PDU (sample_pushed []), pe_JSON = Some (JObj [(''type'', JStr ''org.m.room.member.x'')])\<rparr> = Ok True"
  by code_simp

end
