(* ===== verification/PushRuleStore_Correct.thy ===== *)
theory PushRuleStore_Correct
  imports PushRules_Correct
begin

text \<open>
  Push rules are kept as a document: whatever clients ask for and rooms are upgraded, the document can
  be read back, and what is put is found again.
\<close>

section \<open>Well-formed rules\<close>

definition wf_value :: "json option \<Rightarrow> bool" where
  "wf_value v \<longleftrightarrow> (\<forall>j. v = Some j \<longrightarrow> j \<noteq> JNull \<and> numbers_fit j)"

definition wf_Action :: "Action \<Rightarrow> bool" where
  "wf_Action a \<longleftrightarrow> (act_Tweak a = [] \<longrightarrow> act_Value a = None) \<and> (act_Kind a \<noteq> ''set_tweak'' \<longrightarrow> act_Tweak a = []) \<and> wf_value (act_Value a)"

definition wf_actions :: "Action option list option \<Rightarrow> bool" where
  "wf_actions as \<longleftrightarrow> (\<forall>a. Some a \<in> set (slice as) \<longrightarrow> wf_Action a)"

definition wf_Rule :: "Rule \<Rightarrow> bool" where
  "wf_Rule r \<longleftrightarrow> wf_actions (rule_Actions r)"

definition kind_lists :: "RuleSet \<Rightarrow> Rule list list" where
  "kind_lists rs = [rs_Override rs, rs_Content rs, rs_Room rs, rs_Sender rs, rs_Underride rs]"

definition wf_RuleSet :: "RuleSet \<Rightarrow> bool" where
  "wf_RuleSet rs \<longleftrightarrow> (\<forall>rules \<in> set (kind_lists rs). \<forall>r \<in> set rules. wf_Rule r)"

section \<open>Reading back\<close>

text \<open>An empty list of conditions is not stored, and comes back as none.\<close>

definition reload :: "Rule \<Rightarrow> Rule" where
  "reload r = r\<lparr>rule_Conditions := (if slice (rule_Conditions r) = [] then None else rule_Conditions r)\<rparr>"

definition reload_set :: "RuleSet \<Rightarrow> RuleSet" where
  "reload_set rs =
     \<lparr>rs_Override = map reload (rs_Override rs), rs_Content = map reload (rs_Content rs), rs_Room = map reload (rs_Room rs),
      rs_Sender = map reload (rs_Sender rs), rs_Underride = map reload (rs_Underride rs)\<rparr>"

lemma Action_roundtrip:
  assumes "wf_Action a"
  shows "\<exists>j. Action_MarshalJSON a = Ok j \<and> j \<noteq> JNull \<and> Action_UnmarshalJSON j zero_Action = (a, DNone)"
proof (cases "act_Tweak a = []")
  case True
  then show ?thesis using assms
    by (intro exI [of _ "JStr (act_Kind a)"]) (auto simp: wf_Action_def Action_MarshalJSON_def Action_UnmarshalJSON_def zero_Action_def)
next
  case False
  then have k: "act_Kind a = ''set_tweak''" and v: "wf_value (act_Value a)" using assms by (auto simp: wf_Action_def)
  show ?thesis
  proof (cases "act_Value a")
    case None
    with False k show ?thesis
      by (auto simp: Action_MarshalJSON_def Action_UnmarshalJSON_def zero_Action_def opt_member_def Unmarshal_def dec_raw_action_def dec_struct_def
          find_field_def fld_def)
  next
    case (Some j)
    with v have "dec_any j x = (Some j, DNone)" for x by (cases j) (auto simp: wf_value_def dec_any_def)
    with False k Some show ?thesis
      by (auto simp: Action_MarshalJSON_def Action_UnmarshalJSON_def zero_Action_def opt_member_def Unmarshal_def dec_raw_action_def dec_struct_def
          find_field_def fld_def)
  qed
qed

lemma Condition_roundtrip: "json_of_Condition c \<noteq> JNull" "dec_Condition (json_of_Condition c) zero_Condition = (c, DNone)"
  by (simp_all add: json_of_Condition_def dec_Condition_def dec_struct_def omit_empty_def opt_member_def find_field_def fld_def dec_ptr_def zero_Condition_def
      split: option.splits)

lemma marshal_all_decodes:
  "(\<And>x. x \<in> set xs \<Longrightarrow> \<exists>j. f x = Ok j \<and> dec j z = (g x, DNone)) \<Longrightarrow>
   \<exists>js. marshal_all f xs = Ok js \<and> dec_elems z dec js = (map g xs, DNone) \<and> (js = [] \<longleftrightarrow> xs = [])"
proof (induction xs)
  case (Cons x xs)
  obtain j where j: "f x = Ok j" "dec j z = (g x, DNone)" using Cons.prems [of x] by auto
  obtain js where js: "marshal_all f xs = Ok js" "dec_elems z dec js = (map g xs, DNone)" using Cons.IH Cons.prems by auto
  show ?case using j js by (intro exI [of _ "j # js"]) simp
qed simp

lemma pointers_roundtrip:
  assumes "\<And>x. Some x \<in> set ps \<Longrightarrow> \<exists>j. f x = Ok j \<and> j \<noteq> JNull \<and> dec j z = (x, DNone)"
  shows "\<exists>js. marshal_all (marshal_ptr f) ps = Ok js \<and> dec_elems None (dec_ptr z dec) js = (ps, DNone) \<and> (js = [] \<longleftrightarrow> ps = [])"
proof -
  have "\<exists>j. marshal_ptr f p = Ok j \<and> dec_ptr z dec j None = (p, DNone)" if p: "p \<in> set ps" for p
  proof (cases p)
    case None
    then show ?thesis by (simp add: marshal_ptr_def dec_ptr_def)
  next
    case (Some x)
    then obtain j where "f x = Ok j" "j \<noteq> JNull" "dec j z = (x, DNone)" using assms p by blast
    then show ?thesis using Some by (intro exI [of _ j]) (auto simp: marshal_ptr_def dec_ptr_def split: json.splits)
  qed
  from marshal_all_decodes [of ps "marshal_ptr f" "dec_ptr z dec" None id] this show ?thesis by simp
qed

lemma Rule_roundtrip:
  assumes "wf_Rule r"
  shows "\<exists>j. json_of_Rule r = Ok j \<and> (if j = JNull then (zero_Rule, DAbort) else dec_Rule j zero_Rule) = (reload r, DNone)"
proof -
  obtain cs where cs: "marshal_all (marshal_ptr (\<lambda>c. Ok (json_of_Condition c))) (slice (rule_Conditions r)) = Ok cs"
      "dec_elems None (dec_ptr zero_Condition dec_Condition) cs = (slice (rule_Conditions r), DNone)" "cs = [] \<longleftrightarrow> slice (rule_Conditions r) = []"
    using pointers_roundtrip [of "slice (rule_Conditions r)" "\<lambda>c. Ok (json_of_Condition c)"] Condition_roundtrip by blast
  obtain as where as: "marshal_all (marshal_ptr Action_MarshalJSON) (slice (rule_Actions r)) = Ok as"
      "dec_elems None (dec_ptr zero_Action Action_UnmarshalJSON) as = (slice (rule_Actions r), DNone)"
    using pointers_roundtrip [of "slice (rule_Actions r)" Action_MarshalJSON] Action_roundtrip assms unfolding wf_Rule_def wf_actions_def by metis
  show ?thesis using cs as
    by (auto simp: json_of_Rule_def dec_Rule_def dec_struct_def opt_member_def find_field_def fld_def dec_ptr_def dec_slice_def zero_Rule_def
        reload_def split: option.splits)
qed

lemma rules_roundtrip:
  assumes "\<forall>r \<in> set rules. wf_Rule r"
  shows "\<exists>kvs. json_of_rules name rules = Ok kvs \<and> (kvs = [] \<and> rules = [] \<or> (\<exists>js. kvs = [(name, JArr js)] \<and> dec_rules (JArr js) [] = (map reload rules, DNone)))"
proof -
  have "\<exists>j. json_of_Rule r = Ok j \<and> (\<lambda>j r. if j = JNull then (r, DAbort) else dec_Rule j r) j zero_Rule = (reload r, DNone)" if "r \<in> set rules" for r
    using Rule_roundtrip assms that by blast
  from marshal_all_decodes [of rules json_of_Rule "\<lambda>j r. if j = JNull then (r, DAbort) else dec_Rule j r" zero_Rule reload, OF this]
  obtain js where "marshal_all json_of_Rule rules = Ok js" "js = [] \<longleftrightarrow> rules = []"
      "dec_elems zero_Rule (\<lambda>j r. if j = JNull then (r, DAbort) else dec_Rule j r) js = (map reload rules, DNone)" by blast
  then show ?thesis by (auto simp: json_of_rules_def dec_rules_def dec_slice_def)
qed

lemma RuleSet_roundtrip:
  assumes "wf_RuleSet rs"
  shows "\<exists>j. json_of_AccountRuleSets rs = Ok j \<and> Unmarshal dec_AccountRuleSets (Some j) zero_RuleSet = (reload_set rs, False)"
proof -
  have wf: "\<forall>r \<in> set (rs_Override rs). wf_Rule r" "\<forall>r \<in> set (rs_Content rs). wf_Rule r" "\<forall>r \<in> set (rs_Room rs). wf_Rule r"
      "\<forall>r \<in> set (rs_Sender rs). wf_Rule r" "\<forall>r \<in> set (rs_Underride rs). wf_Rule r"
    using assms by (simp_all add: wf_RuleSet_def kind_lists_def)
  note parts = rules_roundtrip [OF wf(1), of "''override''"] rules_roundtrip [OF wf(2), of "''content''"] rules_roundtrip [OF wf(3), of "''room''"]
    rules_roundtrip [OF wf(4), of "''sender''"] rules_roundtrip [OF wf(5), of "''underride''"]
  show ?thesis using parts
    by (elim exE conjE disjE)
      (simp_all add: json_of_AccountRuleSets_def json_of_RuleSet_def Unmarshal_def dec_AccountRuleSets_def dec_struct_def find_field_def fld_def
        dec_RuleSet_def zero_RuleSet_def reload_set_def)
qed

lemma reload_wf [simp]: "wf_Rule (reload r) \<longleftrightarrow> wf_Rule r"
  by (simp add: wf_Rule_def reload_def)

lemma reload_set_wf: "wf_RuleSet rs \<Longrightarrow> wf_RuleSet (reload_set rs)"
  by (simp add: wf_RuleSet_def kind_lists_def reload_set_def)

section \<open>What clients send\<close>

lemma derr_join_DNone [simp]: "derr_join e e' = DNone \<longleftrightarrow> e = DNone \<and> e' = DNone"
  by (cases e) auto

lemma find_field_in:
  assumes "find_field fs k = Some d"
  shows "d \<in> snd ` set fs"
proof (cases "map_of fs k")
  case None
  with assms obtain n where "List.find (\<lambda>(n, _). fold_name n = fold_name k) fs = Some (n, d)" by (auto simp: find_field_def)
  then have "(n, d) \<in> set fs" by (auto simp: find_Some_iff) (metis nth_mem)
  then show ?thesis by force
next
  case (Some d')
  with assms show ?thesis by (force simp: find_field_def dest: map_of_SomeD)
qed

text \<open>What each field of a struct keeps, decoding the struct keeps.\<close>

lemma dec_struct_keeps:
  assumes step: "\<And>d j v v'. d \<in> snd ` set fs \<Longrightarrow> P v \<Longrightarrow> d j v = (v', DNone) \<Longrightarrow> P v'"
    and run: "dec_struct fs j v = (v', DNone)" and start: "P v"
  shows "P v'"
proof -
  have members: "dec_members fs kvs v = (v', DNone) \<Longrightarrow> P v \<Longrightarrow> P v'" for kvs v
  proof (induction kvs arbitrary: v)
    case (Cons kv kvs)
    obtain k j where kv: "kv = (k, j)" by fastforce
    show ?case
    proof (cases "find_field fs k")
      case (Some d)
      obtain w e where w: "d j v = (w, e)" by fastforce
      then have "e = DNone \<and> dec_members fs kvs w = (v', DNone)" using Cons.prems(1) kv Some by (auto split: if_splits prod.splits)
      moreover have "P w" using step [OF find_field_in [OF Some] Cons.prems(2)] w calculation by simp
      ultimately show ?thesis using Cons.IH by blast
    qed (use Cons kv in simp)
  qed simp
  show ?thesis using run start members by (auto simp: dec_struct_def split: json.splits)
qed

lemma dec_elems_keeps:
  assumes "\<And>j x. dec j z = (x, DNone) \<Longrightarrow> P x" "dec_elems z dec js = (xs, DNone)"
  shows "\<forall>x \<in> set xs. P x"
  using assms(2) by (induction js arbitrary: xs) (auto split: prod.splits if_splits dest: assms(1))

lemma Action_decoded:
  assumes "Action_UnmarshalJSON j zero_Action = (a, DNone)"
  shows "wf_Action a"
proof (cases "\<exists>s. j = JStr s")
  case True
  then show ?thesis using assms by (auto simp: Action_UnmarshalJSON_def wf_Action_def zero_Action_def wf_value_def)
next
  case False
  obtain raw e where raw: "dec_raw_action j ([], None) = (raw, e)" by fastforce
  have "e = DNone" "fst raw \<noteq> []" "a = \<lparr>act_Kind = ''set_tweak'', act_Tweak = fst raw, act_Value = snd raw\<rparr>"
    using assms False raw by (auto simp: Action_UnmarshalJSON_def Unmarshal_def zero_Action_def split: json.splits if_splits option.splits)
  moreover have "wf_value (snd raw)"
    using raw unfolding dec_raw_action_def \<open>e = DNone\<close>
  proof (rule dec_struct_keeps [rotated])
    fix d j v v' assume "d \<in> snd ` set [(''set_tweak'', fld fst (\<lambda>x a. (x, snd a)) dec_string), (''value'', fld snd (\<lambda>x a. (fst a, x)) dec_any)]"
      "wf_value (snd v)" "d j v = (v', DNone)"
    then show "wf_value (snd v')" by (cases j) (auto simp: fld_def dec_any_def wf_value_def split: prod.splits if_splits)
  qed (simp add: wf_value_def)
  ultimately show ?thesis by (simp add: wf_Action_def)
qed

lemma Rule_decoded:
  assumes "Unmarshal dec_Rule body zero_Rule = (r, False)"
  shows "wf_Rule r"
proof -
  obtain j where j: "dec_Rule j zero_Rule = (r, DNone)" using assms by (auto simp: Unmarshal_def split: option.splits prod.splits)
  have actions: "wf_actions x"
    if dec: "dec_ptr [] (dec_slice None (dec_ptr zero_Action Action_UnmarshalJSON)) j v = (x, DNone)" for j v x
  proof (cases "\<exists>js. j = JArr js")
    case True
    then obtain js xs where "x = Some xs" "dec_elems None (dec_ptr zero_Action Action_UnmarshalJSON) js = (xs, DNone)"
      using dec by (auto simp: dec_ptr_def dec_slice_def split: prod.splits)
    moreover have "\<forall>a. p = Some a \<longrightarrow> wf_Action a" if "dec_ptr zero_Action Action_UnmarshalJSON j None = (p, DNone)" for j p
      using that Action_decoded by (auto simp: dec_ptr_def split: json.splits prod.splits)
    ultimately show ?thesis using dec_elems_keeps [of "dec_ptr zero_Action Action_UnmarshalJSON" None "\<lambda>p. \<forall>a. p = Some a \<longrightarrow> wf_Action a" js xs]
      by (auto simp: wf_actions_def)
  next
    case False
    then show ?thesis using dec by (auto simp: wf_actions_def dec_ptr_def dec_slice_def split: json.splits prod.splits)
  qed
  show ?thesis using j unfolding dec_Rule_def
  proof (rule dec_struct_keeps [rotated])
    show "wf_Rule zero_Rule" by (simp add: wf_Rule_def wf_actions_def zero_Rule_def)
  qed (auto simp: fld_def wf_Rule_def split: prod.splits, erule actions)
qed

section \<open>Every document can be read\<close>

definition document_of :: "json option \<Rightarrow> RuleSet \<Rightarrow> bool" where
  "document_of data rs \<longleftrightarrow> wf_RuleSet rs \<and> (\<exists>j. json_of_AccountRuleSets rs = Ok j \<and> data = Some j)"

lemma document_read: "document_of data rs \<Longrightarrow> storage_QueryPushRules localpart serverName data = (Ok (reload_set rs), data)"
  using RuleSet_roundtrip [of rs] by (auto simp: document_of_def storage_QueryPushRules_def)

lemma document_saved: "wf_RuleSet rs \<Longrightarrow> \<exists>data'. PerformPushRulesPut rs data = (Ok (), data') \<and> document_of data' rs"
  using RuleSet_roundtrip [of rs] by (auto simp: PerformPushRulesPut_def document_of_def)

lemma save_rules_saved: "wf_RuleSet rs \<Longrightarrow> \<exists>data'. save_rules rs data = (Ok (Answer ()), data') \<and> document_of data' rs"
  using document_saved [of rs data] by (auto simp: save_rules_def)

lemma with_rules_document:
  assumes "document_of data rs"
  shows "with_rules userID scope kind data handler =
    (case SplitID CHR ''@'' userID of
       Ok _ \<Rightarrow> (if scope \<noteq> ''global'' then (invalid_param, data)
              else case pushRuleSetKind (reload_set rs) kind of None \<Rightarrow> (invalid_param, data) | Some rules \<Rightarrow> handler (reload_set rs) rules data)
     | Err e \<Rightarrow> (answer_error e, data)
     | Panic \<Rightarrow> (Panic, data))"
  by (auto simp: with_rules_def api_QueryPushRules_def document_read [OF assms] pushRuleSetByScope_def answer_error_def
      split: outcome.splits option.splits)

lemma kind_cases [consumes 1]:
  assumes "pushRuleSetKind rs kind = Some rules"
  obtains "kind = ''override''" "rules = rs_Override rs" | "kind = ''content''" "rules = rs_Content rs" | "kind = ''room''" "rules = rs_Room rs"
    | "kind = ''sender''" "rules = rs_Sender rs" | "kind = ''underride''" "rules = rs_Underride rs"
  using assms by (auto simp: pushRuleSetKind_def split: if_splits)

lemma set_kind_wf:
  assumes "wf_RuleSet rs" "pushRuleSetKind rs kind = Some rules" "\<forall>r \<in> set rules'. r \<in> set rules \<or> wf_Rule r"
  shows "wf_RuleSet (set_kind kind rules' rs)"
  using assms(2) by (cases rule: kind_cases) (use assms in \<open>auto simp: wf_RuleSet_def kind_lists_def set_kind_def\<close>)

lemma remove_at_subset: "set (remove_at i xs) \<subseteq> set xs"
  by (auto simp: remove_at_def dest: in_set_takeD in_set_dropD)

lemma insert_at_set: "set (insert_at i x xs) = insert x (set xs)"
proof -
  have "set xs = set (take i xs) \<union> set (drop i xs)" by (metis append_take_drop_id set_append)
  then show ?thesis by (auto simp: insert_at_def)
qed

lemma put_rule_set:
  assumes "put_rule rules newRule after before = Some rules'"
  shows "set rules' \<subseteq> insert newRule (insert (newRule\<lparr>rule_Enabled := True\<rparr>) (set rules))"
  using assms
  by (auto simp: put_rule_def Let_def insert_at_set split: option.splits if_splits
      dest!: set_update_subset_insert [THEN subsetD] remove_at_subset [THEN subsetD])

lemma index_found: "pushRuleIndexByID rules i = Some n \<Longrightarrow> n < length rules \<and> rule_RuleID (rules ! n) = i"
  by (induction rules arbitrary: n) (auto split: if_splits)

lemma copy_rules_document:
  assumes "document_of data rs" "wf_RuleSet rs'" "\<forall>r \<in> set rules. wf_Rule r"
  shows "\<exists>rs''. document_of (snd (copy_rules rules old new rs' data)) rs''"
  using assms
proof (induction rules arbitrary: rs rs' data)
  case (Cons r rules)
  let ?rs = "rs'\<lparr>rs_Room := rs_Room rs' @ [r\<lparr>rule_RuleID := new\<rparr>]\<rparr>"
  have wf: "wf_RuleSet ?rs" using Cons.prems by (auto simp: wf_RuleSet_def kind_lists_def wf_Rule_def)
  then obtain data' where "PerformPushRulesPut ?rs data = (Ok (), data')" "document_of data' ?rs" using document_saved by blast
  then show ?case using Cons wf by auto
qed auto

inductive push_document :: "string \<Rightarrow> string \<Rightarrow> json option \<Rightarrow> bool" for localpart serverName where
  created: "account_document localpart serverName = Ok j \<Longrightarrow> push_document localpart serverName (Some j)"
| put: "push_document localpart serverName data \<Longrightarrow>
    push_document localpart serverName (snd (PutPushRuleByRuleID scope kind ruleID after before body userID data))"
| put_attr: "push_document localpart serverName data \<Longrightarrow>
    push_document localpart serverName (snd (PutPushRuleAttrByRuleID scope kind ruleID attr body userID data))"
| delete: "push_document localpart serverName data \<Longrightarrow>
    push_document localpart serverName (snd (DeletePushRuleByRuleID scope kind ruleID userID data))"
| upgrade: "push_document localpart serverName data \<Longrightarrow>
    push_document localpart serverName (snd (copyPushrules oldRoomID newRoomID localpart serverName data))"

lemma default_rules_wf: "wf_RuleSet (DefaultGlobalRuleSet localpart serverName)"
  by (simp add: wf_RuleSet_def kind_lists_def DefaultGlobalRuleSet_def defaultOverrideRules_def defaultContentRules_def defaultUnderrideRules_def
      mRuleMasterDefinition_def mRuleSuppressNoticesDefinition_def mRuleInviteForMeDefinition_def mRuleMemberEventDefinition_def
      mRuleContainsDisplayNameDefinition_def mRuleRoomNotifDefinition_def mRuleTombstoneDefinition_def mRuleReactionDefinition_def mRuleACLsDefinition_def
      mRuleContainsUserNameDefinition_def mRuleCallDefinition_def mRuleRoomOneToOneDefinition_def mRuleEncryptedRoomOneToOneDefinition_def
      mRuleMessageDefinition_def mRuleEncryptedDefinition_def wf_Rule_def wf_actions_def wf_Action_def wf_value_def)

lemma handler_document:
  assumes "document_of data rs"
    and "\<And>rules. pushRuleSetKind (reload_set rs) kind = Some rules \<Longrightarrow> \<exists>rs'. document_of (snd (handler (reload_set rs) rules data)) rs'"
  shows "\<exists>rs'. document_of (snd (with_rules userID scope kind data handler)) rs'"
  using assms by (auto simp: with_rules_document [OF assms(1)] split: outcome.splits option.splits)

lemma saved_document:
  assumes "wf_RuleSet rs" "pushRuleSetKind rs kind = Some rules" "\<forall>r \<in> set rules'. r \<in> set rules \<or> wf_Rule r"
  shows "\<exists>rs'. document_of (snd (save_rules (set_kind kind rules' rs) data)) rs'"
  using save_rules_saved [OF set_kind_wf [OF assms], of data] by auto

lemma put_document:
  assumes doc: "document_of data rs"
  shows "\<exists>rs'. document_of (snd (PutPushRuleByRuleID scope kind ruleID after before body userID data)) rs'"
proof -
  have wf: "wf_RuleSet (reload_set rs)" using doc by (simp add: document_of_def reload_set_wf)
  obtain r err where r: "Unmarshal dec_Rule body zero_Rule = (r, err)" by fastforce
  define new where "new = r\<lparr>rule_RuleID := ruleID\<rparr>"
  have new: "wf_Rule (new\<lparr>rule_Enabled := True\<rparr>)" "wf_Rule new" if "\<not> err"
    using Rule_decoded r that by (auto simp: wf_Rule_def new_def)
  have step: "\<exists>rs'. document_of (snd (case put_rule rules new after before of None \<Rightarrow> (not_found, data)
      | Some rules \<Rightarrow> save_rules (set_kind kind rules (reload_set rs)) data)) rs'"
    if "pushRuleSetKind (reload_set rs) kind = Some rules" "\<not> err" for rules
  proof (cases "put_rule rules new after before")
    case None
    then show ?thesis using doc by auto
  next
    case (Some rules')
    have "\<forall>r \<in> set rules'. r \<in> set rules \<or> wf_Rule r" using put_rule_set [OF Some] new [OF that(2)] by blast
    then show ?thesis using saved_document [OF wf that(1)] Some by simp
  qed
  show ?thesis
  proof (cases err)
    case False
    show ?thesis unfolding PutPushRuleByRuleID_def r Let_def new_def [symmetric] prod.case if_not_P [OF False]
      by (cases "ValidateRule kind new" rule: outcome.exhaust; simp add: handler_document [OF doc] step False doc exI [of _ rs] split: list.splits)
  qed (use doc r in \<open>auto simp: PutPushRuleByRuleID_def\<close>)
qed

lemma put_attr_document:
  assumes doc: "document_of data rs"
  shows "\<exists>rs'. document_of (snd (PutPushRuleAttrByRuleID scope kind ruleID attr body userID data)) rs'"
proof -
  have wf: "wf_RuleSet (reload_set rs)" using doc by (simp add: document_of_def reload_set_wf)
  obtain r err where r: "Unmarshal dec_Rule body zero_Rule = (r, err)" by fastforce
  define new where "new = r\<lparr>rule_Actions := Some (slice (rule_Actions r))\<rparr>"
  have new: "wf_Rule (set_attr attr new r')" if "\<not> err" "wf_Rule r'" for r'
    using Rule_decoded r that by (auto simp: wf_Rule_def wf_actions_def set_attr_def new_def)
  have save: "\<exists>rs'. document_of (snd (save_rules (set_kind kind (rules[i := set_attr attr new (rules ! i)]) (reload_set rs)) data)) rs'"
    if "pushRuleSetKind (reload_set rs) kind = Some rules" "\<not> err" "pushRuleIndexByID rules ruleID = Some i" for rules i
  proof (rule saved_document [OF wf that(1)])
    have "rules ! i \<in> set rules" using index_found [OF that(3)] by simp
    moreover have "\<forall>r \<in> set rules. wf_Rule r" using that(1) wf by (cases rule: kind_cases) (auto simp: wf_RuleSet_def kind_lists_def)
    ultimately show "\<forall>r \<in> set (rules[i := set_attr attr new (rules ! i)]). r \<in> set rules \<or> wf_Rule r"
      using new [OF that(2)] by (auto dest!: set_update_subset_insert [THEN subsetD])
  qed
  show ?thesis
  proof (cases "err \<or> attr \<noteq> ''actions'' \<and> attr \<noteq> ''enabled''")
    case False
    then have "\<not> err" "\<not> (attr \<noteq> ''actions'' \<and> attr \<noteq> ''enabled'')" by auto
    note go = this
    show ?thesis unfolding PutPushRuleAttrByRuleID_def r Let_def new_def [symmetric] prod.case if_not_P [OF go(1)] if_not_P [OF go(2)]
      by (rule handler_document [OF doc]) (use save [OF _ go(1)] doc in \<open>auto split: option.splits\<close>)
  qed (use doc r in \<open>auto simp: PutPushRuleAttrByRuleID_def Let_def\<close>)
qed

lemma delete_document:
  assumes doc: "document_of data rs"
  shows "\<exists>rs'. document_of (snd (DeletePushRuleByRuleID scope kind ruleID userID data)) rs'"
proof -
  have wf: "wf_RuleSet (reload_set rs)" using doc by (simp add: document_of_def reload_set_wf)
  have "\<exists>rs'. document_of (snd (save_rules (set_kind kind (remove_at i rules) (reload_set rs)) data)) rs'"
    if "pushRuleSetKind (reload_set rs) kind = Some rules" for rules i
    using saved_document [OF wf that] remove_at_subset [of i rules] by auto
  note step = this
  show ?thesis unfolding DeletePushRuleByRuleID_def
    by (rule handler_document [OF doc]) (use step doc in \<open>auto split: option.splits\<close>)
qed

lemma push_document_of: "push_document localpart serverName data \<Longrightarrow> \<exists>rs. document_of data rs"
proof (induction rule: push_document.induct)
  case (created j)
  then show ?case using default_rules_wf by (auto simp: document_of_def account_document_def)
next
  case (upgrade data old new)
  then obtain rs where doc: "document_of data rs" by blast
  then have wf: "wf_RuleSet (reload_set rs)" by (simp add: document_of_def reload_set_wf)
  then have "\<forall>r \<in> set (rs_Room (reload_set rs)). wf_Rule r" by (simp add: wf_RuleSet_def kind_lists_def)
  then show ?case using copy_rules_document [OF doc wf] by (simp add: copyPushrules_def document_read [OF doc])
qed (blast intro: put_document put_attr_document delete_document)+

text \<open>
  C34. Every document of push rules that a new account, changes by clients and room upgrades lead to can be
  read back: the query succeeds, leaves the document as it is, and gives rules whose actions have a
  value only with the tweak it is for.
\<close>

theorem push_rules_readable:
  assumes "push_document localpart serverName data"
  shows "\<exists>rs. storage_QueryPushRules localpart serverName data = (Ok rs, data) \<and> wf_RuleSet rs"
  using push_document_of [OF assms] document_read reload_set_wf unfolding document_of_def by blast

definition sample_document :: "json option" where
  "sample_document = Some (the_ok (account_document ''alice'' ''a''))"

lemma sample_document_created: "push_document ''alice'' ''a'' sample_document"
proof -
  have "is_ok (account_document ''alice'' ''a'')" by code_simp
  then show ?thesis unfolding sample_document_def by (intro push_document.created the_ok)
qed

definition sample_rule :: json where
  "sample_rule = JObj [(''actions'', JArr [JStr ''notify'', JObj [(''set_tweak'', JStr ''sound''), (''value'', JStr ''ring'')]]), (''pattern'', JStr ''lunch'')]"

theorem push_rules_readable_witness:
  "\<exists>rs. storage_QueryPushRules ''alice'' ''a''
     (snd (PutPushRuleByRuleID ''global'' ''content'' ''lunch'' [] [] (Some sample_rule) ''@alice:a'' sample_document)) =
     (Ok rs, snd (PutPushRuleByRuleID ''global'' ''content'' ''lunch'' [] [] (Some sample_rule) ''@alice:a'' sample_document)) \<and> wf_RuleSet rs"
  by (rule push_rules_readable [OF push_document.put [OF sample_document_created]])

section \<open>What is put is found\<close>

lemma index_of_rule:
  assumes "distinct (map rule_RuleID rules)" "r \<in> set rules"
  shows "\<exists>n. pushRuleIndexByID rules (rule_RuleID r) = Some n \<and> rules ! n = r"
  using assms by (induction rules) force+

lemma index_none: "pushRuleIndexByID rules i = None \<longleftrightarrow> i \<notin> rule_RuleID ` set rules"
  by (induction rules) auto

lemma distinct_insert_at: "distinct (insert_at k x xs) \<longleftrightarrow> x \<notin> set xs \<and> distinct xs"
proof -
  have "mset (insert_at k x xs) = mset (x # xs)" by (simp add: insert_at_def) (metis append_take_drop_id mset_append union_mset_add_mset_left add_mset_add_single union_commute)
  then show ?thesis by (metis distinct.simps(2) mset_eq_imp_distinct_iff)
qed

lemma map_insert_at: "map f (insert_at k x xs) = insert_at k (f x) (map f xs)"
  by (simp add: insert_at_def take_map drop_map)

lemma filter_insert_at: "\<not> P x \<Longrightarrow> filter P (insert_at k x xs) = filter P xs"
  by (simp add: insert_at_def) (metis append_take_drop_id filter_append)

lemma split_at_index: "pushRuleIndexByID rules i = Some n \<Longrightarrow> rules = take n rules @ rules ! n # drop (Suc n) rules \<and> rule_RuleID (rules ! n) = i"
  using index_found id_take_nth_drop by blast

text \<open>A rule is put among others without a change to them or their order.\<close>

lemma put_rule_spec:
  assumes "distinct (map rule_RuleID rules)" "put_rule rules newRule after before = Some rules'"
  shows "distinct (map rule_RuleID rules')"
    and "filter (\<lambda>r. rule_RuleID r \<noteq> rule_RuleID newRule) rules' = filter (\<lambda>r. rule_RuleID r \<noteq> rule_RuleID newRule) rules"
    and "(if rule_RuleID newRule \<in> rule_RuleID ` set rules then newRule else newRule\<lparr>rule_Enabled := True\<rparr>) \<in> set rules'"
proof -
  have "distinct (map rule_RuleID rules') \<and>
    filter (\<lambda>r. rule_RuleID r \<noteq> rule_RuleID newRule) rules' = filter (\<lambda>r. rule_RuleID r \<noteq> rule_RuleID newRule) rules \<and>
    (if rule_RuleID newRule \<in> rule_RuleID ` set rules then newRule else newRule\<lparr>rule_Enabled := True\<rparr>) \<in> set rules'"
  proof (cases "pushRuleIndexByID rules (rule_RuleID newRule)")
    case None
    then have new: "rule_RuleID newRule \<notin> rule_RuleID ` set rules" by (simp add: index_none)
    obtain k where "rules' = insert_at k (newRule\<lparr>rule_Enabled := True\<rparr>) rules" using assms(2) None by (auto simp: put_rule_def)
    then show ?thesis using new assms(1) by (simp add: map_insert_at distinct_insert_at filter_insert_at insert_at_set)
  next
    case (Some n)
    define a x b where "a = take n rules" and "x = rules ! n" and "b = drop (Suc n) rules"
    have parts: "rules = a @ x # b" "rule_RuleID x = rule_RuleID newRule" "n = length a"
      using split_at_index [OF Some] index_found [OF Some] unfolding a_def x_def b_def by auto
    have "rules' = a @ newRule # b \<or> (\<exists>k. rules' = insert_at k newRule (a @ b))"
      using assms(2) Some parts by (auto simp: put_rule_def Let_def remove_at_def split: if_splits)
    then show ?thesis using parts assms(1) by (auto simp: map_insert_at distinct_insert_at filter_insert_at insert_at_set)
  qed
  then show "distinct (map rule_RuleID rules')"
    "filter (\<lambda>r. rule_RuleID r \<noteq> rule_RuleID newRule) rules' = filter (\<lambda>r. rule_RuleID r \<noteq> rule_RuleID newRule) rules"
    "(if rule_RuleID newRule \<in> rule_RuleID ` set rules then newRule else newRule\<lparr>rule_Enabled := True\<rparr>) \<in> set rules'" by blast+
qed

lemma reload_simps [simp]: "rule_RuleID (reload r) = rule_RuleID r" "reload (reload r) = reload r"
  by (simp_all add: reload_def)

lemma reload_set_kind: "pushRuleSetKind (reload_set rs) kind = map_option (map reload) (pushRuleSetKind rs kind)"
  by (simp add: pushRuleSetKind_def reload_set_def)

lemma set_kind_read: "pushRuleSetKind rs kind = Some rules \<Longrightarrow>
    pushRuleSetKind (set_kind kind rules' rs) k = (if k = kind then Some rules' else pushRuleSetKind rs k)"
  by (auto simp: pushRuleSetKind_def set_kind_def split: if_splits)

lemma put_request:
  assumes doc: "document_of data rs" and put: "PutPushRuleByRuleID scope kind ruleID after before body userID data = (Ok (Answer ()), data')"
  obtains r a rules rules' where "Unmarshal dec_Rule body zero_Rule = (r, False)" "SplitID CHR ''@'' userID = Ok a" "scope = ''global''"
    "pushRuleSetKind (reload_set rs) kind = Some rules" "put_rule rules (r\<lparr>rule_RuleID := ruleID\<rparr>) after before = Some rules'"
    "document_of data' (set_kind kind rules' (reload_set rs))"
proof -
  have wf: "wf_RuleSet (reload_set rs)" using doc by (simp add: document_of_def reload_set_wf)
  obtain r err where r: "Unmarshal dec_Rule body zero_Rule = (r, err)" by fastforce
  define new where "new = r\<lparr>rule_RuleID := ruleID\<rparr>"
  note fails = invalid_param_def not_found_def answer_error_def
  have err: "\<not> err" using put r by (auto simp: PutPushRuleByRuleID_def split: if_splits)
  have "ValidateRule kind new = Ok []"
    using put r err by (auto simp: PutPushRuleByRuleID_def Let_def new_def fails split: outcome.splits list.splits)
  then have run: "with_rules userID scope kind data (\<lambda>ruleSet rules data. case put_rule rules new after before of
      None \<Rightarrow> (not_found, data) | Some rules \<Rightarrow> save_rules (set_kind kind rules ruleSet) data) = (Ok (Answer ()), data')"
    using put r err by (simp add: PutPushRuleByRuleID_def new_def)
  obtain a where a: "SplitID CHR ''@'' userID = Ok a" "scope = ''global''"
    using run by (auto simp: with_rules_document [OF doc] fails split: outcome.splits if_splits)
  obtain rules where rules: "pushRuleSetKind (reload_set rs) kind = Some rules"
    using run a by (auto simp: with_rules_document [OF doc] fails split: option.splits)
  obtain rules' where rules': "put_rule rules new after before = Some rules'"
    using run a rules by (auto simp: with_rules_document [OF doc] fails split: option.splits)
  have save: "save_rules (set_kind kind rules' (reload_set rs)) data = (Ok (Answer ()), data')"
    using run a rules rules' by (simp add: with_rules_document [OF doc])
  have "wf_Rule (new\<lparr>rule_Enabled := True\<rparr>)" "wf_Rule new" using Rule_decoded r err by (auto simp: wf_Rule_def new_def)
  then have "\<forall>r \<in> set rules'. r \<in> set rules \<or> wf_Rule r" using put_rule_set [OF rules'] by blast
  then have "document_of data' (set_kind kind rules' (reload_set rs))"
    using save_rules_saved [OF set_kind_wf [OF wf rules], of rules' data] save by auto
  then show ?thesis using that r err a rules rules' by (simp add: new_def)
qed

text \<open>
  C35. A rule that a client puts is found again under its ID, enabled if it is new, and as the first rule of
  its kind with this ID: IDs stay distinct. The other rules of the kind keep their order, and the rules of other kinds
  stay as they are.
\<close>

theorem put_rule_found:
  assumes "push_document localpart serverName data" "storage_QueryPushRules localpart serverName data = (Ok rs, data)"
    and "pushRuleSetKind rs kind = Some rules" "distinct (map rule_RuleID rules)"
    and "PutPushRuleByRuleID scope kind ruleID after before body userID data = (Ok (Answer ()), data')"
  shows "\<exists>rs' rules' r r0. storage_QueryPushRules localpart serverName data' = (Ok rs', data') \<and>
    pushRuleSetKind rs' kind = Some rules' \<and> distinct (map rule_RuleID rules') \<and>
    filter (\<lambda>r. rule_RuleID r \<noteq> ruleID) rules' = filter (\<lambda>r. rule_RuleID r \<noteq> ruleID) rules \<and>
    (\<forall>k. k \<noteq> kind \<longrightarrow> pushRuleSetKind rs' k = pushRuleSetKind rs k) \<and>
    GetPushRuleByRuleID scope kind ruleID userID data' = (Ok (Answer (reload r)), data') \<and>
    Unmarshal dec_Rule body zero_Rule = (r0, False) \<and>
    r = (if ruleID \<in> rule_RuleID ` set rules then r0\<lparr>rule_RuleID := ruleID\<rparr> else r0\<lparr>rule_RuleID := ruleID, rule_Enabled := True\<rparr>)"
proof -
  obtain rs0 where doc: "document_of data rs0" using push_document_of [OF assms(1)] by blast
  have rs: "rs = reload_set rs0" using document_read [OF doc] assms(2) by simp
  show ?thesis
  proof (rule put_request [OF doc assms(5)])
    fix r0 a rules1 rules'
    assume step: "Unmarshal dec_Rule body zero_Rule = (r0, False)" "SplitID CHR ''@'' userID = Ok a" "scope = ''global''"
      "pushRuleSetKind (reload_set rs0) kind = Some rules1" "put_rule rules1 (r0\<lparr>rule_RuleID := ruleID\<rparr>) after before = Some rules'"
      "document_of data' (set_kind kind rules' (reload_set rs0))"
    define r where "r = (if ruleID \<in> rule_RuleID ` set rules then r0\<lparr>rule_RuleID := ruleID\<rparr> else r0\<lparr>rule_RuleID := ruleID, rule_Enabled := True\<rparr>)"
    have "rules1 = rules" using step(4) assms(3) rs by simp
    note put = put_rule_spec [OF assms(4) step(5) [unfolded this]]
    let ?rs = "reload_set (set_kind kind rules' rs)"
    have kinds: "pushRuleSetKind ?rs k = (if k = kind then Some (map reload rules') else map_option (map reload) (pushRuleSetKind rs k))" for k
      using set_kind_read [OF assms(3)] by (simp add: reload_set_kind)
    have again: "map_option (map reload) (pushRuleSetKind rs k) = pushRuleSetKind rs k" for k
      by (simp add: rs reload_set_kind option.map_comp comp_def)
    then have same: "map reload rules = rules" using assms(3) by (metis option.inject option.simps(9))
    have ids: "map rule_RuleID (map reload rules') = map rule_RuleID rules'" by simp
    have others: "filter (\<lambda>r. rule_RuleID r \<noteq> ruleID) (map reload rules') = filter (\<lambda>r. rule_RuleID r \<noteq> ruleID) rules"
    proof -
      have "filter (\<lambda>r. rule_RuleID r \<noteq> ruleID) (map reload rules') = map reload (filter (\<lambda>r. rule_RuleID r \<noteq> ruleID) rules)"
        using put(2) by (simp add: filter_map comp_def)
      also have "\<dots> = filter (\<lambda>r. rule_RuleID r \<noteq> ruleID) (map reload rules)" by (simp add: filter_map comp_def)
      finally show ?thesis using same by simp
    qed
    have r: "r \<in> set rules'" "rule_RuleID (reload r) = ruleID" using put(3) by (simp_all add: r_def)
    have distinct: "distinct (map rule_RuleID (map reload rules'))" using put(1) by (simp only: ids)
    from index_of_rule [OF this, of "reload r"] r
    obtain n where n: "pushRuleIndexByID (map reload rules') ruleID = Some n" "map reload rules' ! n = reload r" by auto
    have read: "storage_QueryPushRules l s data' = (Ok ?rs, data')" for l s using document_read [OF step(6)] rs by simp
    have get: "GetPushRuleByRuleID scope kind ruleID userID data' = (Ok (Answer (reload r)), data')"
      using n step(2,3) kinds [of kind] rs by (simp add: GetPushRuleByRuleID_def with_rules_document [OF step(6)])
    have "pushRuleSetKind ?rs kind = Some (map reload rules')" "\<forall>k. k \<noteq> kind \<longrightarrow> pushRuleSetKind ?rs k = pushRuleSetKind rs k"
      using kinds again by simp_all
    then show ?thesis using read distinct others get step(1) r_def by blast
  qed
qed

theorem put_rule_found_witness:
  "\<exists>r data'. PutPushRuleByRuleID ''global'' ''content'' ''lunch'' [] [] (Some sample_rule) ''@alice:a'' sample_document = (Ok (Answer ()), data') \<and>
     GetPushRuleByRuleID ''global'' ''content'' ''lunch'' ''@alice:a'' data' = (Ok (Answer r), data') \<and> rule_Enabled r"
proof -
  let ?rs = "DefaultGlobalRuleSet ''alice'' ''a''"
  let ?put = "PutPushRuleByRuleID ''global'' ''content'' ''lunch'' [] [] (Some sample_rule) ''@alice:a'' sample_document"
  have read: "storage_QueryPushRules ''alice'' ''a'' sample_document = (Ok ?rs, sample_document)" by code_simp
  have kind: "pushRuleSetKind ?rs ''content'' = Some (rs_Content ?rs)" by (simp add: pushRuleSetKind_def)
  have distinct: "distinct (map rule_RuleID (rs_Content ?rs))" by code_simp
  have new: "''lunch'' \<notin> rule_RuleID ` set (rs_Content ?rs)" by code_simp
  have "fst ?put = Ok (Answer ())" by code_simp
  then have put: "?put = (Ok (Answer ()), snd ?put)" by (metis prod.collapse)
  from put_rule_found [OF sample_document_created read kind distinct put] obtain r where
    "GetPushRuleByRuleID ''global'' ''content'' ''lunch'' ''@alice:a'' (snd ?put) = (Ok (Answer (reload r)), snd ?put)" "rule_Enabled r"
    using new by auto
  then show ?thesis using put by (intro exI [of _ "reload r"] exI [of _ "snd ?put"]) (simp add: reload_def)
qed

section \<open>What the code lets through\<close>

definition sample_user :: localMembership where
  "sample_user = \<lparr>lm_UserID = ''@alice:a'', lm_Localpart = ''alice'', lm_Domain = ''a'', lm_DisplayName = ''Al''\<rparr>"

text \<open>
  The actions of a rule can be replaced by a list with a nil pointer in it, and the next message that the rule
  matches panics. The request that puts a whole rule panics itself.
\<close>

lemma null_action_panics:
  "notify_decision sample_users (Ok []) None (sample_pushed ''hi'') sample_user 3
     (snd (PutPushRuleAttrByRuleID ''global'' ''underride'' ''.m.rule.message'' ''actions'' (Some (JObj [(''actions'', JArr [JNull])]))
        ''@alice:a'' sample_document)) = Panic"
  by code_simp

lemma put_null_action_panics:
  "fst (PutPushRuleByRuleID ''global'' ''room'' ''!r:a'' [] [] (Some (JObj [(''actions'', JArr [JNull])])) ''@alice:a'' sample_document) = Panic"
  by code_simp

text \<open>A condition without its pattern is accepted, and from then on no event is evaluated to the end.\<close>

lemma incomplete_condition_stops:
  "notify_decision sample_users (Ok []) None (sample_pushed ''hi'') sample_user 3
     (snd (PutPushRuleByRuleID ''global'' ''override'' ''x'' [] []
        (Some (JObj [(''conditions'', JArr [JObj [(''kind'', JStr ''event_match''), (''key'', JStr ''type'')]]), (''actions'', JArr [])]))
        ''@alice:a'' sample_document)) = Err (GoError ''missing condition pattern'')"
  by code_simp

text \<open>A client may mark its own rule as a default rule, which counts after all others of its kind.\<close>

lemma client_default_rule:
  "(case fst (GetPushRuleByRuleID ''global'' ''room'' ''!r:a'' ''@alice:a'' (snd (PutPushRuleByRuleID ''global'' ''room'' ''!r:a'' [] []
      (Some (JObj [(''default'', JBool True), (''actions'', JArr [])])) ''@alice:a'' sample_document))) of
      Ok (Answer r) \<Rightarrow> rule_Default r | _ \<Rightarrow> False)"
  by code_simp

text \<open>A second upgrade of the same room gives two rules with one ID.\<close>

lemma upgrade_duplicates:
  "map rule_RuleID (rs_Room (the_ok (fst (storage_QueryPushRules ''alice'' ''a''
     (snd (copyPushrules ''!o:a'' ''!n:a'' ''alice'' ''a'' (snd (copyPushrules ''!o:a'' ''!n:a'' ''alice'' ''a''
       (snd (PutPushRuleByRuleID ''global'' ''room'' ''!o:a'' [] [] (Some (JObj [(''actions'', JArr [])])) ''@alice:a'' sample_document)))))))))) =
   [''!o:a'', ''!n:a'', ''!n:a'']"
  by code_simp

text \<open>An unknown sender, for whom the lookup fails, panics for a user who has a list of ignored users.\<close>

lemma unknown_sender_panics:
  "fst (evaluatePushRules (\<lambda>_ _. Err (GoError ''not found'')) (Ok []) (Some (JObj [(''ignored_users'', JObj [])])) (sample_pushed ''hi'')
     sample_user 3 sample_document) = Panic"
  by code_simp

end
