(* ===== verification/RedactEvent.thy ===== *)
theory RedactEvent
  imports GoInterface RoomVersions Events
begin

text \<open>
  Redaction (\<^verbatim>\<open>redactevent.go\<close>): an event is stripped of everything but the fields that are needed to
  authorise it and others after it. Which ones these are depends on the room version.
\<close>

section \<open>Fields that are kept\<close>

definition unredactableEventFieldsV1 :: "string list" where
  "unredactableEventFieldsV1 =
     [''event_id'', ''type'', ''room_id'', ''sender'', ''state_key'', ''content'', ''hashes'', ''signatures'', ''depth'', ''prev_events'',
      ''prev_state'', ''auth_events'', ''origin'', ''origin_server_ts'', ''membership'']"

definition unredactableEventFieldsV2 :: "string list" where
  "unredactableEventFieldsV2 =
     [''event_id'', ''type'', ''room_id'', ''sender'', ''state_key'', ''content'', ''hashes'', ''signatures'', ''depth'', ''prev_events'',
      ''auth_events'', ''origin_server_ts'']"

abbreviation levels_kept :: "string list" where
  "levels_kept \<equiv> [''ban'', ''events'', ''events_default'', ''kick'', ''redact'', ''state_default'', ''users'', ''users_default'']"

definition unredactableContentFieldsV1 :: "(string, string list) gomap" where
  "unredactableContentFieldsV1 =
     [(''m.room.member'', [''membership'']), (''m.room.create'', [''creator'']), (''m.room.join_rules'', [''join_rule'']),
      (''m.room.power_levels'', levels_kept), (''m.room.aliases'', [''aliases'']), (''m.room.history_visibility'', [''history_visibility''])]"

definition unredactableContentFieldsV2 :: "(string, string list) gomap" where
  "unredactableContentFieldsV2 =
     [(''m.room.member'', [''membership'']), (''m.room.create'', [''creator'']), (''m.room.join_rules'', [''join_rule'']),
      (''m.room.power_levels'', levels_kept), (''m.room.history_visibility'', [''history_visibility''])]"

definition unredactableContentFieldsV3 :: "(string, string list) gomap" where
  "unredactableContentFieldsV3 =
     [(''m.room.member'', [''membership'']), (''m.room.create'', [''creator'']), (''m.room.join_rules'', [''join_rule'', ''allow'']),
      (''m.room.power_levels'', levels_kept), (''m.room.history_visibility'', [''history_visibility''])]"

definition unredactableContentFieldsV4 :: "(string, string list) gomap" where
  "unredactableContentFieldsV4 =
     [(''m.room.member'', [''membership'', ''join_authorised_via_users_server'']), (''m.room.create'', [''creator'']),
      (''m.room.join_rules'', [''join_rule'', ''allow'']), (''m.room.power_levels'', levels_kept),
      (''m.room.history_visibility'', [''history_visibility''])]"

definition unredactableContentFieldsV5 :: "(string, string list) gomap" where
  "unredactableContentFieldsV5 =
     [(''m.room.member'', [''membership'', ''join_authorised_via_users_server'']), (''m.room.create'', []),
      (''m.room.join_rules'', [''join_rule'', ''allow'']), (''m.room.power_levels'', levels_kept @ [''invite'']),
      (''m.room.history_visibility'', [''history_visibility'']), (''m.room.redaction'', [''redacts''])]"

section \<open>Redaction\<close>

text \<open>
  A document \<^verbatim>\<open>null\<close> sets the pointer to the struct to nil. The fields of the struct: the type, the content as a map, which is nil at first, and the others as they are
  (\<^verbatim>\<open>spec.RawJSON\<close>), if they are there.
\<close>

record unredactableEvent =
  un_Type :: string
  un_Content :: "(string, json option) gomap option"
  un_Raw :: "(string, json) gomap"

definition dec_raw_field :: "string \<Rightarrow> unredactableEvent decoder" where
  "dec_raw_field name j u = (u\<lparr>un_Raw := AList.update name j (un_Raw u)\<rparr>, DNone)"

definition dec_content :: "(string, json option) gomap option decoder" where
  "dec_content j v =
     (case j of
        JNull \<Rightarrow> (None, DNone)
      | JObj kvs \<Rightarrow> (case dec_entries None dec_any kvs (case v of None \<Rightarrow> [] | Some m \<Rightarrow> m) of (m, e) \<Rightarrow> (Some m, e))
      | _ \<Rightarrow> (v, DSaved))"

definition dec_field :: "string \<Rightarrow> unredactableEvent decoder" where
  "dec_field name =
     (if name = ''type'' then fld un_Type (\<lambda>x u. u\<lparr>un_Type := x\<rparr>) dec_string
      else if name = ''content'' then fld un_Content (\<lambda>x u. u\<lparr>un_Content := x\<rparr>) dec_content
      else dec_raw_field name)"

definition dec_unredactableEvent :: "string list \<Rightarrow> unredactableEvent decoder" where
  "dec_unredactableEvent names = dec_struct (map (\<lambda>name. (name, dec_field name)) names)"

definition json_of_any :: "(bool \<times> int \<times> int \<Rightarrow> string) \<Rightarrow> json option \<Rightarrow> json" where
  "json_of_any pf v = (case v of None \<Rightarrow> JNull | Some j \<Rightarrow> through_interface pf j)"

definition json_of_content :: "(bool \<times> int \<times> int \<Rightarrow> string) \<Rightarrow> (string, json option) gomap option \<Rightarrow> json" where
  "json_of_content pf c =
     (case c of None \<Rightarrow> JNull | Some m \<Rightarrow> JObj (sorted_members (map (\<lambda>kv. (fst kv, json_of_any pf (snd kv))) m)))"

definition json_of_field :: "(bool \<times> int \<times> int \<Rightarrow> string) \<Rightarrow> unredactableEvent \<Rightarrow> string \<Rightarrow> (string \<times> json) list" where
  "json_of_field pf u name =
     (if name = ''type'' then [(name, JStr (un_Type u))]
      else if name = ''content'' then [(name, json_of_content pf (un_Content u))]
      else case map_of (un_Raw u) name of None \<Rightarrow> [] | Some j \<Rightarrow> [(name, j)])"

definition kept_content :: "(string, string list) gomap \<Rightarrow> string \<Rightarrow> (string, json option) gomap option \<Rightarrow> (string, json option) gomap option" where
  "kept_content keep type content =
     (case map_of keep type of
        Some [] \<Rightarrow> content
      | keepContentFields \<Rightarrow>
          Some (fold (\<lambda>contentKey newContent.
              case map_of (case content of None \<Rightarrow> [] | Some m \<Rightarrow> m) contentKey of
                None \<Rightarrow> newContent
              | Some val \<Rightarrow> AList.update contentKey val newContent)
            (case keepContentFields of None \<Rightarrow> [] | Some ks \<Rightarrow> ks) []))"

definition redactEventJSON :: "(bool \<times> int \<times> int \<Rightarrow> string) \<Rightarrow> string list \<Rightarrow> (string, string list) gomap \<Rightarrow> json option \<Rightarrow> json outcome" where
  "redactEventJSON pf names keep eventJSON =
     (if eventJSON = Some JNull then Panic
      else case Unmarshal (dec_unredactableEvent names) eventJSON \<lparr>un_Type = [], un_Content = None, un_Raw = []\<rparr> of (u, err) \<Rightarrow>
        if err then Err (GoError ''json.Unmarshal'')
        else Ok (JObj (concat (map (json_of_field pf (u\<lparr>un_Content := kept_content keep (un_Type u) (un_Content u)\<rparr>)) names))))"

definition fields_of :: "RedactionAlgorithm \<Rightarrow> string list \<times> (string, string list) gomap" where
  "fields_of alg =
     (case alg of
        F_redactEventJSONV1 \<Rightarrow> (unredactableEventFieldsV1, unredactableContentFieldsV1)
      | F_redactEventJSONV2 \<Rightarrow> (unredactableEventFieldsV1, unredactableContentFieldsV2)
      | F_redactEventJSONV3 \<Rightarrow> (unredactableEventFieldsV1, unredactableContentFieldsV3)
      | F_redactEventJSONV4 \<Rightarrow> (unredactableEventFieldsV1, unredactableContentFieldsV4)
      | F_redactEventJSONV5 \<Rightarrow> (unredactableEventFieldsV2, unredactableContentFieldsV5))"

definition RedactEventJSON :: "(bool \<times> int \<times> int \<Rightarrow> string) \<Rightarrow> RoomVersion \<Rightarrow> json option \<Rightarrow> json outcome" where
  "RedactEventJSON pf version eventJSON =
     and_then (GetRoomVersion version) (\<lambda>v. redactEventJSON pf (fst (fields_of (redactionAlgorithm v))) (snd (fields_of (redactionAlgorithm v))) eventJSON)"

end
