(* ===== verification/RedactEvent_Correct.thy ===== *)
theory RedactEvent_Correct
  imports RedactEvent Samples
begin

text \<open>
  What is left of an event when it is redacted: exactly the fields that its room version keeps.
\<close>

section \<open>Decoding\<close>

definition as_any :: "json \<Rightarrow> json option" where
  "as_any j = (if j = JNull then None else Some j)"

lemma dec_any_fits: "numbers_fit j \<Longrightarrow> dec_any j v = (as_any j, DNone)"
  by (cases j) (simp_all add: dec_any_def as_any_def)

lemma dec_entries_any:
  assumes "list_all (\<lambda>kv. numbers_fit (snd kv)) kvs"
  shows "\<exists>m'. dec_entries None dec_any kvs m = (m', DNone) \<and> (distinct (keys m) \<longrightarrow> distinct (keys m')) \<and>
    map_of m' = map_of m ++ (\<lambda>k. map_option as_any (map_of (rev kvs) k))"
  using assms
proof (induction kvs arbitrary: m)
  case (Cons kv kvs)
  obtain k j where kv: "kv = (k, j)" by fastforce
  obtain m' where m': "dec_entries None dec_any kvs (AList.update k (as_any j) m) = (m', DNone)"
      "distinct (keys (AList.update k (as_any j) m)) \<longrightarrow> distinct (keys m')"
      "map_of m' = map_of (AList.update k (as_any j) m) ++ (\<lambda>k. map_option as_any (map_of (rev kvs) k))"
    using Cons by auto
  then show ?case using Cons.prems kv
    by (intro exI [of _ m']) (auto simp: dec_any_fits map_simps map_add_def fun_eq_iff split: option.splits)
qed (simp add: map_add_def)

lemma find_named_field: "find_field (map (\<lambda>name. (name, f name)) names) k =
    (if k \<in> set names then Some (f k) else map_option f (List.find (\<lambda>name. fold_name name = fold_name k) names))"
proof -
  have "List.find (\<lambda>(n, _). P n) (map (\<lambda>name. (name, f name)) names) = map_option (\<lambda>n. (n, f n)) (List.find P names)" for P
    by (induction names) auto
  then show ?thesis by (auto simp: find_field_def map_of_map_restrict restrict_map_def option.map_comp comp_def)
qed

text \<open>No member has a name that is that of a field but for the case of its letters.\<close>

definition no_lookalikes :: "string list \<Rightarrow> (string \<times> 'a) list \<Rightarrow> bool" where
  "no_lookalikes names kvs \<longleftrightarrow> (\<forall>k \<in> fst ` set kvs. \<forall>name \<in> set names. fold_name name = fold_name k \<longrightarrow> k = name)"

lemma field_found:
  assumes "no_lookalikes names kvs" "(k, j) \<in> set kvs"
  shows "find_field (map (\<lambda>name. (name, f name)) names) k = (if k \<in> set names then Some (f k) else None)"
proof (cases "k \<in> set names")
  case False
  have "fold_name name \<noteq> fold_name k" if "name \<in> set names" for name
    using assms that False by (force simp: no_lookalikes_def)
  then have "List.find (\<lambda>name. fold_name name = fold_name k) names = None" by (simp add: find_None_iff)
  then show ?thesis using False by (simp add: find_named_field)
qed (simp add: find_named_field)

text \<open>An event as servers send it: named members, each once, with a type and numbers that fit.\<close>

definition regular_event :: "string list \<Rightarrow> (string \<times> json) list \<Rightarrow> bool" where
  "regular_event names kvs \<longleftrightarrow> distinct (map fst kvs) \<and> no_lookalikes names kvs \<and> (\<exists>t. map_of kvs ''type'' = Some (JStr t)) \<and>
     (\<exists>cs. map_of kvs ''content'' = Some (JObj cs) \<and> list_all (\<lambda>kv. numbers_fit (snd kv)) cs)"

definition decodes_to :: "(string \<times> json) list \<Rightarrow> (string, json option) gomap option \<Rightarrow> bool" where
  "decodes_to cs c \<longleftrightarrow> (\<exists>m. c = Some m \<and> distinct (keys m) \<and> map_of m = (\<lambda>k. map_option as_any (map_of (rev cs) k)))"

definition raw_names :: "string list \<Rightarrow> string set" where
  "raw_names names = set names - {''type'', ''content''}"

text \<open>What decoding the members of an event makes of the struct.\<close>

definition decoded_from :: "string list \<Rightarrow> (string \<times> json) list \<Rightarrow> unredactableEvent \<Rightarrow> unredactableEvent \<Rightarrow> bool" where
  "decoded_from names kvs u u' \<longleftrightarrow>
     map_of (un_Raw u') = map_of (un_Raw u) ++ (\<lambda>k. if k \<in> raw_names names then map_of kvs k else None) \<and>
     un_Type u' = (case map_of kvs ''type'' of Some (JStr t) \<Rightarrow> t | _ \<Rightarrow> un_Type u) \<and>
     (case map_of kvs ''content'' of Some (JObj cs) \<Rightarrow> decodes_to cs (un_Content u') | _ \<Rightarrow> un_Content u' = un_Content u)"

definition good_member :: "string \<times> json \<Rightarrow> bool" where
  "good_member kv \<longleftrightarrow> (fst kv = ''type'' \<longrightarrow> (\<exists>t. snd kv = JStr t)) \<and>
     (fst kv = ''content'' \<longrightarrow> (\<exists>cs. snd kv = JObj cs \<and> list_all (\<lambda>kv. numbers_fit (snd kv)) cs))"

lemma dec_content_fresh:
  assumes "list_all (\<lambda>kv. numbers_fit (snd kv)) cs"
  shows "\<exists>c. dec_content (JObj cs) None = (c, DNone) \<and> decodes_to cs c"
  using dec_entries_any [OF assms, of "[]"] by (auto simp: dec_content_def decodes_to_def map_add_def split: option.splits)

lemma dec_members_event:
  assumes "distinct (map fst kvs)" "no_lookalikes names kvs" "{''type'', ''content''} \<subseteq> set names" "list_all good_member kvs"
    and "''content'' \<in> fst ` set kvs \<longrightarrow> un_Content u = None"
  shows "\<exists>u'. dec_members (map (\<lambda>name. (name, dec_field name)) names) kvs u = (u', DNone) \<and> decoded_from names kvs u u'"
  using assms
proof (induction kvs arbitrary: u)
  case (Cons kv kvs)
  obtain k j where kv: "kv = (k, j)" by fastforce
  let ?fs = "map (\<lambda>name. (name, dec_field name)) names"
  have field: "find_field ?fs k = (if k \<in> set names then Some (dec_field k) else None)"
    using field_found [OF Cons.prems(2), of k j dec_field] kv by simp
  have fresh: "k \<notin> fst ` set kvs" using Cons.prems(1) kv by simp
  have IH: "\<exists>u'. dec_members ?fs kvs v = (u', DNone) \<and> decoded_from names kvs v u'" if "''content'' \<in> fst ` set kvs \<longrightarrow> un_Content v = None" for v
    using Cons.IH [of v] Cons.prems that by (auto simp: no_lookalikes_def)
  have none: "map_of kvs k = None" using fresh by (simp add: map_of_eq_None_iff)
  consider "k = ''type''" | "k = ''content''" | "k \<in> raw_names names" | "k \<notin> set names"
    by (auto simp: raw_names_def)
  then show ?case
  proof cases
    case 1
    then obtain t where t: "j = JStr t" using Cons.prems(4) kv by (auto simp: good_member_def)
    obtain u' where u': "dec_members ?fs kvs (u\<lparr>un_Type := t\<rparr>) = (u', DNone)" "decoded_from names kvs (u\<lparr>un_Type := t\<rparr>) u'"
      using IH [of "u\<lparr>un_Type := t\<rparr>"] Cons.prems(5) kv by auto
    have "decoded_from names (kv # kvs) u u'" using u'(2) none kv t 1
      by (auto simp: decoded_from_def raw_names_def map_add_def fun_eq_iff split: option.splits json.splits)
    then show ?thesis using u'(1) field Cons.prems(3) kv t 1 by (auto simp: dec_field_def fld_def)
  next
    case 2
    then obtain cs where cs: "j = JObj cs" "list_all (\<lambda>kv. numbers_fit (snd kv)) cs" using Cons.prems(4) kv by (auto simp: good_member_def)
    then obtain c where c: "dec_content (JObj cs) None = (c, DNone)" "decodes_to cs c" using dec_content_fresh by blast
    have start: "un_Content u = None" using Cons.prems(5) kv 2 by simp
    obtain u' where u': "dec_members ?fs kvs (u\<lparr>un_Content := c\<rparr>) = (u', DNone)" "decoded_from names kvs (u\<lparr>un_Content := c\<rparr>) u'"
      using IH [of "u\<lparr>un_Content := c\<rparr>"] fresh 2 by auto
    have "decoded_from names (kv # kvs) u u'" using u'(2) none kv cs c 2
      by (auto simp: decoded_from_def raw_names_def map_add_def fun_eq_iff split: option.splits json.splits)
    then show ?thesis using u'(1) field Cons.prems(3) kv cs c start 2 by (auto simp: dec_field_def fld_def)
  next
    case 3
    let ?u = "u\<lparr>un_Raw := AList.update k j (un_Raw u)\<rparr>"
    obtain u' where u': "dec_members ?fs kvs ?u = (u', DNone)" "decoded_from names kvs ?u u'"
      using IH [of ?u] Cons.prems(5) kv by auto
    have "decoded_from names (kv # kvs) u u'" using u'(2) none kv 3
      by (auto simp: decoded_from_def raw_names_def map_add_def fun_eq_iff map_simps split: option.splits json.splits)
    then show ?thesis using u'(1) field kv 3 by (auto simp: dec_field_def raw_names_def dec_raw_field_def)
  next
    case 4
    then have "k \<noteq> ''type''" "k \<noteq> ''content''" using Cons.prems(3) by auto
    obtain u' where u': "dec_members ?fs kvs u = (u', DNone)" "decoded_from names kvs u u'" using IH [of u] Cons.prems(5) kv by auto
    have "decoded_from names (kv # kvs) u u'" using u'(2) none kv 4 \<open>k \<noteq> ''type''\<close> \<open>k \<noteq> ''content''\<close>
      by (auto simp: decoded_from_def raw_names_def map_add_def fun_eq_iff split: option.splits json.splits)
    then show ?thesis using u'(1) field kv 4 by auto
  qed
qed (auto simp: decoded_from_def map_add_def fun_eq_iff)

section \<open>Encoding\<close>

lemma json_of_any_as_any [simp]: "json_of_any pf (as_any j) = through_interface pf j"
  by (simp add: json_of_any_def as_any_def)

lemma map_of_rev: "distinct (keys m) \<Longrightarrow> map_of (rev m) = map_of m"
  by (metis distinct_rev map_of_inject_set rev_map set_rev)

lemma map_of_content:
  assumes "distinct (keys m)"
  shows "map_of (sorted_members (map (\<lambda>kv. (fst kv, json_of_any pf (snd kv))) m)) k = map_option (json_of_any pf) (map_of m k)"
proof -
  have "distinct (keys (map (\<lambda>kv. (fst kv, json_of_any pf (snd kv))) m))" using assms by (simp add: comp_def)
  moreover have "map_of (map (\<lambda>kv. (fst kv, json_of_any pf (snd kv))) m) k = map_option (json_of_any pf) (map_of m k)" by (induction m) auto
  ultimately show ?thesis by (simp add: map_of_sorted_members map_of_rev)
qed

text \<open>Whether the content keeps a field: some types of events keep all, most keep none.\<close>

definition keeps_field :: "(string, string list) gomap \<Rightarrow> string \<Rightarrow> string \<Rightarrow> bool" where
  "keeps_field keep t k \<longleftrightarrow> (case map_of keep t of None \<Rightarrow> False | Some ks \<Rightarrow> ks = [] \<or> k \<in> set ks)"

lemma map_of_kept:
  "map_of (fold (\<lambda>key new. case map_of m key of None \<Rightarrow> new | Some val \<Rightarrow> AList.update key val new) ks new) k =
     (if k \<in> set ks \<and> map_of m k \<noteq> None then map_of m k else map_of new k)"
  by (induction ks arbitrary: new) (auto simp: map_simps split: option.splits)

lemma distinct_kept:
  "distinct (keys new) \<Longrightarrow> distinct (keys (fold (\<lambda>key new. case map_of m key of None \<Rightarrow> new | Some val \<Rightarrow> AList.update key val new) ks new))"
  by (induction ks arbitrary: new) (auto split: option.splits)

lemma kept_content_spec:
  assumes "decodes_to cs c"
  shows "\<exists>m. kept_content keep t c = Some m \<and> distinct (keys m) \<and>
    (\<forall>k. map_of m k = (if keeps_field keep t k then map_option as_any (map_of (rev cs) k) else None))"
proof -
  obtain m where m: "c = Some m" "distinct (keys m)" "map_of m = (\<lambda>k. map_option as_any (map_of (rev cs) k))" using assms by (auto simp: decodes_to_def)
  show ?thesis
  proof (cases "map_of keep t = Some []")
    case True
    then show ?thesis using m by (simp add: kept_content_def keeps_field_def)
  next
    case False
    let ?ks = "case map_of keep t of None \<Rightarrow> [] | Some ks \<Rightarrow> ks"
    define new where "new = fold (\<lambda>key new. case map_of m key of None \<Rightarrow> new | Some val \<Rightarrow> AList.update key val new) ?ks []"
    have "kept_content keep t c = Some new"
      using False m(1) unfolding new_def by (auto simp: kept_content_def split: option.splits list.splits)
    moreover have "distinct (keys new)" unfolding new_def by (rule distinct_kept) simp
    moreover have "map_of new k = (if k \<in> set ?ks then map_of m k else None)" for k unfolding new_def map_of_kept by auto
    moreover have "keeps_field keep t k \<longleftrightarrow> k \<in> set ?ks" for k using False by (auto simp: keeps_field_def split: option.splits)
    ultimately show ?thesis using m(3) by auto
  qed
qed

lemma map_of_fields: "map_of (concat (map (json_of_field pf u) names)) k = (if k \<in> set names then map_of (json_of_field pf u k) k else None)"
proof (induction names)
  case (Cons name names)
  have "map_of (json_of_field pf u name) k = None" if "name \<noteq> k" using that by (auto simp: json_of_field_def split: option.splits)
  moreover have "map_of (json_of_field pf u k) k = None \<Longrightarrow> json_of_field pf u k = []" by (auto simp: json_of_field_def split: if_splits option.splits)
  ultimately show ?case using Cons by (cases "name = k") (auto simp: map_add_def split: option.splits)
qed simp

lemma redactEventJSON_spec:
  assumes "regular_event names kvs" "{''type'', ''content''} \<subseteq> set names"
    and t: "map_of kvs ''type'' = Some (JStr t)" and cs: "map_of kvs ''content'' = Some (JObj cs)"
  shows "\<exists>out c. redactEventJSON pf names keep (Some (JObj kvs)) = Ok (JObj out) \<and>
    (\<forall>k. k \<noteq> ''content'' \<longrightarrow> map_of out k = (if k \<in> set names then map_of kvs k else None)) \<and> map_of out ''content'' = Some (JObj c) \<and>
    (\<forall>k. map_of c k = (if keeps_field keep t k then map_option (through_interface pf) (map_of (rev cs) k) else None))"
proof -
  let ?u0 = "\<lparr>un_Type = [], un_Content = None, un_Raw = []\<rparr>"
  have reg: "distinct (map fst kvs)" "no_lookalikes names kvs" using assms(1) by (auto simp: regular_event_def)
  have "list_all good_member kvs"
    using assms(1) by (auto simp: regular_event_def list_all_iff good_member_def dest!: map_of_is_SomeI [OF reg(1)])
  then obtain u where u: "dec_unredactableEvent names (JObj kvs) ?u0 = (u, DNone)" "decoded_from names kvs ?u0 u"
    using dec_members_event [OF reg assms(2), of ?u0] by (auto simp: dec_unredactableEvent_def dec_struct_def)
  have dec: "un_Type u = t" "decodes_to cs (un_Content u)" "map_of (un_Raw u) k = (if k \<in> raw_names names then map_of kvs k else None)" for k
    using u(2) t cs by (auto simp: decoded_from_def map_add_def split: option.splits)
  obtain m where m: "kept_content keep t (un_Content u) = Some m" "distinct (keys m)"
      "\<forall>k. map_of m k = (if keeps_field keep t k then map_option as_any (map_of (rev cs) k) else None)"
    using kept_content_spec [OF dec(2)] by blast
  define u' where "u' = u\<lparr>un_Content := Some m\<rparr>"
  define c where "c = sorted_members (map (\<lambda>kv. (fst kv, json_of_any pf (snd kv))) m)"
  have run: "redactEventJSON pf names keep (Some (JObj kvs)) = Ok (JObj (concat (map (json_of_field pf u') names)))"
    using u(1) m(1) dec(1) by (simp add: redactEventJSON_def Unmarshal_def u'_def)
  have "map_of (json_of_field pf u' k) k = map_of kvs k" if "k \<noteq> ''content''" "k \<in> set names" for k
    using that dec t by (auto simp: json_of_field_def u'_def raw_names_def split: option.splits)
  moreover have "map_of (json_of_field pf u' ''content'') ''content'' = Some (JObj c)"
    by (simp add: json_of_field_def u'_def json_of_content_def c_def)
  moreover have "map_of c k = (if keeps_field keep t k then map_option (through_interface pf) (map_of (rev cs) k) else None)" for k
    using m(3) map_of_content [OF m(2), of pf k] by (simp add: c_def option.map_comp comp_def)
  ultimately show ?thesis using run assms(2) by (intro exI [of _ "concat (map (json_of_field pf u') names)"] exI [of _ c]) (simp add: map_of_fields)
qed

lemma fields_of_names: "{''type'', ''content''} \<subseteq> set (fst (fields_of alg))"
  by (cases alg) (simp_all add: fields_of_def unredactableEventFieldsV1_def unredactableEventFieldsV2_def)


text \<open>The join of a user through a server that vouches for it.\<close>

definition sample_join :: "(string \<times> json) list" where
  "sample_join =
     [(''type'', JStr ''m.room.member''), (''state_key'', JStr ''@u:a''), (''sender'', JStr ''@u:a''), (''unsigned'', JObj []),
      (''content'', JObj [(''membership'', JStr ''join''), (''displayname'', JStr ''U''), (''join_authorised_via_users_server'', JStr ''@m:a'')])]"


section \<open>What redaction loses and keeps\<close>

text \<open>A redacted member event has its membership in every version.\<close>

lemma membership_kept: "keeps_field (snd (fields_of alg)) ''m.room.member'' ''membership''"
  by (cases alg) (simp_all add: fields_of_def keeps_field_def unredactableContentFieldsV1_def unredactableContentFieldsV2_def
      unredactableContentFieldsV3_def unredactableContentFieldsV4_def unredactableContentFieldsV5_def)

text \<open>The level that is needed to invite is lost before version 11, and the default level takes its place.\<close>

lemma invite_level_kept_iff: "keeps_field (snd (fields_of alg)) ''m.room.power_levels'' ''invite'' \<longleftrightarrow> alg = F_redactEventJSONV5"
  by (cases alg) (simp_all add: fields_of_def keeps_field_def unredactableContentFieldsV1_def unredactableContentFieldsV2_def
      unredactableContentFieldsV3_def unredactableContentFieldsV4_def unredactableContentFieldsV5_def)

text \<open>A member with the name of a field in other letters takes the place of the field.\<close>

lemma lookalike_replaces_content:
  "RedactEventJSON (\<lambda>_. []) ''10'' (Some (JObj [(''type'', JStr ''m.room.member''), (''content'', JObj [(''membership'', JStr ''join'')]),
     (''Content'', JObj [(''membership'', JStr ''ban'')])])) =
   Ok (JObj [(''type'', JStr ''m.room.member''), (''content'', JObj [(''membership'', JStr ''ban'')])])"
  by code_simp

end
