(* ===== verification/Spec2Isabelle.thy ===== *)
theory Spec2Isabelle
  imports
    ResolutionV1 MembershipRules Statistics_Correct LatestEvents_Correct
    HistoryVisibility_Correct TypingCache_Correct Transactions RoomQueries_Correct StateResponses_Correct InputMissing_Correct
    PushRuleStore_Correct RedactEvent_Correct
begin

text \<open>
  A verification of the core of \<^bold>\<open>maidtrix\<close>, a Matrix homeserver written in Go.

  \<^bold>\<open>The program.\<close> A Matrix room is a graph of signed events. Every event names the events it follows
  (\<^verbatim>\<open>prev_events\<close>) and the events that authorise it (\<^verbatim>\<open>auth_events\<close>); some events are state, one per
  type and state key. Servers exchange events, so the graph branches, and every server must come to
  the same state of the room. The library \<^verbatim>\<open>internal/matrixserver\<close> decides which events are allowed
  and resolves conflicting state. The room server (\<^verbatim>\<open>roomserver\<close>) stores events and the state before
  each of them, keeps the latest events and the current state, and tells the other components. The
  federation API (\<^verbatim>\<open>federationapi\<close>) talks to other servers and keeps count of their failures. The sync
  API (\<^verbatim>\<open>syncapi\<close>) gives the clients what is new since the position they know.

  \<^bold>\<open>How the code is modelled.\<close> A Go function is a HOL function; a struct is a record, an interface the
  record of its answers. A result is an \<open>outcome\<close>: a value, an error (named by the format string of
  the statement that made it) or a panic. A Go map is an association list; where a loop ranges over
  one, its order is an argument (\<open>range_order\<close>) and the theorems hold for all of them. Functions of
  the outside (SHA-1, Ed25519, the lookup of a user for a sender, the hash of a list of NIDs, how a float
  is printed) are
  arguments. Loops that may not end take fuel: \<open>None\<close> is to run out of it, and \<open>ResolveStateConflictsV2_returns\<close>,
  \<open>GetAuthChain_complete\<close> and \<open>checkAllowedByAuthEvents_ends\<close> show how much is enough.
  Components driven from outside are step relations (\<open>StepSystem\<close>).
  A database table is an association list from its key, a transaction that fails leaves the tables
  as they were, and a query whose rows are there succeeds.

  \<^bold>\<open>The theories.\<close>

  \<^item> \<open>Prelude\<close>: outcomes, maps, map orders, stable sorting, integers. \<open>StepSystem\<close>: reachability and
    the locale of an invariant. \<open>Samples\<close>: rooms and events on which the theorems are applied.
  \<^item> \<open>GoJSON\<close>: what \<^verbatim>\<open>encoding/json\<close> does with the types the program decodes. \<open>Base64\<close>
    (\<^verbatim>\<open>spec/base64.go\<close>), \<open>Spec_IDs\<close> (\<^verbatim>\<open>spec/servername.go\<close>, \<^verbatim>\<open>userid.go\<close>, \<^verbatim>\<open>roomid.go\<close>, \<^verbatim>\<open>senderid.go\<close>,
    \<^verbatim>\<open>event.go\<close>), \<open>Signing\<close> (\<^verbatim>\<open>signing.go\<close>, \<^verbatim>\<open>json.go\<close>), \<open>GoInterface\<close> (values without a type),
    \<open>Unique\<close> (\<^verbatim>\<open>internal/util/unique.go\<close>, with the locale
    of a strict weak order).
  \<^item> \<open>RoomVersions\<close> (\<^verbatim>\<open>eventversion.go\<close>), \<open>Events\<close> (\<^verbatim>\<open>pdu.go\<close>, \<^verbatim>\<open>eventV1.go\<close>), \<open>EventContent\<close> (\<^verbatim>\<open>eventcontent.go\<close>),
    \<open>EventAuth\<close> and \<open>MembershipAuth\<close> (\<^verbatim>\<open>eventauth.go\<close>). \<open>PowerLevelRules\<close> and \<open>MembershipRules\<close> show what
    these checks amount to: exactly which power level, member and other events are allowed, that
    nobody gets more power than the sender has, that only the user joins, that a ban holds.
  \<^item> \<open>Kahn\<close>: topological sorting with an order among the ready events. \<open>StateResV2\<close>
    (\<^verbatim>\<open>stateresolutionv2.go\<close>, \<^verbatim>\<open>stateresolutionv2heaps.go\<close>), \<open>StateResV2_Correct\<close> (the orderings are
    topological and do not depend on map orders), \<open>PartialState\<close> (the resolver's fields refine one map
    from tuples to events, as a locale), \<open>ResolutionV2\<close> (what is resolved was allowed, what is not
    in conflict is kept, resolution ends). \<open>StateResV1\<close> (\<^verbatim>\<open>stateresolution.go\<close>) and \<open>ResolutionV1\<close> (one event
    per tuple, the newest allowed one).
  \<^item> \<open>StateEntries\<close> (\<^verbatim>\<open>roomserver/types/types.go\<close> and the list algorithms of \<^verbatim>\<open>roomserver/state/state.go\<close>),
    \<open>StateStore\<close> (\<^verbatim>\<open>roomserver/storage/shared/storage.go\<close> and the Postgres tables for events, blocks and
    snapshots), \<open>RoomState\<close> and \<open>RoomStateCalc\<close> (\<^verbatim>\<open>roomserver/state/state.go\<close>). \<open>RoomState_Correct\<close> and
    \<open>RoomStateCalc_Correct\<close>: stored state refines a map from tuples to events under loading, storing
    and comparing, and the state calculated after events is that of the map.
  \<^item> \<open>RoomTables\<close> (rooms, previous events, memberships, invites), \<open>Memberships\<close>
    (\<^verbatim>\<open>input_membership.go\<close>, \<^verbatim>\<open>membership_updater.go\<close>), \<open>LatestEvents\<close> (\<^verbatim>\<open>input_latest_events.go\<close>,
    \<^verbatim>\<open>room_updater.go\<close>). \<open>Memberships_Correct\<close>: the table follows the state. \<open>LatestEvents_Correct\<close>: the
    latest events are the forward extremities while events come in order, and a state event is taken
    over in the latest events, the state, the memberships and the output alike.
  \<^item> \<open>RedactEvent\<close> (\<^verbatim>\<open>redactevent.go\<close>) and \<open>RedactEvent_Correct\<close>: what is left of an event.
    \<open>Redactions\<close> (\<^verbatim>\<open>MaybeRedactEvent\<close> of \<^verbatim>\<open>storage.go\<close>, \<^verbatim>\<open>redactions_table.go\<close>) and \<open>Redactions_Correct\<close>: an event is
    only redacted by who may. \<open>RoomQueries\<close> (\<^verbatim>\<open>internal/query/query.go\<close>, \<^verbatim>\<open>internal/helpers/auth.go\<close>) and
    \<open>RoomQueries_Correct\<close>: the auth chain is complete and collecting it ends. \<open>InputEvents\<close>
    (\<^verbatim>\<open>internal/input/input_events.go\<close>) puts the parts together: an event is checked, stored, given its
    state, and made part of the room; \<open>InputEvents_Correct\<close> shows, with a locale of relations that steps
    keep, that nothing of a room changes but by an event that passed all checks.
  \<^item> \<open>StateResponses\<close> (\<^verbatim>\<open>authstate.go\<close>) and \<open>StateResponses_Correct\<close>: exactly which events of another server's
    answer are kept, and when the search for auth events ends. \<open>InputMissing\<close>
    (\<^verbatim>\<open>internal/input/input_missing.go\<close>) fills the gap before a new event from what other servers answer;
    \<open>InputMissing_Correct\<close> shows that rooms that are known change only by the new event all the same.
  \<^item> \<open>Statistics\<close> (\<^verbatim>\<open>federationapi/statistics/statistics.go\<close>, the guard of \<^verbatim>\<open>federationapi/internal/api.go\<close>) and
    \<open>Statistics_Correct\<close>: invariants of backoff and blacklist over all interleavings of calls, clock and
    timers.
  \<^item> \<open>HistoryVisibility\<close> (\<^verbatim>\<open>syncapi/internal/history_visibility.go\<close>, \<^verbatim>\<open>roomserver/auth/auth.go\<close>) and
    \<open>HistoryVisibility_Correct\<close>: exactly which events a user gets to see. \<open>ServerACLs\<close>
    (\<^verbatim>\<open>roomserver/acls/acls.go\<close>): exactly which servers are banned from a room, from the glob through its
    regular expression.
  \<^item> \<open>PushRules\<close> (\<^verbatim>\<open>internal/pushrules\<close>) and \<open>PushRules_Correct\<close>: which rule decides about a notification, from
    the glob through its regular expression. \<open>PushRuleStore\<close> (the default rules, \<^verbatim>\<open>clientapi/routing/pushrules.go\<close>,
    \<^verbatim>\<open>userapi/consumers/roomserver.go\<close> and the queries of \<^verbatim>\<open>userapi\<close>) and \<open>PushRuleStore_Correct\<close>: the
    document of a user can always be read back, and what a client puts is found.
  \<^item> \<open>SyncTokens\<close> (\<^verbatim>\<open>syncapi/types/types.go\<close>): the positions of clients, printed and parsed.
    \<open>TypingCache\<close> (\<^verbatim>\<open>internal/caching/cache_typing.go\<close>) and \<open>TypingCache_Correct\<close>: who is typing, with the
    timers and the goroutines that wait for the lock as events of a run. \<open>Transactions\<close>
    (\<^verbatim>\<open>internal/transactions/transactions.go\<close>): the two maps of the cache refine a log.

  \<^bold>\<open>What the code does not do.\<close> Some theorems show behaviour that is not what it should be: a latest
  event that is referenced (\<open>late_event_keeps_referenced\<close>), updates that are lost
  (\<open>removal_drops_updates\<close>), snapshots that lose the order of their blocks (\<open>addState_loses_order\<close>), a
  rejected event taken into the state (\<open>rejected_event_taken\<close>), a blacklist entry that stays
  (\<open>success_leaves_blacklist\<close>), a user who types forever (\<open>typing_user_stays\<close>), list entries that match
  inside of names (\<open>deny_matches_inside\<close>), fetched events without their state key
  (\<open>auth_event_key_lost\<close>), a search that does not end (\<open>other_event_never_ends\<close>),
  default push rules that match nothing (\<open>tombstone_never_matches\<close>), and others with their components.

  \<^bold>\<open>Not modelled.\<close> HTTP handlers and clients, the message queue, SQL
  (the statements are modelled by what they do, for Postgres), caches in front of tables, metrics
  and logging, the components for users, clients, media, relays and application services: they are
  input and output around the parts above, or database access with little logic.
\<close>

end
